(* ===== verification/Prelude.thy ===== *)
theory Prelude
  imports Main "HOL-Library.AList" "HOL-Library.Char_ord" "HOL-Library.List_Lexorder"
    "HOL-Library.Product_Lexorder"
begin

text \<open>
  Shared vocabulary of the development: Python strings and their methods, JSON values, dictionaries
  as association lists in insertion order, and the state-and-exception monad in which the operations
  of the registry, the store and the runner are written. The collections declared here
  (\<open>keeps_intros\<close>, \<open>reads_intros\<close>, \<open>py_simps\<close>) are what the component proofs hand to the
  automation.
\<close>

named_theorems keeps_intros "rules for invariants kept by a monadic program"
named_theorems reads_intros "rules for programs that only read the state"
named_theorems post_intros "rules for facts about the value a program returns"
named_theorems py_simps "evaluation rules for the string and dictionary helpers"

section \<open>Strings\<close>

text \<open>
  A Python \<open>str\<close> is a list of characters; the characters of the model are the code points up to
  255. \<open>py_space\<close> is the set \<open>str.isspace\<close> accepts in that range.
\<close>

type_synonym pystr = string

definition py_space :: "char \<Rightarrow> bool" where
  "py_space c = (let n = (of_char c :: nat) in
     9 \<le> n \<and> n \<le> 13 \<or> 28 \<le> n \<and> n \<le> 32 \<or> n = 133 \<or> n = 160)"

definition lstrip :: "pystr \<Rightarrow> pystr" where
  "lstrip s = dropWhile py_space s"

definition rstrip :: "pystr \<Rightarrow> pystr" where
  "rstrip s = rev (dropWhile py_space (rev s))"

definition strip :: "pystr \<Rightarrow> pystr" where
  "strip s = rstrip (lstrip s)"

definition starts_with :: "pystr \<Rightarrow> pystr \<Rightarrow> bool" where
  "starts_with p s = (take (length p) s = p)"

text \<open>\<open>x or ""\<close> for an optional string, and the truth value of one.\<close>

definition or_empty :: "pystr option \<Rightarrow> pystr" where
  "or_empty x = (case x of None \<Rightarrow> [] | Some s \<Rightarrow> s)"

definition truthy :: "pystr option \<Rightarrow> bool" where
  "truthy x = (or_empty x \<noteq> [])"

definition blank :: "pystr \<Rightarrow> bool" where
  "blank s = (strip s = [])"

lemma or_empty_simps [simp]: "or_empty None = []" "or_empty (Some s) = s"
  by (simp_all add: or_empty_def)

lemma truthy_simps [simp]: "\<not> truthy None" "truthy (Some s) = (s \<noteq> [])"
  by (simp_all add: truthy_def)

lemma truthy_iff: "truthy x \<longleftrightarrow> (\<exists>s. x = Some s \<and> s \<noteq> [])"
  by (cases x) auto

lemma rstrip_append_space: "py_space c \<Longrightarrow> rstrip (s @ [c]) = rstrip s"
  by (simp add: rstrip_def)

lemma hd_lstrip: "lstrip s \<noteq> [] \<Longrightarrow> \<not> py_space (hd (lstrip s))"
  unfolding lstrip_def by (rule hd_dropWhile)

lemma rstrip_Nil [simp]: "rstrip [] = []"
  by (simp add: rstrip_def)

lemma lstrip_Nil [simp]: "lstrip [] = []"
  by (simp add: lstrip_def)

lemma strip_Nil [simp]: "strip [] = []"
  by (simp add: strip_def)

lemma blank_Nil [simp]: "blank []"
  by (simp add: blank_def)

lemma rstrip_idem [simp]: "rstrip (rstrip s) = rstrip s"
  by (simp add: rstrip_def)

lemma rstrip_Cons: "\<not> py_space c \<Longrightarrow> rstrip (c # s) = c # rstrip s"
  by (simp add: rstrip_def dropWhile_append)

lemma lstrip_Cons: "\<not> py_space c \<Longrightarrow> lstrip (c # s) = c # s"
  by (simp add: lstrip_def)

lemma strip_idem [simp]: "strip (strip s) = strip s"
proof (cases "lstrip s")
  case Nil
  then show ?thesis by (simp add: strip_def)
next
  case (Cons c t)
  then have "\<not> py_space c"
    using hd_lstrip [of s] by simp
  then show ?thesis
    using Cons by (simp add: strip_def rstrip_Cons lstrip_Cons)
qed

lemma blank_strip [simp]: "blank (strip s) = blank s"
  by (simp add: blank_def)

lemma not_blank_nonempty: "\<not> blank s \<Longrightarrow> s \<noteq> []"
  by auto

section \<open>JSON values\<close>

text \<open>
  What \<open>json.loads\<close> and \<open>yaml.safe_load\<close> produce and what the \<open>dict[str, Any]\<close> fields of the
  records hold. An object keeps its keys in insertion order.
\<close>

datatype json =
    JNull
  | JBool bool
  | JInt int
  | JStr pystr
  | JList "json list"
  | JObj "(pystr \<times> json) list"

fun json_truthy :: "json \<Rightarrow> bool" where
  "json_truthy JNull = False"
| "json_truthy (JBool b) = b"
| "json_truthy (JInt i) = (i \<noteq> 0)"
| "json_truthy (JStr s) = (s \<noteq> [])"
| "json_truthy (JList xs) = (xs \<noteq> [])"
| "json_truthy (JObj kvs) = (kvs \<noteq> [])"

section \<open>Dictionaries\<close>

text \<open>
  A Python dictionary is an association list with distinct keys in insertion order:
  \<open>d.get(k)\<close> is \<^const>\<open>map_of\<close>, \<open>d[k] = v\<close> is \<^const>\<open>AList.update\<close> (in place, or at the end
  for a new key) and \<open>d.pop(k, None)\<close> is \<^const>\<open>AList.delete\<close>.
\<close>

type_synonym ('k, 'v) dict = "('k \<times> 'v) list"

abbreviation keys :: "('k, 'v) dict \<Rightarrow> 'k list" where
  "keys d \<equiv> map fst d"

fun dict_updates :: "('k, 'v) dict \<Rightarrow> ('k, 'v) dict \<Rightarrow> ('k, 'v) dict" where
  "dict_updates d [] = d"
| "dict_updates d ((k, v) # kvs) = dict_updates (AList.update k v d) kvs"

lemma map_of_update [simp]: "map_of (AList.update k v d) = (map_of d)(k \<mapsto> v)"
  by (rule update_conv')

lemma map_of_delete [simp]: "map_of (AList.delete k d) = (map_of d)(k := None)"
  by (rule delete_conv')

lemma map_of_dict_updates: "map_of (dict_updates d kvs) = map_of d ++ map_of (rev kvs)"
  by (induction d kvs rule: dict_updates.induct) (auto simp: map_add_def fun_eq_iff split: option.splits)

text \<open>First occurrences in order: how the code drops repeated entries from a list.\<close>

fun dedup_from :: "'a list \<Rightarrow> 'a list \<Rightarrow> 'a list" where
  "dedup_from seen [] = []"
| "dedup_from seen (x # xs) =
     (if x \<in> set seen then dedup_from seen xs else x # dedup_from (x # seen) xs)"

abbreviation dedup :: "'a list \<Rightarrow> 'a list" where
  "dedup \<equiv> dedup_from []"

lemma set_dedup_from [simp]: "set (dedup_from seen xs) = set xs - set seen"
  by (induction seen xs rule: dedup_from.induct) auto

lemma distinct_dedup_from [simp]: "distinct (dedup_from seen xs)"
  by (induction seen xs rule: dedup_from.induct) auto

lemma dedup_from_distinct: "distinct xs \<Longrightarrow> set xs \<inter> set seen = {} \<Longrightarrow> dedup_from seen xs = xs"
  by (induction seen xs rule: dedup_from.induct) auto

section \<open>Programs with state and exceptions\<close>

text \<open>
  A method that may raise and that mutates shared objects maps a state to a result and the state
  it leaves: \<open>Inl e\<close> when it raises \<open>e\<close>, with the changes made before the exception still in the
  state, and \<open>Inr x\<close> when it returns \<open>x\<close>.
\<close>

type_synonym ('e, 's, 'a) prog = "'s \<Rightarrow> 's \<times> ('e + 'a)"

definition ret :: "'a \<Rightarrow> ('e, 's, 'a) prog" where
  "ret x = (\<lambda>s. (s, Inr x))"

definition raise :: "'e \<Rightarrow> ('e, 's, 'a) prog" where
  "raise e = (\<lambda>s. (s, Inl e))"

definition bind :: "('e, 's, 'a) prog \<Rightarrow> ('a \<Rightarrow> ('e, 's, 'b) prog) \<Rightarrow> ('e, 's, 'b) prog" where
  "bind m f = (\<lambda>s. case m s of (s', Inl e) \<Rightarrow> (s', Inl e) | (s', Inr x) \<Rightarrow> f x s')"

definition andthen :: "('e, 's, 'a) prog \<Rightarrow> ('e, 's, 'b) prog \<Rightarrow> ('e, 's, 'b) prog" where
  "andthen m k = bind m (\<lambda>_. k)"

definition reading :: "('s \<Rightarrow> 'a) \<Rightarrow> ('e, 's, 'a) prog" where
  "reading f = (\<lambda>s. (s, Inr (f s)))"

definition writing :: "('s \<Rightarrow> 's) \<Rightarrow> ('e, 's, unit) prog" where
  "writing f = (\<lambda>s. (f s, Inr ()))"

text \<open>A computation that reads the state and may raise, and a pure result.\<close>

definition reading_result :: "('s \<Rightarrow> 'e + 'a) \<Rightarrow> ('e, 's, 'a) prog" where
  "reading_result f = (\<lambda>s. (s, f s))"

definition result :: "'e + 'a \<Rightarrow> ('e, 's, 'a) prog" where
  "result r = (\<lambda>s. (s, r))"

definition reject_if :: "bool \<Rightarrow> 'e \<Rightarrow> ('e, 's, unit) prog" where
  "reject_if c e = (if c then raise e else ret ())"

text \<open>\<open>try: m except Exception: h\<close>, with the state the exception leaves.\<close>

definition catching :: "('e, 's, 'a) prog \<Rightarrow> ('e \<Rightarrow> ('e, 's, 'a) prog) \<Rightarrow> ('e, 's, 'a) prog" where
  "catching m h = (\<lambda>s. case m s of (s', Inl e) \<Rightarrow> h e s' | (s', Inr x) \<Rightarrow> (s', Inr x))"

fun for_each :: "'a list \<Rightarrow> ('a \<Rightarrow> ('e, 's, unit) prog) \<Rightarrow> ('e, 's, unit) prog" where
  "for_each [] f = ret ()"
| "for_each (x # xs) f = bind (f x) (\<lambda>_. for_each xs f)"

lemma prog_simps [simp]:
  "ret x s = (s, Inr x)"
  "raise e s = (s, Inl e)"
  "reading f s = (s, Inr (f s))"
  "writing g s = (g s, Inr ())"
  "reading_result h s = (s, h s)"
  "result r s = (s, r)"
  by (simp_all add: ret_def raise_def reading_def writing_def reading_result_def result_def)

lemma reject_if_apply [simp]: "reject_if c e s = (s, if c then Inl e else Inr ())"
  by (simp add: reject_if_def)

lemma bind_apply: "bind m f s = (case m s of (s', Inl e) \<Rightarrow> (s', Inl e) | (s', Inr x) \<Rightarrow> f x s')"
  by (simp add: bind_def)

lemma bind_ret [simp]: "bind (ret x) f = f x"
  by (simp add: bind_def ret_def)

lemma bind_raise [simp]: "bind (raise e) f = raise e"
  by (simp add: bind_def raise_def)

lemma bind_eq_Inr:
  "bind m f s = (s', Inr y) \<longleftrightarrow> (\<exists>x t. m s = (t, Inr x) \<and> f x t = (s', Inr y))"
  by (auto simp: bind_def split: prod.splits sum.splits)

lemma catching_apply:
  "catching m h s = (case m s of (s', Inl e) \<Rightarrow> h e s' | (s', Inr x) \<Rightarrow> (s', Inr x))"
  by (simp add: catching_def)

subsection \<open>What a program keeps, reads and returns\<close>

text \<open>
  \<open>keeps I m\<close>: the invariant \<open>I\<close> holds afterwards, whether \<open>m\<close> returns or raises.
  \<open>reads m\<close>: the state is untouched. \<open>ensures P m Q\<close>: from \<open>P\<close>, a value that is returned satisfies
  \<open>Q\<close> in the state left.
\<close>

definition keeps :: "('s \<Rightarrow> bool) \<Rightarrow> ('e, 's, 'a) prog \<Rightarrow> bool" where
  "keeps I m \<longleftrightarrow> (\<forall>s. I s \<longrightarrow> I (fst (m s)))"

definition reads :: "('e, 's, 'a) prog \<Rightarrow> bool" where
  "reads m \<longleftrightarrow> (\<forall>s. fst (m s) = s)"

definition ensures :: "('s \<Rightarrow> bool) \<Rightarrow> ('e, 's, 'a) prog \<Rightarrow> ('a \<Rightarrow> 's \<Rightarrow> bool) \<Rightarrow> bool" where
  "ensures P m Q \<longleftrightarrow> (\<forall>s x t. P s \<longrightarrow> m s = (t, Inr x) \<longrightarrow> Q x t)"

lemma keepsD: "keeps I m \<Longrightarrow> I s \<Longrightarrow> I (fst (m s))"
  by (simp add: keeps_def)

lemma keeps_stateD: "keeps I m \<Longrightarrow> I s \<Longrightarrow> m s = (t, r) \<Longrightarrow> I t"
  using keepsD [of I m s] by simp

lemma keepsI: "(\<And>s. I s \<Longrightarrow> I (fst (m s))) \<Longrightarrow> keeps I m"
  by (simp add: keeps_def)

lemma readsD: "reads m \<Longrightarrow> m s = (t, r) \<Longrightarrow> t = s"
  by (metis reads_def fst_conv)

lemma reads_keeps: "reads m \<Longrightarrow> keeps I m"
  by (simp add: reads_def keeps_def)

lemma ensuresD: "ensures P m Q \<Longrightarrow> P s \<Longrightarrow> m s = (t, Inr x) \<Longrightarrow> Q x t"
  by (simp add: ensures_def)

lemma reads_basic [reads_intros, simp]:
  "reads (ret x)" "reads (raise e)" "reads (reading f)" "reads (reading_result g)" "reads (result r)"
  "reads (reject_if c e)"
  by (simp_all add: reads_def)

lemma reads_bind [reads_intros]: "reads m \<Longrightarrow> (\<And>x. reads (f x)) \<Longrightarrow> reads (bind m f)"
  by (simp add: reads_def bind_def split: prod.splits sum.splits) (metis fst_conv)

lemma reads_andthen [reads_intros]: "reads m \<Longrightarrow> reads k \<Longrightarrow> reads (andthen m k)"
  by (simp add: andthen_def reads_intros)

lemma reads_catching [reads_intros]: "reads m \<Longrightarrow> (\<And>e. reads (h e)) \<Longrightarrow> reads (catching m h)"
  by (simp add: reads_def catching_def split: prod.splits sum.splits) (metis fst_conv)

lemma reads_for_each [reads_intros]: "(\<And>x. reads (f x)) \<Longrightarrow> reads (for_each xs f)"
  by (induction xs) (auto intro: reads_intros)

lemma keeps_basic [keeps_intros, simp]:
  "keeps I (ret x)" "keeps I (raise e)" "keeps I (reading f)" "keeps I (reading_result g)"
  "keeps I (result r)" "keeps I (reject_if c e)"
  by (simp_all add: keeps_def)

lemma keeps_bind [keeps_intros]:
  assumes "keeps I m" and "\<And>x. keeps I (f x)"
  shows "keeps I (bind m f)"
proof (rule keepsI)
  fix s assume "I s"
  with assms(1) have "I (fst (m s))" by (rule keepsD)
  then show "I (fst (bind m f s))"
    using assms(2) by (auto simp: bind_def keeps_def split: prod.splits sum.splits)
qed

lemma keeps_andthen [keeps_intros]: "keeps I m \<Longrightarrow> keeps I k \<Longrightarrow> keeps I (andthen m k)"
  by (simp add: andthen_def keeps_intros)

lemma keeps_catching [keeps_intros]:
  assumes "keeps I m" and "\<And>e. keeps I (h e)"
  shows "keeps I (catching m h)"
proof (rule keepsI)
  fix s assume "I s"
  with assms(1) have "I (fst (m s))" by (rule keepsD)
  then show "I (fst (catching m h s))"
    using assms(2) by (auto simp: catching_def keeps_def split: prod.splits sum.splits)
qed

lemma keeps_writing [keeps_intros]: "(\<And>s. I s \<Longrightarrow> I (f s)) \<Longrightarrow> keeps I (writing f)"
  by (simp add: keeps_def)

lemma keeps_if [keeps_intros]:
  "(c \<Longrightarrow> keeps I m) \<Longrightarrow> (\<not> c \<Longrightarrow> keeps I k) \<Longrightarrow> keeps I (if c then m else k)"
  by simp

lemma reads_if [reads_intros]:
  "(c \<Longrightarrow> reads m) \<Longrightarrow> (\<not> c \<Longrightarrow> reads k) \<Longrightarrow> reads (if c then m else k)"
  by simp

lemma keeps_option [keeps_intros]:
  "(x = None \<Longrightarrow> keeps I m) \<Longrightarrow> (\<And>y. x = Some y \<Longrightarrow> keeps I (f y)) \<Longrightarrow>
   keeps I (case x of None \<Rightarrow> m | Some y \<Rightarrow> f y)"
  by (cases x) simp_all

lemma reads_option [reads_intros]:
  "(x = None \<Longrightarrow> reads m) \<Longrightarrow> (\<And>y. x = Some y \<Longrightarrow> reads (f y)) \<Longrightarrow>
   reads (case x of None \<Rightarrow> m | Some y \<Rightarrow> f y)"
  by (cases x) simp_all

lemma keeps_let [keeps_intros]: "(\<And>x. x = v \<Longrightarrow> keeps I (f x)) \<Longrightarrow> keeps I (let x = v in f x)"
  by simp

lemma reads_let [reads_intros]: "(\<And>x. x = v \<Longrightarrow> reads (f x)) \<Longrightarrow> reads (let x = v in f x)"
  by simp

lemma keeps_for_each [keeps_intros]:
  "(\<And>x. x \<in> set xs \<Longrightarrow> keeps I (f x)) \<Longrightarrow> keeps I (for_each xs f)"
proof (induction xs)
  case Nil
  show ?case by (simp only: for_each.simps keeps_basic)
next
  case (Cons x xs)
  then show ?case by (simp add: keeps_bind)
qed

lemma ensures_bind [post_intros]:
  "ensures P m R \<Longrightarrow> (\<And>x. ensures (R x) (f x) Q) \<Longrightarrow> ensures P (bind m f) Q"
  unfolding ensures_def bind_eq_Inr by blast

section \<open>Weakest preconditions\<close>

text \<open>
  \<open>wp m Q E s\<close>: run from \<open>s\<close>, \<open>m\<close> returns a value and a state in \<open>Q\<close>, or raises with an exception
  and a state in \<open>E\<close>. The equations compute it through the program; loops and component operations
  have introduction rules.
\<close>

definition wp ::
  "('e, 's, 'a) prog \<Rightarrow> ('a \<Rightarrow> 's \<Rightarrow> bool) \<Rightarrow> ('e \<Rightarrow> 's \<Rightarrow> bool) \<Rightarrow> 's \<Rightarrow> bool" where
  "wp m Q E s = (case m s of (t, Inl e) \<Rightarrow> E e t | (t, Inr x) \<Rightarrow> Q x t)"

text \<open>A program on a part of the state, such as a store operation called by the registry.\<close>

definition zoom :: "('w \<Rightarrow> 's) \<Rightarrow> ('s \<Rightarrow> 'w \<Rightarrow> 'w) \<Rightarrow> ('e, 's, 'a) prog \<Rightarrow> ('e, 'w, 'a) prog" where
  "zoom get put m = (\<lambda>w. case m (get w) of (t, r) \<Rightarrow> (put t w, r))"

text \<open>The equations use different variables so that each keeps its most general type.\<close>

lemma wp_simps [simp]:
  "wp (ret x1) Q1 E1 s1 = Q1 x1 s1"
  "wp (raise e2) Q2 E2 s2 = E2 e2 s2"
  "wp (reading f3) Q3 E3 s3 = Q3 (f3 s3) s3"
  "wp (writing g4) Q4 E4 s4 = Q4 () (g4 s4)"
  "wp (reject_if c5 e5) Q5 E5 s5 = (if c5 then E5 e5 s5 else Q5 () s5)"
  "wp (bind m6 k6) Q6 E6 s6 = wp m6 (\<lambda>x. wp (k6 x) Q6 E6) E6 s6"
  "wp (andthen m7 l7) Q7 E7 s7 = wp m7 (\<lambda>_. wp l7 Q7 E7) E7 s7"
  "wp (catching m8 h8) Q8 E8 s8 = wp m8 Q8 (\<lambda>e. wp (h8 e) Q8 E8) s8"
  "wp (zoom get put m9) Q9 E9 w9 = wp m9 (\<lambda>x t. Q9 x (put t w9)) (\<lambda>e t. E9 e (put t w9)) (get w9)"
  by (auto simp: wp_def bind_def andthen_def catching_def zoom_def reject_if_def
      split: prod.splits sum.splits)

lemma wp_result:
  "wp (result r) Q E s = (case r of Inl e \<Rightarrow> E e s | Inr x \<Rightarrow> Q x s)"
  "wp (reading_result f) Q' E' s' = (case f s' of Inl e \<Rightarrow> E' e s' | Inr x \<Rightarrow> Q' x s')"
  by (auto simp: wp_def split: sum.splits)

lemma wp_resultI:
  "(\<And>e. r = Inl e \<Longrightarrow> E e s) \<Longrightarrow> (\<And>x. r = Inr x \<Longrightarrow> Q x s) \<Longrightarrow> wp (result r) Q E s"
  by (cases r) (simp_all add: wp_result)

lemma wp_if [simp]: "wp (if c then m else k) Q E s = (if c then wp m Q E s else wp k Q E s)"
  by simp

lemma wp_let [simp]: "wp (let x = v in f x) Q E s = wp (f v) Q E s"
  by simp

lemma wp_mono:
  "wp m Q E s \<Longrightarrow> (\<And>x t. Q x t \<Longrightarrow> Q' x t) \<Longrightarrow> (\<And>e t. E e t \<Longrightarrow> E' e t) \<Longrightarrow> wp m Q' E' s"
  by (auto simp: wp_def split: prod.splits sum.splits)

lemma wp_Inr: "wp m Q E s \<Longrightarrow> m s = (t, Inr x) \<Longrightarrow> Q x t"
  by (simp add: wp_def)

lemma wp_Inl: "wp m Q E s \<Longrightarrow> m s = (t, Inl e) \<Longrightarrow> E e t"
  by (simp add: wp_def)

lemma wp_returns: "m s = (t, Inr x) \<Longrightarrow> Q x t \<Longrightarrow> wp m Q E s"
  by (simp add: wp_def)

lemma wp_raises: "m s = (t, Inl e) \<Longrightarrow> E e t \<Longrightarrow> wp m Q E s"
  by (simp add: wp_def)

lemma wp_fst: "wp m (\<lambda>_. I) (\<lambda>_. I) s \<Longrightarrow> I (fst (m s))"
  by (auto simp: wp_def split: prod.splits sum.splits)

lemma wpI: "(\<And>t x. m s = (t, Inr x) \<Longrightarrow> Q x t) \<Longrightarrow> (\<And>t e. m s = (t, Inl e) \<Longrightarrow> E e t) \<Longrightarrow> wp m Q E s"
  by (auto simp: wp_def split: prod.splits sum.splits)

lemma wp_for_each:
  "(\<And>x t. x \<in> set xs \<Longrightarrow> I t \<Longrightarrow> wp (f x) (\<lambda>_. I) E t) \<Longrightarrow> I s \<Longrightarrow> (\<And>t. I t \<Longrightarrow> Q () t) \<Longrightarrow>
     wp (for_each xs f) Q E s"
proof (induction xs arbitrary: s)
  case (Cons x xs)
  have "wp (f x) (\<lambda>_. I) E s" using Cons.prems by simp
  then have "wp (f x) (\<lambda>_. wp (for_each xs f) Q E) E s"
    by (rule wp_mono) (use Cons in auto)
  then show ?case by simp
qed simp

end
