(* ===== verification/Domain.thy ===== *)
theory Domain
  imports Prelude
begin

text \<open>
  The data model of \<open>domain.py\<close>: the enumerations with their wire values, the \<open>Node\<close> and
  \<open>Project\<close> records, the gate records, and the invariants the model validators enforce. A sequence
  of \<open>if c: raise E\<close> statements is a list of guards, tried in order by \<open>first_issue\<close>. The values
  are already of their declared types, which is what pydantic's field parsing establishes; the
  validators written in the source are the functions below.
\<close>

section \<open>Enumerations and their wire values\<close>

datatype node_kind = Agent | Op | Verifier

datatype node_state =
    Virtual | Queued | Running | Waiting | AwaitingHumanInput | Done | Error | Cancelled

datatype category = Planning | Regular | Review

datatype review_subtype = AgenticReview | HumanInteractReview | ProgrammaticReview | CodeReview

datatype review_target = Uncommitted

datatype planspace_mode = Auto | Manual

datatype artifact_mode = DefaultArtifact | Markdown | Html | Svg | CustomArtifact

datatype persistence_mode = Durable | Ephemeral | Remote

datatype gate_subtype = Permission | AskUser

datatype gate_state = Pending | Resolved

fun node_kind_value :: "node_kind \<Rightarrow> pystr" where
  "node_kind_value Agent = ''agent''"
| "node_kind_value Op = ''op''"
| "node_kind_value Verifier = ''verifier''"

fun node_state_value :: "node_state \<Rightarrow> pystr" where
  "node_state_value Virtual = ''virtual''"
| "node_state_value Queued = ''queued''"
| "node_state_value Running = ''running''"
| "node_state_value Waiting = ''waiting''"
| "node_state_value AwaitingHumanInput = ''awaiting_human_input''"
| "node_state_value Done = ''done''"
| "node_state_value Error = ''error''"
| "node_state_value Cancelled = ''cancelled''"

fun category_value :: "category \<Rightarrow> pystr" where
  "category_value Planning = ''planning''"
| "category_value Regular = ''regular''"
| "category_value Review = ''review''"

fun subtype_value :: "review_subtype \<Rightarrow> pystr" where
  "subtype_value AgenticReview = ''agentic_review''"
| "subtype_value HumanInteractReview = ''human_interact_review''"
| "subtype_value ProgrammaticReview = ''programmatic_review''"
| "subtype_value CodeReview = ''code_review''"

fun planspace_mode_value :: "planspace_mode \<Rightarrow> pystr" where
  "planspace_mode_value Auto = ''auto''"
| "planspace_mode_value Manual = ''manual''"

fun artifact_mode_value :: "artifact_mode \<Rightarrow> pystr" where
  "artifact_mode_value DefaultArtifact = ''default''"
| "artifact_mode_value Markdown = ''markdown''"
| "artifact_mode_value Html = ''html''"
| "artifact_mode_value Svg = ''svg''"
| "artifact_mode_value CustomArtifact = ''custom''"

text \<open>\<open>Enum(value)\<close>: the member with that value, or \<open>ValueError\<close>.\<close>

definition enum_of :: "('a \<Rightarrow> pystr) \<Rightarrow> 'a list \<Rightarrow> pystr \<Rightarrow> 'a option" where
  "enum_of val members s = find (\<lambda>m. val m = s) members"

definition node_kind_of :: "pystr \<Rightarrow> node_kind option" where
  "node_kind_of = enum_of node_kind_value [Agent, Op, Verifier]"

definition category_of :: "pystr \<Rightarrow> category option" where
  "category_of = enum_of category_value [Planning, Regular, Review]"

definition subtype_of :: "pystr \<Rightarrow> review_subtype option" where
  "subtype_of =
     enum_of subtype_value [AgenticReview, HumanInteractReview, ProgrammaticReview, CodeReview]"

definition planspace_mode_of :: "pystr \<Rightarrow> planspace_mode option" where
  "planspace_mode_of = enum_of planspace_mode_value [Auto, Manual]"

definition artifact_mode_of :: "pystr \<Rightarrow> artifact_mode option" where
  "artifact_mode_of =
     enum_of artifact_mode_value [DefaultArtifact, Markdown, Html, Svg, CustomArtifact]"

lemma enum_of_Some: "enum_of val members s = Some m \<Longrightarrow> m \<in> set members \<and> val m = s"
  by (auto simp: enum_of_def find_Some_iff)

lemma node_kind_of_value [simp]: "node_kind_of (node_kind_value k) = Some k"
  by (cases k) (simp_all add: node_kind_of_def enum_of_def)

lemma category_of_value [simp]: "category_of (category_value c) = Some c"
  by (cases c) (simp_all add: category_of_def enum_of_def)

lemma subtype_of_value [simp]: "subtype_of (subtype_value t) = Some t"
  by (cases t) (simp_all add: subtype_of_def enum_of_def)

lemma artifact_mode_of_value [simp]: "artifact_mode_of (artifact_mode_value m) = Some m"
  by (cases m) (simp_all add: artifact_mode_of_def enum_of_def)

lemma category_of_Some: "category_of s = Some c \<longleftrightarrow> s = category_value c"
  by (metis category_of_def category_of_value enum_of_Some)

lemma subtype_of_Some: "subtype_of s = Some c \<longleftrightarrow> s = subtype_value c"
  by (metis subtype_of_def subtype_of_value enum_of_Some)

lemma node_kind_of_Some: "node_kind_of s = Some c \<longleftrightarrow> s = node_kind_value c"
  by (metis node_kind_of_def node_kind_of_value enum_of_Some)

lemma artifact_mode_of_Some: "artifact_mode_of s = Some c \<longleftrightarrow> s = artifact_mode_value c"
  by (metis artifact_mode_of_def artifact_mode_of_value enum_of_Some)

text \<open>\<open>str.lower\<close> on the model's characters.\<close>

definition lower_char :: "char \<Rightarrow> char" where
  "lower_char c = (let n = (of_char c :: nat) in
     if 65 \<le> n \<and> n \<le> 90 \<or> 192 \<le> n \<and> n \<le> 222 \<and> n \<noteq> 215 then char_of (n + 32) else c)"

definition lower :: "pystr \<Rightarrow> pystr" where
  "lower s = map lower_char s"

definition normalize_planspace_mode :: "pystr option \<Rightarrow> planspace_mode option" where
  \<comment> \<open>\<open>None\<close> in the result is the \<open>ValueError\<close> for an unknown mode.\<close>
  "normalize_planspace_mode v = (case v of None \<Rightarrow> Some Manual | Some s \<Rightarrow> planspace_mode_of (lower s))"

definition terminal_node_states :: "node_state list" where
  "terminal_node_states = [Done, Error, Cancelled]"

definition terminal :: "node_state \<Rightarrow> bool" where
  "terminal st = (st \<in> set terminal_node_states)"

lemma terminal_simps [simp]:
  "terminal Done" "terminal Error" "terminal Cancelled" "\<not> terminal Virtual" "\<not> terminal Queued"
  "\<not> terminal Running" "\<not> terminal Waiting" "\<not> terminal AwaitingHumanInput"
  by (simp_all add: terminal_def terminal_node_states_def)

definition unbound_root_path :: pystr where
  "unbound_root_path = ''/nonexistent/miniclaw2-unbound''"

definition cold_start :: pystr where
  "cold_start = ''cold_start''"

definition known_agent_op_kinds :: "pystr list" where
  "known_agent_op_kinds = [''principle_edit'', ''library_edit'', cold_start]"

definition authoring_agent_op_kinds :: "pystr list" where
  "authoring_agent_op_kinds = [''principle_edit'', ''library_edit'']"

section \<open>Records\<close>

record review_brief =
  check_what :: pystr
  expected :: pystr
  abnormal :: pystr

record token_usage =
  input_tokens :: int
  output_tokens :: int
  cache_read_tokens :: int
  cache_creation_tokens :: int
  cumulative_output_tokens :: "int option"
  cumulative_cache_creation_tokens :: "int option"

datatype artifact_status = Published | Dropped

record artifact_ref =
  art_name :: pystr
  art_bytes :: int
  art_mtime :: int
  art_sha256 :: pystr
  art_status :: artifact_status
  art_reason :: "pystr option"

text \<open>
  A graph position: the coordinates are only stored and compared for equality, so integers stand
  for the floats.
\<close>

record node_position =
  pos_x :: int
  pos_y :: int
  pos_space :: pystr

record remote_identity =
  target_id :: pystr
  remote_root_path :: pystr
  root_commit :: "pystr option"

record project =
  p_id :: pystr
  p_root_path :: pystr
  p_machine_id :: pystr
  p_machine_label :: pystr
  p_name :: pystr
  p_model_preset_id :: pystr
  p_concurrency :: nat
  p_preferred_language :: "pystr option"
  p_project_context_binding_id :: "pystr option"
  p_settings_override :: "(pystr, json) dict"
  p_persistence_mode :: persistence_mode
  p_remote :: "remote_identity option"
  p_temporary :: bool
  p_template_id :: "pystr option"
  p_tag_ids :: "pystr list"
  p_created_at :: int
  p_archived_at :: "int option"
  p_node_positions :: "(pystr, node_position) dict"
  p_planspace_view :: "(pystr, (pystr, bool) dict) dict"

text \<open>
  Timestamps are only stored, compared and taken the maximum of; they are integers here. The last
  field is the private attribute \<open>_owner_host_id\<close>, which is never written to disk.
\<close>

record node =
  n_id :: pystr
  n_project_id :: pystr
  n_kind :: node_kind
  n_op_kind :: "pystr option"
  n_agent_op_kind :: "pystr option"
  n_state :: node_state
  n_rev :: nat
  n_parent_node_id :: "pystr option"
  n_planspace_id :: "pystr option"
  n_context_bundle_id :: "pystr option"
  n_context_bundle_path :: "pystr option"
  n_model_preset_id :: "pystr option"
  n_provider_session_id :: "pystr option"
  n_provider_turn_id :: "pystr option"
  n_origin_machine_id :: pystr
  n_template_instance_id :: "pystr option"
  n_template_source_node_id :: "pystr option"
  n_template_source_model_preset_id :: "pystr option"
  n_template_source_motivation :: "pystr option"
  n_commit_before :: "pystr option"
  n_commit_after :: "pystr option"
  n_prompt :: pystr
  n_category :: "category option"
  n_subtype :: "review_subtype option"
  n_brief :: "review_brief option"
  n_review_target :: "review_target option"
  n_prompt_draft :: "pystr option"
  n_scheduled_deps :: "pystr list"
  n_pending_extra_principles :: "pystr list"
  n_pending_extra_skills :: "json list"
  n_qa_mode :: bool
  n_diff_review :: bool
  n_artifact_mode :: artifact_mode
  n_artifact_spec :: pystr
  n_resume_from_node_id :: "pystr option"
  n_verify_script_ref :: "pystr option"
  n_proposed_by :: "pystr option"
  n_obsolete_reason :: "pystr option"
  n_summary :: "pystr option"
  n_error :: "pystr option"
  n_usage :: "token_usage option"
  n_artifacts :: "artifact_ref list"
  n_system_context_snapshot :: pystr
  n_launch_instructions_snapshot :: pystr
  n_settings_snapshot :: "(pystr, json) dict"
  n_created_at :: int
  n_started_at :: "int option"
  n_finished_at :: "int option"
  n_owner_host_id :: pystr

record human_gate =
  g_id :: pystr
  g_node_id :: pystr
  g_subtype :: gate_subtype
  g_tool_name :: pystr
  g_tool_input :: "(pystr, json) dict"
  g_suggestions :: "json list"
  g_state :: gate_state
  g_response :: "json option"
  g_created_at :: int
  g_resolved_at :: "int option"

text \<open>\<open>Node(project_id=p, id=i, created_at=t)\<close> with every other field at its default.\<close>

definition default_node :: "pystr \<Rightarrow> pystr \<Rightarrow> int \<Rightarrow> node" where
  "default_node pid nid now = \<lparr>
     n_id = nid, n_project_id = pid, n_kind = Agent, n_op_kind = None, n_agent_op_kind = None,
     n_state = Queued, n_rev = 0, n_parent_node_id = None, n_planspace_id = None,
     n_context_bundle_id = None, n_context_bundle_path = None, n_model_preset_id = None,
     n_provider_session_id = None, n_provider_turn_id = None, n_origin_machine_id = [],
     n_template_instance_id = None, n_template_source_node_id = None,
     n_template_source_model_preset_id = None, n_template_source_motivation = None,
     n_commit_before = None, n_commit_after = None, n_prompt = [], n_category = None,
     n_subtype = None, n_brief = None, n_review_target = None, n_prompt_draft = None,
     n_scheduled_deps = [], n_pending_extra_principles = [], n_pending_extra_skills = [],
     n_qa_mode = False, n_diff_review = False, n_artifact_mode = DefaultArtifact,
     n_artifact_spec = [], n_resume_from_node_id = None, n_verify_script_ref = None,
     n_proposed_by = None, n_obsolete_reason = None, n_summary = None, n_error = None,
     n_usage = None, n_artifacts = [], n_system_context_snapshot = [],
     n_launch_instructions_snapshot = [], n_settings_snapshot = [], n_created_at = now,
     n_started_at = None, n_finished_at = None, n_owner_host_id = []\<rparr>"

abbreviation lane_of :: "node \<Rightarrow> pystr" where
  "lane_of n \<equiv> or_empty (n_planspace_id n)"

end
