(* ===== verification/Node_Invariants.thy ===== *)
theory Node_Invariants
  imports Domain
begin

text \<open>
  The validators of the \<open>Node\<close> and \<open>Project\<close> models: \<open>check_invariants\<close> is
  \<open>Node._check_invariants\<close> (its three defaulting assignments included), \<open>check_project\<close> the two
  validators of \<open>Project\<close>. \<open>node_wf\<close> states what an accepted node looks like, and the lemmas show
  that the validator accepts exactly those nodes and changes nothing when it is run again.
\<close>

fun first_issue :: "(bool \<times> 'e) list \<Rightarrow> 'e option" where
  "first_issue [] = None"
| "first_issue ((c, e) # rest) = (if c then Some e else first_issue rest)"

lemma first_issue_None: "first_issue gs = None \<longleftrightarrow> (\<forall>(c, e) \<in> set gs. \<not> c)"
  by (induction gs rule: first_issue.induct) auto

lemma first_issue_append:
  "first_issue (xs @ ys) = (case first_issue xs of None \<Rightarrow> first_issue ys | Some e \<Rightarrow> Some e)"
  by (induction xs rule: first_issue.induct) auto

datatype node_issue =
    ArtifactNamesNotUnique
  | OnlyOnAgents pystr
  | UnknownAgentOpKind pystr
  | RequiresRegular pystr
  | ColdStartScheduledDeps
  | ColdStartResume
  | ColdStartPrinciples
  | ColdStartQaMode
  | NotOnReview pystr
  | CustomRequiresSpec
  | SpecRequiresCustom
  | ArtifactNotOnAuthoring pystr
  | OpCategory
  | OpReviewFields
  | OpScript
  | VerifierCategory
  | VerifierSubtype
  | VerifierBrief
  | TargetOnlyCodeReview
  | VerifierPrompt
  | VerifierScript
  | AgentPreset
  | RegularSubtype
  | RegularBrief
  | ReviewSubtypeMissing
  | ProgrammaticKind
  | ReviewBriefMissing
  | AgentScript
  | VirtualTimestamps

text \<open>\<open>self.agent_op_kind in AUTHORING_AGENT_OP_KINDS\<close> and its two relatives.\<close>

definition op_kind_in :: "pystr option \<Rightarrow> pystr list \<Rightarrow> bool" where
  "op_kind_in k ks = (case k of None \<Rightarrow> False | Some s \<Rightarrow> s \<in> set ks)"

definition not_regular :: "node \<Rightarrow> bool" where
  "not_regular n = (n_category n \<noteq> None \<and> n_category n \<noteq> Some Regular)"

definition agent_only_checks :: "node \<Rightarrow> (bool \<times> node_issue) list" where
  "agent_only_checks n = (if n_kind n = Agent then [] else
     [(n_agent_op_kind n \<noteq> None, OnlyOnAgents ''agent_op_kind''),
      (n_pending_extra_principles n \<noteq> [], OnlyOnAgents ''pending_extra_principles''),
      (n_pending_extra_skills n \<noteq> [], OnlyOnAgents ''pending_extra_skills''),
      (n_qa_mode n, OnlyOnAgents ''qa_mode''),
      (n_diff_review n, OnlyOnAgents ''diff_review''),
      (n_artifact_mode n \<noteq> DefaultArtifact, OnlyOnAgents ''artifact_mode''),
      (n_artifact_spec n \<noteq> [], OnlyOnAgents ''artifact_spec'')])"

definition cold_start_checks :: "node \<Rightarrow> (bool \<times> node_issue) list" where
  "cold_start_checks n = (if n_agent_op_kind n \<noteq> Some cold_start then [] else
     [(not_regular n, RequiresRegular cold_start),
      (n_scheduled_deps n \<noteq> [], ColdStartScheduledDeps),
      (n_resume_from_node_id n \<noteq> None, ColdStartResume),
      (n_pending_extra_principles n \<noteq> [], ColdStartPrinciples),
      (n_qa_mode n, ColdStartQaMode)])"

definition artifact_checks :: "node \<Rightarrow> (bool \<times> node_issue) list" where
  "artifact_checks n =
     (if n_artifact_mode n = CustomArtifact
      then [(blank (n_artifact_spec n), CustomRequiresSpec)]
      else [(n_artifact_spec n \<noteq> [], SpecRequiresCustom)]) @
     (if n_artifact_mode n = DefaultArtifact then [] else
        [(n_category n = Some Review, NotOnReview ''artifact_mode''),
         (op_kind_in (n_agent_op_kind n) authoring_agent_op_kinds,
            ArtifactNotOnAuthoring (or_empty (n_agent_op_kind n)))])"

definition common_checks :: "node \<Rightarrow> (bool \<times> node_issue) list" where
  "common_checks n =
     [(\<not> distinct (map art_name (n_artifacts n)), ArtifactNamesNotUnique)] @
     agent_only_checks n @
     [(n_agent_op_kind n \<noteq> None \<and> \<not> op_kind_in (n_agent_op_kind n) known_agent_op_kinds,
         UnknownAgentOpKind (or_empty (n_agent_op_kind n))),
      (op_kind_in (n_agent_op_kind n) authoring_agent_op_kinds \<and> not_regular n,
         RequiresRegular (or_empty (n_agent_op_kind n)))] @
     cold_start_checks n @
     [(n_qa_mode n \<and> n_category n = Some Review, NotOnReview ''qa_mode''),
      (n_diff_review n \<and> n_category n = Some Review, NotOnReview ''diff_review'')] @
     artifact_checks n"

definition op_checks :: "node \<Rightarrow> (bool \<times> node_issue) list" where
  "op_checks n =
     [(n_category n \<noteq> None, OpCategory),
      (n_subtype n \<noteq> None \<or> n_brief n \<noteq> None \<or> n_review_target n \<noteq> None, OpReviewFields),
      (n_verify_script_ref n \<noteq> None, OpScript)]"

definition verifier_checks :: "node \<Rightarrow> (bool \<times> node_issue) list" where
  "verifier_checks n =
     [(n_category n \<noteq> Some Review, VerifierCategory),
      (n_subtype n \<noteq> Some ProgrammaticReview, VerifierSubtype),
      (n_brief n = None, VerifierBrief),
      (n_review_target n \<noteq> None, TargetOnlyCodeReview),
      (n_prompt n \<noteq> [] \<or> truthy (n_prompt_draft n), VerifierPrompt),
      (\<not> truthy (n_verify_script_ref n), VerifierScript)]"

text \<open>The agent branch: the guards, and the node with its defaults filled in.\<close>

definition agent_category :: "node \<Rightarrow> category" where
  "agent_category n = (case n_category n of None \<Rightarrow> Regular | Some c \<Rightarrow> c)"

definition agent_checks :: "node \<Rightarrow> (bool \<times> node_issue) list" where
  "agent_checks n =
     [(blank (or_empty (n_model_preset_id n)), AgentPreset)] @
     (case agent_category n of
        Regular \<Rightarrow>
          [(n_subtype n \<noteq> None, RegularSubtype),
           (n_brief n \<noteq> None, RegularBrief),
           (n_review_target n \<noteq> None, TargetOnlyCodeReview)]
      | Review \<Rightarrow>
          [(n_subtype n = None, ReviewSubtypeMissing),
           (n_subtype n = Some ProgrammaticReview, ProgrammaticKind),
           (n_subtype n \<noteq> Some CodeReview \<and> n_brief n = None, ReviewBriefMissing),
           (n_subtype n \<noteq> Some CodeReview \<and> n_review_target n \<noteq> None, TargetOnlyCodeReview)]
      | Planning \<Rightarrow> [(n_review_target n \<noteq> None, TargetOnlyCodeReview)]) @
     [(n_verify_script_ref n \<noteq> None, AgentScript)]"

definition agent_defaults :: "node \<Rightarrow> node" where
  "agent_defaults n = n\<lparr>
     n_model_preset_id := map_option strip (n_model_preset_id n),
     n_category := Some (agent_category n),
     n_review_target :=
       (if agent_category n = Review \<and> n_subtype n = Some CodeReview \<and> n_review_target n = None
        then Some Uncommitted else n_review_target n)\<rparr>"

definition kind_checks :: "node \<Rightarrow> (bool \<times> node_issue) list" where
  "kind_checks n = (case n_kind n of
     Op \<Rightarrow> op_checks n | Verifier \<Rightarrow> verifier_checks n | Agent \<Rightarrow> agent_checks n)"

definition virtual_checks :: "node \<Rightarrow> (bool \<times> node_issue) list" where
  "virtual_checks n =
     [(n_state n = Virtual \<and> (n_started_at n \<noteq> None \<or> n_finished_at n \<noteq> None),
         VirtualTimestamps)]"

definition check_invariants :: "node \<Rightarrow> node_issue + node" where
  "check_invariants n =
     (case first_issue (common_checks n @ kind_checks n @ virtual_checks n) of
        Some e \<Rightarrow> Inl e
      | None \<Rightarrow> Inr (if n_kind n = Agent then agent_defaults n else n))"

section \<open>What an accepted node looks like\<close>

definition artifact_ok :: "node \<Rightarrow> bool" where
  "artifact_ok n \<longleftrightarrow>
     (case n_artifact_mode n of
        DefaultArtifact \<Rightarrow> n_artifact_spec n = []
      | CustomArtifact \<Rightarrow> \<not> blank (n_artifact_spec n)
      | _ \<Rightarrow> n_artifact_spec n = []) \<and>
     (n_artifact_mode n \<noteq> DefaultArtifact \<longrightarrow>
        n_kind n = Agent \<and> n_category n \<noteq> Some Review \<and>
        \<not> op_kind_in (n_agent_op_kind n) authoring_agent_op_kinds)"

definition agent_wf :: "node \<Rightarrow> bool" where
  "agent_wf n \<longleftrightarrow>
     (case n_model_preset_id n of None \<Rightarrow> False | Some p \<Rightarrow> \<not> blank p \<and> strip p = p) \<and>
     n_verify_script_ref n = None \<and>
     (n_agent_op_kind n \<noteq> None \<longrightarrow> op_kind_in (n_agent_op_kind n) known_agent_op_kinds) \<and>
     (op_kind_in (n_agent_op_kind n) known_agent_op_kinds \<longrightarrow> n_category n = Some Regular) \<and>
     (n_agent_op_kind n = Some cold_start \<longrightarrow>
        n_scheduled_deps n = [] \<and> n_resume_from_node_id n = None \<and>
        n_pending_extra_principles n = [] \<and> \<not> n_qa_mode n) \<and>
     (case n_category n of
        None \<Rightarrow> False
      | Some Regular \<Rightarrow> n_subtype n = None \<and> n_brief n = None \<and> n_review_target n = None
      | Some Planning \<Rightarrow> n_review_target n = None
      | Some Review \<Rightarrow> \<not> n_qa_mode n \<and> \<not> n_diff_review n \<and>
          (n_subtype n = Some CodeReview \<and> n_review_target n \<noteq> None \<or>
           n_subtype n \<in> {Some AgenticReview, Some HumanInteractReview} \<and>
             n_brief n \<noteq> None \<and> n_review_target n = None))"

definition plain_fields :: "node \<Rightarrow> bool" where
  "plain_fields n \<longleftrightarrow>
     n_agent_op_kind n = None \<and> n_pending_extra_principles n = [] \<and> n_pending_extra_skills n = [] \<and>
     \<not> n_qa_mode n \<and> \<not> n_diff_review n"

definition node_wf :: "node \<Rightarrow> bool" where
  "node_wf n \<longleftrightarrow>
     distinct (map art_name (n_artifacts n)) \<and> artifact_ok n \<and>
     (n_state n = Virtual \<longrightarrow> n_started_at n = None \<and> n_finished_at n = None) \<and>
     (case n_kind n of
        Agent \<Rightarrow> agent_wf n
      | Op \<Rightarrow> plain_fields n \<and> n_category n = None \<and> n_subtype n = None \<and> n_brief n = None \<and>
          n_review_target n = None \<and> n_verify_script_ref n = None
      | Verifier \<Rightarrow> plain_fields n \<and> n_category n = Some Review \<and>
          n_subtype n = Some ProgrammaticReview \<and> n_brief n \<noteq> None \<and> n_review_target n = None \<and>
          n_prompt n = [] \<and> \<not> truthy (n_prompt_draft n) \<and> truthy (n_verify_script_ref n))"

section \<open>The validator accepts exactly the well-formed nodes\<close>

definition passes :: "(bool \<times> 'e) list \<Rightarrow> bool" where
  "passes gs = list_all (\<lambda>g. \<not> fst g) gs"

lemma first_issue_passes: "first_issue gs = None \<longleftrightarrow> passes gs"
  by (induction gs rule: first_issue.induct) (auto simp: passes_def)

lemma passes_simps [simp]:
  "passes []" "passes ((c, e) # gs) \<longleftrightarrow> \<not> c \<and> passes gs"
  "passes (xs @ ys) \<longleftrightarrow> passes xs \<and> passes ys"
  "passes (if b then xs else ys) \<longleftrightarrow> (if b then passes xs else passes ys)"
  by (simp_all add: passes_def)

lemma op_kind_in_simps [simp]: "\<not> op_kind_in None ks" "op_kind_in (Some s) ks = (s \<in> set ks)"
  by (simp_all add: op_kind_in_def)

lemma op_kinds_simps [simp]:
  "s \<in> set authoring_agent_op_kinds \<longleftrightarrow> s = ''principle_edit'' \<or> s = ''library_edit''"
  "s \<in> set known_agent_op_kinds \<longleftrightarrow> s = ''principle_edit'' \<or> s = ''library_edit'' \<or> s = cold_start"
  "cold_start \<noteq> ''principle_edit''" "cold_start \<noteq> ''library_edit''"
  by (auto simp: authoring_agent_op_kinds_def known_agent_op_kinds_def cold_start_def)

lemma op_kind_known [simp]:
  "op_kind_in k known_agent_op_kinds \<longleftrightarrow> k = Some cold_start \<or> op_kind_in k authoring_agent_op_kinds"
  by (cases k) auto

lemma passes_agent_only:
  "passes (agent_only_checks n) \<longleftrightarrow> n_kind n = Agent \<or> plain_fields n \<and> n_artifact_mode n = DefaultArtifact \<and> n_artifact_spec n = []"
  by (auto simp: agent_only_checks_def plain_fields_def)

lemma passes_cold_start:
  "passes (cold_start_checks n) \<longleftrightarrow> (n_agent_op_kind n = Some cold_start \<longrightarrow>
     \<not> not_regular n \<and> n_scheduled_deps n = [] \<and> n_resume_from_node_id n = None \<and>
        n_pending_extra_principles n = [] \<and> \<not> n_qa_mode n)"
  by (auto simp: cold_start_checks_def)

lemma passes_artifact: "passes (artifact_checks n) \<and> passes (agent_only_checks n) \<longleftrightarrow> artifact_ok n \<and> passes (agent_only_checks n)"
  by (cases "n_artifact_mode n") (auto simp: artifact_checks_def artifact_ok_def passes_agent_only)

lemma passes_common:
  "passes (common_checks n) \<longleftrightarrow> distinct (map art_name (n_artifacts n)) \<and> artifact_ok n \<and> 
     passes (agent_only_checks n) \<and> passes (cold_start_checks n) \<and>
     (n_agent_op_kind n \<noteq> None \<longrightarrow> op_kind_in (n_agent_op_kind n) known_agent_op_kinds) \<and>
     (op_kind_in (n_agent_op_kind n) authoring_agent_op_kinds \<longrightarrow> \<not> not_regular n) \<and>
     (n_category n = Some Review \<longrightarrow> \<not> n_qa_mode n \<and> \<not> n_diff_review n)"
  using passes_artifact [of n] by (auto simp: common_checks_def)

lemma passes_virtual: "passes (virtual_checks n) \<longleftrightarrow> (n_state n = Virtual \<longrightarrow> n_started_at n = None \<and> n_finished_at n = None)"
  by (auto simp: virtual_checks_def)

lemma artifact_ok_not_agent:
  "artifact_ok n \<Longrightarrow> n_kind n \<noteq> Agent \<Longrightarrow> n_artifact_mode n = DefaultArtifact \<and> n_artifact_spec n = []"
  by (cases "n_artifact_mode n") (auto simp: artifact_ok_def)

definition accepts :: "node \<Rightarrow> bool" where
  "accepts n = passes (common_checks n @ kind_checks n @ virtual_checks n)"

lemma accepts_op: "n_kind n = Op \<Longrightarrow> accepts n \<longleftrightarrow> node_wf n"
  using artifact_ok_not_agent [of n]
  by (auto simp: accepts_def passes_common passes_agent_only passes_cold_start passes_virtual kind_checks_def op_checks_def node_wf_def plain_fields_def)

lemma accepts_verifier: "n_kind n = Verifier \<Longrightarrow> accepts n \<longleftrightarrow> node_wf n"
  using artifact_ok_not_agent [of n]
  by (auto simp: accepts_def passes_common passes_agent_only passes_cold_start passes_virtual kind_checks_def verifier_checks_def node_wf_def plain_fields_def)

lemma defaults_frame [simp]:
  "n_kind (agent_defaults n) = n_kind n" "n_artifacts (agent_defaults n) = n_artifacts n"
  "n_state (agent_defaults n) = n_state n" "n_agent_op_kind (agent_defaults n) = n_agent_op_kind n"
  "n_subtype (agent_defaults n) = n_subtype n" "n_brief (agent_defaults n) = n_brief n"
  "n_verify_script_ref (agent_defaults n) = n_verify_script_ref n"
  "n_artifact_mode (agent_defaults n) = n_artifact_mode n"
  "n_artifact_spec (agent_defaults n) = n_artifact_spec n"
  "n_category (agent_defaults n) = Some (agent_category n)"
  "n_model_preset_id (agent_defaults n) = map_option strip (n_model_preset_id n)"
  "n_scheduled_deps (agent_defaults n) = n_scheduled_deps n"
  "n_resume_from_node_id (agent_defaults n) = n_resume_from_node_id n"
  "n_pending_extra_principles (agent_defaults n) = n_pending_extra_principles n"
  "n_qa_mode (agent_defaults n) = n_qa_mode n"
  "n_diff_review (agent_defaults n) = n_diff_review n"
  "n_started_at (agent_defaults n) = n_started_at n"
  "n_finished_at (agent_defaults n) = n_finished_at n"
  by (simp_all add: agent_defaults_def)

lemma artifact_ok_defaults: "artifact_ok n \<Longrightarrow> artifact_ok (agent_defaults n)"
  by (cases "n_category n") (auto simp: artifact_ok_def agent_category_def split: artifact_mode.splits)

lemma agent_wf_defaults:
  assumes "n_kind n = Agent" and "passes (common_checks n)" and "passes (agent_checks n)"
  shows "agent_wf (agent_defaults n)"
proof -
  obtain p where p: "n_model_preset_id n = Some p" "\<not> blank p"
    using assms(3) by (cases "n_model_preset_id n") (auto simp: agent_checks_def)
  have script: "n_verify_script_ref n = None"
    using assms(3) by (auto simp: agent_checks_def)
  consider (none) "n_category n = None" | (some) c where "n_category n = Some c"
    by (cases "n_category n") auto
  then show ?thesis
  proof cases
    case none
    then show ?thesis using assms p script
      by (auto simp: agent_wf_def passes_common passes_cold_start agent_checks_def agent_category_def agent_defaults_def)
  next
    case some
    then show ?thesis using assms p script
      by (cases c; cases "n_subtype n"; cases "the (n_subtype n)")
        (auto simp: agent_wf_def passes_common passes_cold_start agent_checks_def agent_category_def not_regular_def agent_defaults_def)
  qed
qed

lemma accepts_agent: "n_kind n = Agent \<Longrightarrow> accepts n \<Longrightarrow> node_wf (agent_defaults n)"
  using agent_wf_defaults [of n] artifact_ok_defaults [of n]
  by (simp add: accepts_def node_wf_def passes_common passes_virtual kind_checks_def)

lemma agent_wf_accepts: 
  assumes "n_kind n = Agent" and "node_wf n"
  shows "accepts n" and "agent_defaults n = n"
proof -
  from assms have w: "agent_wf n" and rest: "distinct (map art_name (n_artifacts n))" "artifact_ok n"
     "n_state n = Virtual \<longrightarrow> n_started_at n = None \<and> n_finished_at n = None"
    by (simp_all add: node_wf_def)
  obtain c where c: "n_category n = Some c" using w by (cases "n_category n") (auto simp: agent_wf_def)
  obtain p where p: "n_model_preset_id n = Some p" "\<not> blank p" "strip p = p"
    using w by (auto simp: agent_wf_def split: option.splits)
  show "accepts n"
    using assms(1) w rest c p
    by (cases c) (auto simp: accepts_def passes_common passes_cold_start passes_agent_only passes_virtual kind_checks_def
       agent_checks_def agent_category_def not_regular_def agent_wf_def)
  show "agent_defaults n = n"
    using w c p by (cases n) (auto simp: agent_defaults_def agent_category_def agent_wf_def)
qed

lemma check_invariants_accepts:
  "check_invariants n =
     (case first_issue (common_checks n @ kind_checks n @ virtual_checks n) of
        Some e \<Rightarrow> Inl e | None \<Rightarrow> Inr (if n_kind n = Agent then agent_defaults n else n))"
  "(\<exists>m. check_invariants n = Inr m) \<longleftrightarrow> accepts n"
  by (auto simp: check_invariants_def accepts_def first_issue_passes [symmetric] split: option.splits)

lemma check_invariants_Inr:
  "check_invariants n = Inr m \<longleftrightarrow> accepts n \<and> m = (if n_kind n = Agent then agent_defaults n else n)"
  using first_issue_passes [of "common_checks n @ kind_checks n @ virtual_checks n"]
  by (auto simp: check_invariants_def accepts_def split: option.splits)

lemma check_result_wf: "check_invariants n = Inr m \<Longrightarrow> node_wf m"
  by (cases "n_kind n") (auto simp: check_invariants_Inr accepts_agent accepts_op accepts_verifier)

lemma wf_check: "node_wf n \<Longrightarrow> check_invariants n = Inr n"
  by (cases "n_kind n") (auto simp: check_invariants_Inr agent_wf_accepts accepts_op accepts_verifier)

lemma check_frame:
  assumes "check_invariants n = Inr m"
  shows "n_id m = n_id n" "n_state m = n_state n" "n_kind m = n_kind n"
    "n_scheduled_deps m = n_scheduled_deps n" "n_planspace_id m = n_planspace_id n"
    "n_created_at m = n_created_at n" "n_proposed_by m = n_proposed_by n"
    "n_project_id m = n_project_id n" "n_owner_host_id m = n_owner_host_id n"
    "n_resume_from_node_id m = n_resume_from_node_id n" "n_obsolete_reason m = n_obsolete_reason n"
    "n_prompt_draft m = n_prompt_draft n" "n_rev m = n_rev n"
  using assms by (auto simp: check_invariants_Inr agent_defaults_def)

section \<open>Fields the invariants do not mention\<close>

lemma node_wf_cong:
  assumes "n_artifacts m = n_artifacts n" "n_artifact_mode m = n_artifact_mode n"
    "n_artifact_spec m = n_artifact_spec n" "n_kind m = n_kind n" "n_category m = n_category n"
    "n_agent_op_kind m = n_agent_op_kind n" "n_state m = n_state n" "n_started_at m = n_started_at n"
    "n_finished_at m = n_finished_at n" "n_model_preset_id m = n_model_preset_id n"
    "n_verify_script_ref m = n_verify_script_ref n" "n_scheduled_deps m = n_scheduled_deps n"
    "n_resume_from_node_id m = n_resume_from_node_id n"
    "n_pending_extra_principles m = n_pending_extra_principles n" "n_qa_mode m = n_qa_mode n"
    "n_pending_extra_skills m = n_pending_extra_skills n" "n_diff_review m = n_diff_review n"
    "n_subtype m = n_subtype n" "n_brief m = n_brief n" "n_review_target m = n_review_target n"
    "n_prompt m = n_prompt n" "n_prompt_draft m = n_prompt_draft n"
  shows "node_wf m = node_wf n"
  unfolding node_wf_def artifact_ok_def agent_wf_def plain_fields_def assms ..

lemma node_wf_upd [simp]:
  "node_wf (n\<lparr>n_owner_host_id := a\<rparr>) = node_wf n"
  "node_wf (n\<lparr>n_rev := r\<rparr>) = node_wf n"
  "node_wf (n\<lparr>n_origin_machine_id := a\<rparr>) = node_wf n"
  "node_wf (n\<lparr>n_error := b\<rparr>) = node_wf n"
  "node_wf (n\<lparr>n_summary := b\<rparr>) = node_wf n"
  "node_wf (n\<lparr>n_commit_after := b\<rparr>) = node_wf n"
  "node_wf (n\<lparr>n_commit_before := b\<rparr>) = node_wf n"
  "node_wf (n\<lparr>n_provider_session_id := b\<rparr>) = node_wf n"
  "node_wf (n\<lparr>n_provider_turn_id := b\<rparr>) = node_wf n"
  "node_wf (n\<lparr>n_parent_node_id := b\<rparr>) = node_wf n"
  "node_wf (n\<lparr>n_planspace_id := b\<rparr>) = node_wf n"
  "node_wf (n\<lparr>n_proposed_by := b\<rparr>) = node_wf n"
  "node_wf (n\<lparr>n_obsolete_reason := b\<rparr>) = node_wf n"
  "node_wf (n\<lparr>n_settings_snapshot := d\<rparr>) = node_wf n"
  "node_wf (n\<lparr>n_created_at := t\<rparr>) = node_wf n"
  "node_wf (n\<lparr>n_usage := u\<rparr>) = node_wf n"
  by (rule node_wf_cong; simp)+

section \<open>Projects\<close>

datatype project_issue = PresetRequired | TemporaryMismatch | RemoteMismatch

text \<open>
  \<open>_upgrade_legacy_persistence_mode\<close> runs on the raw payload: the two fields are given as the
  payload has them, \<open>None\<close> when the key is absent.
\<close>

definition upgrade_legacy_persistence_mode ::
  "persistence_mode option \<Rightarrow> bool option \<Rightarrow> persistence_mode option \<times> bool option" where
  "upgrade_legacy_persistence_mode mode temporary = (case mode of
     None \<Rightarrow> (Some (if temporary = Some True then Ephemeral else Durable), temporary)
   | Some m \<Rightarrow> (Some m, case temporary of None \<Rightarrow> Some (m = Ephemeral) | Some t \<Rightarrow> Some t))"

definition check_project :: "project \<Rightarrow> project_issue + project" where
  "check_project p =
     (if blank (p_model_preset_id p) then Inl PresetRequired
      else if p_temporary p \<noteq> (p_persistence_mode p = Ephemeral) then Inl TemporaryMismatch
      else if (p_persistence_mode p = Remote) \<noteq> (p_remote p \<noteq> None) then Inl RemoteMismatch
      else Inr (p\<lparr>p_model_preset_id := strip (p_model_preset_id p)\<rparr>))"

definition is_bound :: "project \<Rightarrow> bool" where
  "is_bound p = (p_root_path p \<noteq> unbound_root_path)"

text \<open>A payload that names one of the two fields is completed so that they agree.\<close>

lemma upgrade_agrees:
  "(m, t) = upgrade_legacy_persistence_mode mode temporary \<Longrightarrow> mode = None \<or> temporary = None \<Longrightarrow>
     (case t of None \<Rightarrow> False | Some b \<Rightarrow> b) = (m = Some Ephemeral)"
  by (cases mode; cases temporary) (auto simp: upgrade_legacy_persistence_mode_def split: if_splits)

section \<open>Properties\<close>

text \<open>
  C31: the node validator accepts a node as it stands exactly when the node is well formed.
\<close>

theorem validator_exact: "check_invariants n = Inr n \<longleftrightarrow> node_wf n"
  using check_result_wf wf_check by blast

text \<open>
  C32: a node the validator returns is well formed, validating it again changes nothing, and the
  defaults the validator fills in touch only the preset id, the category and the review target.
\<close>

theorem validator_normalizes:
  assumes "check_invariants n = Inr m"
  shows "node_wf m \<and> check_invariants m = Inr m \<and>
    m\<lparr>n_model_preset_id := n_model_preset_id n, n_category := n_category n,
      n_review_target := n_review_target n\<rparr> = n"
proof -
  from assms have "node_wf m" by (rule check_result_wf)
  moreover have "m\<lparr>n_model_preset_id := n_model_preset_id n, n_category := n_category n,
      n_review_target := n_review_target n\<rparr> = n"
    using assms by (auto simp: check_invariants_Inr agent_defaults_def)
  ultimately show ?thesis using wf_check by blast
qed

definition sample_code_review :: node where
  "sample_code_review = (default_node ''p'' ''n1'' 7)\<lparr>n_model_preset_id := Some '' opus '',
     n_category := Some Review, n_subtype := Some CodeReview\<rparr>"

theorem validator_normalizes_witness:
  "node_wf (sample_code_review\<lparr>n_model_preset_id := Some ''opus'', n_review_target := Some Uncommitted\<rparr>) \<and>
   check_invariants (sample_code_review\<lparr>n_model_preset_id := Some ''opus'', n_review_target := Some Uncommitted\<rparr>)
     = Inr (sample_code_review\<lparr>n_model_preset_id := Some ''opus'', n_review_target := Some Uncommitted\<rparr>)"
  using validator_normalizes [of sample_code_review
      "sample_code_review\<lparr>n_model_preset_id := Some ''opus'', n_review_target := Some Uncommitted\<rparr>"]
  by (simp, code_simp)

end
