(* ===== verification/Virtual_Graph.thy ===== *)
theory Virtual_Graph
  imports Prelude
begin

text \<open>
  The dependency-graph helpers of \<open>virtual_graph.py\<close>. \<open>has_cycle\<close> is the three-colour depth-first
  search, with the colour dictionary threaded through the recursion as the Python closure mutates
  it; \<open>is_connected\<close> is the breadth-first search over the undirected union of the dependency and
  resume links. The lemmas show that the first decides the existence of a cycle and the second
  reachability of every node from the first one.
\<close>

section \<open>has\_cycle\<close>

text \<open>
  A graph gives each known id its dependency list, in dictionary order. Colours: 0 white, 1 gray,
  2 black; an id without a colour counts as black (\<open>color.get(nid, 2)\<close>).
\<close>

type_synonym dep_graph = "(pystr, pystr list) dict"
type_synonym coloring = "pystr \<rightharpoonup> nat"

definition deps_of :: "dep_graph \<Rightarrow> pystr \<Rightarrow> pystr list" where
  "deps_of g nid = (case map_of g nid of None \<Rightarrow> [] | Some ds \<Rightarrow> ds)"

definition color_of :: "coloring \<Rightarrow> pystr \<Rightarrow> nat" where
  "color_of c nid = (case c nid of None \<Rightarrow> 2 | Some k \<Rightarrow> k)"

definition paint :: "coloring \<Rightarrow> pystr \<Rightarrow> nat \<Rightarrow> coloring" where
  "paint c nid k = c(nid \<mapsto> k)"

text \<open>
  \<open>visit\<close> returns whether a gray node was met again and the colours it leaves; \<open>visit_deps\<close> is
  its loop over \<open>node.scheduled_deps\<close>.
\<close>

function visit :: "dep_graph \<Rightarrow> pystr \<Rightarrow> coloring \<Rightarrow> bool \<times> coloring"
  and visit_deps :: "dep_graph \<Rightarrow> pystr list \<Rightarrow> coloring \<Rightarrow> bool \<times> coloring" where
  "visit g nid c =
     (if color_of c nid = 2 then (False, c)
      else if color_of c nid = 1 then (True, c)
      else case visit_deps g (deps_of g nid) (paint c nid 1) of
             (True, c') \<Rightarrow> (True, c')
           | (False, c') \<Rightarrow> (False, paint c' nid 2))"
| "visit_deps g [] c = (False, c)"
| "visit_deps g (d # ds) c =
     (case visit g d c of
        (True, c') \<Rightarrow> (True, c')
      | (False, c') \<Rightarrow> visit_deps g ds c')"
  by pat_completeness auto

definition unvisited :: "dep_graph \<Rightarrow> coloring \<Rightarrow> pystr set" where
  "unvisited g c = {x \<in> set (keys g). color_of c x \<noteq> 1 \<and> color_of c x \<noteq> 2}"

lemma finite_unvisited [simp]: "finite (unvisited g c)"
  by (simp add: unvisited_def)

lemma color_of_paint [simp]: "color_of (paint c x k) y = (if y = x then k else color_of c y)"
  by (simp add: color_of_def paint_def)

lemma unvisited_upd: "k = 1 \<or> k = 2 \<Longrightarrow> unvisited g (paint c x k) = unvisited g c - {x}"
  by (auto simp: unvisited_def)

lemma deps_of_unknown: "nid \<notin> set (keys g) \<Longrightarrow> deps_of g nid = []"
  by (simp add: deps_of_def map_of_eq_None_iff [symmetric])

lemma visit_shrinks:
  "visit_visit_deps_dom (Inl (g, nid, c)) \<Longrightarrow> unvisited g (snd (visit g nid c)) \<subseteq> unvisited g c"
  "visit_visit_deps_dom (Inr (g, ds, c)) \<Longrightarrow> unvisited g (snd (visit_deps g ds c)) \<subseteq> unvisited g c"
proof (induction g nid c and g ds c rule: visit_visit_deps.pinduct)
  case (1 g nid c)
  show ?case
  proof (cases "color_of c nid = 2 \<or> color_of c nid = 1")
    case True
    then show ?thesis using 1(1) by (auto simp: visit.psimps)
  next
    case False
    obtain b c' where r: "visit_deps g (deps_of g nid) (paint c nid 1) = (b, c')"
      by (cases "visit_deps g (deps_of g nid) (paint c nid 1)") auto
    have "unvisited g c' \<subseteq> unvisited g (paint c nid 1)"
      using 1(2) False r by simp
    then show ?thesis
      using 1(1) False r by (cases b) (auto simp: visit.psimps unvisited_upd)
  qed
next
  case (2 g c)
  then show ?case by (simp add: visit_deps.psimps)
next
  case (3 g d ds c)
  obtain b c' where r: "visit g d c = (b, c')"
    by (cases "visit g d c") auto
  have c': "unvisited g c' \<subseteq> unvisited g c"
    using 3(2) r by simp
  show ?case
  proof (cases b)
    case True
    then show ?thesis using 3(1) r c' by (simp add: visit_deps.psimps)
  next
    case False
    then have "unvisited g (snd (visit_deps g ds c')) \<subseteq> unvisited g c'"
      using 3(3) [OF r [symmetric]] by simp
    with c' have "unvisited g (snd (visit_deps g ds c')) \<subseteq> unvisited g c" by (rule order_trans [rotated])
    then show ?thesis using 3(1) r False by (simp add: visit_deps.psimps)
  qed
qed

text \<open>
  A call on a white id makes the set of unvisited known ids smaller; an unknown white id has no
  dependencies, so its loop ends at once. The second component orders a call against the rest of
  the loop that makes it.
\<close>

definition visit_rank :: "dep_graph \<times> pystr \<times> coloring + dep_graph \<times> pystr list \<times> coloring \<Rightarrow> nat" where
  "visit_rank x = (case x of Inl (g, nid, c) \<Rightarrow> card (unvisited g c) | Inr (g, ds, c) \<Rightarrow> card (unvisited g c))"

definition loop_rank :: "dep_graph \<times> pystr \<times> coloring + dep_graph \<times> pystr list \<times> coloring \<Rightarrow> nat" where
  "loop_rank x = (case x of Inl _ \<Rightarrow> 1 | Inr (g, ds, c) \<Rightarrow> 2 * length ds)"

lemma enter_smaller:
  assumes "color_of c nid \<noteq> 2" and "color_of c nid \<noteq> 1"
  shows "(Inr (g, deps_of g nid, paint c nid 1), Inl (g, nid, c)) \<in> measures [visit_rank, loop_rank]"
proof (cases "nid \<in> set (keys g)")
  case True
  with assms have "unvisited g c - {nid} \<subset> unvisited g c"
    by (auto simp: unvisited_def)
  then have "card (unvisited g c - {nid}) < card (unvisited g c)"
    by (rule psubset_card_mono [rotated]) simp
  then show ?thesis by (simp add: visit_rank_def unvisited_upd)
next
  case False
  then have "unvisited g c - {nid} = unvisited g c" by (auto simp: unvisited_def)
  with False show ?thesis
    by (simp add: visit_rank_def loop_rank_def unvisited_upd deps_of_unknown)
qed

lemma rest_smaller:
  assumes "unvisited g c' \<subseteq> unvisited g c"
  shows "(Inr (g, ds, c'), Inr (g, d # ds, c)) \<in> measures [visit_rank, loop_rank]"
proof -
  have "card (unvisited g c') \<le> card (unvisited g c)"
    using assms by (rule card_mono [rotated]) simp
  then show ?thesis by (simp add: visit_rank_def loop_rank_def le_less)
qed

termination visit
proof (relation "measures [visit_rank, loop_rank]", goal_cases)
  case 1
  show ?case by simp
next
  case (2 g nid c)
  then show ?case by (rule enter_smaller)
next
  case (3 g d ds c)
  show ?case by (simp add: visit_rank_def loop_rank_def)
next
  case (4 g d ds c x y)
  then have "unvisited g y \<subseteq> unvisited g c"
    using visit_shrinks(1) [of g d c] by (metis snd_conv)
  then show ?case by (rule rest_smaller)
qed

declare visit.simps [simp del]

text \<open>\<open>has_cycle\<close>: every id starts white; the loop visits the ids that are still white.\<close>

fun visit_roots :: "dep_graph \<Rightarrow> pystr list \<Rightarrow> coloring \<Rightarrow> bool" where
  "visit_roots g [] c = False"
| "visit_roots g (nid # nids) c =
     (if color_of c nid = 0
      then (case visit g nid c of (True, c') \<Rightarrow> True | (False, c') \<Rightarrow> visit_roots g nids c')
      else visit_roots g nids c)"

definition has_cycle :: "dep_graph \<Rightarrow> bool" where
  "has_cycle g = visit_roots g (keys g) (map_of (map (\<lambda>nid. (nid, 0)) (keys g)))"

section \<open>has\_cycle decides the existence of a cycle\<close>

definition dep_rel :: "dep_graph \<Rightarrow> (pystr \<times> pystr) set" where
  "dep_rel g = {(x, d). d \<in> set (deps_of g x)}"

definition black_closed :: "dep_graph \<Rightarrow> coloring \<Rightarrow> bool" where
  "black_closed g c \<longleftrightarrow> (\<forall>x. color_of c x = 2 \<longrightarrow>
     (\<forall>d \<in> set (deps_of g x). color_of c d = 2) \<and> (x, x) \<notin> (dep_rel g)\<^sup>+)"

definition three_colors :: "coloring \<Rightarrow> bool" where
  "three_colors c \<longleftrightarrow> (\<forall>x. color_of c x \<le> 2)"

text \<open>
  What a search that returns \<open>False\<close> leaves: the same gray nodes, more black ones, and a black set
  that is closed under dependencies and free of cycles.
\<close>

definition searched :: "dep_graph \<Rightarrow> coloring \<Rightarrow> coloring \<Rightarrow> bool" where
  "searched g c c' \<longleftrightarrow>
     (\<forall>y. color_of c' y = 1 \<longleftrightarrow> color_of c y = 1) \<and>
     (\<forall>y. color_of c y = 2 \<longrightarrow> color_of c' y = 2) \<and>
     (black_closed g c \<longrightarrow> black_closed g c') \<and> (three_colors c \<longrightarrow> three_colors c')"

lemma searched_refl: "searched g c c"
  by (simp add: searched_def)

lemma searched_trans: "searched g c c' \<Longrightarrow> searched g c' c'' \<Longrightarrow> searched g c c''"
  by (simp add: searched_def)

lemma black_reaches_black:
  assumes "(x, y) \<in> (dep_rel g)\<^sup>*" and "black_closed g c" and "color_of c x = 2"
  shows "color_of c y = 2"
  using assms(1,3) by (induction rule: rtrancl_induct) (use assms(2) in \<open>auto simp: black_closed_def dep_rel_def\<close>)

lemma blacken:
  assumes "black_closed g c" and "color_of c x = 1" and "\<forall>d \<in> set (deps_of g x). color_of c d = 2"
  shows "black_closed g (paint c x 2)"
proof -
  have "(x, x) \<notin> (dep_rel g)\<^sup>+"
  proof
    assume "(x, x) \<in> (dep_rel g)\<^sup>+"
    then obtain d where "(x, d) \<in> dep_rel g" and d: "(d, x) \<in> (dep_rel g)\<^sup>*"
      by (meson tranclD)
    with assms(3) have "color_of c d = 2" by (simp add: dep_rel_def)
    with black_reaches_black [OF d assms(1)] assms(2) show False by simp
  qed
  with assms show ?thesis by (auto simp: black_closed_def)
qed

lemma paint_searched:
  assumes "searched g (paint c x 1) c'" and "color_of c x \<noteq> 2" and "color_of c x \<noteq> 1"
    and "\<forall>d \<in> set (deps_of g x). color_of c' d = 2"
  shows "searched g c (paint c' x 2)"
proof -
  have gray: "color_of c' x = 1" using assms(1) by (simp add: searched_def)
  have same: "\<forall>y. y \<noteq> x \<longrightarrow> (color_of c' y = 1 \<longleftrightarrow> color_of c y = 1)"
    and black: "\<forall>y. y \<noteq> x \<longrightarrow> color_of c y = 2 \<longrightarrow> color_of c' y = 2"
    using assms(1) by (auto simp: searched_def)
  have "black_closed g c \<Longrightarrow> black_closed g (paint c x 1)"
    using assms(2) by (auto simp: black_closed_def)
  then have closed: "black_closed g c \<Longrightarrow> black_closed g (paint c' x 2)"
    using assms(1) gray assms(4) by (simp add: searched_def blacken)
  have "three_colors c \<Longrightarrow> three_colors (paint c x 1)"
    by (simp add: three_colors_def)
  then have "three_colors c \<Longrightarrow> three_colors (paint c' x 2)"
    using assms(1) by (simp add: searched_def three_colors_def)
  with same black closed show ?thesis
    using assms(2,3) by (auto simp: searched_def)
qed

lemma visit_searched:
  "visit g nid c = (False, c') \<Longrightarrow> searched g c c' \<and> color_of c' nid = 2"
  "visit_deps g ds c = (False, c') \<Longrightarrow> searched g c c' \<and> (\<forall>d \<in> set ds. color_of c' d = 2)"
proof (induction g nid c and g ds c arbitrary: c' and c' rule: visit_visit_deps.induct)
  case (1 g nid c)
  show ?case
  proof (cases "color_of c nid = 2")
    case True
    with 1(2) show ?thesis by (simp add: visit.simps searched_refl)
  next
    case False
    with 1(2) have n1: "color_of c nid \<noteq> 1" by (auto simp: visit.simps)
    obtain c1 where r: "visit_deps g (deps_of g nid) (paint c nid 1) = (False, c1)"
      and c': "c' = paint c1 nid 2"
      using 1(2) False n1 by (auto simp: visit.simps split: prod.splits bool.splits)
    from 1(1) [OF False n1 r] show ?thesis
      using False n1 c' by (auto intro: paint_searched)
  qed
next
  case (2 g c)
  then show ?case by (simp add: searched_refl)
next
  case (3 g d ds c)
  obtain c1 where r: "visit g d c = (False, c1)" and s: "visit_deps g ds c1 = (False, c')"
    using 3(3) by (auto split: prod.splits bool.splits)
  from 3(1) [OF r] have f: "searched g c c1" "color_of c1 d = 2" by auto
  from 3(2) [OF r [symmetric] refl s] have t: "searched g c1 c'" "\<forall>d \<in> set ds. color_of c' d = 2"
    by auto
  have "color_of c' d = 2" using f(2) t(1) by (simp add: searched_def)
  with f t show ?case by (auto intro: searched_trans)
qed

lemma visit_finds_cycle:
  "fst (visit g nid c) \<Longrightarrow> (\<forall>y. color_of c y = 1 \<longrightarrow> (y, nid) \<in> (dep_rel g)\<^sup>+) \<Longrightarrow>
     \<exists>x. (x, x) \<in> (dep_rel g)\<^sup>+"
  "fst (visit_deps g ds c) \<Longrightarrow>
     (\<forall>d \<in> set ds. \<forall>y. color_of c y = 1 \<longrightarrow> (y, d) \<in> (dep_rel g)\<^sup>+) \<Longrightarrow>
     \<exists>x. (x, x) \<in> (dep_rel g)\<^sup>+"
proof (induction g nid c and g ds c rule: visit_visit_deps.induct)
  case (1 g nid c)
  show ?case
  proof (cases "color_of c nid = 1")
    case True
    then show ?thesis using 1(3) by blast
  next
    case False
    with 1(2) have n2: "color_of c nid \<noteq> 2" by (auto simp: visit.simps)
    have found: "fst (visit_deps g (deps_of g nid) (paint c nid 1))"
      using 1(2) False n2 by (auto simp: visit.simps split: prod.splits bool.splits)
    have "(y, d) \<in> (dep_rel g)\<^sup>+"
      if "d \<in> set (deps_of g nid)" and "color_of (paint c nid 1) y = 1" for d y
    proof -
      from that(1) have step: "(nid, d) \<in> dep_rel g" by (simp add: dep_rel_def)
      show ?thesis
      proof (cases "y = nid")
        case True
        with step show ?thesis by blast
      next
        case False
        with that(2) 1(3) have "(y, nid) \<in> (dep_rel g)\<^sup>+" by simp
        then show ?thesis using step by (rule trancl_into_trancl)
      qed
    qed
    with 1(1) [OF n2 False found] show ?thesis by blast
  qed
next
  case (2 g c)
  then show ?case by simp
next
  case (3 g d ds c)
  obtain b c1 where r: "visit g d c = (b, c1)" by (cases "visit g d c") auto
  show ?case
  proof (cases b)
    case True
    with r 3(1) 3(4) show ?thesis by simp
  next
    case False
    with r have r': "visit g d c = (False, c1)" by simp
    with visit_searched(1) have "\<forall>y. color_of c1 y = 1 \<longleftrightarrow> color_of c y = 1"
      by (simp add: searched_def)
    with 3(2) [OF r' [symmetric] refl] 3(3,4) r' show ?thesis by simp
  qed
qed

lemma roots_find_cycle:
  "visit_roots g nids c \<Longrightarrow> \<forall>y. color_of c y \<noteq> 1 \<Longrightarrow> \<exists>x. (x, x) \<in> (dep_rel g)\<^sup>+"
proof (induction g nids c rule: visit_roots.induct)
  case (1 g c)
  then show ?case by simp
next
  case (2 g nid nids c)
  obtain b c1 where r: "visit g nid c = (b, c1)" by (cases "visit g nid c") auto
  show ?case
  proof (cases "color_of c nid = 0 \<and> b")
    case True
    with r 2(4) visit_finds_cycle(1) [of g nid c] show ?thesis by simp
  next
    case False
    then show ?thesis
      using 2 r visit_searched(1) [of g nid c c1] by (auto simp: searched_def split: if_splits)
  qed
qed

lemma roots_complete:
  "\<not> visit_roots g nids c \<Longrightarrow> black_closed g c \<Longrightarrow> three_colors c \<Longrightarrow> \<forall>y. color_of c y \<noteq> 1 \<Longrightarrow>
     \<exists>c'. searched g c c' \<and> (\<forall>x \<in> set nids. color_of c' x = 2)"
proof (induction g nids c rule: visit_roots.induct)
  case (1 g c)
  then show ?case by (auto intro: searched_refl)
next
  case (2 g nid nids c)
  show ?case
  proof (cases "color_of c nid = 0")
    case True
    obtain c1 where r: "visit g nid c = (False, c1)" and rest: "\<not> visit_roots g nids c1"
      using True 2(3) by (auto split: prod.splits bool.splits)
    from visit_searched(1) [OF r] have s: "searched g c c1" "color_of c1 nid = 2" by auto
    then obtain c' where "searched g c1 c'" "\<forall>x \<in> set nids. color_of c' x = 2"
      using 2(1) [OF True r [symmetric] refl rest] 2(4-6) by (auto simp: searched_def)
    with s show ?thesis by (auto intro!: exI [of _ c'] searched_trans [of g c c1 c'] simp: searched_def)
  next
    case False
    with 2(5,6) have "color_of c nid = 2"
      unfolding three_colors_def by (metis One_nat_def Suc_1 le_SucE le_zero_eq)
    moreover obtain c' where "searched g c c'" "\<forall>x \<in> set nids. color_of c' x = 2"
      using 2(2) [OF False] 2(3-6) False by auto
    ultimately show ?thesis by (auto intro!: exI [of _ c'] simp: searched_def)
  qed
qed

definition white :: "dep_graph \<Rightarrow> coloring" where
  "white g = map_of (map (\<lambda>nid. (nid, 0)) (keys g))"

lemma color_of_white: "color_of (white g) x = (if x \<in> set (keys g) then 0 else 2)"
proof (cases "x \<in> set (keys g)")
  case True
  then have "map_of (map (\<lambda>nid. (nid, 0::nat)) (keys g)) x = Some 0"
    by (induction g) auto
  with True show ?thesis by (simp add: color_of_def white_def)
next
  case False
  then have "map_of (map (\<lambda>nid. (nid, 0::nat)) (keys g)) x = None"
    by (induction g) auto
  with False show ?thesis by (simp add: color_of_def white_def)
qed

lemma dep_rel_known: "(x, y) \<in> dep_rel g \<Longrightarrow> x \<in> set (keys g)"
  using deps_of_unknown [of x g] by (cases "x \<in> set (keys g)") (auto simp: dep_rel_def)

lemma dep_rel_source: "(x, y) \<in> (dep_rel g)\<^sup>+ \<Longrightarrow> x \<in> set (keys g)"
  by (induction rule: converse_trancl_induct) (auto dest: dep_rel_known)

lemma white_start: "black_closed g (white g)" "three_colors (white g)" "color_of (white g) y \<noteq> 1"
  using dep_rel_source [of _ _ g]
  by (auto simp: black_closed_def three_colors_def color_of_white deps_of_unknown)

lemma has_cycle_iff: "has_cycle g \<longleftrightarrow> (\<exists>x. (x, x) \<in> (dep_rel g)\<^sup>+)"
proof
  assume "has_cycle g"
  then show "\<exists>x. (x, x) \<in> (dep_rel g)\<^sup>+"
    using white_start [of g] roots_find_cycle [of g "keys g" "white g"]
    by (simp add: has_cycle_def white_def)
next
  assume "\<exists>x. (x, x) \<in> (dep_rel g)\<^sup>+"
  then obtain x where x: "(x, x) \<in> (dep_rel g)\<^sup>+" ..
  show "has_cycle g"
  proof (rule ccontr)
    assume "\<not> has_cycle g"
    then obtain c where "searched g (white g) c" "\<forall>y \<in> set (keys g). color_of c y = 2"
      using white_start [of g] roots_complete [of g "keys g" "white g"]
      by (auto simp: has_cycle_def white_def)
    moreover have "x \<in> set (keys g)" using x by (rule dep_rel_source)
    ultimately have "(x, x) \<notin> (dep_rel g)\<^sup>+"
      using white_start [of g] by (auto simp: searched_def black_closed_def)
    with x show False by contradiction
  qed
qed

lemma no_cycle_acyclic: "\<not> has_cycle g \<longleftrightarrow> acyclic (dep_rel g)"
  by (simp add: has_cycle_iff acyclic_def)

section \<open>is\_connected\<close>

text \<open>
  Each id with its dependency list and its resume source. The adjacency sets are lists without
  repetition; iteration order over a Python set is unspecified and the result does not depend on it.
\<close>

type_synonym link_graph = "(pystr, pystr list \<times> pystr option) dict"
type_synonym adjacency = "(pystr, pystr list) dict"

definition add_link :: "pystr \<Rightarrow> pystr \<Rightarrow> adjacency \<Rightarrow> adjacency" where
  "add_link x y adj = AList.map_entry y (List.insert x) (AList.map_entry x (List.insert y) adj)"

definition add_known_link :: "pystr \<Rightarrow> pystr \<Rightarrow> adjacency \<Rightarrow> adjacency" where
  "add_known_link x y adj = (if y \<in> set (keys adj) then add_link x y adj else adj)"

fun add_links_of :: "pystr \<times> pystr list \<times> pystr option \<Rightarrow> adjacency \<Rightarrow> adjacency" where
  "add_links_of (nid, deps, resume) adj =
     (let adj' = fold (add_known_link nid) deps adj
      in if truthy resume then add_known_link nid (or_empty resume) adj' else adj')"

definition adjacency_of :: "link_graph \<Rightarrow> adjacency" where
  "adjacency_of g = fold add_links_of g (map (\<lambda>nid. (nid, [])) (keys g))"

definition neighbours :: "adjacency \<Rightarrow> pystr \<Rightarrow> pystr list" where
  "neighbours adj x = (case map_of adj x of None \<Rightarrow> [] | Some ys \<Rightarrow> ys)"

fun enqueue_new :: "pystr list \<Rightarrow> pystr list \<times> pystr list \<Rightarrow> pystr list \<times> pystr list" where
  "enqueue_new [] (seen, queue) = (seen, queue)"
| "enqueue_new (x # xs) (seen, queue) =
     enqueue_new xs (if x \<in> set seen then (seen, queue) else (x # seen, queue @ [x]))"

lemma enqueue_new_spec:
  "enqueue_new xs (seen, q) = (seen', q') \<Longrightarrow>
     set seen' = set seen \<union> set xs \<and> (\<exists>new. q' = q @ new \<and> set new = set xs - set seen) \<and>
     (distinct seen \<longrightarrow> distinct seen')"
proof (induction xs arbitrary: seen q)
  case Nil
  then show ?case by auto
next
  case (Cons x xs)
  show ?case
  proof (cases "x \<in> set seen")
    case True
    with Cons.IH [of seen q] Cons.prems show ?thesis by auto
  next
    case False
    with Cons.IH [of "x # seen" "q @ [x]"] Cons.prems obtain new where
      "q' = (q @ [x]) @ new" "set new = set xs - set (x # seen)" and
      s: "set seen' = set (x # seen) \<union> set xs" "distinct (x # seen) \<longrightarrow> distinct seen'"
      by auto
    then have "q' = q @ (x # new) \<and> set (x # new) = set (x # xs) - set seen"
      using False by auto
    with s False show ?thesis by auto
  qed
qed

definition linked_ids :: "adjacency \<Rightarrow> pystr set" where
  "linked_ids adj = \<Union> (set ` snd ` set adj)"

lemma neighbours_linked: "set (neighbours adj x) \<subseteq> linked_ids adj"
proof (cases "map_of adj x")
  case None
  then show ?thesis by (simp add: neighbours_def)
next
  case (Some ys)
  then have "(x, ys) \<in> set adj" by (rule map_of_SomeD)
  with Some show ?thesis by (auto simp: neighbours_def linked_ids_def intro!: rev_bexI [of "(x, ys)"])
qed

lemma finite_linked [simp]: "finite (linked_ids adj)"
  by (auto simp: linked_ids_def)

function bfs :: "adjacency \<Rightarrow> pystr list \<Rightarrow> pystr list \<Rightarrow> pystr list" where
  "bfs adj [] seen = seen"
| "bfs adj (cur # queue) seen =
     (case enqueue_new (neighbours adj cur) (seen, queue) of (seen', queue') \<Rightarrow> bfs adj queue' seen')"
  by pat_completeness auto

termination
proof (relation "measures [\<lambda>(adj, q, seen). card (linked_ids adj - set seen), \<lambda>(adj, q, seen). length q]",
    goal_cases)
  case 1
  show ?case by simp
next
  case (2 adj cur queue seen seen' queue')
  then have "enqueue_new (neighbours adj cur) (seen, queue) = (seen', queue')" by simp
  from enqueue_new_spec [OF this] obtain new where
    s: "set seen' = set seen \<union> set (neighbours adj cur)" and
    q: "queue' = queue @ new" "set new = set (neighbours adj cur) - set seen" by auto
  show ?case
  proof (cases "new = []")
    case True
    with q s have "set seen' = set seen" by auto
    with q True show ?thesis by simp
  next
    case False
    then obtain y where "y \<in> set new" by (cases new) auto
    with q neighbours_linked [of adj cur] have "y \<in> linked_ids adj - set seen" "y \<in> set seen'"
      using s by auto
    then have "linked_ids adj - set seen' \<subset> linked_ids adj - set seen"
      using s by auto
    then have "card (linked_ids adj - set seen') < card (linked_ids adj - set seen)"
      by (rule psubset_card_mono [rotated]) simp
    then show ?thesis by simp
  qed
qed

definition is_connected :: "link_graph \<Rightarrow> bool" where
  "is_connected g = (case keys g of
     [] \<Rightarrow> False
   | start # _ \<Rightarrow> length (bfs (adjacency_of g) [start] [start]) = length g)"

definition adj_rel :: "adjacency \<Rightarrow> (pystr \<times> pystr) set" where
  "adj_rel adj = {(x, y). y \<in> set (neighbours adj x)}"

text \<open>The search returns the nodes reachable from the seen ones, each once.\<close>

lemma bfs_seen: "set seen \<subseteq> set (bfs adj q seen)"
proof (induction adj q seen rule: bfs.induct)
  case (2 adj cur queue seen)
  obtain s q where e: "enqueue_new (neighbours adj cur) (seen, queue) = (s, q)"
    by (cases "enqueue_new (neighbours adj cur) (seen, queue)") auto
  with 2 enqueue_new_spec [OF e] show ?case by auto
qed simp

lemma bfs_distinct: "distinct seen \<Longrightarrow> distinct (bfs adj q seen)"
proof (induction adj q seen rule: bfs.induct)
  case (2 adj cur queue seen)
  obtain s q where e: "enqueue_new (neighbours adj cur) (seen, queue) = (s, q)"
    by (cases "enqueue_new (neighbours adj cur) (seen, queue)") auto
  with 2 enqueue_new_spec [OF e] show ?case by simp
qed simp

lemma bfs_sound:
  "set seen \<subseteq> R \<Longrightarrow> set q \<subseteq> R \<Longrightarrow> adj_rel adj `` R \<subseteq> R \<Longrightarrow> set (bfs adj q seen) \<subseteq> R"
proof (induction adj q seen rule: bfs.induct)
  case (2 adj cur queue seen)
  obtain s q where e: "enqueue_new (neighbours adj cur) (seen, queue) = (s, q)"
    by (cases "enqueue_new (neighbours adj cur) (seen, queue)") auto
  have "set (neighbours adj cur) \<subseteq> R" using 2(3,4) by (auto simp: adj_rel_def)
  moreover have "set s \<subseteq> R \<and> set q \<subseteq> R"
    using calculation 2(2,3) enqueue_new_spec [OF e] by auto
  ultimately show ?case using 2(1) [OF e [symmetric]] 2(4) e by simp
qed simp

lemma bfs_closed:
  "set q \<subseteq> set seen \<Longrightarrow> \<forall>x \<in> set seen - set q. set (neighbours adj x) \<subseteq> set seen \<Longrightarrow>
     x \<in> set (bfs adj q seen) \<Longrightarrow> set (neighbours adj x) \<subseteq> set (bfs adj q seen)"
proof (induction adj q seen rule: bfs.induct)
  case (2 adj cur queue seen)
  obtain s q where e: "enqueue_new (neighbours adj cur) (seen, queue) = (s, q)"
    by (cases "enqueue_new (neighbours adj cur) (seen, queue)") auto
  from enqueue_new_spec [OF e] obtain new where
    s: "set s = set seen \<union> set (neighbours adj cur)" and
    q: "q = queue @ new" "set new = set (neighbours adj cur) - set seen" by auto
  have "set q \<subseteq> set s" using q s 2(2) by auto
  moreover have "\<forall>x \<in> set s - set q. set (neighbours adj x) \<subseteq> set s"
    using q s 2(3) by auto
  ultimately show ?case using 2(1) [OF e [symmetric]] 2(4) e by simp
qed simp

lemma bfs_reachable: "set (bfs adj [start] [start]) = (adj_rel adj)\<^sup>* `` {start}"
proof
  show "set (bfs adj [start] [start]) \<subseteq> (adj_rel adj)\<^sup>* `` {start}"
    by (rule bfs_sound) (auto intro: rtrancl_into_rtrancl)
  have "y \<in> set (bfs adj [start] [start])" if "(start, y) \<in> (adj_rel adj)\<^sup>*" for y
    using that
  proof (induction rule: rtrancl_induct)
    case base
    show ?case using bfs_seen [of "[start]" adj "[start]"] by simp
  next
    case (step y z)
    then show ?case using bfs_closed [of "[start]" "[start]" adj y] by (auto simp: adj_rel_def)
  qed
  then show "(adj_rel adj)\<^sup>* `` {start} \<subseteq> set (bfs adj [start] [start])" by auto
qed

definition link_rel :: "link_graph \<Rightarrow> (pystr \<times> pystr) set" where
  "link_rel g = {(x, y). x \<in> set (keys g) \<and> y \<in> set (keys g) \<and>
     (\<exists>ds r. (x, ds, r) \<in> set g \<and> (y \<in> set ds \<or> r = Some y \<and> y \<noteq> []))}"

lemma keys_add_known_link [simp]: "fst ` set (add_known_link a b adj) = fst ` set adj"
  by (simp add: add_known_link_def add_link_def dom_map_entry)

definition both_ways :: "pystr \<Rightarrow> pystr set \<Rightarrow> (pystr \<times> pystr) set" where
  "both_ways a B = {a} \<times> B \<union> B \<times> {a}"

lemma adj_rel_map_entry:
  "adj_rel (AList.map_entry a (List.insert b) adj) =
     (if a \<in> fst ` set adj then insert (a, b) (adj_rel adj) else adj_rel adj)"
proof -
  have "y \<in> set (neighbours (AList.map_entry a (List.insert b) adj) x) \<longleftrightarrow>
      y \<in> set (neighbours adj x) \<or> x = a \<and> y = b \<and> a \<in> fst ` set adj" for x y
    using map_of_eq_None_iff [of adj a]
    by (cases "map_of adj a"; cases "x = a")
      (auto simp: neighbours_def map_of_map_entry split: option.splits)
  then show ?thesis by (auto simp: adj_rel_def)
qed

lemma adj_rel_add_known_link:
  "a \<in> fst ` set adj \<Longrightarrow>
     adj_rel (add_known_link a b adj) = adj_rel adj \<union> both_ways a ({b} \<inter> fst ` set adj)"
  by (auto simp: add_known_link_def add_link_def adj_rel_map_entry dom_map_entry both_ways_def)

lemma fold_add_known_links:
  "a \<in> fst ` set adj \<Longrightarrow>
     fst ` set (fold (add_known_link a) bs adj) = fst ` set adj \<and>
     adj_rel (fold (add_known_link a) bs adj) = adj_rel adj \<union> both_ways a (set bs \<inter> fst ` set adj)"
proof (induction bs arbitrary: adj)
  case Nil
  then show ?case by (simp add: both_ways_def)
next
  case (Cons b bs)
  have "a \<in> fst ` set (add_known_link a b adj)" using Cons.prems by simp
  from Cons.IH [OF this] Cons.prems show ?case
    by (simp add: adj_rel_add_known_link) (auto simp: both_ways_def)
qed

definition names_of :: "pystr list \<times> pystr option \<Rightarrow> pystr set" where
  "names_of e = set (fst e) \<union> {y. snd e = Some y \<and> y \<noteq> []}"

lemma add_links_of_spec:
  assumes "fst e \<in> fst ` set adj"
  shows "fst ` set (add_links_of e adj) = fst ` set adj \<and>
    adj_rel (add_links_of e adj) = adj_rel adj \<union> both_ways (fst e) (names_of (snd e) \<inter> fst ` set adj)"
proof -
  obtain nid deps r where e: "e = (nid, deps, r)" by (cases e) auto
  have f: "fst ` set (fold (add_known_link nid) deps adj) = fst ` set adj"
    "adj_rel (fold (add_known_link nid) deps adj) = adj_rel adj \<union> both_ways nid (set deps \<inter> fst ` set adj)"
    using fold_add_known_links [of nid adj deps] assms e by auto
  show ?thesis
  proof (cases "truthy r")
    case True
    then obtain x where x: "r = Some x" "x \<noteq> []" by (auto simp: truthy_iff)
    have "adj_rel (add_known_link nid x (fold (add_known_link nid) deps adj)) =
        adj_rel adj \<union> both_ways nid (set deps \<inter> fst ` set adj) \<union> both_ways nid ({x} \<inter> fst ` set adj)"
      using adj_rel_add_known_link [of nid "fold (add_known_link nid) deps adj" x] f assms e by simp
    with x f show ?thesis by (auto simp: e names_of_def both_ways_def)
  next
    case False
    then have "\<not> (\<exists>x. r = Some x \<and> x \<noteq> [])" by (simp add: truthy_iff)
    with False f show ?thesis by (auto simp: e names_of_def both_ways_def)
  qed
qed

lemma fold_add_links_of:
  "fst ` set es \<subseteq> fst ` set adj \<Longrightarrow>
     adj_rel (fold add_links_of es adj) =
       adj_rel adj \<union> (\<Union>e \<in> set es. both_ways (fst e) (names_of (snd e) \<inter> fst ` set adj))"
proof (induction es arbitrary: adj)
  case Nil
  then show ?case by simp
next
  case (Cons e es)
  have s: "fst ` set (add_links_of e adj) = fst ` set adj"
    "adj_rel (add_links_of e adj) = adj_rel adj \<union> both_ways (fst e) (names_of (snd e) \<inter> fst ` set adj)"
    using add_links_of_spec [of e adj] Cons.prems by auto
  then have "fst ` set es \<subseteq> fst ` set (add_links_of e adj)" using Cons.prems by auto
  from Cons.IH [OF this] s show ?case by (simp add: Un_assoc)
qed

lemma adj_rel_initial: "adj_rel (map (\<lambda>nid. (nid, [])) ks) = {}"
  by (induction ks) (auto simp: adj_rel_def neighbours_def split: option.splits if_splits)

lemma adj_rel_adjacency_of: "adj_rel (adjacency_of g) = link_rel g \<union> (link_rel g)\<inverse>"
proof -
  have k: "fst ` set (map (\<lambda>nid. (nid, [])) (keys g)) = fst ` set g" by force
  have "adj_rel (adjacency_of g) = (\<Union>e \<in> set g. both_ways (fst e) (names_of (snd e) \<inter> fst ` set g))"
    using fold_add_links_of [of g "map (\<lambda>nid. (nid, [])) (keys g)"]
    by (simp only: k adjacency_of_def adj_rel_initial Un_empty_left subset_refl simp_thms)
  also have "\<dots> = link_rel g \<union> (link_rel g)\<inverse>"
    by (auto simp: link_rel_def names_of_def both_ways_def image_iff) force+
  finally show ?thesis .
qed

lemma is_connected_iff:
  assumes "distinct (keys g)"
  shows "is_connected g \<longleftrightarrow>
    (\<exists>start rest. keys g = start # rest \<and>
       (\<forall>x \<in> set (keys g). (start, x) \<in> (link_rel g \<union> (link_rel g)\<inverse>)\<^sup>*))"
proof (cases "keys g")
  case Nil
  then show ?thesis by (simp add: is_connected_def)
next
  case (Cons start rest)
  let ?R = "link_rel g \<union> (link_rel g)\<inverse>"
  let ?seen = "bfs (adjacency_of g) [start] [start]"
  have seen: "set ?seen = ?R\<^sup>* `` {start}"
    by (simp only: bfs_reachable adj_rel_adjacency_of)
  have "?R `` set (keys g) \<subseteq> set (keys g)" by (auto simp: link_rel_def)
  then have "?R\<^sup>* `` set (keys g) \<subseteq> set (keys g)"
    by (metis Image_closed_trancl subset_refl)
  then have sub: "set ?seen \<subseteq> set (keys g)" using seen Cons by auto
  have "distinct ?seen" by (rule bfs_distinct) simp
  then have "length ?seen = card (set ?seen)" by (rule distinct_card [symmetric])
  moreover have "length g = card (set (keys g))" using distinct_card [OF assms] by simp
  ultimately have "length ?seen = length g \<longleftrightarrow> set ?seen = set (keys g)"
    using sub by (metis List.finite_set card_subset_eq)
  with Cons seen sub show ?thesis by (auto simp: is_connected_def)
qed

lemma dep_rel_written_out:
  "dep_rel g = {(a, b). \<exists>ds. map_of g a = Some ds \<and> b \<in> set ds}"
proof -
  have "b \<in> set (deps_of g a) \<longleftrightarrow> (\<exists>ds. map_of g a = Some ds \<and> b \<in> set ds)" for a b
    by (cases "map_of g a") (simp_all add: deps_of_def)
  then show ?thesis by (simp add: dep_rel_def)
qed

section \<open>Properties\<close>

text \<open>
  C33: the depth-first search reports a cycle exactly when the dependency edges have one: when
  some node reaches itself.
\<close>

theorem has_cycle_correct:
  "has_cycle g \<longleftrightarrow>
     (\<exists>x. (x, x) \<in> {(a, b). \<exists>ds. map_of g a = Some ds \<and> b \<in> set ds}\<^sup>+)"
  unfolding has_cycle_iff dep_rel_written_out ..

text \<open>
  C34: the breadth-first search accepts a graph exactly when every node is linked to the first one
  through dependency and resume edges between known nodes, in either direction.
\<close>

theorem is_connected_correct:
  assumes "distinct (keys g)"
  shows "is_connected g \<longleftrightarrow> g \<noteq> [] \<and>
    (\<forall>x \<in> set (keys g). (hd (keys g), x) \<in> (link_rel g \<union> (link_rel g)\<inverse>)\<^sup>*)"
  using is_connected_iff [OF assms] by (cases "keys g") auto

theorem is_connected_correct_witness:
  "(''a'', ''c'') \<in> (link_rel [(''a'', [''b''], None), (''b'', [], Some ''c''), (''c'', [], None)] \<union>
       (link_rel [(''a'', [''b''], None), (''b'', [], Some ''c''), (''c'', [], None)])\<inverse>)\<^sup>*"
proof -
  have "is_connected [(''a'', [''b''], None), (''b'', [], Some ''c''), (''c'', [], None)]" by code_simp
  then show ?thesis
    using is_connected_correct [of "[(''a'', [''b''], None), (''b'', [], Some ''c''), (''c'', [], None)]"]
    by simp
qed

end
