(* ===== verification/Model_Catalog.thy ===== *)
theory Model_Catalog
  imports Domain
begin

text \<open>
  The model presets of \<open>global_config.py\<close> and their resolution in \<open>model_catalog.py\<close>. The
  configuration file is given by its parsed contents, \<open>None\<close> when there is no file; the packaged
  \<open>default_config.json\<close> is a parameter.
\<close>

datatype provider = Claude | Codex
datatype preset_status = ActivePreset | CompatibilityPreset
datatype timeout_action = Accept | Reject

fun provider_value :: "provider \<Rightarrow> pystr" where
  "provider_value Claude = ''claude''"
| "provider_value Codex = ''codex''"

record model_preset =
  mp_id :: pystr
  mp_label :: pystr
  mp_provider :: provider
  mp_model :: pystr
  mp_description :: pystr
  mp_model_provider :: "pystr option"
  mp_service_tier :: "pystr option"
  mp_reasoning_effort :: "pystr option"
  mp_status :: preset_status
  mp_is_default :: bool

record global_defaults =
  default_preset_id :: pystr
  default_auto_commit :: bool
  default_language :: "pystr option"
  default_concurrency :: nat
  rate_limit_auto_retry :: bool

record tool_request_settings =
  timeout_seconds :: nat
  timeout_action :: timeout_action

record global_config =
  c_defaults :: global_defaults
  c_model_presets :: "model_preset list"
  c_code_review_preset_id :: pystr
  c_tool_requests :: tool_request_settings
  c_sync_remote_url :: "pystr option"

datatype config_issue =
    BadPresetId pystr | LabelRequired | ModelRequired
  | PresetIdsNotUnique | DefaultUnknown | DefaultNotActive | CodeReviewUnknown | CodeReviewNotActive

section \<open>Validation of the configuration\<close>

definition in_range :: "char \<Rightarrow> char \<Rightarrow> char \<Rightarrow> bool" where
  "in_range lo hi c = ((of_char lo :: nat) \<le> of_char c \<and> (of_char c :: nat) \<le> of_char hi)"

definition lower_or_digit :: "char \<Rightarrow> bool" where
  "lower_or_digit c = (in_range CHR ''a'' CHR ''z'' c \<or> in_range CHR ''0'' CHR ''9'' c)"

text \<open>\<open>_PRESET_ID_RE.fullmatch\<close> for \<open>^[a-z0-9][a-z0-9._-]*$\<close>.\<close>

fun preset_id_match :: "pystr \<Rightarrow> bool" where
  "preset_id_match [] = False"
| "preset_id_match (c # cs) =
     (lower_or_digit c \<and> list_all (\<lambda>x. lower_or_digit x \<or> x \<in> set ''._-'') cs)"

definition validate_text :: "model_preset \<Rightarrow> config_issue option" where
  "validate_text p =
     (if \<not> preset_id_match (mp_id p) then Some (BadPresetId (mp_id p))
      else if blank (mp_label p) then Some LabelRequired
      else if blank (mp_model p) then Some ModelRequired
      else None)"

fun first_text_issue :: "model_preset list \<Rightarrow> config_issue option" where
  "first_text_issue [] = None"
| "first_text_issue (p # ps) =
     (case validate_text p of Some e \<Rightarrow> Some e | None \<Rightarrow> first_text_issue ps)"

definition find_preset :: "global_config \<Rightarrow> pystr \<Rightarrow> model_preset option" where
  "find_preset cfg pid = find (\<lambda>p. mp_id p = pid) (c_model_presets cfg)"

definition preset_active :: "global_config \<Rightarrow> pystr \<Rightarrow> bool" where
  "preset_active cfg pid =
     (case find_preset cfg pid of None \<Rightarrow> False | Some p \<Rightarrow> mp_status p = ActivePreset)"

definition validate_catalog :: "global_config \<Rightarrow> config_issue option" where
  "validate_catalog cfg =
     (let ids = map mp_id (c_model_presets cfg); d = default_preset_id (c_defaults cfg);
          r = c_code_review_preset_id cfg
      in if \<not> distinct ids then Some PresetIdsNotUnique
         else if d \<notin> set ids then Some DefaultUnknown
         else if \<not> preset_active cfg d then Some DefaultNotActive
         else if r \<notin> set ids then Some CodeReviewUnknown
         else if \<not> preset_active cfg r then Some CodeReviewNotActive
         else None)"

definition validate_config :: "global_config \<Rightarrow> config_issue + global_config" where
  "validate_config cfg =
     (case first_text_issue (c_model_presets cfg) of
        Some e \<Rightarrow> Inl e
      | None \<Rightarrow> (case validate_catalog cfg of Some e \<Rightarrow> Inl e | None \<Rightarrow> Inr cfg))"

definition load_global_config ::
  "global_config option \<Rightarrow> global_config \<Rightarrow> config_issue + global_config" where
  "load_global_config file packaged =
     validate_config (case file of None \<Rightarrow> packaged | Some cfg \<Rightarrow> cfg)"

text \<open>\<open>save_global_config\<close>: the file after the call, or the file untouched and an error.\<close>

definition save_global_config ::
  "global_config \<Rightarrow> global_config option \<Rightarrow> global_config option \<times> (config_issue + global_config)" where
  "save_global_config cfg file =
     (case validate_config cfg of Inl e \<Rightarrow> (file, Inl e) | Inr v \<Rightarrow> (Some v, Inr v))"

definition ensure_global_config ::
  "global_config \<Rightarrow> global_config option \<Rightarrow> global_config option \<times> (config_issue + unit)" where
  "ensure_global_config packaged file =
     (case load_global_config file packaged of
        Inl e \<Rightarrow> (file, Inl e)
      | Inr cfg \<Rightarrow>
          (case file of
             Some f \<Rightarrow> (file, Inr ())
           | None \<Rightarrow> (case save_global_config cfg file of
                        (f, Inl e) \<Rightarrow> (f, Inl e) | (f, Inr v) \<Rightarrow> (f, Inr ()))))"

definition settings_snapshot :: "model_preset \<Rightarrow> (pystr, json) dict" where
  "settings_snapshot p =
     [(''model_preset_id'', JStr (mp_id p)), (''provider'', JStr (provider_value (mp_provider p))),
      (''model'', JStr (mp_model p))] @
     (case mp_model_provider p of None \<Rightarrow> [] | Some s \<Rightarrow> [(''model_provider'', JStr s)]) @
     (case mp_service_tier p of None \<Rightarrow> [] | Some s \<Rightarrow> [(''service_tier'', JStr s)]) @
     (case mp_reasoning_effort p of None \<Rightarrow> [] | Some s \<Rightarrow> [(''reasoning_effort'', JStr s)])"

section \<open>Resolution of preset ids\<close>

datatype preset_issue = PresetIdRequired | UnknownPreset "pystr option" | CompatibilityOnly pystr

definition default_model_preset_id :: "global_config \<Rightarrow> pystr" where
  "default_model_preset_id cfg = default_preset_id (c_defaults cfg)"

definition default_code_review_model_preset_id :: "global_config \<Rightarrow> pystr" where
  "default_code_review_model_preset_id cfg = c_code_review_preset_id cfg"

definition list_model_presets :: "global_config \<Rightarrow> model_preset list" where
  "list_model_presets cfg =
     map (\<lambda>p. p\<lparr>mp_is_default := (mp_id p = default_preset_id (c_defaults cfg))\<rparr>)
       (c_model_presets cfg)"

definition normalize_model_preset_id :: "global_config \<Rightarrow> pystr option \<Rightarrow> preset_issue + pystr" where
  "normalize_model_preset_id cfg raw =
     (let normalized = strip (or_empty raw)
      in if normalized = [] then Inl PresetIdRequired
         else if normalized \<notin> set (map mp_id (list_model_presets cfg)) then Inl (UnknownPreset raw)
         else Inr normalized)"

text \<open>
  \<open>get_model_preset\<close>: the preset of a normalized id. \<open>next(...)\<close> without a default would raise
  \<open>StopIteration\<close> if no preset matched; that outcome is the inner \<open>None\<close>.
\<close>

definition get_model_preset ::
  "global_config \<Rightarrow> pystr option \<Rightarrow> preset_issue + model_preset option" where
  "get_model_preset cfg raw =
     (case normalize_model_preset_id cfg raw of
        Inl e \<Rightarrow> Inl e
      | Inr pid \<Rightarrow> Inr (find (\<lambda>p. mp_id p = pid) (list_model_presets cfg)))"

definition normalize_active_model_preset_id ::
  "global_config \<Rightarrow> pystr option \<Rightarrow> preset_issue + pystr" where
  "normalize_active_model_preset_id cfg raw =
     (case normalize_model_preset_id cfg raw of
        Inl e \<Rightarrow> Inl e
      | Inr pid \<Rightarrow>
          (case get_model_preset cfg (Some pid) of
             Inl e \<Rightarrow> Inl e
           | Inr None \<Rightarrow> Inl (UnknownPreset (Some pid))
           | Inr (Some p) \<Rightarrow>
               if mp_status p \<noteq> ActivePreset then Inl (CompatibilityOnly pid) else Inr pid))"

definition provider_for_model_preset ::
  "global_config \<Rightarrow> pystr option \<Rightarrow> preset_issue + provider option" where
  "provider_for_model_preset cfg raw =
     (case get_model_preset cfg raw of Inl e \<Rightarrow> Inl e | Inr p \<Rightarrow> Inr (map_option mp_provider p))"

section \<open>Lemmas\<close>

lemma listed_ids [simp]: "map mp_id (list_model_presets cfg) = map mp_id (c_model_presets cfg)"
  by (simp add: list_model_presets_def comp_def)

lemma normalize_Inr:
  "normalize_model_preset_id cfg raw = Inr pid \<longleftrightarrow>
     pid = strip (or_empty raw) \<and> pid \<noteq> [] \<and> pid \<in> set (map mp_id (c_model_presets cfg))"
  unfolding normalize_model_preset_id_def listed_ids by (auto simp: Let_def)

lemma normalize_idem:
  "normalize_model_preset_id cfg raw = Inr pid \<Longrightarrow> normalize_model_preset_id cfg (Some pid) = Inr pid"
  by (auto simp: normalize_Inr)

lemma find_listed:
  "find (\<lambda>p. mp_id p = pid) (list_model_presets cfg) =
     map_option (\<lambda>p. p\<lparr>mp_is_default := (mp_id p = default_preset_id (c_defaults cfg))\<rparr>)
       (find_preset cfg pid)"
proof -
  have "find (\<lambda>p. mp_id p = pid) (map (\<lambda>p. p\<lparr>mp_is_default := (mp_id p = d)\<rparr>) ps) =
     map_option (\<lambda>p. p\<lparr>mp_is_default := (mp_id p = d)\<rparr>) (find (\<lambda>p. mp_id p = pid) ps)" for d ps
    by (induction ps) auto
  then show ?thesis by (simp add: find_preset_def list_model_presets_def)
qed

lemma find_preset_known:
  "pid \<in> set (map mp_id (c_model_presets cfg)) \<Longrightarrow> \<exists>p. find_preset cfg pid = Some p \<and> mp_id p = pid"
  unfolding find_preset_def
  by (cases "find (\<lambda>p. mp_id p = pid) (c_model_presets cfg)")
    (auto simp: find_None_iff find_Some_iff)

lemma get_preset_found:
  assumes "normalize_model_preset_id cfg raw = Inr pid"
  shows "\<exists>p. get_model_preset cfg raw = Inr (Some p) \<and> mp_id p = pid"
proof -
  have "pid \<in> set (map mp_id (c_model_presets cfg))" using assms by (auto simp: normalize_Inr)
  then obtain p where "find_preset cfg pid = Some p" "mp_id p = pid" using find_preset_known by blast
  with assms show ?thesis by (simp add: get_model_preset_def find_listed)
qed

lemma normalize_active_Inr:
  "normalize_active_model_preset_id cfg raw = Inr pid \<longleftrightarrow>
     normalize_model_preset_id cfg raw = Inr pid \<and> preset_active cfg pid"
proof (cases "normalize_model_preset_id cfg raw")
  case (Inl e)
  then show ?thesis by (simp add: normalize_active_model_preset_id_def)
next
  case (Inr q)
  then obtain p where "find_preset cfg q = Some p"
    using find_preset_known [of q cfg] unfolding normalize_Inr by blast
  with Inr normalize_idem [OF Inr] show ?thesis
    by (auto simp: normalize_active_model_preset_id_def get_model_preset_def find_listed
        preset_active_def)
qed

lemma validated_default_active:
  assumes "validate_config cfg = Inr cfg'"
  shows "cfg' = cfg" and "distinct (map mp_id (c_model_presets cfg))"
    and "preset_active cfg (default_model_preset_id cfg)"
    and "preset_active cfg (default_code_review_model_preset_id cfg)"
  using assms
  by (auto simp: validate_config_def validate_catalog_def Let_def default_model_preset_id_def
      default_code_review_model_preset_id_def split: option.splits if_splits)

lemma active_known: "preset_active cfg pid \<Longrightarrow> pid \<in> set (map mp_id (c_model_presets cfg))"
  by (auto simp: preset_active_def find_preset_def find_Some_iff split: option.splits)

lemma lower_or_digit_no_space: "lower_or_digit c \<or> c \<in> set ''._-'' \<Longrightarrow> \<not> py_space c"
  by (auto simp: lower_or_digit_def in_range_def py_space_def Let_def)

lemma rstrip_no_space: "list_all (\<lambda>c. \<not> py_space c) s \<Longrightarrow> rstrip s = s"
proof (induction s)
  case (Cons c s)
  then show ?case by (simp add: rstrip_Cons)
qed simp

lemma preset_id_stripped: "preset_id_match s \<Longrightarrow> strip s = s \<and> s \<noteq> []"
proof (cases s)
  case (Cons c t)
  assume "preset_id_match s"
  then have "\<not> py_space c" "list_all (\<lambda>c. \<not> py_space c) t"
    using Cons lower_or_digit_no_space by (auto simp: list_all_iff)
  then show ?thesis using Cons by (simp add: strip_def lstrip_Cons rstrip_Cons rstrip_no_space)
qed simp

lemma first_text_issue_None: "first_text_issue ps = None \<longleftrightarrow> (\<forall>p \<in> set ps. validate_text p = None)"
  by (induction ps rule: first_text_issue.induct) (auto split: option.splits)

lemma validated_id_stripped:
  assumes "validate_config cfg = Inr cfg'" and "pid \<in> set (map mp_id (c_model_presets cfg'))"
  shows "strip pid = pid" and "pid \<noteq> []"
proof -
  have "first_text_issue (c_model_presets cfg') = None"
    using assms(1) by (auto simp: validate_config_def split: option.splits)
  with assms(2) obtain p where "validate_text p = None" "mp_id p = pid"
    by (auto simp: first_text_issue_None)
  then have "preset_id_match pid" by (auto simp: validate_text_def split: if_splits)
  then show "strip pid = pid" and "pid \<noteq> []" using preset_id_stripped by auto
qed

lemma one_marked:
  "distinct (map mp_id ps) \<Longrightarrow> d \<in> set (map mp_id ps) \<Longrightarrow>
     length (filter mp_is_default (map (\<lambda>p. p\<lparr>mp_is_default := (mp_id p = d)\<rparr>) ps)) = 1"
proof (induction ps)
  case (Cons p ps)
  have none: "filter (mp_is_default \<circ> (\<lambda>p. p\<lparr>mp_is_default := (mp_id p = d)\<rparr>)) qs = []"
    if "d \<notin> mp_id ` set qs" for qs
    using that by (induction qs) auto
  show ?case
  proof (cases "mp_id p = d")
    case True
    then have "d \<notin> mp_id ` set ps" using Cons.prems by auto
    with True none show ?thesis by (simp add: filter_map)
  next
    case False
    with Cons show ?thesis by simp
  qed
qed simp

definition sample_preset :: "pystr \<Rightarrow> preset_status \<Rightarrow> model_preset" where
  "sample_preset pid st = \<lparr>mp_id = pid, mp_label = pid, mp_provider = Claude, mp_model = pid,
     mp_description = [], mp_model_provider = None, mp_service_tier = None,
     mp_reasoning_effort = None, mp_status = st, mp_is_default = False\<rparr>"

definition sample_config :: global_config where
  "sample_config = \<lparr>
     c_defaults = \<lparr>default_preset_id = ''opus'', default_auto_commit = True, default_language = None,
       default_concurrency = 2, rate_limit_auto_retry = False\<rparr>,
     c_model_presets = [sample_preset ''opus'' ActivePreset, sample_preset ''old'' CompatibilityPreset,
       sample_preset ''review'' ActivePreset],
     c_code_review_preset_id = ''review'',
     c_tool_requests = \<lparr>timeout_seconds = 60, timeout_action = Reject\<rparr>, c_sync_remote_url = None\<rparr>"

section \<open>Properties\<close>

text \<open>
  what \<open>normalize_active_model_preset_id\<close> accepts: the stripped id, when it names a preset of
  the catalog whose status is active. The result is a fixed point of the function.
\<close>

theorem normalize_active_exact:
  "(normalize_active_model_preset_id cfg raw = Inr pid \<longleftrightarrow>
      pid = strip (or_empty raw) \<and> pid \<noteq> [] \<and> preset_active cfg pid) \<and>
   (normalize_active_model_preset_id cfg raw = Inr pid \<longrightarrow>
      normalize_active_model_preset_id cfg (Some pid) = Inr pid)"
  using active_known [of cfg pid] by (auto simp: normalize_active_Inr normalize_Inr)

theorem normalize_active_exact_witness:
  "normalize_active_model_preset_id sample_config (Some ''opus'') = Inr ''opus''"
proof -
  have "normalize_active_model_preset_id sample_config (Some '' opus '') = Inr ''opus''" by code_simp
  with normalize_active_exact [of sample_config "Some '' opus ''" "''opus''"] show ?thesis by blast
qed

text \<open>
  C38: whatever configuration loads, its default preset and its code-review preset are ids that
  \<open>normalize_active_model_preset_id\<close> accepts unchanged, and exactly one preset of the listing is
  marked as the default.
\<close>

theorem loaded_defaults_usable:
  assumes "load_global_config file packaged = Inr cfg"
  shows "normalize_active_model_preset_id cfg (Some (default_model_preset_id cfg)) =
      Inr (default_model_preset_id cfg) \<and>
    normalize_active_model_preset_id cfg (Some (default_code_review_model_preset_id cfg)) =
      Inr (default_code_review_model_preset_id cfg) \<and>
    length (filter mp_is_default (list_model_presets cfg)) = 1"
proof -
  obtain raw where v: "validate_config raw = Inr cfg" using assms by (auto simp: load_global_config_def)
  note ok = validated_default_active [OF v]
  have stripped: "normalize_active_model_preset_id cfg (Some pid) = Inr pid" if "preset_active cfg pid" for pid
    using that validated_id_stripped [OF v] active_known [of cfg pid]
    by (auto simp: normalize_active_Inr normalize_Inr)
  have "normalize_active_model_preset_id cfg (Some (default_model_preset_id cfg)) =
      Inr (default_model_preset_id cfg) \<and>
    normalize_active_model_preset_id cfg (Some (default_code_review_model_preset_id cfg)) =
      Inr (default_code_review_model_preset_id cfg)"
    using ok(1,3,4) stripped by auto
  moreover have "distinct (map mp_id (c_model_presets cfg))" "default_model_preset_id cfg \<in> set (map mp_id (c_model_presets cfg))"
    using ok active_known by auto
  then have "length (filter mp_is_default (list_model_presets cfg)) = 1"
    unfolding list_model_presets_def default_model_preset_id_def by (rule one_marked)
  ultimately show ?thesis by simp
qed

theorem loaded_defaults_usable_witness:
  "normalize_active_model_preset_id sample_config (Some ''opus'') = Inr ''opus'' \<and>
   length (filter mp_is_default (list_model_presets sample_config)) = 1"
proof -
  have l: "load_global_config None sample_config = Inr sample_config" by code_simp
  have "default_model_preset_id sample_config = ''opus''" by code_simp
  with loaded_defaults_usable [OF l] show ?thesis by simp
qed

end
