(* ===== verification/Preview.thy ===== *)
theory Preview
  imports Node_Invariants
begin

text \<open>
  The preview contract of \<open>preview.py\<close>: the two strict schemas, parsing with discrimination on
  \<open>state\<close>, the identity check against a node, rendering of a node, and the promotion of a virtual
  preview to a node. A document is the JSON value \<open>json.loads\<close> gives, \<open>None\<close> when it raises; strict
  parsing (\<open>extra="forbid"\<close>, \<open>Literal\<close>, required and optional fields) is written out, with the
  issues in the order pydantic reports them: declared fields first, then unknown keys, and the
  model validator only when there are none.
\<close>

section \<open>Strict field decoding\<close>

datatype loc = Key pystr | Index nat

datatype preview_rule =
    ExecutedNeedsCategory | ExecutedReviewNeedsSubtype | ExecutedSubtypeNotReview
  | ExecutedVerifierSubtype | ExecutedProgrammaticKind | OpNoCategory | OpNoSubtype
  | VerifierNeedsReview | VerifierNeedsProgrammatic | VerifierNeedsBrief | VerifierNoPrompt
  | VerifierNoArtifact | ProgrammaticNeedsVerifier | ReviewNeedsSubtype | ReviewNeedsBrief
  | TargetNeedsCodeReview | ReviewNoArtifact | NonReviewNoSubtype | NonReviewNoBrief
  | CustomNeedsSpec | SpecNeedsCustom

datatype preview_issue =
    InvalidJson
  | NotAnObject
  | MissingField "loc list"
  | BadField "loc list"
  | ExtraField "loc list"
  | RuleViolated preview_rule

type_synonym 'a decoder = "loc list \<Rightarrow> json \<Rightarrow> preview_issue list + 'a"

fun dec_str :: "pystr decoder" where
  "dec_str l (JStr s) = Inr s"
| "dec_str l _ = Inl [BadField l]"

fun dec_literal :: "(pystr \<Rightarrow> 'a option) \<Rightarrow> 'a decoder" where
  "dec_literal member l (JStr s) = (case member s of Some v \<Rightarrow> Inr v | None \<Rightarrow> Inl [BadField l])"
| "dec_literal member l _ = Inl [BadField l]"

fun dec_optional :: "'a decoder \<Rightarrow> 'a option decoder" where
  "dec_optional d l JNull = Inr None"
| "dec_optional d l j = (case d l j of Inl es \<Rightarrow> Inl es | Inr v \<Rightarrow> Inr (Some v))"

fun dec_items :: "'a decoder \<Rightarrow> loc list \<Rightarrow> nat \<Rightarrow> json list \<Rightarrow> preview_issue list + 'a list" where
  "dec_items d l i [] = Inr []"
| "dec_items d l i (j # js) =
     (case (d (l @ [Index i]) j, dec_items d l (Suc i) js) of
        (Inl es, Inl es') \<Rightarrow> Inl (es @ es')
      | (Inl es, Inr _) \<Rightarrow> Inl es
      | (Inr _, Inl es') \<Rightarrow> Inl es'
      | (Inr v, Inr vs) \<Rightarrow> Inr (v # vs))"

fun dec_list :: "'a decoder \<Rightarrow> 'a list decoder" where
  "dec_list d l (JList js) = dec_items d l 0 js"
| "dec_list d l _ = Inl [BadField l]"

text \<open>A declared field: required, or with the value it has when the key is absent.\<close>

definition required :: "(pystr, json) dict \<Rightarrow> loc list \<Rightarrow> pystr \<Rightarrow> 'a decoder \<Rightarrow> preview_issue list + 'a" where
  "required obj l f d =
     (case map_of obj f of None \<Rightarrow> Inl [MissingField (l @ [Key f])] | Some j \<Rightarrow> d (l @ [Key f]) j)"

definition defaulted ::
  "(pystr, json) dict \<Rightarrow> loc list \<Rightarrow> pystr \<Rightarrow> 'a \<Rightarrow> 'a decoder \<Rightarrow> preview_issue list + 'a" where
  "defaulted obj l f v d = (case map_of obj f of None \<Rightarrow> Inr v | Some j \<Rightarrow> d (l @ [Key f]) j)"

definition issues :: "preview_issue list + 'a \<Rightarrow> preview_issue list" where
  "issues r = (case r of Inl es \<Rightarrow> es | Inr _ \<Rightarrow> [])"

definition value_or :: "'a \<Rightarrow> preview_issue list + 'a \<Rightarrow> 'a" where
  "value_or v r = (case r of Inl _ \<Rightarrow> v | Inr x \<Rightarrow> x)"

definition extras :: "(pystr, json) dict \<Rightarrow> loc list \<Rightarrow> pystr list \<Rightarrow> preview_issue list" where
  "extras obj l declared =
     map (\<lambda>k. ExtraField (l @ [Key k])) (filter (\<lambda>k. k \<notin> set declared) (keys obj))"

fun dec_brief :: "review_brief decoder" where
  "dec_brief l (JObj obj) =
     (let a = required obj l ''check_what'' dec_str;
          b = required obj l ''expected'' dec_str;
          c = required obj l ''abnormal'' dec_str;
          es = issues a @ issues b @ issues c @
               extras obj l [''check_what'', ''expected'', ''abnormal'']
      in if es \<noteq> [] then Inl es
         else Inr \<lparr>check_what = value_or [] a, expected = value_or [] b, abnormal = value_or [] c\<rparr>)"
| "dec_brief l _ = Inl [BadField l]"

definition review_target_of :: "pystr \<Rightarrow> review_target option" where
  "review_target_of s = (if s = ''uncommitted'' then Some Uncommitted else None)"

fun dec_target :: "review_target decoder" where
  "dec_target l (JObj obj) =
     (let t = defaulted obj l ''type'' Uncommitted (dec_literal review_target_of);
          es = issues t @ extras obj l [''type'']
      in if es \<noteq> [] then Inl es else Inr (value_or Uncommitted t))"
| "dec_target l _ = Inl [BadField l]"

section \<open>The two schemas\<close>

record executed_preview =
  xp_id :: pystr
  xp_kind :: node_kind
  xp_category :: "category option"
  xp_state :: node_state
  xp_ran_at :: pystr
  xp_lane :: pystr
  xp_motivation :: pystr
  xp_summary :: pystr
  xp_next_implications :: pystr
  xp_artifacts :: "pystr list"
  xp_subtype :: "review_subtype option"

record virtual_preview =
  vp_id :: pystr
  vp_kind :: node_kind
  vp_category :: category
  vp_lane :: pystr
  vp_proposed_by :: pystr
  vp_model_preset_id :: "pystr option"
  vp_motivation :: pystr
  vp_prompt_draft :: pystr
  vp_subtype :: "review_subtype option"
  vp_brief :: "review_brief option"
  vp_review_target :: "review_target option"
  vp_scheduled_deps :: "pystr list"
  vp_artifact_mode :: artifact_mode
  vp_artifact_spec :: "pystr option"
  vp_obsolete_reason :: "pystr option"
  vp_fields_set :: "pystr list"

datatype preview = ExecutedP executed_preview | VirtualP virtual_preview

definition check_executed :: "executed_preview \<Rightarrow> preview_rule option" where
  "check_executed p = first_issue (
     if xp_kind p = Agent \<or> xp_kind p = Verifier then
       [(xp_category p = None, ExecutedNeedsCategory),
        (xp_category p = Some Review \<and> xp_subtype p = None, ExecutedReviewNeedsSubtype),
        (xp_category p \<noteq> Some Review \<and> xp_subtype p \<noteq> None, ExecutedSubtypeNotReview),
        (xp_kind p = Verifier \<and> xp_subtype p \<noteq> Some ProgrammaticReview, ExecutedVerifierSubtype),
        (xp_kind p = Agent \<and> xp_subtype p = Some ProgrammaticReview, ExecutedProgrammaticKind)]
     else
       [(xp_category p \<noteq> None, OpNoCategory), (xp_subtype p \<noteq> None, OpNoSubtype)])"

definition no_artifact :: "virtual_preview \<Rightarrow> bool" where
  "no_artifact p = (vp_artifact_mode p = DefaultArtifact \<and> \<not> truthy (vp_artifact_spec p))"

definition virtual_rules :: "virtual_preview \<Rightarrow> (bool \<times> preview_rule) list" where
  "virtual_rules p =
     (if vp_kind p = Verifier then
        [(vp_category p \<noteq> Review, VerifierNeedsReview),
         (vp_subtype p \<noteq> Some ProgrammaticReview, VerifierNeedsProgrammatic),
         (vp_brief p = None, VerifierNeedsBrief),
         (vp_prompt_draft p \<noteq> [], VerifierNoPrompt),
         (\<not> no_artifact p, VerifierNoArtifact)]
      else
        [(vp_subtype p = Some ProgrammaticReview, ProgrammaticNeedsVerifier)] @
        (if vp_category p = Review then
           [(vp_subtype p = None, ReviewNeedsSubtype),
            (vp_subtype p \<noteq> Some CodeReview \<and> vp_brief p = None, ReviewNeedsBrief),
            (vp_subtype p \<noteq> Some CodeReview \<and> vp_review_target p \<noteq> None, TargetNeedsCodeReview),
            (\<not> no_artifact p, ReviewNoArtifact)]
         else
           [(vp_subtype p \<noteq> None, NonReviewNoSubtype),
            (vp_brief p \<noteq> None, NonReviewNoBrief),
            (vp_review_target p \<noteq> None, TargetNeedsCodeReview)]) @
        (if vp_artifact_mode p = CustomArtifact
         then [(blank (or_empty (vp_artifact_spec p)), CustomNeedsSpec)]
         else [(truthy (vp_artifact_spec p), SpecNeedsCustom)]))"

text \<open>The validator assigns a default \<open>review_target\<close>, which also enters \<open>model_fields_set\<close>.\<close>

definition default_target :: "virtual_preview \<Rightarrow> virtual_preview" where
  "default_target p =
     (if vp_kind p \<noteq> Verifier \<and> vp_category p = Review \<and> vp_subtype p = Some CodeReview \<and>
         vp_review_target p = None
      then p\<lparr>vp_review_target := Some Uncommitted,
             vp_fields_set := List.insert ''review_target'' (vp_fields_set p)\<rparr>
      else p)"

definition check_virtual :: "virtual_preview \<Rightarrow> preview_rule + virtual_preview" where
  "check_virtual p =
     (case first_issue (virtual_rules p) of Some e \<Rightarrow> Inl e | None \<Rightarrow> Inr (default_target p))"

definition executed_state_of :: "pystr \<Rightarrow> node_state option" where
  "executed_state_of = enum_of node_state_value [Done, Error, Cancelled]"

definition virtual_kind_of :: "pystr \<Rightarrow> node_kind option" where
  "virtual_kind_of = enum_of node_kind_value [Agent, Verifier]"

definition executed_fields :: "pystr list" where
  "executed_fields = [''id'', ''kind'', ''category'', ''state'', ''ran_at'', ''lane'', ''motivation'',
     ''summary'', ''next_implications'', ''artifacts'', ''subtype'']"

definition decode_executed :: "(pystr, json) dict \<Rightarrow> preview_issue list + executed_preview" where
  "decode_executed obj =
     (let i = required obj [] ''id'' dec_str;
          k = required obj [] ''kind'' (dec_literal node_kind_of);
          c = defaulted obj [] ''category'' None (dec_optional (dec_literal category_of));
          st = required obj [] ''state'' (dec_literal executed_state_of);
          ra = required obj [] ''ran_at'' dec_str;
          la = required obj [] ''lane'' dec_str;
          mo = required obj [] ''motivation'' dec_str;
          su = required obj [] ''summary'' dec_str;
          ni = required obj [] ''next_implications'' dec_str;
          ar = defaulted obj [] ''artifacts'' [] (dec_list dec_str);
          sb = defaulted obj [] ''subtype'' None (dec_optional (dec_literal subtype_of));
          es = issues i @ issues k @ issues c @ issues st @ issues ra @ issues la @ issues mo @
               issues su @ issues ni @ issues ar @ issues sb @ extras obj [] executed_fields;
          p = \<lparr>xp_id = value_or [] i, xp_kind = value_or Agent k, xp_category = value_or None c,
               xp_state = value_or Done st, xp_ran_at = value_or [] ra, xp_lane = value_or [] la,
               xp_motivation = value_or [] mo, xp_summary = value_or [] su,
               xp_next_implications = value_or [] ni, xp_artifacts = value_or [] ar,
               xp_subtype = value_or None sb\<rparr>
      in if es \<noteq> [] then Inl es
         else (case check_executed p of Some e \<Rightarrow> Inl [RuleViolated e] | None \<Rightarrow> Inr p))"

definition virtual_fields :: "pystr list" where
  "virtual_fields = [''id'', ''kind'', ''category'', ''state'', ''lane'', ''proposed_by'',
     ''model_preset_id'', ''motivation'', ''prompt_draft'', ''subtype'', ''brief'', ''review_target'',
     ''scheduled_deps'', ''artifact_mode'', ''artifact_spec'', ''obsolete_reason'']"

definition virtual_state_of :: "pystr \<Rightarrow> node_state option" where
  "virtual_state_of = enum_of node_state_value [Virtual]"

definition decode_virtual :: "(pystr, json) dict \<Rightarrow> preview_issue list + virtual_preview" where
  "decode_virtual obj =
     (let i = required obj [] ''id'' dec_str;
          k = defaulted obj [] ''kind'' Agent (dec_literal virtual_kind_of);
          c = required obj [] ''category'' (dec_literal category_of);
          st = required obj [] ''state'' (dec_literal virtual_state_of);
          la = required obj [] ''lane'' dec_str;
          pb = required obj [] ''proposed_by'' dec_str;
          mp = defaulted obj [] ''model_preset_id'' None (dec_optional dec_str);
          mo = required obj [] ''motivation'' dec_str;
          pd = defaulted obj [] ''prompt_draft'' [] dec_str;
          sb = defaulted obj [] ''subtype'' None (dec_optional (dec_literal subtype_of));
          br = defaulted obj [] ''brief'' None (dec_optional dec_brief);
          rt = defaulted obj [] ''review_target'' None (dec_optional dec_target);
          sd = defaulted obj [] ''scheduled_deps'' [] (dec_list dec_str);
          am = defaulted obj [] ''artifact_mode'' DefaultArtifact (dec_literal artifact_mode_of);
          as = defaulted obj [] ''artifact_spec'' None (dec_optional dec_str);
          ob = defaulted obj [] ''obsolete_reason'' None (dec_optional dec_str);
          es = issues i @ issues k @ issues c @ issues st @ issues la @ issues pb @ issues mp @
               issues mo @ issues pd @ issues sb @ issues br @ issues rt @ issues sd @ issues am @
               issues as @ issues ob @ extras obj [] virtual_fields;
          p = \<lparr>vp_id = value_or [] i, vp_kind = value_or Agent k, vp_category = value_or Regular c,
               vp_lane = value_or [] la, vp_proposed_by = value_or [] pb,
               vp_model_preset_id = value_or None mp, vp_motivation = value_or [] mo,
               vp_prompt_draft = value_or [] pd, vp_subtype = value_or None sb,
               vp_brief = value_or None br, vp_review_target = value_or None rt,
               vp_scheduled_deps = value_or [] sd, vp_artifact_mode = value_or DefaultArtifact am,
               vp_artifact_spec = value_or None as, vp_obsolete_reason = value_or None ob,
               vp_fields_set = filter (\<lambda>f. f \<in> set (keys obj)) virtual_fields\<rparr>
      in if es \<noteq> [] then Inl es
         else (case check_virtual p of Inl e \<Rightarrow> Inl [RuleViolated e] | Inr q \<Rightarrow> Inr q))"

definition parse_preview :: "json option \<Rightarrow> preview_issue list + preview" where
  "parse_preview doc =
     (case doc of
        None \<Rightarrow> Inl [InvalidJson]
      | Some (JObj obj) \<Rightarrow>
          if map_of obj ''state'' = Some (JStr ''virtual'')
          then (case decode_virtual obj of Inl es \<Rightarrow> Inl es | Inr p \<Rightarrow> Inr (VirtualP p))
          else (case decode_executed obj of Inl es \<Rightarrow> Inl es | Inr p \<Rightarrow> Inr (ExecutedP p))
      | Some _ \<Rightarrow> Inl [NotAnObject])"

section \<open>Agreement with a node\<close>

datatype mismatch = IdDiffers | LaneDiffers | KindDiffers | CategoryDiffers | SubtypeDiffers

definition preview_id :: "preview \<Rightarrow> pystr" where
  "preview_id p = (case p of ExecutedP x \<Rightarrow> xp_id x | VirtualP v \<Rightarrow> vp_id v)"

definition preview_lane :: "preview \<Rightarrow> pystr" where
  "preview_lane p = (case p of ExecutedP x \<Rightarrow> xp_lane x | VirtualP v \<Rightarrow> vp_lane v)"

definition validate_preview_for_node :: "preview \<Rightarrow> node \<Rightarrow> mismatch list" where
  "validate_preview_for_node p n =
     (if preview_id p \<noteq> n_id n then [IdDiffers] else []) @
     (if preview_lane p \<noteq> lane_of n then [LaneDiffers] else []) @
     (case p of
        VirtualP _ \<Rightarrow> []
      | ExecutedP x \<Rightarrow>
          (if xp_kind x \<noteq> n_kind n then [KindDiffers] else []) @
          (if n_kind n \<in> {Agent, Verifier} \<and> xp_category x \<noteq> n_category n
           then [CategoryDiffers] else []) @
          (if n_kind n \<in> {Agent, Verifier} \<and> n_category n = Some Review \<and>
              xp_subtype x \<noteq> n_subtype n
           then [SubtypeDiffers] else []))"

section \<open>Rendering\<close>

text \<open>
  \<open>datetime.fromtimestamp(ts, tz=utc).isoformat(timespec="seconds")\<close>: the proleptic Gregorian date
  of a number of days since 1970-01-01, computed from the 400-year era it falls in.
\<close>

definition civil_date :: "int \<Rightarrow> int \<times> int \<times> int" where
  "civil_date days =
     (let z = days + 719468; era = z div 146097; doe = z mod 146097;
          yoe = (doe - doe div 1460 + doe div 36524 - doe div 146096) div 365;
          doy = doe - (365 * yoe + yoe div 4 - yoe div 100);
          mp = (5 * doy + 2) div 153;
          m = (if mp < 10 then mp + 3 else mp - 9)
      in (yoe + era * 400 + (if m \<le> 2 then 1 else 0), m, doy - (153 * mp + 2) div 5 + 1))"

fun zero_padded :: "nat \<Rightarrow> int \<Rightarrow> pystr" where
  "zero_padded 0 i = []"
| "zero_padded (Suc w) i = zero_padded w (i div 10) @ [char_of (nat (48 + i mod 10))]"

definition iso_format :: "int \<Rightarrow> pystr" where
  "iso_format ts =
     (case civil_date (ts div 86400) of (y, m, d) \<Rightarrow>
        (let r = ts mod 86400 in
         zero_padded 4 y @ ''-'' @ zero_padded 2 m @ ''-'' @ zero_padded 2 d @ ''T'' @
         zero_padded 2 (r div 3600) @ '':'' @ zero_padded 2 (r mod 3600 div 60) @ '':'' @
         zero_padded 2 (r mod 60) @ ''+00:00''))"

text \<open>\<open>_iso\<close>, given what \<open>time.time()\<close> returns, and \<open>node.started_at or node.finished_at\<close>.\<close>

definition iso :: "int \<Rightarrow> int option \<Rightarrow> pystr" where
  "iso now ts = iso_format (case ts of None \<Rightarrow> now | Some t \<Rightarrow> t)"

definition or_time :: "int option \<Rightarrow> int option \<Rightarrow> int option" where
  "or_time a b = (if a = None \<or> a = Some 0 then b else a)"

datatype render_issue =
    CannotRender node_state | NoCategory | MissingSubtype | MissingBrief
  | Invalid "preview_issue list"

definition opt_field :: "pystr \<Rightarrow> ('a \<Rightarrow> json) \<Rightarrow> 'a option \<Rightarrow> (pystr, json) dict" where
  "opt_field k f x = (case x of None \<Rightarrow> [] | Some v \<Rightarrow> [(k, f v)])"

definition strs :: "pystr list \<Rightarrow> json" where
  "strs xs = JList (map JStr xs)"

definition brief_json :: "review_brief \<Rightarrow> json" where
  "brief_json b = JObj [(''check_what'', JStr (check_what b)), (''expected'', JStr (expected b)),
     (''abnormal'', JStr (abnormal b))]"

definition target_json :: "review_target \<Rightarrow> json" where
  "target_json t = JObj [(''type'', JStr ''uncommitted'')]"

text \<open>\<open>model_dump(exclude_none=True)\<close> of the two models, in field order.\<close>

definition dump_executed :: "executed_preview \<Rightarrow> (pystr, json) dict" where
  "dump_executed p =
     [(''id'', JStr (xp_id p)), (''kind'', JStr (node_kind_value (xp_kind p)))] @
     opt_field ''category'' (JStr \<circ> category_value) (xp_category p) @
     [(''state'', JStr (node_state_value (xp_state p))), (''ran_at'', JStr (xp_ran_at p)),
      (''lane'', JStr (xp_lane p)), (''motivation'', JStr (xp_motivation p)),
      (''summary'', JStr (xp_summary p)), (''next_implications'', JStr (xp_next_implications p)),
      (''artifacts'', strs (xp_artifacts p))] @
     opt_field ''subtype'' (JStr \<circ> subtype_value) (xp_subtype p)"

definition dump_virtual :: "virtual_preview \<Rightarrow> (pystr, json) dict" where
  "dump_virtual p =
     [(''id'', JStr (vp_id p)), (''kind'', JStr (node_kind_value (vp_kind p))),
      (''category'', JStr (category_value (vp_category p))), (''state'', JStr ''virtual''),
      (''lane'', JStr (vp_lane p)), (''proposed_by'', JStr (vp_proposed_by p))] @
     opt_field ''model_preset_id'' JStr (vp_model_preset_id p) @
     [(''motivation'', JStr (vp_motivation p)), (''prompt_draft'', JStr (vp_prompt_draft p))] @
     opt_field ''subtype'' (JStr \<circ> subtype_value) (vp_subtype p) @
     opt_field ''brief'' brief_json (vp_brief p) @
     opt_field ''review_target'' target_json (vp_review_target p) @
     [(''scheduled_deps'', strs (vp_scheduled_deps p)),
      (''artifact_mode'', JStr (artifact_mode_value (vp_artifact_mode p)))] @
     opt_field ''artifact_spec'' JStr (vp_artifact_spec p) @
     opt_field ''obsolete_reason'' JStr (vp_obsolete_reason p)"

definition render_executed_preview ::
  "int \<Rightarrow> node \<Rightarrow> pystr \<Rightarrow> pystr \<Rightarrow> pystr \<Rightarrow> pystr list \<Rightarrow> render_issue + json" where
  "render_executed_preview now n motivation summary implications artifacts =
     (if n_state n \<notin> {Done, Error, Cancelled} then Inl (CannotRender (n_state n))
      else
        let payload =
          [(''id'', JStr (n_id n)), (''kind'', JStr (node_kind_value (n_kind n))),
           (''state'', JStr (node_state_value (n_state n))),
           (''ran_at'', JStr (iso now (or_time (n_started_at n) (n_finished_at n)))),
           (''lane'', JStr (lane_of n)), (''motivation'', JStr motivation),
           (''summary'', JStr summary), (''next_implications'', JStr implications),
           (''artifacts'', strs artifacts)] @
          (if n_kind n \<in> {Agent, Verifier} then
             [(''category'',
               JStr (category_value (case n_category n of None \<Rightarrow> Regular | Some c \<Rightarrow> c)))] @
             (if n_category n = Some Review
              then opt_field ''subtype'' (JStr \<circ> subtype_value) (n_subtype n) else [])
           else [])
        in case decode_executed payload of
             Inl es \<Rightarrow> Inl (Invalid es)
           | Inr p \<Rightarrow> Inr (JObj (dump_executed p)))"

definition virtual_payload :: "node \<Rightarrow> category \<Rightarrow> (pystr, json) dict" where
  "virtual_payload n c =
     [(''id'', JStr (n_id n)), (''kind'', JStr (node_kind_value (n_kind n))),
      (''category'', JStr (category_value c)), (''state'', JStr ''virtual''),
      (''lane'', JStr (lane_of n)),
      (''proposed_by'', JStr (if truthy (n_proposed_by n) then or_empty (n_proposed_by n) else ''unknown'')),
      (''model_preset_id'', case n_model_preset_id n of None \<Rightarrow> JNull | Some s \<Rightarrow> JStr s),
      (''motivation'', JStr (or_empty (n_summary n))),
      (''prompt_draft'', JStr (or_empty (n_prompt_draft n))),
      (''scheduled_deps'', strs (n_scheduled_deps n))] @
     (if c = Review then
        opt_field ''subtype'' (JStr \<circ> subtype_value) (n_subtype n) @
        opt_field ''brief'' brief_json (n_brief n) @
        opt_field ''review_target'' target_json (n_review_target n)
      else []) @
     (if n_artifact_mode n \<noteq> DefaultArtifact then
        [(''artifact_mode'', JStr (artifact_mode_value (n_artifact_mode n)))] @
        (if n_artifact_spec n \<noteq> [] then [(''artifact_spec'', JStr (n_artifact_spec n))] else [])
      else []) @
     opt_field ''obsolete_reason'' JStr (n_obsolete_reason n)"

definition render_virtual_preview :: "node \<Rightarrow> render_issue + json" where
  "render_virtual_preview n =
     (if n_state n \<noteq> Virtual then Inl (CannotRender (n_state n))
      else case n_category n of
        None \<Rightarrow> Inl NoCategory
      | Some c \<Rightarrow>
          if c = Review \<and> n_subtype n = None then Inl MissingSubtype
          else if c = Review \<and> n_subtype n \<noteq> Some CodeReview \<and> n_brief n = None then Inl MissingBrief
          else
            (let payload = virtual_payload n c in
             case decode_virtual payload of
               Inl es \<Rightarrow> Inl (Invalid es)
             | Inr p \<Rightarrow>
                 Inr (JObj (if ''artifact_mode'' \<in> set (keys payload) then dump_virtual p
                            else AList.delete ''artifact_mode'' (dump_virtual p)))))"

section \<open>Promotion to a node\<close>

definition virtual_preview_to_node ::
  "virtual_preview \<Rightarrow> pystr \<Rightarrow> pystr \<Rightarrow> int \<Rightarrow> pystr option \<Rightarrow> pystr option \<Rightarrow>
     (artifact_mode \<times> pystr) option \<Rightarrow> node_issue + node" where
  "virtual_preview_to_node p pid canonical_id now script preset_override artifact_override =
     check_invariants ((default_node pid canonical_id now)\<lparr>
       n_kind := vp_kind p,
       n_state := Virtual,
       n_planspace_id := (if vp_lane p = [] then None else Some (vp_lane p)),
       n_model_preset_id :=
         (case preset_override of Some m \<Rightarrow> Some m | None \<Rightarrow> vp_model_preset_id p),
       n_prompt_draft := Some (vp_prompt_draft p),
       n_category := Some (vp_category p),
       n_subtype := vp_subtype p,
       n_brief := vp_brief p,
       n_review_target := vp_review_target p,
       n_scheduled_deps := vp_scheduled_deps p,
       n_verify_script_ref := script,
       n_proposed_by := Some (vp_proposed_by p),
       n_obsolete_reason := vp_obsolete_reason p,
       n_summary := Some (vp_motivation p),
       n_artifact_mode :=
         (case artifact_override of Some (m, _) \<Rightarrow> m | None \<Rightarrow> vp_artifact_mode p),
       n_artifact_spec :=
         (case artifact_override of Some (_, spec) \<Rightarrow> spec | None \<Rightarrow> or_empty (vp_artifact_spec p))\<rparr>)"

section \<open>Printing and parsing\<close>

lemma decoded [simp]:
  "issues (Inr v) = []" "issues (Inl es) = es" "value_or d (Inr v) = v"
  by (simp_all add: issues_def value_or_def)

lemma dec_strs [simp]: "dec_list dec_str l (strs xs) = Inr xs"
proof -
  have "dec_items dec_str l i (map JStr xs) = Inr xs" for i
    by (induction xs arbitrary: i) simp_all
  then show ?thesis by (simp add: strs_def)
qed

lemma dec_literal_Some [simp]: "member s = Some v \<Longrightarrow> dec_literal member l (JStr s) = Inr v"
  by simp

lemma dec_brief_json [simp]: "dec_brief l (brief_json b) = Inr b"
  by (simp add: brief_json_def required_def extras_def)

lemma dec_target_json [simp]: "dec_target l (target_json t) = Inr t"
  by (cases t) (simp add: target_json_def defaulted_def extras_def review_target_of_def)

lemma dec_optional_present [simp]:
  "dec_optional d l (JStr s) = (case d l (JStr s) of Inl es \<Rightarrow> Inl es | Inr v \<Rightarrow> Inr (Some v))"
  "dec_optional dec_brief l (brief_json b) = Inr (Some b)"
  "dec_optional dec_target l (target_json t) = Inr (Some t)"
  using dec_brief_json [of l b] dec_target_json [of l t]
  by (simp_all add: brief_json_def target_json_def del: dec_brief.simps dec_target.simps)

lemma map_of_opt_field [simp]:
  "map_of (opt_field k f x) k' = (if k = k' then map_option f x else None)"
  by (cases x) (auto simp: opt_field_def)

lemma state_values [simp]:
  "virtual_state_of ''virtual'' = Some Virtual"
  by (simp add: virtual_state_of_def enum_of_def)

lemma executed_state_value [simp]: "terminal s \<Longrightarrow> executed_state_of (node_state_value s) = Some s"
  by (cases s) (simp_all add: executed_state_of_def enum_of_def)

lemma virtual_kind_value [simp]: "k \<noteq> Op \<Longrightarrow> virtual_kind_of (node_kind_value k) = Some k"
  by (cases k) (simp_all add: virtual_kind_of_def enum_of_def)

lemma decode_virtualI:
  assumes "set (keys obj) \<subseteq> set virtual_fields"
    and "required obj [] ''id'' dec_str = Inr (vp_id p)"
    and "defaulted obj [] ''kind'' Agent (dec_literal virtual_kind_of) = Inr (vp_kind p)"
    and "required obj [] ''category'' (dec_literal category_of) = Inr (vp_category p)"
    and "required obj [] ''state'' (dec_literal virtual_state_of) = Inr Virtual"
    and "required obj [] ''lane'' dec_str = Inr (vp_lane p)"
    and "required obj [] ''proposed_by'' dec_str = Inr (vp_proposed_by p)"
    and "defaulted obj [] ''model_preset_id'' None (dec_optional dec_str) = Inr (vp_model_preset_id p)"
    and "required obj [] ''motivation'' dec_str = Inr (vp_motivation p)"
    and "defaulted obj [] ''prompt_draft'' [] dec_str = Inr (vp_prompt_draft p)"
    and "defaulted obj [] ''subtype'' None (dec_optional (dec_literal subtype_of)) = Inr (vp_subtype p)"
    and "defaulted obj [] ''brief'' None (dec_optional dec_brief) = Inr (vp_brief p)"
    and "defaulted obj [] ''review_target'' None (dec_optional dec_target) = Inr (vp_review_target p)"
    and "defaulted obj [] ''scheduled_deps'' [] (dec_list dec_str) = Inr (vp_scheduled_deps p)"
    and "defaulted obj [] ''artifact_mode'' DefaultArtifact (dec_literal artifact_mode_of) =
           Inr (vp_artifact_mode p)"
    and "defaulted obj [] ''artifact_spec'' None (dec_optional dec_str) = Inr (vp_artifact_spec p)"
    and "defaulted obj [] ''obsolete_reason'' None (dec_optional dec_str) = Inr (vp_obsolete_reason p)"
    and "check_virtual (p\<lparr>vp_fields_set := filter (\<lambda>f. f \<in> set (keys obj)) virtual_fields\<rparr>) = Inr q"
  shows "decode_virtual obj = Inr q"
proof -
  have "extras obj [] virtual_fields = []"
    using assms(1) by (auto simp: extras_def filter_empty_conv)
  moreover have e: "p\<lparr>vp_fields_set := filter (\<lambda>f. f \<in> set (keys obj)) virtual_fields\<rparr> =
      \<lparr>vp_id = vp_id p, vp_kind = vp_kind p, vp_category = vp_category p, vp_lane = vp_lane p,
       vp_proposed_by = vp_proposed_by p, vp_model_preset_id = vp_model_preset_id p,
       vp_motivation = vp_motivation p, vp_prompt_draft = vp_prompt_draft p,
       vp_subtype = vp_subtype p, vp_brief = vp_brief p, vp_review_target = vp_review_target p,
       vp_scheduled_deps = vp_scheduled_deps p, vp_artifact_mode = vp_artifact_mode p,
       vp_artifact_spec = vp_artifact_spec p, vp_obsolete_reason = vp_obsolete_reason p,
       vp_fields_set = filter (\<lambda>f. f \<in> set (keys obj)) virtual_fields\<rparr>"
    by (cases p) simp
  ultimately show ?thesis
    using assms(18) [unfolded e] unfolding decode_virtual_def Let_def assms(2-17) by simp
qed

lemma check_virtual_fields_set:
  assumes "check_virtual p = Inr p"
  shows "check_virtual (p\<lparr>vp_fields_set := fs\<rparr>) = Inr (p\<lparr>vp_fields_set := fs\<rparr>)"
proof -
  have "virtual_rules (p\<lparr>vp_fields_set := fs\<rparr>) = virtual_rules p"
    by (simp add: virtual_rules_def no_artifact_def)
  moreover have "default_target (p\<lparr>vp_fields_set := fs\<rparr>) = p\<lparr>vp_fields_set := fs\<rparr>"
    using assms by (cases p) (auto simp: check_virtual_def default_target_def split: option.splits if_splits)
  ultimately show ?thesis
    using assms by (simp add: check_virtual_def split: option.splits)
qed

definition shown_virtual :: "virtual_preview \<Rightarrow> bool \<Rightarrow> (pystr, json) dict" where
  "shown_virtual p with_mode =
     (if with_mode then dump_virtual p else AList.delete ''artifact_mode'' (dump_virtual p))"


lemma shown_virtual_keys: "set (keys (shown_virtual p w)) \<subseteq> set virtual_fields"
proof -
  have "set (keys (dump_virtual p)) \<subseteq> set virtual_fields"
    by (auto simp: dump_virtual_def virtual_fields_def opt_field_def split: option.splits)
  then show ?thesis
    by (auto simp: shown_virtual_def AList.delete_eq)
qed

lemma shown_virtual_lookup:
  "map_of (shown_virtual p w) ''id'' = Some (JStr (vp_id p))"
  "map_of (shown_virtual p w) ''kind'' = Some (JStr (node_kind_value (vp_kind p)))"
  "map_of (shown_virtual p w) ''category'' = Some (JStr (category_value (vp_category p)))"
  "map_of (shown_virtual p w) ''state'' = Some (JStr ''virtual'')"
  "map_of (shown_virtual p w) ''lane'' = Some (JStr (vp_lane p))"
  "map_of (shown_virtual p w) ''proposed_by'' = Some (JStr (vp_proposed_by p))"
  "map_of (shown_virtual p w) ''model_preset_id'' = map_option JStr (vp_model_preset_id p)"
  "map_of (shown_virtual p w) ''motivation'' = Some (JStr (vp_motivation p))"
  "map_of (shown_virtual p w) ''prompt_draft'' = Some (JStr (vp_prompt_draft p))"
  "map_of (shown_virtual p w) ''subtype'' = map_option (JStr \<circ> subtype_value) (vp_subtype p)"
  "map_of (shown_virtual p w) ''brief'' = map_option brief_json (vp_brief p)"
  "map_of (shown_virtual p w) ''review_target'' = map_option target_json (vp_review_target p)"
  "map_of (shown_virtual p w) ''scheduled_deps'' = Some (strs (vp_scheduled_deps p))"
  "map_of (shown_virtual p w) ''artifact_mode'' =
     (if w then Some (JStr (artifact_mode_value (vp_artifact_mode p))) else None)"
  "map_of (shown_virtual p w) ''artifact_spec'' = map_option JStr (vp_artifact_spec p)"
  "map_of (shown_virtual p w) ''obsolete_reason'' = map_option JStr (vp_obsolete_reason p)"
  by (simp_all add: shown_virtual_def dump_virtual_def map_add_def split: option.split)

lemma decode_dump_virtual:
  assumes "check_virtual p = Inr p" and "vp_kind p \<noteq> Op"
    and "w \<or> vp_artifact_mode p = DefaultArtifact"
  shows "\<exists>fs. decode_virtual (shown_virtual p w) = Inr (p\<lparr>vp_fields_set := fs\<rparr>)"
proof -
  let ?fs = "filter (\<lambda>f. f \<in> set (keys (shown_virtual p w))) virtual_fields"
  have "decode_virtual (shown_virtual p w) = Inr (p\<lparr>vp_fields_set := ?fs\<rparr>)"
  proof (rule decode_virtualI [of _ p])
    show "check_virtual (p\<lparr>vp_fields_set := ?fs\<rparr>) = Inr (p\<lparr>vp_fields_set := ?fs\<rparr>)"
      using assms(1) by (rule check_virtual_fields_set)
  qed (use assms(2,3) shown_virtual_keys in
      \<open>auto simp: required_def defaulted_def shown_virtual_lookup split: option.split\<close>)
  then show ?thesis by blast
qed

lemma executed_keys: "set (keys (dump_executed p)) \<subseteq> set executed_fields"
  by (auto simp: dump_executed_def executed_fields_def opt_field_def split: option.splits)

lemma dump_executed_lookup:
  "map_of (dump_executed p) ''id'' = Some (JStr (xp_id p))"
  "map_of (dump_executed p) ''kind'' = Some (JStr (node_kind_value (xp_kind p)))"
  "map_of (dump_executed p) ''category'' = map_option (JStr \<circ> category_value) (xp_category p)"
  "map_of (dump_executed p) ''state'' = Some (JStr (node_state_value (xp_state p)))"
  "map_of (dump_executed p) ''ran_at'' = Some (JStr (xp_ran_at p))"
  "map_of (dump_executed p) ''lane'' = Some (JStr (xp_lane p))"
  "map_of (dump_executed p) ''motivation'' = Some (JStr (xp_motivation p))"
  "map_of (dump_executed p) ''summary'' = Some (JStr (xp_summary p))"
  "map_of (dump_executed p) ''next_implications'' = Some (JStr (xp_next_implications p))"
  "map_of (dump_executed p) ''artifacts'' = Some (strs (xp_artifacts p))"
  "map_of (dump_executed p) ''subtype'' = map_option (JStr \<circ> subtype_value) (xp_subtype p)"
  by (simp_all add: dump_executed_def map_add_def split: option.split)

lemma decode_executedI:
  assumes "set (keys obj) \<subseteq> set executed_fields"
    and "required obj [] ''id'' dec_str = Inr (xp_id p)"
    and "required obj [] ''kind'' (dec_literal node_kind_of) = Inr (xp_kind p)"
    and "defaulted obj [] ''category'' None (dec_optional (dec_literal category_of)) = Inr (xp_category p)"
    and "required obj [] ''state'' (dec_literal executed_state_of) = Inr (xp_state p)"
    and "required obj [] ''ran_at'' dec_str = Inr (xp_ran_at p)"
    and "required obj [] ''lane'' dec_str = Inr (xp_lane p)"
    and "required obj [] ''motivation'' dec_str = Inr (xp_motivation p)"
    and "required obj [] ''summary'' dec_str = Inr (xp_summary p)"
    and "required obj [] ''next_implications'' dec_str = Inr (xp_next_implications p)"
    and "defaulted obj [] ''artifacts'' [] (dec_list dec_str) = Inr (xp_artifacts p)"
    and "defaulted obj [] ''subtype'' None (dec_optional (dec_literal subtype_of)) = Inr (xp_subtype p)"
    and "check_executed p = None"
  shows "decode_executed obj = Inr p"
proof -
  have "extras obj [] executed_fields = []"
    using assms(1) by (auto simp: extras_def filter_empty_conv)
  then show ?thesis
    using assms(2-13) by (cases p) (simp add: decode_executed_def)
qed

lemma decode_dump_executed:
  assumes "check_executed p = None" and "terminal (xp_state p)"
  shows "decode_executed (dump_executed p) = Inr p"
  by (rule decode_executedI)
    (use assms executed_keys in \<open>auto simp: required_def defaulted_def dump_executed_lookup
       split: option.split\<close>)

section \<open>Every well-formed node renders\<close>

definition shown_node :: "node \<Rightarrow> category \<Rightarrow> virtual_preview" where
  "shown_node n c = \<lparr>
     vp_id = n_id n, vp_kind = n_kind n, vp_category = c, vp_lane = lane_of n,
     vp_proposed_by = (if truthy (n_proposed_by n) then or_empty (n_proposed_by n) else ''unknown''),
     vp_model_preset_id = n_model_preset_id n, vp_motivation = or_empty (n_summary n),
     vp_prompt_draft = or_empty (n_prompt_draft n),
     vp_subtype = (if c = Review then n_subtype n else None),
     vp_brief = (if c = Review then n_brief n else None),
     vp_review_target = (if c = Review then n_review_target n else None),
     vp_scheduled_deps = n_scheduled_deps n, vp_artifact_mode = n_artifact_mode n,
     vp_artifact_spec = (if n_artifact_mode n \<noteq> DefaultArtifact \<and> n_artifact_spec n \<noteq> []
       then Some (n_artifact_spec n) else None),
     vp_obsolete_reason = n_obsolete_reason n, vp_fields_set = []\<rparr>"

lemma virtual_payload_keys: "set (keys (virtual_payload n c)) \<subseteq> set virtual_fields"
  by (auto simp: virtual_payload_def virtual_fields_def opt_field_def split: option.splits)

lemma virtual_payload_lookup:
  "map_of (virtual_payload n c) ''id'' = Some (JStr (n_id n))"
  "map_of (virtual_payload n c) ''kind'' = Some (JStr (node_kind_value (n_kind n)))"
  "map_of (virtual_payload n c) ''category'' = Some (JStr (category_value c))"
  "map_of (virtual_payload n c) ''state'' = Some (JStr ''virtual'')"
  "map_of (virtual_payload n c) ''lane'' = Some (JStr (lane_of n))"
  "map_of (virtual_payload n c) ''proposed_by'' = Some (JStr (vp_proposed_by (shown_node n c)))"
  "map_of (virtual_payload n c) ''model_preset_id'' =
     Some (case n_model_preset_id n of None \<Rightarrow> JNull | Some s \<Rightarrow> JStr s)"
  "map_of (virtual_payload n c) ''motivation'' = Some (JStr (or_empty (n_summary n)))"
  "map_of (virtual_payload n c) ''prompt_draft'' = Some (JStr (or_empty (n_prompt_draft n)))"
  "map_of (virtual_payload n c) ''scheduled_deps'' = Some (strs (n_scheduled_deps n))"
  by (simp_all add: virtual_payload_def map_add_def shown_node_def split: option.split)

lemma virtual_payload_lookup_optional:
  "map_of (virtual_payload n c) ''subtype'' =
     map_option (JStr \<circ> subtype_value) (vp_subtype (shown_node n c))"
  "map_of (virtual_payload n c) ''brief'' = map_option brief_json (vp_brief (shown_node n c))"
  "map_of (virtual_payload n c) ''review_target'' =
     map_option target_json (vp_review_target (shown_node n c))"
  "map_of (virtual_payload n c) ''artifact_mode'' = (if n_artifact_mode n = DefaultArtifact then None
     else Some (JStr (artifact_mode_value (n_artifact_mode n))))"
  "map_of (virtual_payload n c) ''artifact_spec'' = map_option JStr (vp_artifact_spec (shown_node n c))"
  "map_of (virtual_payload n c) ''obsolete_reason'' = map_option JStr (n_obsolete_reason n)"
  by (simp_all add: virtual_payload_def map_add_def shown_node_def split: option.split)

lemma decode_payload:
  assumes "check_virtual (shown_node n c) = Inr (shown_node n c)" and "n_kind n \<noteq> Op"
  shows "\<exists>fs. decode_virtual (virtual_payload n c) = Inr ((shown_node n c)\<lparr>vp_fields_set := fs\<rparr>)"
proof -
  let ?fs = "filter (\<lambda>f. f \<in> set (keys (virtual_payload n c))) virtual_fields"
  have "decode_virtual (virtual_payload n c) = Inr ((shown_node n c)\<lparr>vp_fields_set := ?fs\<rparr>)"
  proof (rule decode_virtualI [of _ "shown_node n c"])
    show "check_virtual ((shown_node n c)\<lparr>vp_fields_set := ?fs\<rparr>) =
        Inr ((shown_node n c)\<lparr>vp_fields_set := ?fs\<rparr>)"
      using assms(1) by (rule check_virtual_fields_set)
  qed (use assms(2) virtual_payload_keys in
      \<open>auto simp: required_def defaulted_def virtual_payload_lookup virtual_payload_lookup_optional
         shown_node_def split: option.split\<close>)
  then show ?thesis by blast
qed

lemma agent_review_fields:
  assumes "agent_wf n" and "n_category n = Some Review"
  shows "n_subtype n \<noteq> None" "n_subtype n \<noteq> Some ProgrammaticReview"
    "n_subtype n = Some CodeReview \<Longrightarrow> n_review_target n \<noteq> None"
    "n_subtype n \<noteq> Some CodeReview \<Longrightarrow> n_brief n \<noteq> None \<and> n_review_target n = None"
  using assms by (auto simp: agent_wf_def)

lemma shown_artifact_rules:
  assumes "artifact_ok n" and "n_category n = Some c"
  shows "c = Review \<or> n_kind n \<noteq> Agent \<Longrightarrow> no_artifact (shown_node n c)"
    and "vp_artifact_mode (shown_node n c) = CustomArtifact \<Longrightarrow>
           \<not> blank (or_empty (vp_artifact_spec (shown_node n c)))"
    and "vp_artifact_mode (shown_node n c) \<noteq> CustomArtifact \<Longrightarrow>
           \<not> truthy (vp_artifact_spec (shown_node n c))"
  using assms
  by (cases "n_artifact_mode n"; auto simp: artifact_ok_def shown_node_def no_artifact_def)+

lemma shown_simps [simp]:
  "vp_kind (shown_node n c) = n_kind n" "vp_category (shown_node n c) = c"
  "vp_subtype (shown_node n c) = (if c = Review then n_subtype n else None)"
  "vp_brief (shown_node n c) = (if c = Review then n_brief n else None)"
  "vp_review_target (shown_node n c) = (if c = Review then n_review_target n else None)"
  "vp_prompt_draft (shown_node n c) = or_empty (n_prompt_draft n)"
  by (simp_all add: shown_node_def)

lemma default_target_id:
  "vp_kind p = Verifier \<or> vp_category p \<noteq> Review \<or> vp_subtype p \<noteq> Some CodeReview \<or>
     vp_review_target p \<noteq> None \<Longrightarrow> default_target p = p"
  by (auto simp: default_target_def)

lemma wf_shown_checks:
  assumes "node_wf n" and c: "n_category n = Some c" and "n_kind n \<noteq> Op"
  shows "check_virtual (shown_node n c) = Inr (shown_node n c)"
proof -
  have art: "artifact_ok n" using assms(1) by (simp add: node_wf_def)
  note rules = shown_artifact_rules [OF art c]
  have "passes (virtual_rules (shown_node n c)) \<and> (n_kind n = Verifier \<or> c \<noteq> Review \<or>
      n_subtype n \<noteq> Some CodeReview \<or> n_review_target n \<noteq> None)"
  proof (cases "n_kind n")
    case Agent
    then have "agent_wf n" using assms(1) by (simp add: node_wf_def)
    note w = agent_review_fields [OF this]
    show ?thesis
    proof (cases "c = Review")
      case True
      with c have r: "n_category n = Some Review" by simp
      show ?thesis using Agent True rules w(1,2) [OF r] w(3,4) [OF r]
        by (cases "n_subtype n = Some CodeReview")
          (simp_all add: virtual_rules_def )
    next
      case False
      with Agent rules show ?thesis by (simp add: virtual_rules_def )
    qed
  next
    case Verifier
    then have "c = Review" "n_subtype n = Some ProgrammaticReview" "n_brief n \<noteq> None"
      "\<not> truthy (n_prompt_draft n)"
      using assms(1) c by (simp_all add: node_wf_def)
    then show ?thesis using Verifier rules
      by (auto simp: virtual_rules_def  truthy_def)
  qed (use assms in simp)
  then show ?thesis
    using first_issue_passes [of "virtual_rules (shown_node n c)"] default_target_id [of "shown_node n c"]
    by (auto simp: check_virtual_def)
qed

lemma render_virtual_total:
  assumes "node_wf n" and "n_state n = Virtual" and "n_kind n \<noteq> Op" and c: "n_category n = Some c"
  shows "\<exists>doc fs. render_virtual_preview n = Inr doc \<and>
    parse_preview (Some doc) = Inr (VirtualP ((shown_node n c)\<lparr>vp_fields_set := fs\<rparr>))"
proof -
  let ?p = "\<lambda>fs. (shown_node n c)\<lparr>vp_fields_set := fs\<rparr>"
  have ok: "check_virtual (shown_node n c) = Inr (shown_node n c)"
    using assms wf_shown_checks by blast
  then obtain fs where fs: "decode_virtual (virtual_payload n c) = Inr (?p fs)"
    using decode_payload assms(3) by blast
  let ?w = "''artifact_mode'' \<in> set (keys (virtual_payload n c))"
  have w: "?w \<or> vp_artifact_mode (?p fs) = DefaultArtifact"
    using virtual_payload_lookup_optional(4) [of n c] map_of_eq_None_iff [of "virtual_payload n c" "''artifact_mode''"]
    by (auto simp: shown_node_def split: if_splits)
  have "check_virtual (?p fs) = Inr (?p fs)" using ok by (rule check_virtual_fields_set)
  then obtain fs' where fs': "decode_virtual (shown_virtual (?p fs) ?w) = Inr (?p fs')"
    using decode_dump_virtual [of "?p fs" ?w] w assms(3) by auto
  have review: "c = Review \<Longrightarrow> n_subtype n \<noteq> None \<and> (n_subtype n \<noteq> Some CodeReview \<longrightarrow> n_brief n \<noteq> None)"
    using ok c assms(1,3) agent_review_fields [of n]
    by (cases "n_kind n") (auto simp: node_wf_def)
  have r: "render_virtual_preview n = Inr (JObj (shown_virtual (?p fs) ?w))"
    using assms(2) c review fs
    by (auto simp: render_virtual_preview_def shown_virtual_def Let_def)
  have "parse_preview (Some (JObj (shown_virtual (?p fs) ?w))) = Inr (VirtualP (?p fs'))"
    using fs' by (simp add: parse_preview_def shown_virtual_lookup)
  with r show ?thesis by blast
qed

definition promotes_to :: "node \<Rightarrow> node \<Rightarrow> bool" where
  "promotes_to n m \<longleftrightarrow>
     node_wf m \<and> n_state m = Virtual \<and> n_kind m = n_kind n \<and> n_category m = n_category n \<and>
     lane_of m = lane_of n \<and> n_model_preset_id m = n_model_preset_id n \<and>
     n_scheduled_deps m = n_scheduled_deps n \<and>
     or_empty (n_prompt_draft m) = or_empty (n_prompt_draft n) \<and>
     or_empty (n_summary m) = or_empty (n_summary n) \<and>
     n_artifact_mode m = n_artifact_mode n \<and> n_artifact_spec m = n_artifact_spec n \<and>
     n_obsolete_reason m = n_obsolete_reason n \<and>
     (n_category n = Some Review \<longrightarrow> n_subtype m = n_subtype n \<and> n_brief m = n_brief n \<and>
        n_review_target m = n_review_target n)"

lemma promoted_node:
  assumes "node_wf n" and "n_kind n \<noteq> Op" and c: "n_category n = Some c"
  shows "\<exists>m. virtual_preview_to_node ((shown_node n c)\<lparr>vp_fields_set := fs\<rparr>) pid cid now
      (n_verify_script_ref n) None None = Inr m \<and> n_id m = cid \<and> promotes_to n m"
proof -
  let ?m = "(default_node pid cid now)\<lparr>
       n_kind := n_kind n, n_state := Virtual,
       n_planspace_id := (if lane_of n = [] then None else Some (lane_of n)),
       n_model_preset_id := n_model_preset_id n,
       n_prompt_draft := Some (or_empty (n_prompt_draft n)), n_category := Some c,
       n_subtype := (if c = Review then n_subtype n else None),
       n_brief := (if c = Review then n_brief n else None),
       n_review_target := (if c = Review then n_review_target n else None),
       n_scheduled_deps := n_scheduled_deps n, n_verify_script_ref := n_verify_script_ref n,
       n_proposed_by := Some (vp_proposed_by (shown_node n c)),
       n_obsolete_reason := n_obsolete_reason n, n_summary := Some (or_empty (n_summary n)),
       n_artifact_mode := n_artifact_mode n, n_artifact_spec := n_artifact_spec n\<rparr>"
  have spec: "or_empty (vp_artifact_spec (shown_node n c)) = n_artifact_spec n"
    using assms(1) by (cases "n_artifact_mode n") (auto simp: shown_node_def node_wf_def artifact_ok_def)
  have wf: "node_wf ?m"
  proof (cases "n_kind n")
    case Agent
    then have a: "agent_wf n" "artifact_ok n" using assms(1) by (simp_all add: node_wf_def)
    have "agent_wf ?m" using a(1) c by (cases c) (auto simp: agent_wf_def default_node_def)
    moreover have "artifact_ok ?m" using a(2) c
      by (cases "n_artifact_mode n") (simp_all add: artifact_ok_def default_node_def)
    ultimately show ?thesis using Agent by (simp add: node_wf_def default_node_def)
  next
    case Verifier
    then have "artifact_ok n" using assms(1) by (simp add: node_wf_def)
    with Verifier have art: "n_artifact_mode n = DefaultArtifact" "n_artifact_spec n = []"
      using artifact_ok_not_agent by simp_all
    show ?thesis using Verifier assms(1) c art
      by (auto simp: node_wf_def plain_fields_def artifact_ok_def default_node_def truthy_def)
  qed (use assms in simp)
  have "virtual_preview_to_node ((shown_node n c)\<lparr>vp_fields_set := fs\<rparr>) pid cid now
      (n_verify_script_ref n) None None = check_invariants ?m"
    using spec by (simp add: virtual_preview_to_node_def) (simp add: shown_node_def)
  also have "\<dots> = Inr ?m" using wf by (rule wf_check)
  finally show ?thesis
    using wf c by (auto simp: promotes_to_def default_node_def)
qed

definition shown_executed :: "int \<Rightarrow> node \<Rightarrow> pystr \<Rightarrow> pystr \<Rightarrow> pystr \<Rightarrow> pystr list \<Rightarrow> executed_preview" where
  "shown_executed now n motivation summary implications artifacts = \<lparr>
     xp_id = n_id n, xp_kind = n_kind n,
     xp_category = (if n_kind n = Op then None
       else Some (case n_category n of None \<Rightarrow> Regular | Some c \<Rightarrow> c)),
     xp_state = n_state n, xp_ran_at = iso now (or_time (n_started_at n) (n_finished_at n)),
     xp_lane = lane_of n, xp_motivation = motivation, xp_summary = summary,
     xp_next_implications = implications, xp_artifacts = artifacts,
     xp_subtype = (if n_kind n \<noteq> Op \<and> n_category n = Some Review then n_subtype n else None)\<rparr>"

lemma not_Op: "k \<noteq> Op \<longleftrightarrow> k = Agent \<or> k = Verifier"
  by (cases k) simp_all

lemma shown_executed_checks:
  assumes "node_wf n"
  shows "check_executed (shown_executed now n mo su ni ar) = None"
proof (cases "n_kind n")
  case Agent
  then have w: "agent_wf n" using assms by (simp add: node_wf_def)
  then obtain c where "n_category n = Some c" by (cases "n_category n") (auto simp: agent_wf_def)
  then show ?thesis using Agent agent_review_fields [OF w]
    by (cases c) (simp_all add: check_executed_def shown_executed_def)
qed (use assms in \<open>auto simp: node_wf_def check_executed_def shown_executed_def\<close>)

lemma render_executed_total:
  assumes "node_wf n" and "terminal (n_state n)"
  shows "\<exists>doc. render_executed_preview now n mo su ni ar = Inr doc \<and>
    parse_preview (Some doc) = Inr (ExecutedP (shown_executed now n mo su ni ar))"
proof -
  let ?p = "shown_executed now n mo su ni ar"
  have ok: "check_executed ?p = None" using assms(1) by (rule shown_executed_checks)
  have t: "n_state n \<in> {Done, Error, Cancelled}" using assms(2) by (cases "n_state n") simp_all
  let ?pay = "[(''id'', JStr (n_id n)), (''kind'', JStr (node_kind_value (n_kind n))),
           (''state'', JStr (node_state_value (n_state n))),
           (''ran_at'', JStr (iso now (or_time (n_started_at n) (n_finished_at n)))),
           (''lane'', JStr (lane_of n)), (''motivation'', JStr mo),
           (''summary'', JStr su), (''next_implications'', JStr ni),
           (''artifacts'', strs ar)] @
          (if n_kind n \<in> {Agent, Verifier} then
             [(''category'',
               JStr (category_value (case n_category n of None \<Rightarrow> Regular | Some c \<Rightarrow> c)))] @
             (if n_category n = Some Review
              then opt_field ''subtype'' (JStr \<circ> subtype_value) (n_subtype n) else [])
           else [])"
  have "decode_executed ?pay = Inr ?p"
  proof (rule decode_executedI [of _ ?p])
    show "set (keys ?pay) \<subseteq> set executed_fields"
      by (auto simp: executed_fields_def opt_field_def split: option.splits)
    show "check_executed ?p = None" by (rule ok)
  qed (use assms(2) not_Op [of "n_kind n"] in
      \<open>auto simp: required_def defaulted_def shown_executed_def map_add_def split: option.split\<close>)
  then have r: "render_executed_preview now n mo su ni ar = Inr (JObj (dump_executed ?p))"
    using t by (simp add: render_executed_preview_def)
  have "decode_executed (dump_executed ?p) = Inr ?p"
    using ok assms(2) by (intro decode_dump_executed) (simp_all add: shown_executed_def)
  moreover have "node_state_value (n_state n) \<noteq> ''virtual''" using assms(2) by (cases "n_state n") simp_all
  ultimately have "parse_preview (Some (JObj (dump_executed ?p))) = Inr (ExecutedP ?p)"
    by (simp add: parse_preview_def dump_executed_lookup shown_executed_def)
  with r show ?thesis by blast
qed

lemma shown_describes_node:
  "node_wf n \<Longrightarrow> validate_preview_for_node (ExecutedP (shown_executed now n mo su ni ar)) n = []"
  by (cases "n_kind n"; cases "n_category n")
    (auto simp: validate_preview_for_node_def shown_executed_def preview_id_def preview_lane_def
      node_wf_def agent_wf_def)

lemma shown_virtual_describes_node:
  "validate_preview_for_node (VirtualP ((shown_node n c)\<lparr>vp_fields_set := fs\<rparr>)) n = []"
  by (simp add: validate_preview_for_node_def preview_id_def preview_lane_def) (simp add: shown_node_def)

lemma extras_Nil: "extras obj l ks = [] \<longleftrightarrow> set (keys obj) \<subseteq> set ks"
  by (auto simp: extras_def filter_empty_conv)

lemma default_target_rules: "passes (virtual_rules p) \<Longrightarrow> passes (virtual_rules (default_target p))"
proof (cases "vp_kind p \<noteq> Verifier \<and> vp_category p = Review \<and> vp_subtype p = Some CodeReview \<and>
    vp_review_target p = None")
  case True
  moreover assume "passes (virtual_rules p)"
  ultimately show ?thesis by (simp add: virtual_rules_def default_target_def no_artifact_def)
next
  case False
  then have "default_target p = p" using default_target_id by blast
  moreover assume "passes (virtual_rules p)"
  ultimately show ?thesis by simp
qed

lemma decode_virtual_strict:
  assumes "decode_virtual obj = Inr p"
  shows "set (keys obj) \<subseteq> set virtual_fields \<and> passes (virtual_rules p)"
proof -
  from assms have "extras obj [] virtual_fields = []"
    by (auto simp: decode_virtual_def Let_def split: if_splits)
  moreover from assms obtain q where "check_virtual q = Inr p"
    by (auto simp: decode_virtual_def Let_def split: if_splits sum.splits)
  then have "passes (virtual_rules q)" "p = default_target q"
    using first_issue_passes [of "virtual_rules q"] by (auto simp: check_virtual_def split: option.splits)
  ultimately show ?thesis using default_target_rules extras_Nil by blast
qed

lemma decode_executed_strict:
  assumes "decode_executed obj = Inr p"
  shows "set (keys obj) \<subseteq> set executed_fields \<and> check_executed p = None"
proof -
  from assms have "extras obj [] executed_fields = []"
    by (auto simp: decode_executed_def Let_def split: if_splits)
  moreover from assms have "check_executed p = None"
    by (auto simp: decode_executed_def Let_def split: if_splits option.splits)
  ultimately show ?thesis using extras_Nil by blast
qed

section \<open>Properties\<close>

text \<open>
  C35: every virtual agent or verifier node that satisfies the node invariants can be materialized:
  \<open>render_virtual_preview\<close> returns a document, \<open>parse_preview\<close> reads that document back as a virtual
  preview that passes the identity check against the node, and promoting the parsed preview
  (\<open>virtual_preview_to_node\<close>) yields a well-formed virtual node with the same kind, category, lane,
  preset, dependencies, prompt, motivation, artifact settings, obsolete mark and review fields.
\<close>

theorem virtual_preview_roundtrip:
  assumes "node_wf n" and "n_state n = Virtual" and "n_kind n \<noteq> Op"
  shows "\<exists>doc p m. render_virtual_preview n = Inr doc \<and> parse_preview (Some doc) = Inr (VirtualP p) \<and>
    validate_preview_for_node (VirtualP p) n = [] \<and>
    virtual_preview_to_node p pid cid now (n_verify_script_ref n) None None = Inr m \<and>
    n_id m = cid \<and> promotes_to n m"
proof -
  obtain c where c: "n_category n = Some c"
    using assms by (cases "n_kind n"; cases "n_category n") (auto simp: node_wf_def agent_wf_def)
  obtain doc fs where r: "render_virtual_preview n = Inr doc"
    "parse_preview (Some doc) = Inr (VirtualP ((shown_node n c)\<lparr>vp_fields_set := fs\<rparr>))"
    using render_virtual_total [OF assms c] by blast
  then show ?thesis
    using promoted_node [OF assms(1,3) c] shown_virtual_describes_node by blast
qed

definition sample_verifier :: node where
  "sample_verifier = (default_node ''p'' ''v1'' 3)\<lparr>n_kind := Verifier, n_state := Virtual,
     n_planspace_id := Some ''main'', n_category := Some Review,
     n_subtype := Some ProgrammaticReview, n_scheduled_deps := [''a1''],
     n_brief := Some \<lparr>check_what = ''x'', expected = ''y'', abnormal = ''z''\<rparr>,
     n_verify_script_ref := Some ''check.sh''\<rparr>"

theorem virtual_preview_roundtrip_witness:
  "\<exists>doc p m. render_virtual_preview sample_verifier = Inr doc \<and>
    parse_preview (Some doc) = Inr (VirtualP p) \<and>
    validate_preview_for_node (VirtualP p) sample_verifier = [] \<and>
    virtual_preview_to_node p ''p'' ''n9'' 5 (n_verify_script_ref sample_verifier) None None = Inr m \<and>
    n_id m = ''n9'' \<and> promotes_to sample_verifier m"
  by (rule virtual_preview_roundtrip) code_simp+




end
