(* ===== verification/Store.thy ===== *)
theory Store
  imports Node_Invariants Model_Catalog
begin

text \<open>
  The node half of \<open>store.py\<close>: host partitions of node directories, the owner index that resolves a
  node id to its partition, the node, preview, event and gate operations, and the project records.
  A path \<open>projects/<pid>/hosts/<host>/nodes/<nid>\<close> is the triple of its variable parts; a file
  holds its parsed contents, or \<open>Unreadable\<close> when parsing fails. Git commits of the sync manager
  are the list of their messages. The read-only reason is what \<open>read_only_reason\<close> evaluates to,
  from the schema and the machine identity file, which other processes change; \<open>st_config\<close> is what
  \<open>load_global_config\<close> returns for the store.
\<close>

section \<open>Exceptions\<close>

datatype exn =
    StoreReadOnly pystr
  | MigrationFailed pystr
  | FileNotFound
  | ValueError pystr
  | KeyError pystr
  | NodeRejected node_issue
  | ProjectRejected project_issue
  | PresetRejected preset_issue
  | NonNativeProject pystr
  | NonNativeNode pystr
  | ProjectArchived pystr
  | PlanspaceArchived pystr
  | ModePrecondition
  | PreviewNotRendered
  | RuntimeError pystr

section \<open>State\<close>

datatype 'a json_file = Readable 'a | Unreadable

record event_line =
  el_version :: json
  el_seq :: nat
  el_event :: json

record node_dir =
  d_node :: "node json_file option"
  d_preview :: "json option"
  d_events :: "event_line list option"
  d_gates :: "(pystr \<times> human_gate) list option"

type_synonym node_path = "pystr \<times> pystr \<times> pystr"

record store =
  st_machine :: pystr
  st_read_only :: "pystr option"
  st_config :: global_config
  st_projects :: "(pystr, project) dict"
  st_local :: "(pystr, pystr) dict"
  st_dirs :: "(node_path, node_dir) dict"
  st_owner_index :: "(pystr, (pystr, pystr) dict) dict"
  st_last_activity :: "(pystr, int) dict"
  st_commits :: "pystr list"

type_synonym 'a store_prog = "(exn, store, 'a) prog"

definition empty_dir :: node_dir where
  "empty_dir = \<lparr>d_node = None, d_preview = None, d_events = None, d_gates = None\<rparr>"

definition assert_writable :: "unit store_prog" where
  "assert_writable = (\<lambda>s. case st_read_only s of
     None \<Rightarrow> (s, Inr ()) | Some reason \<Rightarrow> (s, Inl (StoreReadOnly reason)))"

definition quoted :: "pystr \<Rightarrow> pystr" where
  "quoted s = [CHR 0x22] @ s @ [CHR 0x22]"

definition schedule_commit :: "pystr \<Rightarrow> unit store_prog" where
  "schedule_commit msg = writing (\<lambda>s. s\<lparr>st_commits := st_commits s @ [msg]\<rparr>)"

definition is_bound_here :: "store \<Rightarrow> pystr \<Rightarrow> bool" where
  "is_bound_here s pid = (pid \<in> set (keys (st_local s)))"

section \<open>Paths and the owner index\<close>

definition lookup2 :: "('a, ('b, 'c) dict) dict \<Rightarrow> 'a \<Rightarrow> 'b \<Rightarrow> 'c option" where
  "lookup2 d a b = (case map_of d a of None \<Rightarrow> None | Some e \<Rightarrow> map_of e b)"

definition owner_mid :: "store \<Rightarrow> pystr \<Rightarrow> pystr \<Rightarrow> pystr" where
  "owner_mid s pid nid =
     (case lookup2 (st_owner_index s) pid nid of None \<Rightarrow> st_machine s | Some h \<Rightarrow> h)"

definition node_path :: "store \<Rightarrow> pystr \<Rightarrow> pystr \<Rightarrow> node_path" where
  "node_path s pid nid = (pid, owner_mid s pid nid, nid)"

definition dir_at :: "store \<Rightarrow> node_path \<Rightarrow> node_dir" where
  "dir_at s p = (case map_of (st_dirs s) p of None \<Rightarrow> empty_dir | Some d \<Rightarrow> d)"

definition put_dir :: "node_path \<Rightarrow> node_dir \<Rightarrow> store \<Rightarrow> store" where
  "put_dir p d s = s\<lparr>st_dirs := AList.update p d (st_dirs s)\<rparr>"

definition set_owner :: "pystr \<Rightarrow> pystr \<Rightarrow> pystr \<Rightarrow> store \<Rightarrow> store" where
  \<comment> \<open>\<open>self._owner_index.setdefault(pid, {})[nid] = owner\<close>\<close>
  "set_owner pid nid h s = s\<lparr>st_owner_index :=
     AList.update pid
       (AList.update nid h (case map_of (st_owner_index s) pid of None \<Rightarrow> [] | Some d \<Rightarrow> d))
       (st_owner_index s)\<rparr>"

definition invalidate_owner_index :: "unit store_prog" where
  "invalidate_owner_index = writing (\<lambda>s. s\<lparr>st_owner_index := []\<rparr>)"

text \<open>\<open>node.model_dump(exclude={"provider", "owner_host_id"})\<close>: the owner is never written.\<close>

definition dumped :: "node \<Rightarrow> node" where
  "dumped n = n\<lparr>n_owner_host_id := []\<rparr>"

definition write_node_json :: "node_path \<Rightarrow> node \<Rightarrow> store \<Rightarrow> store" where
  "write_node_json p n s = put_dir p ((dir_at s p)\<lparr>d_node := Some (Readable (dumped n))\<rparr>) s"

section \<open>Nodes\<close>

text \<open>
  \<open>bind_model_catalog\<close>: a node or project whose preset id is not in the catalog is refused.
\<close>

definition catalog_issue :: "store \<Rightarrow> pystr option \<Rightarrow> exn option" where
  "catalog_issue s preset = (case preset of
     None \<Rightarrow> None
   | Some pid \<Rightarrow> (case normalize_model_preset_id (st_config s) (Some pid) of
        Inl e \<Rightarrow> Some (PresetRejected e) | Inr _ \<Rightarrow> None))"

definition bind_model_catalog :: "pystr option \<Rightarrow> unit store_prog" where
  "bind_model_catalog preset = reading_result (\<lambda>s. case catalog_issue s preset of
     None \<Rightarrow> Inr () | Some e \<Rightarrow> Inl e)"

definition create_node :: "node \<Rightarrow> node store_prog" where
  "create_node n =
     bind assert_writable (\<lambda>_.
     bind (reading (\<lambda>s. if n_origin_machine_id n = [] then n\<lparr>n_origin_machine_id := st_machine s\<rparr> else n)) (\<lambda>n.
     let pid = n_project_id n; nid = n_id n in
     andthen (bind_model_catalog (n_model_preset_id n))
     (andthen (writing (\<lambda>s. write_node_json (node_path s pid nid) n s))
     (andthen (writing (\<lambda>s. set_owner pid nid (st_machine s) s))
     (bind (reading (\<lambda>s. (st_machine s, d_node (dir_at s (node_path s pid nid))))) (\<lambda>(m, found).
     andthen (reject_if (found = None) FileNotFound)
     (andthen (schedule_commit (''create node '' @ nid))
       (ret (n\<lparr>n_owner_host_id := m\<rparr>)))))))))"

definition file_entry :: "pystr \<Rightarrow> node_path \<times> node_dir \<Rightarrow> (pystr \<times> pystr \<times> node json_file) list" where
  "file_entry pid e = (case e of ((p, h, nid), d) \<Rightarrow>
     if p = pid then (case d_node d of None \<Rightarrow> [] | Some f \<Rightarrow> [(h, nid, f)]) else [])"

definition files_of :: "store \<Rightarrow> pystr \<Rightarrow> (pystr \<times> pystr \<times> node json_file) list" where
  \<comment> \<open>\<open>self._hosts_dir(pid).glob("*/nodes/*/node.json")\<close>\<close>
  "files_of s pid = concat (map (file_entry pid) (st_dirs s))"

text \<open>\<open>Node.model_validate(payload).bind_model_catalog(self.root)\<close>.\<close>

definition validate_file :: "store \<Rightarrow> node json_file \<Rightarrow> exn + node" where
  "validate_file s f = (case f of
     Unreadable \<Rightarrow> Inl (ValueError ''unreadable node record'')
   | Readable n \<Rightarrow> (case check_invariants n of
        Inl e \<Rightarrow> Inl (NodeRejected e)
      | Inr m \<Rightarrow> (case catalog_issue s (n_model_preset_id m) of None \<Rightarrow> Inr m | Some e \<Rightarrow> Inl e)))"

definition load_node :: "pystr \<Rightarrow> pystr \<Rightarrow> node option store_prog" where
  "load_node pid nid =
     bind (reading (\<lambda>s. filter (\<lambda>(h, n, f). n = nid) (files_of s pid))) (\<lambda>matches.
     case matches of
       [] \<Rightarrow> ret None
     | [(h, _, f)] \<Rightarrow>
         bind (reading_result (\<lambda>s. validate_file s f)) (\<lambda>n.
         andthen (reject_if (n_id n \<noteq> nid \<or> n_project_id n \<noteq> pid) (MigrationFailed ''path''))
         (andthen (writing (set_owner pid nid h)) (ret (Some (n\<lparr>n_owner_host_id := h\<rparr>)))))
     | _ \<Rightarrow> raise (MigrationFailed ''several partitions''))"

definition persisted_rev :: "node json_file option \<Rightarrow> nat" where
  "persisted_rev f = (case f of Some (Readable n) \<Rightarrow> n_rev n | _ \<Rightarrow> 0)"

text \<open>
  \<open>update_node\<close> assigns the new revision to the caller's object, which is the value returned here.
\<close>

definition update_node :: "node \<Rightarrow> node store_prog" where
  "update_node n =
     bind assert_writable (\<lambda>_.
     bind (bind_model_catalog (n_model_preset_id n)) (\<lambda>_.
     bind (reading (\<lambda>s. node_path s (n_project_id n) (n_id n))) (\<lambda>p.
     bind (reading (\<lambda>s. n\<lparr>n_rev := max (n_rev n) (persisted_rev (d_node (dir_at s p))) + 1\<rparr>)) (\<lambda>n'.
     andthen (writing (write_node_json p n'))
     (andthen (schedule_commit (''node '' @ n_id n @ '' '' @ node_state_value (n_state n)))
       (ret n'))))))"

definition pop_owner :: "pystr \<Rightarrow> pystr \<Rightarrow> store \<Rightarrow> store" where
  "pop_owner pid nid s = (case map_of (st_owner_index s) pid of
     None \<Rightarrow> s
   | Some d \<Rightarrow> s\<lparr>st_owner_index := AList.update pid (AList.delete nid d) (st_owner_index s)\<rparr>)"

definition delete_node :: "pystr \<Rightarrow> pystr \<Rightarrow> bool store_prog" where
  "delete_node pid nid =
     bind assert_writable (\<lambda>_.
     bind (reading (\<lambda>s. node_path s pid nid)) (\<lambda>p.
     bind (reading (\<lambda>s. map_of (st_dirs s) p)) (\<lambda>d.
     if d = None then ret False
     else
       andthen (writing (\<lambda>s. s\<lparr>st_dirs := AList.delete p (st_dirs s)\<rparr>))
       (andthen (writing (pop_owner pid nid))
       (andthen (schedule_commit (''delete node '' @ nid)) (ret True))))))"

text \<open>
  The loop of \<open>_list_nodes_for_project\<close> over the record files: the nodes and owners collected so
  far, or the migration error every failure becomes. A record on an excluded lane is skipped
  before it is validated.
\<close>

definition on_excluded_lane :: "pystr list \<Rightarrow> node json_file \<Rightarrow> bool" where
  "on_excluded_lane lanes f = (case f of
     Readable n \<Rightarrow> (case n_planspace_id n of None \<Rightarrow> False | Some l \<Rightarrow> l \<in> set lanes)
   | Unreadable \<Rightarrow> False)"

fun collect_nodes ::
  "store \<Rightarrow> pystr \<Rightarrow> pystr list \<Rightarrow> (pystr \<times> pystr \<times> node json_file) list \<Rightarrow> node list \<Rightarrow> (pystr, pystr) dict \<Rightarrow>
     exn + node list \<times> (pystr, pystr) dict" where
  "collect_nodes s pid lanes [] out owners = Inr (out, owners)"
| "collect_nodes s pid lanes ((h, nid, f) # fs) out owners =
     (if on_excluded_lane lanes f then collect_nodes s pid lanes fs out owners
      else case validate_file s f of
        Inl e \<Rightarrow> Inl (MigrationFailed ''invalid node record'')
      | Inr n \<Rightarrow>
          if n_id n \<noteq> nid \<or> n_project_id n \<noteq> pid \<or> n_id n \<in> set (keys owners)
          then Inl (MigrationFailed ''path, project or uniqueness'')
          else collect_nodes s pid lanes fs (out @ [n\<lparr>n_owner_host_id := h\<rparr>])
                 (AList.update (n_id n) h owners))"

definition times_of :: "node \<Rightarrow> int list" where
  "times_of n = (case n_finished_at n of None \<Rightarrow> [] | Some t \<Rightarrow> [t]) @
     (case n_started_at n of None \<Rightarrow> [] | Some t \<Rightarrow> [t]) @ [n_created_at n]"

definition max_default :: "int list \<Rightarrow> int \<Rightarrow> int" where
  "max_default xs d = (case xs of [] \<Rightarrow> d | x # rest \<Rightarrow> fold max rest x)"

definition list_nodes_for_project ::
  "pystr \<Rightarrow> project option \<Rightarrow> pystr list \<Rightarrow> node list store_prog" where
  "list_nodes_for_project pid proj lanes =
     bind (reading_result (\<lambda>s. collect_nodes s pid lanes (files_of s pid) [] [])) (\<lambda>(out, owners).
     andthen (writing (\<lambda>s. s\<lparr>st_owner_index := AList.update pid owners (st_owner_index s)\<rparr>))
     (let sorted = sort_key n_created_at out in
      andthen
        (case proj of
           None \<Rightarrow> ret ()
         | Some p \<Rightarrow> writing (\<lambda>s. s\<lparr>st_last_activity :=
             AList.update pid (max_default (concat (map times_of sorted)) (p_created_at p))
               (st_last_activity s)\<rparr>))
        (ret sorted)))"

section \<open>Projects\<close>

text \<open>
  \<open>_load_project\<close>: the record as written, with the local root (\<open>root_path\<close>, or \<open>projection_path\<close>
  of a remote project) taken from this device's \<open>local.json\<close> and the positions reset.
\<close>

definition load_project :: "pystr \<Rightarrow> project option store_prog" where
  "load_project pid = reading_result (\<lambda>s.
     case map_of (st_projects s) pid of
       None \<Rightarrow> Inr None
     | Some p \<Rightarrow>
         let root = (case map_of (st_local s) pid of None \<Rightarrow> unbound_root_path | Some r \<Rightarrow> r) in
         (case check_project (p\<lparr>p_root_path := root, p_node_positions := []\<rparr>) of
            Inl e \<Rightarrow> Inl (MigrationFailed ''invalid project record'')
          | Inr q \<Rightarrow> (case catalog_issue s (Some (p_model_preset_id q)) of
               None \<Rightarrow> Inr (Some q) | Some e \<Rightarrow> Inl (MigrationFailed ''unknown preset''))))"

definition list_nodes :: "pystr \<Rightarrow> pystr list \<Rightarrow> node list store_prog" where
  "list_nodes pid lanes =
     bind (load_project pid) (\<lambda>proj. list_nodes_for_project pid proj lanes)"

definition latest_node :: "pystr \<Rightarrow> node option store_prog" where
  "latest_node pid =
     bind (list_nodes pid []) (\<lambda>nodes. ret (if nodes = [] then None else Some (last nodes)))"

definition update_project :: "project \<Rightarrow> unit store_prog" where
  "update_project p =
     bind assert_writable (\<lambda>_.
     andthen (bind_model_catalog (Some (p_model_preset_id p)))
     (andthen (writing (\<lambda>s.
       if is_bound_here s (p_id p) \<and> p_persistence_mode p \<noteq> Remote
       then s\<lparr>st_local := AList.update (p_id p) (p_root_path p) (st_local s)\<rparr> else s))
     (andthen (writing (\<lambda>s. s\<lparr>st_projects :=
        AList.update (p_id p) (p\<lparr>p_root_path := [], p_node_positions := []\<rparr>) (st_projects s)\<rparr>))
     (schedule_commit (''update project '' @ quoted (if p_name p = [] then p_id p else p_name p))))))"

definition delete_project :: "pystr \<Rightarrow> bool store_prog" where
  "delete_project pid =
     bind assert_writable (\<lambda>_.
     bind (reading (\<lambda>s. pid \<in> set (keys (st_projects s)) \<or> pid \<in> set (keys (st_local s)) \<or>
        pid \<in> fst ` set (keys (st_dirs s)))) (\<lambda>present.
     if \<not> present then ret False
     else
       andthen (writing (\<lambda>s. s\<lparr>
         st_projects := AList.delete pid (st_projects s),
         st_local := AList.delete pid (st_local s),
         st_dirs := filter (\<lambda>(k, d). fst k \<noteq> pid) (st_dirs s),
         st_last_activity := AList.delete pid (st_last_activity s)\<rparr>))
       (andthen (schedule_commit (''delete project '' @ pid)) (ret True))))"

definition record_project_activity :: "pystr \<Rightarrow> int \<Rightarrow> unit store_prog" where
  "record_project_activity pid at = writing (\<lambda>s.
     case map_of (st_last_activity s) pid of
       None \<Rightarrow> s\<lparr>st_last_activity := AList.update pid at (st_last_activity s)\<rparr>
     | Some cur \<Rightarrow>
         if at > cur then s\<lparr>st_last_activity := AList.update pid at (st_last_activity s)\<rparr> else s)"

section \<open>Previews, events and gates\<close>

definition write_node_preview :: "pystr \<Rightarrow> pystr \<Rightarrow> json \<Rightarrow> unit store_prog" where
  "write_node_preview pid nid doc =
     bind assert_writable (\<lambda>_.
     andthen (writing (\<lambda>s. let p = node_path s pid nid in
       put_dir p ((dir_at s p)\<lparr>d_preview := Some doc\<rparr>) s))
     (schedule_commit (''update preview for node '' @ nid)))"

definition read_node_preview :: "pystr \<Rightarrow> pystr \<Rightarrow> json option store_prog" where
  "read_node_preview pid nid = reading (\<lambda>s. d_preview (dir_at s (node_path s pid nid)))"

definition event_schema_version :: int where
  "event_schema_version = 2"

definition append_event :: "pystr \<Rightarrow> pystr \<Rightarrow> nat \<Rightarrow> json \<Rightarrow> unit store_prog" where
  "append_event pid nid seq event =
     bind assert_writable (\<lambda>_.
     andthen (writing (\<lambda>s. let p = node_path s pid nid; d = dir_at s p in
       put_dir p (d\<lparr>d_events := Some ((case d_events d of None \<Rightarrow> [] | Some es \<Rightarrow> es) @
         [\<lparr>el_version = JInt event_schema_version, el_seq = seq, el_event = event\<rparr>])\<rparr>) s))
     (schedule_commit (''update transcript for node '' @ nid)))"

definition with_node_id :: "pystr \<Rightarrow> json \<Rightarrow> json" where
  "with_node_id nid e = (case e of
     JObj kvs \<Rightarrow> JObj (if ''node_id'' \<in> set (keys kvs) then kvs else kvs @ [(''node_id'', JStr nid)])
   | _ \<Rightarrow> e)"

fun replay_lines :: "pystr \<Rightarrow> nat \<Rightarrow> event_line list \<Rightarrow> exn + event_line list" where
  "replay_lines nid since [] = Inr []"
| "replay_lines nid since (l # ls) =
     (if el_version l \<noteq> JInt event_schema_version then Inl (MigrationFailed ''event version'')
      else case replay_lines nid since ls of
        Inl e \<Rightarrow> Inl e
      | Inr out \<Rightarrow>
          Inr (if el_seq l > since then l\<lparr>el_event := with_node_id nid (el_event l)\<rparr> # out else out))"

definition replay_events :: "pystr \<Rightarrow> pystr \<Rightarrow> nat \<Rightarrow> event_line list store_prog" where
  "replay_events pid nid since = reading_result (\<lambda>s.
     case d_events (dir_at s (node_path s pid nid)) of
       None \<Rightarrow> Inr [] | Some ls \<Rightarrow> replay_lines nid since ls)"

definition append_gate :: "pystr \<Rightarrow> human_gate \<Rightarrow> pystr \<Rightarrow> unit store_prog" where
  "append_gate pid gate action =
     bind assert_writable (\<lambda>_.
     andthen (writing (\<lambda>s. let p = node_path s pid (g_node_id gate); d = dir_at s p in
       put_dir p (d\<lparr>d_gates := Some ((case d_gates d of None \<Rightarrow> [] | Some gs \<Rightarrow> gs) @
         [(action, gate)])\<rparr>) s))
     (schedule_commit (''update gate for node '' @ g_node_id gate)))"

end
