(* ===== verification/Node_Table.thy ===== *)
theory Node_Table
  imports Store
begin

text \<open>
  What the store promises its clients: a table of nodes per project. \<open>view\<close> is the table, \<open>store_ok\<close>
  the storage invariant, and the laws say what loading, listing, creating, updating and deleting do
  to the table. The interface \<open>node_table\<close> collects the laws for the clients.
\<close>


section \<open>The abstract contents of the store\<close>

text \<open>
  \<open>view s pid\<close> is the node table of a project: each id with the record found in its partition and
  bound to that partition. \<open>core\<close> forgets the two in-memory indexes, \<open>rest\<close> all that node
  operations may change.
\<close>

definition record_at :: "store \<Rightarrow> pystr \<Rightarrow> pystr \<Rightarrow> pystr \<Rightarrow> node json_file option" where
  "record_at s pid h nid = d_node (dir_at s (pid, h, nid))"

definition bound_record :: "pystr \<times> pystr \<times> node json_file \<Rightarrow> node option" where
  "bound_record e = (case e of (h, nid, Readable n) \<Rightarrow> Some (n\<lparr>n_owner_host_id := h\<rparr>) | _ \<Rightarrow> None)"

definition view :: "store \<Rightarrow> pystr \<Rightarrow> pystr \<Rightarrow> node option" where
  "view s pid nid =
     (case filter (\<lambda>(h, n, f). n = nid) (files_of s pid) of [] \<Rightarrow> None | e # _ \<Rightarrow> bound_record e)"

definition core :: "store \<Rightarrow> store" where
  "core s = s\<lparr>st_owner_index := [], st_last_activity := []\<rparr>"

definition rest :: "store \<Rightarrow> store" where
  "rest s = s\<lparr>st_dirs := [], st_owner_index := [], st_last_activity := [], st_commits := []\<rparr>"

definition preset_known :: "store \<Rightarrow> node \<Rightarrow> bool" where
  "preset_known s n = (catalog_issue s (n_model_preset_id n) = None)"

definition record_ok :: "store \<Rightarrow> pystr \<Rightarrow> pystr \<Rightarrow> node json_file \<Rightarrow> bool" where
  "record_ok s pid nid f = (case f of Unreadable \<Rightarrow> False
     | Readable n \<Rightarrow> node_wf n \<and> preset_known s n \<and> n_id n = nid \<and> n_project_id n = pid)"

definition project_ok :: "store \<Rightarrow> project \<Rightarrow> bool" where
  "project_ok s p \<longleftrightarrow> \<not> blank (p_model_preset_id p) \<and>
     catalog_issue s (Some (strip (p_model_preset_id p))) = None \<and>
     p_temporary p = (p_persistence_mode p = Ephemeral) \<and>
     (p_persistence_mode p = Remote) = (p_remote p \<noteq> None)"

text \<open>
  The storage invariant: readable, well-formed records that agree with their paths, at most one
  partition per node, and an owner index whose entries point at records.
\<close>

definition store_ok :: "store \<Rightarrow> bool" where
  "store_ok s \<longleftrightarrow>
     distinct (keys (st_dirs s)) \<and>
     (\<forall>pid h nid f. record_at s pid h nid = Some f \<longrightarrow> record_ok s pid nid f) \<and>
     (\<forall>pid h h' nid. record_at s pid h nid \<noteq> None \<longrightarrow> record_at s pid h' nid \<noteq> None \<longrightarrow> h = h') \<and>
     (\<forall>pid nid h. lookup2 (st_owner_index s) pid nid = Some h \<longrightarrow> record_at s pid h nid \<noteq> None) \<and>
     (\<forall>p \<in> set (st_projects s). project_ok s (snd p))"

definition writable :: "store \<Rightarrow> bool" where
  "writable s \<longleftrightarrow> st_read_only s = None"

lemma config_cong:
  assumes "st_config t = st_config s"
  shows "catalog_issue t = catalog_issue s" "preset_known t = preset_known s"
    "record_ok t = record_ok s" "project_ok t = project_ok s" "validate_file t = validate_file s"
proof -
  show c: "catalog_issue t = catalog_issue s"
    by (rule ext) (simp only: catalog_issue_def assms)
  then show k: "preset_known t = preset_known s" by (simp add: preset_known_def fun_eq_iff)
  show "record_ok t = record_ok s" by (intro ext) (simp only: record_ok_def k)
  show "project_ok t = project_ok s" by (simp add: project_ok_def fun_eq_iff c)
  show "validate_file t = validate_file s" by (rule ext) (simp only: validate_file_def c)
qed

lemma config_simps [simp]:
  "st_config (put_dir p d s) = st_config s" "st_config (set_owner a b c s) = st_config s"
  "st_config (write_node_json p n s) = st_config s" "st_config (pop_owner a b s) = st_config s"
  by (simp_all add: put_dir_def set_owner_def write_node_json_def pop_owner_def split: option.split)

lemma preset_known_fields [simp]:
  "preset_known s (n\<lparr>n_owner_host_id := h\<rparr>) = preset_known s n"
  "preset_known s (n\<lparr>n_rev := r\<rparr>) = preset_known s n"
  "preset_known s (n\<lparr>n_origin_machine_id := h\<rparr>) = preset_known s n"
  "preset_known s (dumped n) = preset_known s n"
  by (simp_all add: preset_known_def dumped_def)

lemma bind_model_catalog_apply:
  "bind_model_catalog p s = (s, case catalog_issue s p of None \<Rightarrow> Inr () | Some e \<Rightarrow> Inl e)"
  by (simp add: bind_model_catalog_def)

subsection \<open>Record files\<close>

lemma set_file_entry:
  "(h, nid, f) \<in> set (file_entry pid e) \<longleftrightarrow> fst e = (pid, h, nid) \<and> d_node (snd e) = Some f"
proof -
  obtain p h' n d where e: "e = ((p, h', n), d)" by (metis prod.exhaust)
  have "file_entry pid e = (if p = pid then (case d_node d of None \<Rightarrow> [] | Some f \<Rightarrow> [(h', n, f)]) else [])"
    unfolding e file_entry_def prod.case ..
  then show ?thesis
    by (cases "p = pid"; cases "d_node d") (auto simp: e)
qed

lemma files_of_iff:
  assumes "distinct (keys (st_dirs s))"
  shows "(h, nid, f) \<in> set (files_of s pid) \<longleftrightarrow> record_at s pid h nid = Some f"
proof -
  have "(h, nid, f) \<in> set (files_of s pid) \<longleftrightarrow>
      (\<exists>e \<in> set (st_dirs s). fst e = (pid, h, nid) \<and> d_node (snd e) = Some f)"
    by (auto simp: files_of_def set_file_entry)
  also have "\<dots> \<longleftrightarrow> (case map_of (st_dirs s) (pid, h, nid) of None \<Rightarrow> False | Some d \<Rightarrow> d_node d = Some f)"
  proof (cases "map_of (st_dirs s) (pid, h, nid)")
    case None
    then have "fst e \<noteq> (pid, h, nid)" if "e \<in> set (st_dirs s)" for e
      using that by (metis map_of_eq_None_iff image_eqI list.set_map)
    with None show ?thesis by auto
  next
    case (Some d)
    have "e = ((pid, h, nid), d)" if "e \<in> set (st_dirs s)" "fst e = (pid, h, nid)" for e
    proof -
      have "map_of (st_dirs s) (fst e) = Some (snd e)" using that(1) assms by simp
      then show ?thesis using Some that(2) by (cases e) simp
    qed
    moreover have "((pid, h, nid), d) \<in> set (st_dirs s)" using Some by (rule map_of_SomeD)
    ultimately have "(\<exists>e \<in> set (st_dirs s). fst e = (pid, h, nid) \<and> d_node (snd e) = Some f) \<longleftrightarrow>
        d_node d = Some f"
      by (metis fst_conv snd_conv)
    with Some show ?thesis by simp
  qed
  also have "\<dots> \<longleftrightarrow> record_at s pid h nid = Some f"
    by (simp add: record_at_def dir_at_def empty_dir_def split: option.split)
  finally show ?thesis .
qed

lemma distinct_files_of:
  assumes "distinct (keys (st_dirs s))"
  shows "distinct (map (\<lambda>(h, nid, f). (h, nid)) (files_of s pid))"
proof -
  have "distinct (keys ds) \<Longrightarrow> distinct (map (\<lambda>(h, nid, f). (h, nid)) (concat (map (file_entry pid) ds)))"
    for ds
  proof (induction ds)
    case (Cons e ds)
    obtain p h n d where e: "e = ((p, h, n), d)" by (metis prod.exhaust)
    have "(h, n) \<notin> set (map (\<lambda>(h, nid, f). (h, nid)) (concat (map (file_entry pid) ds)))" if "p = pid"
    proof
      assume "(h, n) \<in> set (map (\<lambda>(h, nid, f). (h, nid)) (concat (map (file_entry pid) ds)))"
      then obtain f x where "(h, n, f) \<in> set (file_entry pid x)" "x \<in> set ds" by auto
      then have "(pid, h, n) \<in> set (keys ds)" by (auto simp: set_file_entry intro!: rev_image_eqI [of x])
      with that e Cons.prems show False by simp
    qed
    moreover have "file_entry pid e = (if p = pid then (case d_node d of None \<Rightarrow> [] | Some f \<Rightarrow> [(h, n, f)]) else [])"
      unfolding e file_entry_def prod.case ..
    ultimately show ?case using Cons
      by (cases "p = pid"; cases "d_node d") simp_all
  qed simp
  with assms show ?thesis by (simp add: files_of_def)
qed

lemma store_okD:
  assumes "store_ok s"
  shows "distinct (keys (st_dirs s))"
    and "record_at s pid h nid = Some f \<Longrightarrow> record_ok s pid nid f"
    and "record_at s pid h nid \<noteq> None \<Longrightarrow> record_at s pid h' nid \<noteq> None \<Longrightarrow> h = h'"
    and "lookup2 (st_owner_index s) pid nid = Some h \<Longrightarrow> record_at s pid h nid \<noteq> None"
    and "p \<in> set (st_projects s) \<Longrightarrow> project_ok s (snd p)"
  using assms unfolding store_ok_def by blast+

lemma matching_files:
  assumes "store_ok s"
  shows "filter (\<lambda>(h, n, f). n = nid) (files_of s pid) = [] \<and> (\<forall>h. record_at s pid h nid = None) \<or>
    (\<exists>h f. filter (\<lambda>(h, n, f). n = nid) (files_of s pid) = [(h, nid, f)] \<and> record_at s pid h nid = Some f)"
proof -
  note d = store_okD(1) [OF assms]
  let ?fs = "filter (\<lambda>(h, n, f). n = nid) (files_of s pid)"
  have mem: "(h, n, f) \<in> set ?fs \<longleftrightarrow> n = nid \<and> record_at s pid h nid = Some f" for h n f
    using files_of_iff [OF d] by auto
  have dist: "distinct (map (\<lambda>(h, nid, f). (h, nid)) ?fs)"
    using distinct_files_of [OF d, of pid] by (rule distinct_map_filter)
  show ?thesis
  proof (cases ?fs)
    case Nil
    then show ?thesis using mem by (metis list.set(1) empty_iff option.exhaust)
  next
    case (Cons e es)
    obtain h n f where e: "e = (h, n, f)" by (cases e)
    then have 1: "n = nid" "record_at s pid h nid = Some f" using mem Cons by (metis list.set_intros(1))+
    have "es = []"
    proof (cases es)
      case (Cons e' es')
      obtain h' n' f' where e': "e' = (h', n', f')" by (cases e')
      then have "n' = nid" "record_at s pid h' nid = Some f'"
        using mem \<open>?fs = e # es\<close> Cons by (metis list.set_intros)+
      then have "h = h'" "n = n'" using 1 store_okD(3) [OF assms, of pid h nid h'] by auto
      then show ?thesis using dist \<open>?fs = e # es\<close> Cons e e' by simp
    qed simp
    then show ?thesis using Cons e 1 by simp
  qed
qed

lemma view_record:
  assumes "store_ok s" and "record_at s pid h nid = Some (Readable m)"
  shows "view s pid nid = Some (m\<lparr>n_owner_host_id := h\<rparr>)"
  using matching_files [OF assms(1), of nid pid]
proof
  assume "filter (\<lambda>(h, n, f). n = nid) (files_of s pid) = [] \<and> (\<forall>h. record_at s pid h nid = None)"
  with assms(2) show ?thesis by simp
next
  assume "\<exists>h f. filter (\<lambda>(h, n, f). n = nid) (files_of s pid) = [(h, nid, f)] \<and> record_at s pid h nid = Some f"
  then obtain h' f where f: "filter (\<lambda>(h, n, f). n = nid) (files_of s pid) = [(h', nid, f)]"
    "record_at s pid h' nid = Some f" by blast
  then have "h' = h" using store_okD(3) [OF assms(1), of pid h nid h'] assms(2) by simp
  moreover from this have "f = Readable m" using f assms(2) by simp
  ultimately show ?thesis using f by (simp add: view_def bound_record_def)
qed

lemma view_cases:
  assumes "store_ok s"
  obtains (absent) "view s pid nid = None" "\<And>h. record_at s pid h nid = None"
    "filter (\<lambda>(h, n, f). n = nid) (files_of s pid) = []"
  | (present) h m where "view s pid nid = Some (m\<lparr>n_owner_host_id := h\<rparr>)"
    "record_at s pid h nid = Some (Readable m)" "record_ok s pid nid (Readable m)"
    "\<And>h'. record_at s pid h' nid \<noteq> None \<Longrightarrow> h' = h"
    "filter (\<lambda>(h, n, f). n = nid) (files_of s pid) = [(h, nid, Readable m)]"
  using matching_files [OF assms, of nid pid]
proof
  assume a: "filter (\<lambda>(h, n, f). n = nid) (files_of s pid) = [] \<and> (\<forall>h. record_at s pid h nid = None)"
  then have "view s pid nid = None" by (simp add: view_def)
  with a absent show ?thesis by blast
next
  assume "\<exists>h f. filter (\<lambda>(h, n, f). n = nid) (files_of s pid) = [(h, nid, f)] \<and> record_at s pid h nid = Some f"
  then obtain h f where f: "filter (\<lambda>(h, n, f). n = nid) (files_of s pid) = [(h, nid, f)]"
    "record_at s pid h nid = Some f" by blast
  then have ok: "record_ok s pid nid f" using store_okD(2) [OF assms] by blast
  then obtain m where m: "f = Readable m" by (cases f) (auto simp: record_ok_def)
  show ?thesis
  proof (rule present)
    show "view s pid nid = Some (m\<lparr>n_owner_host_id := h\<rparr>)" using f m by (simp add: view_def bound_record_def)
    show "\<And>h'. record_at s pid h' nid \<noteq> None \<Longrightarrow> h' = h"
      using store_okD(3) [OF assms, of pid _ nid h] f by blast
  qed (use f m ok in simp_all)
qed

lemma view_Some_iff:
  assumes "store_ok s"
  shows "view s pid nid = Some n \<longleftrightarrow>
    (\<exists>h m. record_at s pid h nid = Some (Readable m) \<and> n = m\<lparr>n_owner_host_id := h\<rparr>)"
proof (cases rule: view_cases [OF assms, of pid nid])
  case 1
  then show ?thesis by simp
next
  case (2 h m)
  then show ?thesis using view_record [OF assms] by (metis option.inject)
qed

lemma view_None_iff:
  assumes "store_ok s"
  shows "view s pid nid = None \<longleftrightarrow> (\<forall>h. record_at s pid h nid = None)"
proof (cases rule: view_cases [OF assms, of pid nid])
  case 1
  then show ?thesis by simp
next
  case (2 h m)
  then show ?thesis by (metis option.distinct(1))
qed

subsection \<open>Frames\<close>

lemma core_eqD:
  assumes "core t = core s"
  shows "st_dirs t = st_dirs s" "st_machine t = st_machine s" "st_read_only t = st_read_only s"
    "st_projects t = st_projects s" "st_local t = st_local s" "st_commits t = st_commits s"
    "st_config t = st_config s"
proof -
  show "st_config t = st_config s" using arg_cong [OF assms, of st_config] by (simp add: core_def)
  show "st_dirs t = st_dirs s" using arg_cong [OF assms, of st_dirs] by (simp add: core_def)
  show "st_machine t = st_machine s" using arg_cong [OF assms, of st_machine] by (simp add: core_def)
  show "st_read_only t = st_read_only s" using arg_cong [OF assms, of st_read_only] by (simp add: core_def)
  show "st_projects t = st_projects s" using arg_cong [OF assms, of st_projects] by (simp add: core_def)
  show "st_local t = st_local s" using arg_cong [OF assms, of st_local] by (simp add: core_def)
  show "st_commits t = st_commits s" using arg_cong [OF assms, of st_commits] by (simp add: core_def)
qed

lemma rest_eqD:
  assumes "rest t = rest s"
  shows "st_machine t = st_machine s" "st_read_only t = st_read_only s"
    "st_projects t = st_projects s" "st_local t = st_local s" "st_config t = st_config s"
proof -
  show "st_config t = st_config s" using arg_cong [OF assms, of st_config] by (simp add: rest_def)
  show "st_machine t = st_machine s" using arg_cong [OF assms, of st_machine] by (simp add: rest_def)
  show "st_read_only t = st_read_only s" using arg_cong [OF assms, of st_read_only] by (simp add: rest_def)
  show "st_projects t = st_projects s" using arg_cong [OF assms, of st_projects] by (simp add: rest_def)
  show "st_local t = st_local s" using arg_cong [OF assms, of st_local] by (simp add: rest_def)
qed

lemma core_rest: "core t = core s \<Longrightarrow> rest t = rest s"
  using core_eqD [of t s] by (cases t; cases s) (simp add: rest_def)

lemma view_dirs: "st_dirs t = st_dirs s \<Longrightarrow> view t = view s"
  by (simp add: view_def files_of_def fun_eq_iff)

lemma record_at_dirs: "st_dirs t = st_dirs s \<Longrightarrow> record_at t = record_at s"
  by (simp add: record_at_def dir_at_def fun_eq_iff)

lemma core_view: "core t = core s \<Longrightarrow> view t = view s"
  using core_eqD(1) by (rule view_dirs)

lemma record_at_put_dir [simp]:
  "record_at (put_dir p d s) pid h nid = (if p = (pid, h, nid) then d_node d else record_at s pid h nid)"
  by (simp add: record_at_def dir_at_def put_dir_def)

lemma lookup2_set:
  "lookup2 (AList.update a (AList.update b c (case map_of d a of None \<Rightarrow> [] | Some e \<Rightarrow> e)) d) x y =
     (if x = a \<and> y = b then Some c else lookup2 d x y)"
  by (simp add: lookup2_def split: option.split)

lemma set_owner_simps [simp]:
  "st_dirs (set_owner p n h s) = st_dirs s" "core (set_owner p n h s) = core s"
  "st_projects (set_owner p n h s) = st_projects s" "record_at (set_owner p n h s) = record_at s"
  "view (set_owner p n h s) = view s" "st_machine (set_owner p n h s) = st_machine s"
  "st_read_only (set_owner p n h s) = st_read_only s" "rest (set_owner p n h s) = rest s"
  "lookup2 (st_owner_index (set_owner p n h s)) x y =
     (if x = p \<and> y = n then Some h else lookup2 (st_owner_index s) x y)"
  by (auto simp: set_owner_def core_def rest_def lookup2_set intro: record_at_dirs view_dirs)

lemma store_ok_set_owner:
  "store_ok s \<Longrightarrow> record_at s p h n \<noteq> None \<Longrightarrow> store_ok (set_owner p n h s)"
  unfolding store_ok_def by (simp add: config_cong [of "set_owner p n h s" s])

subsection \<open>Reading\<close>

lemma load_node_law:
  assumes "store_ok s"
  shows "\<exists>t. load_node pid nid s = (t, Inr (view s pid nid)) \<and> store_ok t \<and> core t = core s"
proof (cases rule: view_cases [OF assms, of pid nid])
  case 1
  then show ?thesis using assms by (simp add: load_node_def bind_def)
next
  case (2 h m)
  have "validate_file s (Readable m) = Inr m"
    using 2(3) wf_check by (simp add: record_ok_def validate_file_def preset_known_def)
  with 2(3,5) have "load_node pid nid s = (set_owner pid nid h s, Inr (Some (m\<lparr>n_owner_host_id := h\<rparr>)))"
    by (simp add: load_node_def bind_def andthen_def record_ok_def)
  moreover have "store_ok (set_owner pid nid h s)"
    using assms 2(2) by (intro store_ok_set_owner) simp_all
  ultimately show ?thesis using 2(1) by simp
qed

lemma collect_nodes_ok:
  assumes "\<forall>e \<in> set fs. record_ok s pid (fst (snd e)) (snd (snd e))"
    and "distinct (map (\<lambda>(h, nid, f). nid) fs)"
    and "set (map (\<lambda>(h, nid, f). nid) fs) \<inter> set (keys owners) = {}"
  shows "\<exists>owners'. collect_nodes s pid lanes fs out owners =
      Inr (out @ map (the \<circ> bound_record) (filter (\<lambda>(h, nid, f). \<not> on_excluded_lane lanes f) fs), owners') \<and>
    (\<forall>nid h. map_of owners' nid = Some h \<longrightarrow> map_of owners nid = Some h \<or> (\<exists>f. (h, nid, f) \<in> set fs))"
  using assms
proof (induction fs arbitrary: out owners)
  case Nil
  then show ?case by simp
next
  case (Cons e fs)
  obtain h nid f where e: "e = (h, nid, f)" by (metis prod.exhaust)
  have ok: "record_ok s pid nid f" using Cons.prems(1) e by simp
  have hyps: "\<forall>e \<in> set fs. record_ok s pid (fst (snd e)) (snd (snd e))"
    "distinct (map (\<lambda>(h, nid, f). nid) fs)"
    using Cons.prems e by auto
  show ?case
  proof (cases "on_excluded_lane lanes f")
    case True
    have "set (map (\<lambda>(h, nid, f). nid) fs) \<inter> set (keys owners) = {}" using Cons.prems(3) e by auto
    from Cons.IH [OF hyps this, where out = out] obtain owners' where
      "collect_nodes s pid lanes fs out owners =
        Inr (out @ map (the \<circ> bound_record) (filter (\<lambda>(h, nid, f). \<not> on_excluded_lane lanes f) fs), owners')"
      "\<forall>n k. map_of owners' n = Some k \<longrightarrow> map_of owners n = Some k \<or> (\<exists>f. (k, n, f) \<in> set fs)"
      by blast
    with True e show ?thesis by (intro exI [of _ owners']) auto
  next
    case False
    obtain m where m: "f = Readable m" "node_wf m" "preset_known s m" "n_id m = nid" "n_project_id m = pid"
      using ok by (cases f) (auto simp: record_ok_def)
    then have v: "validate_file s f = Inr m" using wf_check by (simp add: validate_file_def preset_known_def)
    have new: "nid \<notin> set (keys owners)" using Cons.prems(3) e by auto
    have "set (map (\<lambda>(h, nid, f). nid) fs) \<inter> set (keys (AList.update nid h owners)) = {}"
      using Cons.prems(2,3) e by (auto simp: dom_update)
    from Cons.IH [OF hyps this, where out = "out @ [m\<lparr>n_owner_host_id := h\<rparr>]"] obtain owners' where
      o: "collect_nodes s pid lanes fs (out @ [m\<lparr>n_owner_host_id := h\<rparr>]) (AList.update nid h owners) =
        Inr ((out @ [m\<lparr>n_owner_host_id := h\<rparr>]) @
          map (the \<circ> bound_record) (filter (\<lambda>(h, nid, f). \<not> on_excluded_lane lanes f) fs), owners')" and
      o': "\<forall>n k. map_of owners' n = Some k \<longrightarrow> map_of (AList.update nid h owners) n = Some k \<or>
        (\<exists>f. (k, n, f) \<in> set fs)"
      by blast
    have "collect_nodes s pid lanes (e # fs) out owners =
        Inr (out @ map (the \<circ> bound_record) (filter (\<lambda>(h, nid, f). \<not> on_excluded_lane lanes f) (e # fs)), owners')"
      using False e v m new o by (simp add: bound_record_def)
    moreover have "\<forall>n k. map_of owners' n = Some k \<longrightarrow> map_of owners n = Some k \<or>
        (\<exists>f. (k, n, f) \<in> set (e # fs))"
    proof (intro allI impI)
      fix n k assume "map_of owners' n = Some k"
      with o' have "map_of (AList.update nid h owners) n = Some k \<or> (\<exists>f. (k, n, f) \<in> set fs)" by blast
      then show "map_of owners n = Some k \<or> (\<exists>f. (k, n, f) \<in> set (e # fs))"
        using e by (cases "n = nid") auto
    qed
    ultimately show ?thesis by blast
  qed
qed

lemma distinct_file_ids:
  assumes "store_ok s"
  shows "distinct (map (\<lambda>(h, nid, f). nid) (files_of s pid))"
proof -
  note d = store_okD(1) [OF assms]
  have "inj_on (\<lambda>(h, nid, f). nid) (set (files_of s pid))"
  proof (rule inj_onI)
    fix x y assume xy: "x \<in> set (files_of s pid)" "y \<in> set (files_of s pid)"
      "(case x of (h, nid, f) \<Rightarrow> nid) = (case y of (h, nid, f) \<Rightarrow> nid)"
    obtain h n f where x: "x = (h, n, f)" by (metis prod.exhaust)
    obtain h' n' f' where y: "y = (h', n', f')" by (metis prod.exhaust)
    have r: "record_at s pid h n = Some f" "record_at s pid h' n = Some f'"
      using xy x y files_of_iff [OF d] by auto
    then have "h = h'" using store_okD(3) [OF assms, of pid h n h'] by simp
    with r xy(3) x y show "x = y" by simp
  qed
  moreover have "distinct (files_of s pid)"
    using distinct_files_of [OF d, of pid] by (simp add: distinct_map)
  ultimately show ?thesis by (simp add: distinct_map)
qed

definition on_lanes :: "pystr list \<Rightarrow> node \<Rightarrow> bool" where
  "on_lanes lanes n = (case n_planspace_id n of None \<Rightarrow> False | Some l \<Rightarrow> l \<in> set lanes)"

lemma on_excluded_bound:
  "bound_record (h, nid, f) = Some n \<Longrightarrow> on_excluded_lane lanes f = on_lanes lanes n"
  by (cases f) (auto simp: bound_record_def on_excluded_lane_def on_lanes_def)

lemma bound_record_file:
  assumes "store_ok s" and "(h, nid, f) \<in> set (files_of s pid)"
  shows "bound_record (h, nid, f) = view s pid nid \<and> view s pid nid \<noteq> None"
proof -
  have r: "record_at s pid h nid = Some f"
    using assms files_of_iff [OF store_okD(1)] by blast
  then have "record_ok s pid nid f" using store_okD(2) [OF assms(1)] by blast
  then obtain m where m: "f = Readable m" by (cases f) (auto simp: record_ok_def)
  with view_record [OF assms(1)] r show ?thesis by (simp add: bound_record_def)
qed

lemma view_ids:
  assumes "store_ok s" and "view s pid nid = Some n"
  shows "n_id n = nid" "n_project_id n = pid" "node_wf n" "preset_known s n"
proof -
  obtain h m where r: "record_at s pid h nid = Some (Readable m)" "n = m\<lparr>n_owner_host_id := h\<rparr>"
    using assms view_Some_iff by blast
  then have "record_ok s pid nid (Readable m)" using store_okD(2) [OF assms(1)] by blast
  with r show "n_id n = nid" "n_project_id n = pid" "node_wf n" "preset_known s n"
    by (simp_all add: record_ok_def)
qed

lemma list_for_project_law:
  assumes "store_ok s"
  shows "\<exists>t ns. list_nodes_for_project pid proj lanes s = (t, Inr ns) \<and> store_ok t \<and> core t = core s \<and>
    distinct (map n_id ns) \<and> sorted (map n_created_at ns) \<and>
    (\<forall>n. n \<in> set ns \<longleftrightarrow> view s pid (n_id n) = Some n \<and> \<not> on_lanes lanes n)"
proof -
  let ?fs = "filter (\<lambda>(h, nid, f). \<not> on_excluded_lane lanes f) (files_of s pid)"
  let ?out = "map (the \<circ> bound_record) ?fs"
  note fiff = files_of_iff [OF store_okD(1) [OF assms]]
  obtain owners where c: "collect_nodes s pid lanes (files_of s pid) [] [] = Inr (?out, owners)" and
    o: "\<forall>nid h. map_of owners nid = Some h \<longrightarrow> (\<exists>f. (h, nid, f) \<in> set (files_of s pid))"
    using collect_nodes_ok [where fs = "files_of s pid" and s = s and pid = pid and lanes = lanes and
        owners = "[]" and out = "[]"] distinct_file_ids [OF assms]
      store_okD(2) [OF assms] fiff by fastforce
  have rec: "bound_record (h, nid, f) = view s pid nid \<and> view s pid nid \<noteq> None"
    if "(h, nid, f) \<in> set (files_of s pid)" for h nid f
    using bound_record_file [OF assms that] .
  have ids: "map n_id ?out = map (\<lambda>(h, nid, f). nid) ?fs"
  proof -
    have "n_id (the (bound_record e)) = (case e of (h, nid, f) \<Rightarrow> nid)" if "e \<in> set (files_of s pid)" for e
    proof -
      obtain h nid f where e: "e = (h, nid, f)" by (metis prod.exhaust)
      with rec that obtain n where "bound_record e = Some n" "view s pid nid = Some n" by fastforce
      then show ?thesis using view_ids(1) [OF assms] e by simp
    qed
    then show ?thesis by simp
  qed
  have mem: "n \<in> set ?out \<longleftrightarrow> view s pid (n_id n) = Some n \<and> \<not> on_lanes lanes n" for n
  proof
    assume "n \<in> set ?out"
    then obtain h nid f where e: "(h, nid, f) \<in> set (files_of s pid)" "\<not> on_excluded_lane lanes f"
      "n = the (bound_record (h, nid, f))" by auto
    then have b: "bound_record (h, nid, f) = Some n" "view s pid nid = Some n" using rec by auto
    then show "view s pid (n_id n) = Some n \<and> \<not> on_lanes lanes n"
      using e view_ids(1) [OF assms] on_excluded_bound by metis
  next
    assume v: "view s pid (n_id n) = Some n \<and> \<not> on_lanes lanes n"
    then obtain h m where r: "record_at s pid h (n_id n) = Some (Readable m)" using view_Some_iff [OF assms] by blast
    then have e: "(h, n_id n, Readable m) \<in> set (files_of s pid)" using fiff by simp
    with rec v have b: "bound_record (h, n_id n, Readable m) = Some n" by auto
    with v have "\<not> on_excluded_lane lanes (Readable m)" using on_excluded_bound by blast
    with e have "(h, n_id n, Readable m) \<in> set ?fs" by simp
    then have "the (bound_record (h, n_id n, Readable m)) \<in> set ?out" by (metis comp_apply image_eqI list.set_map)
    with b show "n \<in> set ?out" by simp
  qed
  let ?s1 = "s\<lparr>st_owner_index := AList.update pid owners (st_owner_index s)\<rparr>"
  have ok1: "store_ok ?s1"
    using assms o fiff config_cong [of ?s1 s] unfolding store_ok_def
    by (auto simp: lookup2_def record_at_def dir_at_def split: option.splits)
  obtain t where t: "list_nodes_for_project pid proj lanes s = (t, Inr (sort_key n_created_at ?out))"
    "core t = core s" "store_ok t"
  proof (cases proj)
    case None
    with c show ?thesis using that [of ?s1] ok1
      by (simp add: list_nodes_for_project_def bind_def andthen_def core_def Let_def)
  next
    case (Some p)
    let ?s2 = "\<lambda>m. ?s1\<lparr>st_last_activity := m\<rparr>"
    have "store_ok (?s2 m)" for m
      using ok1 config_cong [of "?s2 m" ?s1] by (simp add: store_ok_def record_at_def dir_at_def)
    with Some c show ?thesis
      using that [of "?s2 (AList.update pid (max_default (concat (map times_of (sort_key n_created_at ?out)))
          (p_created_at p)) (st_last_activity s))"]
      by (simp add: list_nodes_for_project_def bind_def andthen_def core_def Let_def)
  qed
  have "distinct (map n_id ?out)"
    unfolding ids by (rule distinct_map_filter [OF distinct_file_ids [OF assms]])
  then have "distinct (map n_id (sort_key n_created_at ?out))"
    by (simp only: distinct_map set_sort distinct_sort)
  with t mem show ?thesis by (intro exI [of _ t] exI [of _ "sort_key n_created_at ?out"]) simp
qed

lemma load_project_law:
  assumes "store_ok s"
  shows "\<exists>p. load_project pid s = (s, Inr p)"
proof (cases "map_of (st_projects s) pid")
  case (Some p)
  then have "(pid, p) \<in> set (st_projects s)" by (rule map_of_SomeD)
  then have "project_ok s p" using store_okD(5) [OF assms] by force
  with Some show ?thesis by (simp add: load_project_def check_project_def project_ok_def Let_def)
qed (simp add: load_project_def)

lemma list_nodes_law:
  assumes "store_ok s"
  shows "\<exists>t ns. list_nodes pid lanes s = (t, Inr ns) \<and> store_ok t \<and> core t = core s \<and>
    distinct (map n_id ns) \<and> sorted (map n_created_at ns) \<and>
    (\<forall>n. n \<in> set ns \<longleftrightarrow> view s pid (n_id n) = Some n \<and> \<not> on_lanes lanes n)"
proof -
  obtain p where "load_project pid s = (s, Inr p)" using load_project_law [OF assms] by blast
  with list_for_project_law [OF assms, of pid p lanes] show ?thesis
    by (simp add: list_nodes_def bind_def)
qed

subsection \<open>Writing\<close>

lemma rest_simps [simp]:
  "rest (put_dir p d s) = rest s" "rest (write_node_json p n s) = rest s"
  "rest (s\<lparr>st_commits := c\<rparr>) = rest s" "rest (s\<lparr>st_dirs := ds\<rparr>) = rest s"
  "rest (pop_owner pid nid s) = rest s"
  by (simp_all add: rest_def put_dir_def write_node_json_def pop_owner_def split: option.split)

lemma record_at_write [simp]:
  "record_at (write_node_json p n s) pid h nid =
     (if p = (pid, h, nid) then Some (Readable (dumped n)) else record_at s pid h nid)"
  by (simp add: write_node_json_def)

lemma index_write [simp]:
  "st_owner_index (write_node_json p n s) = st_owner_index s"
  "st_projects (write_node_json p n s) = st_projects s"
  "st_machine (write_node_json p n s) = st_machine s"
  "st_read_only (write_node_json p n s) = st_read_only s"
  by (simp_all add: write_node_json_def put_dir_def)

lemma distinct_put_dir: "distinct (keys (st_dirs s)) \<Longrightarrow> distinct (keys (st_dirs (put_dir p d s)))"
  by (simp add: put_dir_def distinct_update)

lemma commits_simps [simp]:
  "record_at (s\<lparr>st_commits := c\<rparr>) = record_at s" "store_ok (s\<lparr>st_commits := c\<rparr>) = store_ok s"
  "view (s\<lparr>st_commits := c\<rparr>) = view s"
  using config_cong [of "s\<lparr>st_commits := c\<rparr>" s]
  by (simp_all add: store_ok_def record_at_def dir_at_def fun_eq_iff view_def files_of_def)

lemma owner_mid_present:
  assumes "store_ok s" and "view s pid nid = Some n" and "n_owner_host_id n = st_machine s"
  shows "owner_mid s pid nid = st_machine s"
proof (cases "lookup2 (st_owner_index s) pid nid")
  case (Some h)
  then have "record_at s pid h nid \<noteq> None" using store_okD(4) [OF assms(1)] by blast
  then obtain f where f: "record_at s pid h nid = Some f" by blast
  then obtain m where "f = Readable m" using store_okD(2) [OF assms(1) f] by (cases f) (auto simp: record_ok_def)
  with f have "view s pid nid = Some (m\<lparr>n_owner_host_id := h\<rparr>)" using view_record [OF assms(1)] by blast
  with assms(2,3) Some show ?thesis by (auto simp: owner_mid_def)
qed (simp add: owner_mid_def)

lemma owner_mid_absent:
  assumes "store_ok s" and "view s pid nid = None"
  shows "owner_mid s pid nid = st_machine s"
  using assms store_okD(4) [OF assms(1), of pid nid] view_None_iff [OF assms(1)]
  by (auto simp: owner_mid_def split: option.split)

lemma native_record:
  assumes "store_ok s" and "view s pid nid = Some n" and "n_owner_host_id n = st_machine s"
  shows "\<exists>m. record_at s pid (st_machine s) nid = Some (Readable m) \<and> n_rev m = n_rev n"
  using assms view_Some_iff [OF assms(1), of pid nid n] by auto

lemma view_local:
  assumes "store_ok s" and "store_ok t" and "\<And>h. record_at t p h i = record_at s p h i"
  shows "view t p i = view s p i"
proof (cases rule: view_cases [OF assms(1), of p i])
  case 1
  then show ?thesis using view_None_iff [OF assms(2)] assms(3) by simp
next
  case (2 h m)
  then have "record_at t p h i = Some (Readable m)" using assms(3) by simp
  from view_record [OF assms(2) this] 2(1) show ?thesis by simp
qed

text \<open>Writing a well-formed record into a free id or over the record of the same partition.\<close>

lemma store_ok_write:
  assumes "store_ok s" and "node_wf n" and "preset_known s n"
    and "\<And>h'. record_at s (n_project_id n) h' (n_id n) \<noteq> None \<Longrightarrow> h' = h"
  shows "store_ok (write_node_json (n_project_id n, h, n_id n) n s)" (is "store_ok ?t")
    and "view (write_node_json (n_project_id n, h, n_id n) n s) =
      (view s)(n_project_id n := (view s (n_project_id n))(n_id n \<mapsto> n\<lparr>n_owner_host_id := h\<rparr>))"
proof -
  have cfg: "record_ok ?t = record_ok s" "project_ok ?t = project_ok s"
    using config_cong [of ?t s] by simp_all
  have "distinct (keys (st_dirs ?t))"
    using store_okD(1) [OF assms(1)] by (simp add: write_node_json_def distinct_put_dir)
  moreover have "record_ok ?t pid nid f" if "record_at ?t pid k nid = Some f" for pid k nid f
    using that store_okD(2) [OF assms(1)] assms(2,3)
    unfolding cfg by (auto simp: record_ok_def split: if_splits) (simp_all add: dumped_def)
  moreover have "k = k'" if "record_at ?t pid k nid \<noteq> None" "record_at ?t pid k' nid \<noteq> None" for pid k k' nid
  proof (cases "pid = n_project_id n \<and> nid = n_id n")
    case True
    then have "k = h \<or> record_at s (n_project_id n) k (n_id n) \<noteq> None"
      "k' = h \<or> record_at s (n_project_id n) k' (n_id n) \<noteq> None"
      using that by (auto split: if_splits)
    then show ?thesis using assms(4) by blast
  next
    case False
    then have "record_at s pid k nid \<noteq> None" "record_at s pid k' nid \<noteq> None"
      using that by (auto split: if_splits)
    then show ?thesis by (rule store_okD(3) [OF assms(1)])
  qed
  moreover have "record_at ?t pid k nid \<noteq> None" if "lookup2 (st_owner_index ?t) pid nid = Some k" for pid k nid
    using that store_okD(4) [OF assms(1), of pid nid k] by auto
  moreover have "\<forall>p \<in> set (st_projects ?t). project_ok ?t (snd p)"
    using store_okD(5) [OF assms(1)] by (simp add: cfg)
  ultimately show ok: "store_ok ?t" unfolding store_ok_def by blast
  have "view ?t pid nid =
      ((view s)(n_project_id n := (view s (n_project_id n))(n_id n \<mapsto> n\<lparr>n_owner_host_id := h\<rparr>))) pid nid"
    for pid nid
  proof (cases "pid = n_project_id n \<and> nid = n_id n")
    case True
    then have "record_at ?t pid h nid = Some (Readable (dumped n))" by simp
    from view_record [OF ok this] True show ?thesis by (simp add: dumped_def)
  next
    case False
    then have "record_at ?t pid k nid = record_at s pid k nid" for k by auto
    then have "view ?t pid nid = view s pid nid" by (rule view_local [OF assms(1) ok])
    with False show ?thesis by auto
  qed
  then show "view ?t = (view s)(n_project_id n := (view s (n_project_id n))(n_id n \<mapsto> n\<lparr>n_owner_host_id := h\<rparr>))"
    by (simp add: fun_eq_iff)
qed

text \<open>The table with one more record, and with one less.\<close>

definition tab_put :: "node \<Rightarrow> (pystr \<Rightarrow> pystr \<Rightarrow> node option) \<Rightarrow> pystr \<Rightarrow> pystr \<Rightarrow> node option" where
  "tab_put n v = v(n_project_id n := (v (n_project_id n))(n_id n \<mapsto> n))"

definition tab_drop :: "pystr \<Rightarrow> pystr \<Rightarrow> (pystr \<Rightarrow> pystr \<Rightarrow> node option) \<Rightarrow> pystr \<Rightarrow> pystr \<Rightarrow> node option" where
  "tab_drop pid nid v = v(pid := (v pid)(nid := None))"

lemma tab_simps [simp]:
  "tab_put n v p i = (if p = n_project_id n \<and> i = n_id n then Some n else v p i)"
  "tab_drop q j v p i = (if p = q \<and> i = j then None else v p i)"
  by (auto simp: tab_put_def tab_drop_def)

definition created_as :: "store \<Rightarrow> node \<Rightarrow> node" where
  "created_as s n = n\<lparr>
     n_origin_machine_id := (if n_origin_machine_id n = [] then st_machine s else n_origin_machine_id n),
     n_owner_host_id := st_machine s\<rparr>"

lemma create_node_law:
  assumes "store_ok s" and "writable s" and "node_wf n" and "preset_known s n" and "view s (n_project_id n) (n_id n) = None"
  shows "\<exists>t. create_node n s = (t, Inr (created_as s n)) \<and> store_ok t \<and> rest t = rest s \<and>
    view t = tab_put (created_as s n) (view s)"
proof -
  let ?m = "if n_origin_machine_id n = [] then n\<lparr>n_origin_machine_id := st_machine s\<rparr> else n"
  let ?pid = "n_project_id n" and ?nid = "n_id n"
  let ?s1 = "write_node_json (?pid, st_machine s, ?nid) ?m s"
  let ?s2 = "set_owner ?pid ?nid (st_machine s) ?s1"
  let ?t = "?s2\<lparr>st_commits := st_commits ?s2 @ [''create node '' @ ?nid]\<rparr>"
  have wf: "node_wf ?m" "preset_known s ?m" and ids: "n_project_id ?m = ?pid" "n_id ?m = ?nid"
    and preset: "n_model_preset_id ?m = n_model_preset_id n"
    using assms(3,4) by simp_all
  have path: "node_path s ?pid ?nid = (?pid, st_machine s, ?nid)"
    using owner_mid_absent [OF assms(1,5)] by (simp add: node_path_def)
  have free: "record_at s ?pid h' ?nid = None" for h' using assms(5) view_None_iff [OF assms(1)] by blast
  have w: "store_ok ?s1" "view ?s1 = tab_put (?m\<lparr>n_owner_host_id := st_machine s\<rparr>) (view s)"
    using store_ok_write [OF assms(1) wf, of "st_machine s"] free ids by (simp_all add: tab_put_def)
  have "store_ok ?s2" using w(1) by (intro store_ok_set_owner) simp_all
  moreover have path2: "node_path ?s2 ?pid ?nid = (?pid, st_machine s, ?nid)"
    by (simp add: node_path_def owner_mid_def)
  moreover have "record_at ?s2 ?pid (st_machine s) ?nid \<noteq> None" by simp
  then have "d_node (dir_at ?s2 (?pid, st_machine s, ?nid)) \<noteq> None" unfolding record_at_def .
  moreover have "?m\<lparr>n_owner_host_id := st_machine s\<rparr> = created_as s n" by (simp add: created_as_def)
  ultimately have "create_node n s = (?t, Inr (created_as s n))"
    using assms(2,4) path ids preset
    by (simp add: create_node_def bind_model_catalog_apply preset_known_def assert_writable_def writable_def bind_def andthen_def
        schedule_commit_def Let_def)
  moreover have "view ?t = tab_put (created_as s n) (view s)"
    using w(2) \<open>?m\<lparr>n_owner_host_id := st_machine s\<rparr> = created_as s n\<close> by simp
  moreover have "rest ?t = rest s" by simp
  ultimately show ?thesis using \<open>store_ok ?s2\<close> by (intro exI [of _ ?t]) simp
qed

lemma update_node_law:
  assumes "store_ok s" and "writable s" and "node_wf n" and "preset_known s n"
    and "view s (n_project_id n) (n_id n) = Some n0"
    and "n_owner_host_id n0 = st_machine s" and "n_owner_host_id n = st_machine s"
  shows "\<exists>t. update_node n s = (t, Inr (n\<lparr>n_rev := max (n_rev n) (n_rev n0) + 1\<rparr>)) \<and> store_ok t \<and>
    rest t = rest s \<and> view t = tab_put (n\<lparr>n_rev := max (n_rev n) (n_rev n0) + 1\<rparr>) (view s)"
proof -
  let ?pid = "n_project_id n" and ?nid = "n_id n"
  let ?m = "n\<lparr>n_rev := max (n_rev n) (n_rev n0) + 1\<rparr>"
  let ?s1 = "write_node_json (?pid, st_machine s, ?nid) ?m s"
  let ?t = "?s1\<lparr>st_commits := st_commits ?s1 @ [''node '' @ ?nid @ '' '' @ node_state_value (n_state n)]\<rparr>"
  have path: "node_path s ?pid ?nid = (?pid, st_machine s, ?nid)"
    using owner_mid_present [OF assms(1,5,6)] by (simp add: node_path_def)
  obtain m where m: "record_at s ?pid (st_machine s) ?nid = Some (Readable m)" "n_rev m = n_rev n0"
    using native_record [OF assms(1,5,6)] by blast
  then have rev: "persisted_rev (d_node (dir_at s (?pid, st_machine s, ?nid))) = n_rev n0"
    by (simp add: record_at_def persisted_rev_def)
  have only: "h' = st_machine s" if "record_at s ?pid h' ?nid \<noteq> None" for h'
    using store_okD(3) [OF assms(1) that, of "st_machine s"] m by simp
  have w: "store_ok ?s1" "view ?s1 = tab_put (?m\<lparr>n_owner_host_id := st_machine s\<rparr>) (view s)"
    using store_ok_write [OF assms(1), of ?m "st_machine s"] only assms(3,4) by (simp_all add: tab_put_def)
  have "?m\<lparr>n_owner_host_id := st_machine s\<rparr> = ?m" using assms(7) by simp
  moreover have "update_node n s = (?t, Inr ?m)"
    using assms(2,4) path rev
    by (simp add: update_node_def bind_model_catalog_apply preset_known_def assert_writable_def writable_def bind_def andthen_def schedule_commit_def)
  ultimately show ?thesis using w by (intro exI [of _ ?t]) simp
qed

lemma record_at_delete:
  "record_at (s\<lparr>st_dirs := AList.delete p (st_dirs s)\<rparr>) pid h nid =
     (if p = (pid, h, nid) then None else record_at s pid h nid)"
  by (auto simp: record_at_def dir_at_def empty_dir_def)

lemma pop_owner_simps [simp]:
  "st_dirs (pop_owner pid nid s) = st_dirs s" "st_projects (pop_owner pid nid s) = st_projects s"
  "record_at (pop_owner pid nid s) = record_at s" "view (pop_owner pid nid s) = view s"
  "lookup2 (st_owner_index (pop_owner pid nid s)) x y =
     (if x = pid \<and> y = nid then None else lookup2 (st_owner_index s) x y)"
  by (auto simp: pop_owner_def lookup2_def intro: record_at_dirs view_dirs split: option.split)

lemma delete_node_law:
  assumes "store_ok s" and "writable s"
    and "view s pid nid = Some n" and "n_owner_host_id n = st_machine s"
  shows "\<exists>t. delete_node pid nid s = (t, Inr True) \<and> store_ok t \<and> rest t = rest s \<and>
    view t = tab_drop pid nid (view s)"
proof -
  let ?p = "(pid, st_machine s, nid)"
  let ?s1 = "s\<lparr>st_dirs := AList.delete ?p (st_dirs s)\<rparr>"
  let ?s2 = "pop_owner pid nid ?s1"
  let ?t = "?s2\<lparr>st_commits := st_commits ?s2 @ [''delete node '' @ nid]\<rparr>"
  have path: "node_path s pid nid = ?p"
    using owner_mid_present [OF assms(1,3,4)] by (simp add: node_path_def)
  obtain m where m: "record_at s pid (st_machine s) nid = Some (Readable m)"
    using native_record [OF assms(1,3,4)] by blast
  then have there: "map_of (st_dirs s) ?p \<noteq> None"
    by (auto simp: record_at_def dir_at_def empty_dir_def split: option.splits)
  have only: "h = st_machine s" if "record_at s pid h nid \<noteq> None" for h
    using store_okD(3) [OF assms(1) that, of "st_machine s"] m by simp
  have rec: "record_at ?s2 p h i = (if p = pid \<and> i = nid then None else record_at s p h i)" for p h i
  proof -
    have del: "record_at ?s2 p h i = (if ?p = (p, h, i) then None else record_at s p h i)"
      by (simp add: record_at_delete del: prod.inject)
    have "record_at s pid h nid = None" if "h \<noteq> st_machine s"
      using that only by blast
    with del have "record_at ?s2 p h i = (if p = pid \<and> i = nid then None else record_at s p h i)"
      if "h \<noteq> st_machine s" using that by (metis prod.inject)
    moreover have "record_at ?s2 p h i = (if p = pid \<and> i = nid then None else record_at s p h i)"
      if "h = st_machine s"
      using del that by (metis prod.inject)
    ultimately show ?thesis by blast
  qed
  have cfg: "record_ok ?s2 = record_ok s" "project_ok ?s2 = project_ok s"
    using config_cong [of ?s2 s] by simp_all
  have ok: "store_ok ?s2"
    unfolding store_ok_def cfg
  proof (intro conjI allI impI ballI)
    show "distinct (keys (st_dirs ?s2))"
      using store_okD(1) [OF assms(1)] by (simp add: distinct_delete)
    show "record_ok s p i f" if "record_at ?s2 p h i = Some f" for p h i f
      using that store_okD(2) [OF assms(1)] unfolding rec by (simp split: if_splits)
    show "h = h'" if "record_at ?s2 p h i \<noteq> None" "record_at ?s2 p h' i \<noteq> None" for p h h' i
    proof -
      have "record_at s p h i \<noteq> None" "record_at s p h' i \<noteq> None"
        using that unfolding rec by (simp_all split: if_splits)
      then show ?thesis by (rule store_okD(3) [OF assms(1)])
    qed
    show "record_at ?s2 p h i \<noteq> None" if "lookup2 (st_owner_index ?s2) p i = Some h" for p i h
    proof -
      have "\<not> (p = pid \<and> i = nid)" "lookup2 (st_owner_index s) p i = Some h"
        using that by (simp_all split: if_splits)
      then show ?thesis using store_okD(4) [OF assms(1)] unfolding rec by simp
    qed
    show "project_ok s (snd p)" if "p \<in> set (st_projects ?s2)" for p
      using that store_okD(5) [OF assms(1)] by simp
  qed
  have "view ?s2 p i = tab_drop pid nid (view s) p i" for p i
  proof (cases "p = pid \<and> i = nid")
    case True
    then show ?thesis using view_None_iff [OF ok, of p i] rec by simp
  next
    case False
    then have "record_at ?s2 p h i = record_at s p h i" for h using rec by auto
    then have "view ?s2 p i = view s p i" by (rule view_local [OF assms(1) ok])
    with False show ?thesis by auto
  qed
  then have v: "view ?s2 = tab_drop pid nid (view s)" by (simp add: fun_eq_iff)
  have "delete_node pid nid s = (?t, Inr True)"
    using assms(2) path there
    by (simp add: delete_node_def assert_writable_def writable_def bind_def andthen_def schedule_commit_def)
  with ok v show ?thesis by (intro exI [of _ ?t]) simp
qed

lemma put_dir_same_node:
  assumes "store_ok s" and "d_node d = d_node (dir_at s p)"
  shows "store_ok (put_dir p d s)" "view (put_dir p d s) = view s"
proof -
  have rec: "record_at (put_dir p d s) = record_at s"
    using assms(2) by (simp add: fun_eq_iff) (simp add: record_at_def)
  then show ok: "store_ok (put_dir p d s)"
    using assms(1) distinct_put_dir config_cong [of "put_dir p d s" s]
    unfolding store_ok_def by (simp add: put_dir_def distinct_update)
  have "view (put_dir p d s) q i = view s q i" for q i
    by (rule view_local [OF assms(1) ok]) (simp add: rec)
  then show "view (put_dir p d s) = view s" by (simp add: fun_eq_iff)
qed

lemma side_file_laws:
  assumes "store_ok s" and "writable s"
  shows "\<exists>t. write_node_preview pid nid doc s = (t, Inr ()) \<and> store_ok t \<and> rest t = rest s \<and> view t = view s"
    and "\<exists>t. append_event pid nid seq event s = (t, Inr ()) \<and> store_ok t \<and> rest t = rest s \<and> view t = view s"
    and "\<exists>t. append_gate pid gate action s = (t, Inr ()) \<and> store_ok t \<and> rest t = rest s \<and> view t = view s"
  using assms put_dir_same_node [OF assms(1)]
  by (simp_all add: write_node_preview_def append_event_def append_gate_def assert_writable_def
      writable_def bind_def andthen_def schedule_commit_def Let_def)

lemma read_only_laws:
  assumes "st_read_only s = Some r"
  shows "create_node n s = (s, Inl (StoreReadOnly r))" "update_node n s = (s, Inl (StoreReadOnly r))"
    "delete_node pid nid s = (s, Inl (StoreReadOnly r))"
    "write_node_preview pid nid doc s = (s, Inl (StoreReadOnly r))"
    "append_event pid nid seq event s = (s, Inl (StoreReadOnly r))"
    "append_gate pid gate action s = (s, Inl (StoreReadOnly r))"
  using assms
  by (simp_all add: create_node_def update_node_def delete_node_def write_node_preview_def
      append_event_def append_gate_def assert_writable_def bind_def)

lemma unknown_preset_laws:
  assumes "\<not> preset_known s n"
  shows "\<exists>e. create_node n s = (s, Inl e)" "\<exists>e. update_node n s = (s, Inl e)"
  using assms
  by (auto simp: preset_known_def create_node_def update_node_def assert_writable_def bind_def andthen_def
      bind_model_catalog_apply Let_def split: option.split)

section \<open>The interface\<close>

text \<open>
  What the registry and the reaper rely on. \<open>quiet\<close> is the part of the state no read changes (the
  caches are not in it), \<open>frame\<close> the part no node operation changes.
\<close>

locale node_table =
  fixes ok :: "'s \<Rightarrow> bool"
    and tab :: "'s \<Rightarrow> pystr \<Rightarrow> pystr \<Rightarrow> node option"
    and may_write :: "'s \<Rightarrow> bool"
    and known :: "'s \<Rightarrow> node \<Rightarrow> bool"
    and host :: "'s \<Rightarrow> pystr"
    and quiet :: "'s \<Rightarrow> 'c"
    and frame :: "'s \<Rightarrow> 'd"
    and load :: "pystr \<Rightarrow> pystr \<Rightarrow> (exn, 's, node option) prog"
    and listing :: "pystr \<Rightarrow> pystr list \<Rightarrow> (exn, 's, node list) prog"
    and create :: "node \<Rightarrow> (exn, 's, node) prog"
    and update :: "node \<Rightarrow> (exn, 's, node) prog"
    and delete :: "pystr \<Rightarrow> pystr \<Rightarrow> (exn, 's, bool) prog"
    and preview :: "pystr \<Rightarrow> pystr \<Rightarrow> json \<Rightarrow> (exn, 's, unit) prog"
  assumes quiet_frame: "quiet t = quiet s \<Longrightarrow> tab t = tab s \<and> frame t = frame s"
    and frame_host: "frame t = frame s \<Longrightarrow> host t = host s \<and> may_write t = may_write s \<and> known t = known s"
    and tab_ids: "ok s \<Longrightarrow> tab s p i = Some n \<Longrightarrow> n_id n = i \<and> n_project_id n = p \<and> node_wf n \<and> known s n"
    and load_law: "ok s \<Longrightarrow> \<exists>t. load p i s = (t, Inr (tab s p i)) \<and> ok t \<and> quiet t = quiet s"
    and listing_law: "ok s \<Longrightarrow> \<exists>t ns. listing p lanes s = (t, Inr ns) \<and> ok t \<and> quiet t = quiet s \<and>
      distinct (map n_id ns) \<and> sorted (map n_created_at ns) \<and>
      (\<forall>n. n \<in> set ns \<longleftrightarrow> tab s p (n_id n) = Some n \<and> \<not> on_lanes lanes n)"
    and create_law: "ok s \<Longrightarrow> may_write s \<Longrightarrow> node_wf n \<Longrightarrow> known s n \<Longrightarrow>
      tab s (n_project_id n) (n_id n) = None \<Longrightarrow>
      \<exists>t m. create n s = (t, Inr m) \<and> ok t \<and> frame t = frame s \<and> tab t = tab_put m (tab s) \<and>
        m = n\<lparr>n_origin_machine_id := (if n_origin_machine_id n = [] then host s else n_origin_machine_id n),
              n_owner_host_id := host s\<rparr>"
    and update_law: "ok s \<Longrightarrow> may_write s \<Longrightarrow> node_wf n \<Longrightarrow> known s n \<Longrightarrow>
      tab s (n_project_id n) (n_id n) = Some n0 \<Longrightarrow> n_owner_host_id n0 = host s \<Longrightarrow>
      n_owner_host_id n = host s \<Longrightarrow>
      \<exists>t m. update n s = (t, Inr m) \<and> ok t \<and> frame t = frame s \<and> tab t = tab_put m (tab s) \<and>
        m = n\<lparr>n_rev := max (n_rev n) (n_rev n0) + 1\<rparr>"
    and delete_law: "ok s \<Longrightarrow> may_write s \<Longrightarrow> tab s p i = Some n \<Longrightarrow> n_owner_host_id n = host s \<Longrightarrow>
      \<exists>t. delete p i s = (t, Inr True) \<and> ok t \<and> frame t = frame s \<and> tab t = tab_drop p i (tab s)"
    and preview_law: "ok s \<Longrightarrow> may_write s \<Longrightarrow>
      \<exists>t. preview p i doc s = (t, Inr ()) \<and> ok t \<and> frame t = frame s \<and> tab t = tab s"
    and refusal: "\<not> may_write s \<Longrightarrow> (\<exists>e. create n s = (s, Inl e)) \<and> (\<exists>e. update n s = (s, Inl e)) \<and>
      (\<exists>e. delete p i s = (s, Inl e)) \<and> (\<exists>e. preview p i doc s = (s, Inl e))"
    and unknown_preset: "\<not> known s n \<Longrightarrow> (\<exists>e. create n s = (s, Inl e)) \<and> (\<exists>e. update n s = (s, Inl e))"
begin

lemma wp_load:
  assumes "ok s" and "\<And>t. ok t \<Longrightarrow> quiet t = quiet s \<Longrightarrow> tab t = tab s \<Longrightarrow> frame t = frame s \<Longrightarrow> Q (tab s p i) t"
  shows "wp (load p i) Q E s"
proof -
  obtain t where "load p i s = (t, Inr (tab s p i))" "ok t" "quiet t = quiet s"
    using load_law [OF assms(1)] by blast
  then show ?thesis using assms(2) quiet_frame by (blast intro: wp_returns)
qed

lemma wp_listing:
  assumes "ok s"
    and "\<And>ns t. ok t \<Longrightarrow> quiet t = quiet s \<Longrightarrow> tab t = tab s \<Longrightarrow> frame t = frame s \<Longrightarrow>
      distinct (map n_id ns) \<Longrightarrow> sorted (map n_created_at ns) \<Longrightarrow>
      (\<And>n. n \<in> set ns \<longleftrightarrow> tab s p (n_id n) = Some n \<and> \<not> on_lanes lanes n) \<Longrightarrow> Q ns t"
  shows "wp (listing p lanes) Q E s"
proof -
  obtain t ns where "listing p lanes s = (t, Inr ns)" "ok t" "quiet t = quiet s"
    "distinct (map n_id ns)" "sorted (map n_created_at ns)"
    "\<forall>n. n \<in> set ns \<longleftrightarrow> tab s p (n_id n) = Some n \<and> \<not> on_lanes lanes n"
    using listing_law [OF assms(1)] by blast
  then show ?thesis using assms(2) [of t ns] quiet_frame by (blast intro: wp_returns)
qed

lemma wp_create:
  assumes "ok s" and "node_wf n" and "tab s (n_project_id n) (n_id n) = None"
    and "\<And>t m. may_write s \<Longrightarrow> known s n \<Longrightarrow> ok t \<Longrightarrow> frame t = frame s \<Longrightarrow> tab t = tab_put m (tab s) \<Longrightarrow>
      m = n\<lparr>n_origin_machine_id := (if n_origin_machine_id n = [] then host s else n_origin_machine_id n),
            n_owner_host_id := host s\<rparr> \<Longrightarrow> Q m t"
    and "\<And>e. E e s"
  shows "wp (create n) Q E s"
proof (cases "may_write s \<and> known s n")
  case True
  then have "may_write s" "known s n" by blast+
  note True = this
  from create_law [OF assms(1) True(1) assms(2) True(2) assms(3)] assms(4) [OF True] show ?thesis
    by (blast intro: wp_returns)
next
  case False
  with refusal [of s n] unknown_preset [of s n] assms(5) show ?thesis by (blast intro: wp_raises)
qed

lemma wp_update:
  assumes "ok s" and "node_wf n" and "tab s (n_project_id n) (n_id n) = Some n0"
    and "n_owner_host_id n0 = host s" and "n_owner_host_id n = host s"
    and "\<And>t m. may_write s \<Longrightarrow> known s n \<Longrightarrow> ok t \<Longrightarrow> frame t = frame s \<Longrightarrow> tab t = tab_put m (tab s) \<Longrightarrow>
      m = n\<lparr>n_rev := max (n_rev n) (n_rev n0) + 1\<rparr> \<Longrightarrow> Q m t"
    and "\<And>e. E e s"
  shows "wp (update n) Q E s"
proof (cases "may_write s \<and> known s n")
  case True
  then have "may_write s" "known s n" by blast+
  note True = this
  from update_law [OF assms(1) True(1) assms(2) True(2) assms(3,4,5)] assms(6) [OF True] show ?thesis
    by (blast intro: wp_returns)
next
  case False
  with refusal [of s n] unknown_preset [of s n] assms(7) show ?thesis by (blast intro: wp_raises)
qed

lemma wp_delete:
  assumes "ok s" and "tab s p i = Some n" and "n_owner_host_id n = host s"
    and "\<And>t. may_write s \<Longrightarrow> ok t \<Longrightarrow> frame t = frame s \<Longrightarrow> tab t = tab_drop p i (tab s) \<Longrightarrow> Q True t"
    and "\<And>e. E e s"
  shows "wp (delete p i) Q E s"
proof (cases "may_write s")
  case True
  from delete_law [OF assms(1) True assms(2,3)] assms(4) [OF True] show ?thesis
    by (blast intro: wp_returns)
next
  case False
  with refusal [of s _ p i] assms(5) show ?thesis by (blast intro: wp_raises)
qed

lemma wp_preview:
  assumes "ok s"
    and "\<And>t. ok t \<Longrightarrow> frame t = frame s \<Longrightarrow> tab t = tab s \<Longrightarrow> Q () t" and "\<And>e. E e s"
  shows "wp (preview p i doc) Q E s"
proof (cases "may_write s")
  case True
  from preview_law [OF assms(1) True] assms(2) show ?thesis by (blast intro: wp_returns)
next
  case False
  with refusal [of s _ p i doc] assms(3) show ?thesis by (blast intro: wp_raises)
qed

text \<open>A write is seen by the next read, and leaves the other nodes alone.\<close>

lemma read_your_write:
  assumes "ok s" and "may_write s" and "node_wf n" and "known s n"
    and "tab s (n_project_id n) (n_id n) = Some n0"
    and "n_owner_host_id n0 = host s" and "n_owner_host_id n = host s"
  shows "wp (bind (update n) (\<lambda>m. load p i))
    (\<lambda>r t. r = (if p = n_project_id n \<and> i = n_id n
                then Some (n\<lparr>n_rev := max (n_rev n) (n_rev n0) + 1\<rparr>) else tab s p i)) (\<lambda>_ _. False) s"
proof -
  obtain t m where u: "update n s = (t, Inr m)" "ok t" "tab t = tab_put m (tab s)"
    "m = n\<lparr>n_rev := max (n_rev n) (n_rev n0) + 1\<rparr>"
    using update_law [OF assms(1-7)] by blast
  obtain t' where "load p i t = (t', Inr (tab t p i))" using load_law [OF u(2)] by blast
  with u show ?thesis by (simp add: wp_def bind_def)
qed

end

interpretation disk: node_table store_ok view writable preset_known st_machine core rest load_node list_nodes
  create_node update_node delete_node write_node_preview
proof unfold_locales
  show "core t = core s \<Longrightarrow> view t = view s \<and> rest t = rest s" for s t
    using core_view core_rest by blast
  show "rest t = rest s \<Longrightarrow> st_machine t = st_machine s \<and> writable t = writable s \<and>
      preset_known t = preset_known s" for s t
    using rest_eqD [of t s] config_cong [of t s] by (simp add: writable_def)
  show "store_ok s \<Longrightarrow> view s p i = Some n \<Longrightarrow> n_id n = i \<and> n_project_id n = p \<and> node_wf n \<and> preset_known s n" for s p i n
    using view_ids by blast
  show "store_ok s \<Longrightarrow> \<exists>t. load_node p i s = (t, Inr (view s p i)) \<and> store_ok t \<and> core t = core s" for s p i
    by (rule load_node_law)
  show "store_ok s \<Longrightarrow> \<exists>t ns. list_nodes p lanes s = (t, Inr ns) \<and> store_ok t \<and> core t = core s \<and>
      distinct (map n_id ns) \<and> sorted (map n_created_at ns) \<and>
      (\<forall>n. (n \<in> set ns) = (view s p (n_id n) = Some n \<and> \<not> on_lanes lanes n))" for s p lanes
    by (rule list_nodes_law)
  show "store_ok s \<Longrightarrow> writable s \<Longrightarrow> node_wf n \<Longrightarrow> preset_known s n \<Longrightarrow>
      view s (n_project_id n) (n_id n) = None \<Longrightarrow>
      \<exists>t m. create_node n s = (t, Inr m) \<and> store_ok t \<and> rest t = rest s \<and> view t = tab_put m (view s) \<and>
        m = n\<lparr>n_origin_machine_id := (if n_origin_machine_id n = [] then st_machine s else n_origin_machine_id n),
              n_owner_host_id := st_machine s\<rparr>" for s n
    using create_node_law [of s n] by (auto simp: created_as_def)
  show "store_ok s \<Longrightarrow> writable s \<Longrightarrow> node_wf n \<Longrightarrow> preset_known s n \<Longrightarrow>
      view s (n_project_id n) (n_id n) = Some n0 \<Longrightarrow>
      n_owner_host_id n0 = st_machine s \<Longrightarrow> n_owner_host_id n = st_machine s \<Longrightarrow>
      \<exists>t m. update_node n s = (t, Inr m) \<and> store_ok t \<and> rest t = rest s \<and> view t = tab_put m (view s) \<and>
        m = n\<lparr>n_rev := max (n_rev n) (n_rev n0) + 1\<rparr>" for s n n0
    using update_node_law [of s n n0] by auto
  show "store_ok s \<Longrightarrow> writable s \<Longrightarrow> view s p i = Some n \<Longrightarrow> n_owner_host_id n = st_machine s \<Longrightarrow>
      \<exists>t. delete_node p i s = (t, Inr True) \<and> store_ok t \<and> rest t = rest s \<and> view t = tab_drop p i (view s)"
    for s p i n
    by (rule delete_node_law)
  show "store_ok s \<Longrightarrow> writable s \<Longrightarrow> \<exists>t. write_node_preview p i doc s = (t, Inr ()) \<and> store_ok t \<and>
      rest t = rest s \<and> view t = view s" for s p i doc
    by (rule side_file_laws)
  show "\<not> writable s \<Longrightarrow> (\<exists>e. create_node n s = (s, Inl e)) \<and> (\<exists>e. update_node n s = (s, Inl e)) \<and>
      (\<exists>e. delete_node p i s = (s, Inl e)) \<and> (\<exists>e. write_node_preview p i doc s = (s, Inl e))" for s n p i doc
    using read_only_laws by (auto simp: writable_def)
  show "\<not> preset_known s n \<Longrightarrow> (\<exists>e. create_node n s = (s, Inl e)) \<and> (\<exists>e. update_node n s = (s, Inl e))" for s n
    using unknown_preset_laws by blast
qed

lemma node_path_cong:
  "st_machine t = st_machine s \<Longrightarrow> st_owner_index t = st_owner_index s \<Longrightarrow>
     node_path t pid nid = node_path s pid nid"
  by (simp only: node_path_def owner_mid_def)

lemma replay_lines_snoc:
  "replay_lines nid since ls = Inr out \<Longrightarrow>
     replay_lines nid since (ls @ [\<lparr>el_version = JInt event_schema_version, el_seq = seq, el_event = event\<rparr>]) =
       Inr (out @ (if seq > since
         then [\<lparr>el_version = JInt event_schema_version, el_seq = seq, el_event = with_node_id nid event\<rparr>] else []))"
  by (induction ls arbitrary: out) (auto split: sum.splits if_splits)

section \<open>Properties\<close>

definition sample_agent :: "pystr \<Rightarrow> node_state \<Rightarrow> node" where
  "sample_agent nid st = (default_node ''p'' nid 5)\<lparr>n_state := st, n_model_preset_id := Some ''opus'',
     n_category := Some Regular, n_planspace_id := Some ''main'', n_prompt_draft := Some ''do it''\<rparr>"

definition sample_project :: project where
  "sample_project = \<lparr>p_id = ''p'', p_root_path = ''/w'', p_machine_id = ''here'', p_machine_label = [],
     p_name = ''demo'', p_model_preset_id = ''opus'', p_concurrency = 2, p_preferred_language = None,
     p_project_context_binding_id = None, p_settings_override = [], p_persistence_mode = Durable,
     p_remote = None, p_temporary = False, p_template_id = None, p_tag_ids = [], p_created_at = 1,
     p_archived_at = None, p_node_positions = [], p_planspace_view = []\<rparr>"

definition record_dir :: "node \<Rightarrow> node_dir" where
  "record_dir n = empty_dir\<lparr>d_node := Some (Readable n)\<rparr>"

definition sample_store :: store where
  "sample_store = \<lparr>st_machine = ''here'', st_read_only = None, st_config = sample_config, st_projects = [(''p'', sample_project)],
     st_local = [(''p'', ''/w'')],
     st_dirs = [((''p'', ''here'', ''a''), record_dir (sample_agent ''a'' Done)),
                ((''p'', ''there'', ''b''), record_dir (sample_agent ''b'' Queued)),
                ((''p'', ''here'', ''c''), record_dir ((sample_agent ''c'' Virtual)\<lparr>n_scheduled_deps := [''a'']\<rparr>))],
     st_owner_index = [], st_last_activity = [], st_commits = []\<rparr>"

text \<open>An executable form of the storage invariant, for the concrete stores of the witnesses.\<close>

definition store_ok_exec :: "store \<Rightarrow> bool" where
  "store_ok_exec s \<longleftrightarrow>
     distinct (keys (st_dirs s)) \<and>
     list_all (\<lambda>((p, h, i), d). case d_node d of None \<Rightarrow> True | Some f \<Rightarrow> record_ok s p i f) (st_dirs s) \<and>
     distinct (map (\<lambda>e. (fst (fst e), snd (snd (fst e)))) (filter (\<lambda>e. d_node (snd e) \<noteq> None) (st_dirs s))) \<and>
     st_owner_index s = [] \<and> list_all (\<lambda>p. project_ok s (snd p)) (st_projects s)"

lemma record_at_dir: "record_at s p h i = Some f \<Longrightarrow> \<exists>e \<in> set (st_dirs s). fst e = (p, h, i) \<and> d_node (snd e) = Some f"
proof -
  assume "record_at s p h i = Some f"
  then have "map_of (st_dirs s) (p, h, i) \<noteq> None \<and> d_node (the (map_of (st_dirs s) (p, h, i))) = Some f"
    by (auto simp: record_at_def dir_at_def empty_dir_def split: option.splits)
  then show ?thesis by (metis fst_conv map_of_SomeD option.collapse snd_conv)
qed

lemma store_ok_execD: "store_ok_exec s \<Longrightarrow> store_ok s"
proof -
  assume e: "store_ok_exec s"
  have rec: "record_ok s p i f" if r: "record_at s p h i = Some f" for p h i f
  proof -
    from record_at_dir [OF r] obtain d where "((p, h, i), d) \<in> set (st_dirs s)" "d_node d = Some f"
      by (metis prod.collapse)
    then show ?thesis using e by (auto simp: store_ok_exec_def list_all_iff split: option.splits)
  qed
  have uni: "h = h'" if "record_at s p h i \<noteq> None" "record_at s p h' i \<noteq> None" for p h h' i
  proof -
    have ex: "\<exists>d f. ((p, k, i), d) \<in> set (st_dirs s) \<and> d_node d = Some f" if "record_at s p k i \<noteq> None" for k
      using that record_at_dir [of s p k i] by (metis option.exhaust prod.collapse)
    from ex [OF that(1)] ex [OF that(2)] obtain d f d' f' where
      d: "((p, h, i), d) \<in> set (st_dirs s)" "d_node d = Some f"
      "((p, h', i), d') \<in> set (st_dirs s)" "d_node d' = Some f'"
      by blast
    have "inj_on (\<lambda>e. (fst (fst e), snd (snd (fst e)))) {e \<in> set (st_dirs s). d_node (snd e) \<noteq> None}"
      using e by (simp add: store_ok_exec_def distinct_map)
    from inj_onD [OF this, of "((p, h, i), d)" "((p, h', i), d')"] d show ?thesis by simp
  qed
  show ?thesis
    using e rec uni unfolding store_ok_def by (auto simp: store_ok_exec_def lookup2_def list_all_iff)
qed

lemma sample_store_ok: "store_ok sample_store"
  by (rule store_ok_execD) code_simp

text \<open>
  C28: a saved node is what the next read returns. Saving the node of this device succeeds, assigns a
  revision above both the caller's and the stored one, and changes no other node of any project.
\<close>

theorem update_then_load:
  assumes "store_ok s" and "writable s" and "node_wf n" and "preset_known s n"
    and "view s (n_project_id n) (n_id n) = Some n0"
    and "n_owner_host_id n0 = st_machine s" and "n_owner_host_id n = st_machine s"
  shows "\<exists>t. bind (update_node n) (\<lambda>_. load_node p i) s =
    (t, Inr (if p = n_project_id n \<and> i = n_id n
             then Some (n\<lparr>n_rev := max (n_rev n) (n_rev n0) + 1\<rparr>) else view s p i))"
  using disk.read_your_write [OF assms, of p i]
  by (auto simp: wp_def split: prod.splits sum.splits)

theorem update_then_load_witness:
  "\<exists>t. bind (update_node ((sample_agent ''a'' Error)\<lparr>n_owner_host_id := ''here'', n_rev := 4\<rparr>))
      (\<lambda>_. load_node ''p'' ''a'') sample_store =
    (t, Inr (Some ((sample_agent ''a'' Error)\<lparr>n_owner_host_id := ''here'', n_rev := 5\<rparr>)))"
proof -
  have v: "view sample_store ''p'' ''a'' = Some ((sample_agent ''a'' Done)\<lparr>n_owner_host_id := ''here''\<rparr>)"
    by code_simp
  have w: "writable sample_store" "st_machine sample_store = ''here''" by code_simp+
  have n: "node_wf ((sample_agent ''a'' Error)\<lparr>n_owner_host_id := ''here'', n_rev := 4\<rparr>)"
    "preset_known sample_store ((sample_agent ''a'' Error)\<lparr>n_owner_host_id := ''here'', n_rev := 4\<rparr>)"
    by code_simp+
  show ?thesis
    using update_then_load [of sample_store "(sample_agent ''a'' Error)\<lparr>n_owner_host_id := ''here'', n_rev := 4\<rparr>"
        "(sample_agent ''a'' Done)\<lparr>n_owner_host_id := ''here''\<rparr>" "''p''" "''a''"] sample_store_ok v w n
    by (simp add: sample_agent_def default_node_def)
qed

definition foreign_dirs_kept :: "store \<Rightarrow> store \<Rightarrow> bool" where
  "foreign_dirs_kept s t \<longleftrightarrow>
     (\<forall>p h i. h \<noteq> st_machine s \<longrightarrow> map_of (st_dirs t) (p, h, i) = map_of (st_dirs s) (p, h, i))"

lemma foreign_kept_paths:
  "node_path s p i = (p, st_machine s, i) \<Longrightarrow> foreign_dirs_kept s (write_node_json (node_path s p i) n s)"
  "node_path s p i = (p, st_machine s, i) \<Longrightarrow>
     foreign_dirs_kept s (s\<lparr>st_dirs := AList.delete (node_path s p i) (st_dirs s)\<rparr>)"
  by (simp_all add: foreign_dirs_kept_def write_node_json_def put_dir_def)

lemma foreign_kept_dirs: "foreign_dirs_kept s t \<Longrightarrow> st_dirs t' = st_dirs t \<Longrightarrow> foreign_dirs_kept s t'"
  by (simp add: foreign_dirs_kept_def)

lemma foreign_kept_refl: "foreign_dirs_kept s s"
  by (simp add: foreign_dirs_kept_def)

lemma path_of_local:
  assumes "store_ok s"
    and "case view s p i of None \<Rightarrow> True | Some m \<Rightarrow> n_owner_host_id m = st_machine s"
  shows "node_path s p i = (p, st_machine s, i)"
  using assms owner_mid_absent [OF assms(1)] owner_mid_present [OF assms(1)]
  by (auto simp: node_path_def split: option.splits)



text \<open>
  C30: the event journal. Appending an event to a node's journal and replaying from a sequence number
  gives what replaying gave before, followed by the new event exactly when its number is above the
  requested one, tagged with the node's id.
\<close>

theorem append_then_replay:
  assumes "writable s" and "replay_events pid nid since s = (s, Inr out)"
    and "append_event pid nid seq event s = (t, Inr ())"
  shows "replay_events pid nid since t = (t, Inr (out @ (if seq > since
    then [\<lparr>el_version = JInt event_schema_version, el_seq = seq, el_event = with_node_id nid event\<rparr>] else [])))"
proof -
  let ?p = "node_path s pid nid"
  let ?new = "\<lparr>el_version = JInt event_schema_version, el_seq = seq, el_event = event\<rparr>"
  let ?s1 = "put_dir ?p ((dir_at s ?p)\<lparr>d_events :=
    Some ((case d_events (dir_at s ?p) of None \<Rightarrow> [] | Some es \<Rightarrow> es) @ [?new])\<rparr>) s"
  have t: "t = ?s1\<lparr>st_commits := st_commits ?s1 @ [''update transcript for node '' @ nid]\<rparr>"
    using assms(1,3) by (simp add: append_event_def assert_writable_def writable_def bind_def andthen_def
        Let_def schedule_commit_def)
  have path: "node_path t pid nid = ?p"
    by (rule node_path_cong) (simp_all add: t put_dir_def)
  have events: "d_events (dir_at t ?p) =
      Some ((case d_events (dir_at s ?p) of None \<Rightarrow> [] | Some es \<Rightarrow> es) @ [?new])"
    by (simp add: t dir_at_def put_dir_def)
  show ?thesis
  proof (cases "d_events (dir_at s ?p)")
    case None
    then have "out = []" using assms(2) by (simp add: replay_events_def)
    with None replay_lines_snoc [of nid since "[]" "[]" seq event] show ?thesis
      by (simp add: replay_events_def path events)
  next
    case (Some es)
    then have "replay_lines nid since es = Inr out" using assms(2) by (simp add: replay_events_def)
    from replay_lines_snoc [OF this, of seq event] Some show ?thesis
      by (simp add: replay_events_def path events)
  qed
qed

theorem append_then_replay_witness:
  "\<exists>t. append_event ''p'' ''a'' 7 (JObj [(''type'', JStr ''turn_done'')]) sample_store = (t, Inr ()) \<and>
    replay_events ''p'' ''a'' 3 t = (t, Inr [\<lparr>el_version = JInt event_schema_version, el_seq = 7,
      el_event = with_node_id ''a'' (JObj [(''type'', JStr ''turn_done'')])\<rparr>])"
proof -
  have w: "writable sample_store" by code_simp
  have r: "replay_events ''p'' ''a'' 3 sample_store = (sample_store, Inr [])" by code_simp
  obtain t where "append_event ''p'' ''a'' 7 (JObj [(''type'', JStr ''turn_done'')]) sample_store = (t, Inr ())"
    using side_file_laws(2) [OF sample_store_ok w] by blast
  with append_then_replay [OF w r this] show ?thesis by simp
qed

end
