(* ===== verification/Planspace.thy ===== *)
theory Planspace
  imports Store
begin

text \<open>
  The planspace manifests of \<open>contextspace.py\<close>: a lane's execution mode, its archive mark and its
  template-instance records. Binding files are given by what they resolve to, the planspace ids a
  project binds directly; \<open>ls_manifests\<close> holds the parsed \<open>manifest.yaml\<close> of each plug.
\<close>

record lanes =
  ls_bound :: "(pystr, pystr list) dict"
  ls_manifests :: "(pystr, json) dict"

type_synonym 'a lanes_prog = "(exn, lanes, 'a) prog"
type_synonym manifest = "(pystr, json) dict"

definition list_project_planspace_ids :: "lanes \<Rightarrow> pystr \<Rightarrow> pystr list" where
  "list_project_planspace_ids ls pid = (case map_of (ls_bound ls) pid of None \<Rightarrow> [] | Some ids \<Rightarrow> ids)"

definition find_manifest :: "lanes \<Rightarrow> pystr \<Rightarrow> pystr \<Rightarrow> manifest option" where
  "find_manifest ls pid lane =
     (if lane = [] then None
      else if lane \<notin> set (list_project_planspace_ids ls pid) then None
      else case map_of (ls_manifests ls) lane of
        Some (JObj raw) \<Rightarrow>
          if map_of raw ''kind'' \<noteq> Some (JStr ''planspace'') \<or> map_of raw ''id'' \<noteq> Some (JStr lane)
          then None else Some raw
      | _ \<Rightarrow> None)"

definition planspace_manifest :: "lanes \<Rightarrow> pystr \<Rightarrow> pystr \<Rightarrow> exn + manifest" where
  "planspace_manifest ls pid lane =
     (if lane = [] then Inl (ValueError ''planspace id is required'')
      else case find_manifest ls pid lane of
        None \<Rightarrow> Inl (ValueError ''unknown planspace for project'') | Some raw \<Rightarrow> Inr raw)"

definition write_manifest :: "pystr \<Rightarrow> manifest \<Rightarrow> unit lanes_prog" where
  "write_manifest lane raw =
     writing (\<lambda>ls. ls\<lparr>ls_manifests := AList.update lane (JObj raw) (ls_manifests ls)\<rparr>)"

section \<open>Mode and archive mark\<close>

definition read_planspace_mode :: "lanes \<Rightarrow> pystr \<Rightarrow> pystr \<Rightarrow> planspace_mode" where
  "read_planspace_mode ls pid lane =
     (if lane = [] then Manual
      else let raw = (case find_manifest ls pid lane of None \<Rightarrow> None | Some m \<Rightarrow> map_of m ''mode'');
               text = (case raw of Some (JStr s) \<Rightarrow> Some s | _ \<Rightarrow> None)
           in case normalize_planspace_mode text of None \<Rightarrow> Manual | Some md \<Rightarrow> md)"

definition set_planspace_mode :: "pystr \<Rightarrow> pystr \<Rightarrow> planspace_mode \<Rightarrow> planspace_mode lanes_prog" where
  "set_planspace_mode pid lane mode =
     bind (reading_result (\<lambda>ls. planspace_manifest ls pid lane)) (\<lambda>raw.
     andthen (write_manifest lane (AList.update ''mode'' (JStr (planspace_mode_value mode)) raw))
       (ret mode))"

definition read_planspace_archived :: "lanes \<Rightarrow> pystr \<Rightarrow> pystr \<Rightarrow> bool" where
  "read_planspace_archived ls pid lane =
     (if lane = [] then False
      else case find_manifest ls pid lane of
        None \<Rightarrow> False
      | Some m \<Rightarrow> (case map_of m ''archived_at'' of Some (JInt _) \<Rightarrow> True | _ \<Rightarrow> False))"

definition set_planspace_archived :: "pystr \<Rightarrow> pystr \<Rightarrow> bool \<Rightarrow> int \<Rightarrow> int option lanes_prog" where
  "set_planspace_archived pid lane archived now =
     bind (reading_result (\<lambda>ls. planspace_manifest ls pid lane)) (\<lambda>raw.
     andthen (write_manifest lane (AList.update ''archived_at'' (if archived then JInt now else JNull) raw))
       (ret (if archived then Some now else None)))"

section \<open>Template instances\<close>

fun object_records :: "json list \<Rightarrow> manifest list option" where
  "object_records [] = Some []"
| "object_records (JObj r # rs) = map_option ((#) r) (object_records rs)"
| "object_records (_ # rs) = None"

definition instance_records :: "manifest \<Rightarrow> exn + manifest list" where
  "instance_records raw =
     (case map_of raw ''template_instances'' of
        None \<Rightarrow> Inr []
      | Some JNull \<Rightarrow> Inr []
      | Some (JList rs) \<Rightarrow> (case object_records rs of
           None \<Rightarrow> Inl (ValueError ''invalid template instances in planspace'') | Some ms \<Rightarrow> Inr ms)
      | Some _ \<Rightarrow> Inl (ValueError ''invalid template instances in planspace''))"

definition read_template_instances :: "lanes \<Rightarrow> pystr \<Rightarrow> pystr \<Rightarrow> exn + manifest list" where
  "read_template_instances ls pid lane =
     (case planspace_manifest ls pid lane of Inl e \<Rightarrow> Inl e | Inr raw \<Rightarrow> instance_records raw)"

definition append_template_instance :: "pystr \<Rightarrow> pystr \<Rightarrow> manifest \<Rightarrow> unit lanes_prog" where
  "append_template_instance pid lane record =
     bind (reject_if (case map_of record ''instance_id'' of Some (JStr s) \<Rightarrow> s = [] | _ \<Rightarrow> True)
       (ValueError ''template instance_id is required'')) (\<lambda>_.
     bind (reading_result (\<lambda>ls. planspace_manifest ls pid lane)) (\<lambda>raw.
     bind (result (instance_records raw)) (\<lambda>records.
     andthen (reject_if (\<exists>r \<in> set records. map_of r ''instance_id'' = map_of record ''instance_id'')
       (ValueError ''template instance already exists''))
     (write_manifest lane
       (AList.update ''template_instances'' (JList (map JObj (records @ [record]))) raw)))))"

definition remove_template_instance :: "pystr \<Rightarrow> pystr \<Rightarrow> pystr \<Rightarrow> bool lanes_prog" where
  "remove_template_instance pid lane iid =
     bind (reject_if (iid = []) (ValueError ''template instance_id is required'')) (\<lambda>_.
     bind (reading_result (\<lambda>ls. planspace_manifest ls pid lane)) (\<lambda>raw.
     bind (result (instance_records raw)) (\<lambda>records.
     let kept = filter (\<lambda>r. map_of r ''instance_id'' \<noteq> Some (JStr iid)) records in
     if length kept = length records then ret False
     else andthen
       (write_manifest lane (if kept = [] then AList.delete ''template_instances'' raw
          else AList.update ''template_instances'' (JList (map JObj kept)) raw))
       (ret True))))"

section \<open>Principle ids\<close>

text \<open>\<open>_PRINCIPLE_SLUG_RE\<close>: lowercase words of letters and digits joined by single hyphens.\<close>

definition slug_char :: "char \<Rightarrow> bool" where
  "slug_char c = (let n = (of_char c :: nat) in 97 \<le> n \<and> n \<le> 122 \<or> 48 \<le> n \<and> n \<le> 57)"

fun slug_words :: "bool \<Rightarrow> pystr \<Rightarrow> bool" where
  "slug_words start [] = (\<not> start)"
| "slug_words start (c # cs) =
     (if slug_char c then slug_words False cs else c = CHR ''-'' \<and> \<not> start \<and> slug_words True cs)"

definition principle_slug :: "pystr \<Rightarrow> bool" where
  "principle_slug s = slug_words True s"

definition principle_id :: "pystr \<Rightarrow> pystr option" where
  "principle_id entry =
     (let cleaned = strip entry in
      if cleaned = [] then None
      else if CHR ''.'' \<in> set cleaned \<and> \<not> starts_with ''principles.'' cleaned then None
      else let slug = (if CHR ''.'' \<in> set cleaned then drop (length ''principles.'') cleaned else cleaned)
           in if principle_slug slug then Some (''principles.'' @ slug) else None)"

fun principle_ids :: "pystr list \<Rightarrow> json list \<Rightarrow> pystr list" where
  "principle_ids seen [] = []"
| "principle_ids seen (JStr s # js) =
     (case principle_id s of
        None \<Rightarrow> principle_ids seen js
      | Some p \<Rightarrow> if p \<in> set seen then principle_ids seen js else p # principle_ids (p # seen) js)"
| "principle_ids seen (_ # js) = principle_ids seen js"

definition normalize_principle_ids :: "json \<Rightarrow> pystr list" where
  "normalize_principle_ids raw = (case raw of JList js \<Rightarrow> principle_ids [] js | _ \<Rightarrow> [])"

section \<open>Lemmas\<close>

lemma find_manifest_Some:
  "find_manifest ls pid lane = Some raw \<longleftrightarrow> lane \<noteq> [] \<and> lane \<in> set (list_project_planspace_ids ls pid) \<and>
     map_of (ls_manifests ls) lane = Some (JObj raw) \<and> map_of raw ''kind'' = Some (JStr ''planspace'') \<and>
     map_of raw ''id'' = Some (JStr lane)"
  by (cases "map_of (ls_manifests ls) lane"; cases "the (map_of (ls_manifests ls) lane)")
    (simp_all add: find_manifest_def, auto)

lemma bound_ids_write [simp]:
  "list_project_planspace_ids (ls\<lparr>ls_manifests := ms\<rparr>) = list_project_planspace_ids ls"
  by (simp add: list_project_planspace_ids_def fun_eq_iff)

lemma find_manifest_write:
  assumes "find_manifest ls pid lane = Some raw"
    and "map_of raw' ''kind'' = map_of raw ''kind''" and "map_of raw' ''id'' = map_of raw ''id''"
  shows "find_manifest (ls\<lparr>ls_manifests := AList.update lane (JObj raw') (ls_manifests ls)\<rparr>) pid' lane' =
    (if lane' = lane then (if find_manifest ls pid' lane = None then None else Some raw')
     else find_manifest ls pid' lane')"
proof (cases "lane' = lane")
  case True
  then show ?thesis using assms
    by (simp add: find_manifest_Some) (simp add: find_manifest_def)
next
  case False
  then show ?thesis by (simp add: find_manifest_def)
qed

lemma planspace_manifest_Inr: "planspace_manifest ls pid lane = Inr raw \<longleftrightarrow> find_manifest ls pid lane = Some raw"
proof (cases "lane = []")
  case True
  then show ?thesis by (simp add: planspace_manifest_def find_manifest_def)
next
  case False
  then show ?thesis by (cases "find_manifest ls pid lane") (simp_all add: planspace_manifest_def)
qed

text \<open>A principle id the normaliser returns is one it returns unchanged.\<close>

lemma slug_words_no_space: "slug_words start s \<Longrightarrow> list_all (\<lambda>c. \<not> py_space c) s"
  by (induction start s rule: slug_words.induct)
    (auto simp: slug_char_def py_space_def Let_def split: if_splits)

lemma slug_words_no_dot: "slug_words start s \<Longrightarrow> CHR ''.'' \<notin> set s"
  by (induction start s rule: slug_words.induct) (auto simp: slug_char_def split: if_splits)

end
