(* ===== verification/Registry.thy ===== *)
theory Registry
  imports Node_Table Planspace Preview Virtual_Graph
begin

text \<open>
  The orchestration core of \<open>registry.py\<close>: the in-memory runtimes over the store, the guards every
  handler opens with, launching and scheduling of queued nodes. What the registry calls outside the
  modelled files (Git, skill expansion, the id generator, the environment) is the record \<open>env\<close>, an
  argument of the operations that use it. A runner task is its node and whether the task is done;
  events sent to observers are the list \<open>w_events\<close>, in the order they are scheduled on the loop.
\<close>

section \<open>State\<close>

record remote_access =
  ra_ssh_target :: pystr
  ra_connect_via :: "pystr option"
  ra_codex_experimental :: bool
  ra_codex_path :: pystr
  ra_sandbox :: pystr

record env =
  e_new_id :: "nat \<Rightarrow> pystr"
  e_expand_skills :: "json \<Rightarrow> exn + json list"
  e_is_git_repo :: "pystr \<Rightarrow> bool"
  e_is_dir :: "pystr \<Rightarrow> bool"
  e_temporary_root :: "nat \<Rightarrow> pystr"
  e_access_digest :: "remote_access \<Rightarrow> pystr"
  e_codex_home :: pystr

datatype event =
    NodeUpdated node
  | NodeRemoved pystr
  | GitStatusSent
  | WorkspaceNode node "node_state option" bool
  | WorkspaceRemoved node
  | InterruptRequested pystr

record runtime =
  rt_project :: project
  rt_runners :: "(pystr, node) dict"
  rt_tasks :: "(pystr, bool) dict"
  rt_priority :: "pystr list"
  rt_closed :: bool

record world =
  w_store :: store
  w_lanes :: lanes
  w_remote :: "(pystr, remote_access) dict"
  w_runtimes :: "(pystr, runtime) dict"
  w_self_update :: bool
  w_storage_sync :: bool
  w_loop :: bool
  w_now :: int
  w_ids :: nat
  w_events :: "(pystr \<times> event) list"

type_synonym 'a reg = "(exn, world, 'a) prog"

definition on_store :: "'a store_prog \<Rightarrow> 'a reg" where
  "on_store m = zoom w_store (\<lambda>s w. w\<lparr>w_store := s\<rparr>) m"

definition on_lanes_state :: "'a lanes_prog \<Rightarrow> 'a reg" where
  "on_lanes_state m = zoom w_lanes (\<lambda>s w. w\<lparr>w_lanes := s\<rparr>) m"

definition load :: "pystr \<Rightarrow> pystr \<Rightarrow> node option reg" where
  "load pid nid = on_store (load_node pid nid)"

definition listing :: "pystr \<Rightarrow> pystr list \<Rightarrow> node list reg" where
  "listing pid lanes = on_store (list_nodes pid lanes)"

definition save :: "node \<Rightarrow> node reg" where
  "save n = on_store (update_node n)"

definition insert_node :: "node \<Rightarrow> node reg" where
  "insert_node n = on_store (create_node n)"

definition remove_node :: "pystr \<Rightarrow> pystr \<Rightarrow> bool reg" where
  "remove_node pid nid = on_store (delete_node pid nid)"

definition put_preview :: "pystr \<Rightarrow> pystr \<Rightarrow> json \<Rightarrow> unit reg" where
  "put_preview pid nid doc = on_store (write_node_preview pid nid doc)"

text \<open>\<open>asyncio.get_running_loop().create_task(...)\<close>, skipped when there is no running loop.\<close>

definition notify :: "pystr \<Rightarrow> event \<Rightarrow> unit reg" where
  "notify pid ev = writing (\<lambda>w. if w_loop w then w\<lparr>w_events := w_events w @ [(pid, ev)]\<rparr> else w)"

definition fresh_id :: "env \<Rightarrow> pystr reg" where
  "fresh_id env = bind (reading (\<lambda>w. e_new_id env (w_ids w)))
     (\<lambda>i. andthen (writing (\<lambda>w. w\<lparr>w_ids := Suc (w_ids w)\<rparr>)) (ret i))"

definition runtime_of :: "world \<Rightarrow> pystr \<Rightarrow> runtime option" where
  "runtime_of w pid = map_of (w_runtimes w) pid"

definition get_project :: "world \<Rightarrow> pystr \<Rightarrow> project option" where
  "get_project w pid = map_option rt_project (runtime_of w pid)"

definition set_runtime :: "pystr \<Rightarrow> (runtime \<Rightarrow> runtime) \<Rightarrow> unit reg" where
  "set_runtime pid f = writing (\<lambda>w. w\<lparr>w_runtimes := AList.map_entry pid f (w_runtimes w)\<rparr>)"

section \<open>Guards\<close>

definition is_native_project :: "world \<Rightarrow> project \<Rightarrow> bool" where
  "is_native_project w p = (p_temporary p \<or> is_bound_here (w_store w) (p_id p))"

definition is_native_node :: "world \<Rightarrow> node \<Rightarrow> bool" where
  "is_native_node w n = (n_owner_host_id n = st_machine (w_store w))"

definition can_resume_provider_session :: "world \<Rightarrow> node \<Rightarrow> bool" where
  "can_resume_provider_session w n =
     (if (case get_project w (n_project_id n) of None \<Rightarrow> False | Some p \<Rightarrow> p_temporary p) then False
      else if n_origin_machine_id n \<noteq> [] then n_origin_machine_id n = st_machine (w_store w)
      else if n_owner_host_id n \<noteq> [] then n_owner_host_id n = st_machine (w_store w)
      else True)"

text \<open>
  \<open>prepare_temporary_workspace\<close> keeps the recorded root when it is still a directory and creates a
  new one otherwise. The host record and the empty layout file it also writes are not modelled.
\<close>

definition prepare_temporary_workspace :: "env \<Rightarrow> project \<Rightarrow> project reg" where
  "prepare_temporary_workspace env p =
     (if \<not> p_temporary p then ret p
      else bind (on_store assert_writable) (\<lambda>_.
        bind (reading (\<lambda>w. (map_of (st_local (w_store w)) (p_id p), w_ids w))) (\<lambda>(recorded, k).
        bind (case recorded of
            Some r \<Rightarrow> if e_is_dir env r then ret r
              else andthen (writing (\<lambda>w. w\<lparr>w_ids := Suc k\<rparr>)) (ret (e_temporary_root env k))
          | None \<Rightarrow> andthen (writing (\<lambda>w. w\<lparr>w_ids := Suc k\<rparr>)) (ret (e_temporary_root env k)))
        (\<lambda>root.
        andthen (on_store (writing (\<lambda>s. s\<lparr>st_local := AList.update (p_id p) root (st_local s)\<rparr>)))
        (andthen (set_runtime (p_id p) (\<lambda>rt. rt\<lparr>rt_project := (rt_project rt)\<lparr>p_root_path := root\<rparr>\<rparr>))
          (ret (p\<lparr>p_root_path := root\<rparr>)))))))"

definition require_native :: "env \<Rightarrow> pystr \<Rightarrow> project reg" where
  "require_native env pid =
     bind (on_store assert_writable) (\<lambda>_.
     bind (reading (\<lambda>w. (get_project w pid, w))) (\<lambda>(proj, w).
     case proj of
       None \<Rightarrow> raise (KeyError pid)
     | Some p \<Rightarrow>
         bind (reject_if (\<not> is_native_project w p) (NonNativeProject pid)) (\<lambda>_.
         if p_temporary p then prepare_temporary_workspace env p else ret p)))"

definition assert_unarchived :: "pystr \<Rightarrow> project reg" where
  "assert_unarchived pid =
     bind (reading (\<lambda>w. get_project w pid)) (\<lambda>proj. case proj of
       None \<Rightarrow> raise (KeyError pid)
     | Some p \<Rightarrow> andthen (reject_if (p_archived_at p \<noteq> None) (ProjectArchived pid)) (ret p))"

definition require_unarchived :: "env \<Rightarrow> pystr \<Rightarrow> project reg" where
  "require_unarchived env pid =
     bind (require_native env pid) (\<lambda>p.
     andthen (reject_if (p_archived_at p \<noteq> None) (ProjectArchived pid)) (ret p))"

definition lane_archived :: "world \<Rightarrow> project \<Rightarrow> pystr option \<Rightarrow> bool" where
  "lane_archived w p lane =
     (case lane of None \<Rightarrow> False
      | Some l \<Rightarrow> l \<noteq> [] \<and> read_planspace_archived (w_lanes w) (p_id p) l)"

definition require_unarchived_lane :: "project \<Rightarrow> pystr option \<Rightarrow> unit reg" where
  "require_unarchived_lane p lane =
     bind (reading (\<lambda>w. lane_archived w p lane)) (\<lambda>a.
       reject_if a (PlanspaceArchived (or_empty lane)))"

definition require_git_project :: "env \<Rightarrow> pystr \<Rightarrow> project reg" where
  "require_git_project env pid =
     bind (require_unarchived env pid) (\<lambda>p.
     andthen (reject_if (p_temporary p) (ValueError ''temporary projects have no Git operations'')) (ret p))"

definition require_execution_project :: "env \<Rightarrow> pystr \<Rightarrow> project reg" where
  "require_execution_project env pid =
     bind (require_unarchived env pid) (\<lambda>p.
     bind (reading (\<lambda>w. map_of (w_remote w) pid)) (\<lambda>binding.
     andthen (reject_if (p_persistence_mode p = Remote \<and> binding = None)
       (ValueError ''remote access is not configured'')) (ret p)))"

definition require_native_node :: "node \<Rightarrow> unit reg" where
  "require_native_node n =
     bind (reading (\<lambda>w. is_native_node w n)) (\<lambda>native. reject_if (\<not> native) (NonNativeNode (n_id n)))"

section \<open>Remote execution\<close>

text \<open>\<open>remote_execution.py\<close>: the audited binding and the role of a node.\<close>

definition execution_binding :: "env \<Rightarrow> remote_identity \<Rightarrow> remote_access \<Rightarrow> json" where
  "execution_binding env i a = JObj [
     (''target_id'', JStr (target_id i)), (''root_path'', JStr (remote_root_path i)),
     (''root_commit'', case root_commit i of None \<Rightarrow> JNull | Some c \<Rightarrow> JStr c),
     (''sandbox'', JStr (ra_sandbox a)), (''access_sha256'', JStr (e_access_digest env a))]"

definition node_provider :: "world \<Rightarrow> node \<Rightarrow> exn + provider option" where
  "node_provider w n = (case n_model_preset_id n of
     None \<Rightarrow> Inr None
   | Some pid \<Rightarrow> (case provider_for_model_preset (st_config (w_store w)) (Some pid) of
        Inl e \<Rightarrow> Inl (PresetRejected e) | Inr p \<Rightarrow> Inr p))"

definition execution_role :: "world \<Rightarrow> node \<Rightarrow> exn + pystr" where
  "execution_role w n =
     (if n_kind n = Verifier then Inr ''remote_verifier''
      else if n_subtype n = Some CodeReview then Inr ''local_patch_review''
      else case node_provider w n of
        Inl e \<Rightarrow> Inl e
      | Inr p \<Rightarrow> Inr (if p = Some Codex then ''remote_codex'' else ''local_read_only''))"

definition snapshot_value :: "node \<Rightarrow> pystr \<Rightarrow> json" where
  "snapshot_value n k = (case map_of (n_settings_snapshot n) k of None \<Rightarrow> JNull | Some v \<Rightarrow> v)"

definition remote_resume_settings :: "env \<Rightarrow> world \<Rightarrow> project \<Rightarrow> node \<Rightarrow> exn + (pystr, json) dict" where
  "remote_resume_settings env w p source =
     (if p_persistence_mode p \<noteq> Remote then Inr []
      else if \<not> can_resume_provider_session w source \<or> \<not> truthy (n_provider_session_id source)
      then Inl (ValueError ''remote session lives on another device'')
      else case (map_of (w_remote w) (p_id p), p_remote p) of
        (Some access, Some identity) \<Rightarrow>
          (let bound = execution_binding env identity access;
               role = snapshot_value source ''execution_role''
           in if snapshot_value source ''execution_binding'' \<noteq> bound
              then Inl (ValueError ''remote identity or sandbox differs'')
              else if \<not> json_truthy role then Inl (ValueError ''no execution role recorded'')
              else let snapshot = [(''execution_binding'', bound), (''resume_execution_role'', role)] in
                case node_provider w source of
                  Inl e \<Rightarrow> Inl e
                | Inr prov \<Rightarrow>
                    if prov \<noteq> Some Codex then Inr snapshot
                    else let home = snapshot_value source ''observed_codex_home'';
                             backend = snapshot_value source ''observed_model_provider'' in
                      if \<not> json_truthy home \<or> home \<noteq> JStr (e_codex_home env)
                      then Inl (ValueError ''codex profile differs'')
                      else if \<not> json_truthy backend then Inl (ValueError ''no model provider recorded'')
                      else Inr (snapshot @ [(''resume_codex_home'', home), (''resume_model_provider'', backend)]))
      | _ \<Rightarrow> Inl (ValueError ''remote access is not configured''))"

definition validate_remote_execution :: "world \<Rightarrow> project \<Rightarrow> node \<Rightarrow> exn + unit" where
  "validate_remote_execution w p n =
     (if p_persistence_mode p \<noteq> Remote then Inr ()
      else case map_of (w_remote w) (p_id p) of
        None \<Rightarrow> Inl (ValueError ''remote access is not configured'')
      | Some access \<Rightarrow>
          let source_role = snapshot_value n ''resume_execution_role'' in
          case (if json_truthy source_role then execution_role w n else Inr []) of
            Inl e \<Rightarrow> Inl e
          | Inr role \<Rightarrow>
              if json_truthy source_role \<and> source_role \<noteq> JStr role
              then Inl (ValueError ''a continuation keeps its execution role'')
              else if op_kind_in (n_agent_op_kind n) [''library_edit'', ''principle_edit'']
              then Inl (ValueError ''library edits run in local projects'')
              else if n_kind n \<noteq> Agent then Inr ()
              else case node_provider w n of
                Inl e \<Rightarrow> Inl e
              | Inr prov \<Rightarrow>
                  if prov = Some Codex \<and> n_subtype n \<noteq> Some CodeReview \<and> \<not> ra_codex_experimental access
                  then Inl (ValueError ''remote codex is not enabled'') else Inr ())"

section \<open>Launching and scheduling\<close>

definition active_count :: "runtime \<Rightarrow> nat" where
  "active_count rt = length (filter (\<lambda>(i, done). \<not> done) (rt_tasks rt))"

definition has_capacity :: "runtime \<Rightarrow> bool" where
  "has_capacity rt = (active_count rt < p_concurrency (rt_project rt))"

definition is_running :: "runtime \<Rightarrow> bool" where
  "is_running rt = (active_count rt > 0)"

definition is_exclusive_node :: "node \<Rightarrow> bool" where
  "is_exclusive_node n =
     (n_kind n = Op \<and> n_op_kind n = Some ''pull'' \<or> n_subtype n = Some CodeReview)"

definition can_launch_project_node :: "project \<Rightarrow> node \<Rightarrow> bool" where
  "can_launch_project_node p n = (p_persistence_mode p \<noteq> Remote \<or> n_kind n \<noteq> Op)"

definition exclusive_node_active :: "runtime \<Rightarrow> bool" where
  "exclusive_node_active rt = list_ex (\<lambda>(i, n). is_exclusive_node n) (rt_runners rt)"

definition pull_active :: "runtime \<Rightarrow> bool" where
  "pull_active rt =
     list_ex (\<lambda>(i, n). n_kind n = Op \<and> n_op_kind n = Some ''pull'') (rt_runners rt)"

definition start_runner :: "node \<Rightarrow> runtime \<Rightarrow> runtime" where
  "start_runner n rt = rt\<lparr>rt_runners := AList.update (n_id n) n (rt_runners rt),
     rt_tasks := AList.update (n_id n) False (rt_tasks rt)\<rparr>"

definition launch_node :: "pystr \<Rightarrow> node \<Rightarrow> bool reg" where
  "launch_node pid n =
     bind (reading (\<lambda>w. (w, runtime_of w pid))) (\<lambda>(w, r). case r of
       None \<Rightarrow> ret False
     | Some rt \<Rightarrow>
         if w_self_update w \<or> w_storage_sync w \<or> n_id n \<in> set (keys (rt_tasks rt)) \<or>
            \<not> has_capacity rt \<or> \<not> w_loop w
         then ret False
         else andthen (set_runtime pid (start_runner n)) (ret True))"

definition remove_runner :: "pystr \<Rightarrow> runtime \<Rightarrow> runtime" where
  "remove_runner nid rt =
     rt\<lparr>rt_tasks := AList.delete nid (rt_tasks rt), rt_runners := AList.delete nid (rt_runners rt)\<rparr>"

text \<open>A queued node that \<open>_schedule_queued\<close> may launch.\<close>

definition launchable :: "world \<Rightarrow> runtime \<Rightarrow> node \<Rightarrow> bool" where
  "launchable w rt n \<longleftrightarrow>
     n_state n = Queued \<and> is_native_node w n \<and> \<not> lane_archived w (rt_project rt) (n_planspace_id n) \<and>
     can_launch_project_node (rt_project rt) n"

fun filter_prog :: "('a \<Rightarrow> ('e, 's, bool) prog) \<Rightarrow> 'a list \<Rightarrow> ('e, 's, 'a list) prog" where
  "filter_prog f [] = ret []"
| "filter_prog f (x # xs) =
     bind (f x) (\<lambda>keep. bind (filter_prog f xs) (\<lambda>ys. ret (if keep then x # ys else ys)))"

definition still_priority :: "pystr \<Rightarrow> runtime \<Rightarrow> pystr \<Rightarrow> bool reg" where
  "still_priority pid rt nid =
     (if nid \<in> set (keys (rt_tasks rt)) then ret False
      else bind (load pid nid) (\<lambda>node. case node of
        None \<Rightarrow> ret False | Some n \<Rightarrow> reading (\<lambda>w. launchable w rt n)))"

text \<open>
  One pass of the loop of \<open>_schedule_queued\<close>: \<open>True\<close> to go round again. A priority node goes first,
  then the oldest queued node; an exclusive node waits for an idle project and ends the loop.
\<close>

definition launch_priority :: "pystr \<Rightarrow> runtime \<Rightarrow> pystr \<Rightarrow> bool reg" where
  "launch_priority pid rt nid =
     bind (load pid nid) (\<lambda>node. case node of
       None \<Rightarrow> ret False
     | Some n \<Rightarrow>
         if is_exclusive_node n \<and> active_count rt > 0 then ret False
         else bind (launch_node pid n) (\<lambda>launched.
           if \<not> launched then ret False
           else andthen (set_runtime pid (\<lambda>rt. rt\<lparr>rt_priority := tl (rt_priority rt)\<rparr>))
             (ret (\<not> is_exclusive_node n))))"

definition launch_oldest :: "pystr \<Rightarrow> runtime \<Rightarrow> bool reg" where
  "launch_oldest pid rt =
     bind (listing pid []) (\<lambda>nodes.
     bind (reading (\<lambda>w. sort_key (\<lambda>n. (n_created_at n, n_id n))
       (filter (\<lambda>n. launchable w rt n \<and> n_id n \<notin> set (keys (rt_tasks rt))) nodes))) (\<lambda>queued.
     case queued of
       [] \<Rightarrow> ret False
     | n # _ \<Rightarrow>
         if is_exclusive_node n \<and> active_count rt > 0 then ret False
         else bind (launch_node pid n) (\<lambda>launched. ret (launched \<and> \<not> is_exclusive_node n))))"

definition schedule_step :: "pystr \<Rightarrow> bool reg" where
  "schedule_step pid =
     bind (reading (\<lambda>w. runtime_of w pid)) (\<lambda>r. case r of
       None \<Rightarrow> ret False
     | Some rt \<Rightarrow>
         if \<not> has_capacity rt \<or> exclusive_node_active rt then ret False
         else bind (filter_prog (still_priority pid rt) (rt_priority rt)) (\<lambda>priority.
           andthen (set_runtime pid (\<lambda>rt. rt\<lparr>rt_priority := priority\<rparr>))
           (case priority of nid # _ \<Rightarrow> launch_priority pid rt nid | [] \<Rightarrow> launch_oldest pid rt)))"

fun schedule_loop :: "nat \<Rightarrow> pystr \<Rightarrow> unit reg" where
  "schedule_loop 0 pid = ret ()"
| "schedule_loop (Suc k) pid =
     bind (schedule_step pid) (\<lambda>more. if more then schedule_loop k pid else ret ())"

text \<open>Each pass that continues has started a task, so the free slots bound the passes.\<close>

definition schedule_queued :: "pystr \<Rightarrow> unit reg" where
  "schedule_queued pid =
     bind (reading (\<lambda>w. (w, runtime_of w pid))) (\<lambda>(w, r). case r of
       None \<Rightarrow> ret ()
     | Some rt \<Rightarrow>
         if w_storage_sync w \<or> w_self_update w \<or> p_archived_at (rt_project rt) \<noteq> None \<or>
            \<not> is_native_project w (rt_project rt)
         then ret ()
         else schedule_loop (Suc (p_concurrency (rt_project rt) - active_count rt)) pid)"

definition queued_count :: "pystr \<Rightarrow> nat reg" where
  "queued_count pid =
     bind (reading (\<lambda>w. runtime_of w pid)) (\<lambda>r. case r of
       None \<Rightarrow> ret 0
     | Some rt \<Rightarrow> bind (listing pid []) (\<lambda>nodes.
         reading (\<lambda>w. length (filter (\<lambda>n. n_state n = Queued \<and> is_native_node w n) nodes))))"

definition quiescent :: "pystr \<Rightarrow> bool reg" where
  "quiescent pid =
     bind (reading (\<lambda>w. runtime_of w pid)) (\<lambda>r. case r of
       None \<Rightarrow> ret False
     | Some rt \<Rightarrow> if is_running rt then ret False
         else bind (queued_count pid) (\<lambda>k. ret (k = 0)))"

definition queued_pull_exists :: "pystr \<Rightarrow> bool reg" where
  "queued_pull_exists pid =
     bind (listing pid []) (\<lambda>nodes.
       reading (\<lambda>w. list_ex (\<lambda>n. n_kind n = Op \<and> n_op_kind n = Some ''pull'' \<and> n_state n = Queued \<and>
         is_native_node w n) nodes))"

end
