(* ===== verification/World_Table.thy ===== *)
theory World_Table
  imports Registry
begin

text \<open>
  The registry's view of the store: the laws of a node table (\<open>Node_Table\<close>) lifted from the store to
  the registry's world, so that every registry operation is proved against lookups and not against
  directories and caches.
\<close>

section \<open>The world's node table\<close>

definition world_ok :: "world \<Rightarrow> bool" where
  "world_ok w = store_ok (w_store w)"

definition tab :: "world \<Rightarrow> pystr \<Rightarrow> pystr \<Rightarrow> node option" where
  "tab w = view (w_store w)"

definition may_write :: "world \<Rightarrow> bool" where
  "may_write w = writable (w_store w)"

definition known :: "world \<Rightarrow> node \<Rightarrow> bool" where
  "known w = preset_known (w_store w)"

definition machine :: "world \<Rightarrow> pystr" where
  "machine w = st_machine (w_store w)"

definition quiet :: "world \<Rightarrow> world" where
  "quiet w = w\<lparr>w_store := core (w_store w)\<rparr>"

definition frame :: "world \<Rightarrow> world" where
  "frame w = w\<lparr>w_store := rest (w_store w)\<rparr>"

lemma on_store_apply: "on_store m w = (w\<lparr>w_store := fst (m (w_store w))\<rparr>, snd (m (w_store w)))"
  by (simp add: on_store_def zoom_def split: prod.split)

lemma store_upd_eq:
  "quiet (w\<lparr>w_store := t\<rparr>) = quiet w \<longleftrightarrow> core t = core (w_store w)"
  "frame (w\<lparr>w_store := t\<rparr>) = frame w \<longleftrightarrow> rest t = rest (w_store w)"
  by (cases w; simp add: quiet_def frame_def)+

lemma quiet_eqD:
  assumes "quiet t = quiet w"
  shows "core (w_store t) = core (w_store w)" "w_runtimes t = w_runtimes w" "w_lanes t = w_lanes w"
    "w_events t = w_events w" "w_remote t = w_remote w" "w_self_update t = w_self_update w"
    "w_storage_sync t = w_storage_sync w" "w_loop t = w_loop w" "w_now t = w_now w" "w_ids t = w_ids w"
proof -
  show "core (w_store t) = core (w_store w)" using arg_cong [OF assms, of w_store] by (simp add: quiet_def)
  show "w_runtimes t = w_runtimes w" using arg_cong [OF assms, of w_runtimes] by (simp add: quiet_def)
  show "w_lanes t = w_lanes w" using arg_cong [OF assms, of w_lanes] by (simp add: quiet_def)
  show "w_events t = w_events w" using arg_cong [OF assms, of w_events] by (simp add: quiet_def)
  show "w_remote t = w_remote w" using arg_cong [OF assms, of w_remote] by (simp add: quiet_def)
  show "w_self_update t = w_self_update w" using arg_cong [OF assms, of w_self_update] by (simp add: quiet_def)
  show "w_storage_sync t = w_storage_sync w" using arg_cong [OF assms, of w_storage_sync] by (simp add: quiet_def)
  show "w_loop t = w_loop w" using arg_cong [OF assms, of w_loop] by (simp add: quiet_def)
  show "w_now t = w_now w" using arg_cong [OF assms, of w_now] by (simp add: quiet_def)
  show "w_ids t = w_ids w" using arg_cong [OF assms, of w_ids] by (simp add: quiet_def)
qed

lemma frame_eqD:
  assumes "frame t = frame w"
  shows "rest (w_store t) = rest (w_store w)" "w_runtimes t = w_runtimes w" "w_lanes t = w_lanes w"
    "w_events t = w_events w" "w_remote t = w_remote w" "w_self_update t = w_self_update w"
    "w_storage_sync t = w_storage_sync w" "w_loop t = w_loop w" "w_now t = w_now w" "w_ids t = w_ids w"
proof -
  show "rest (w_store t) = rest (w_store w)" using arg_cong [OF assms, of w_store] by (simp add: frame_def)
  show "w_runtimes t = w_runtimes w" using arg_cong [OF assms, of w_runtimes] by (simp add: frame_def)
  show "w_lanes t = w_lanes w" using arg_cong [OF assms, of w_lanes] by (simp add: frame_def)
  show "w_events t = w_events w" using arg_cong [OF assms, of w_events] by (simp add: frame_def)
  show "w_remote t = w_remote w" using arg_cong [OF assms, of w_remote] by (simp add: frame_def)
  show "w_self_update t = w_self_update w" using arg_cong [OF assms, of w_self_update] by (simp add: frame_def)
  show "w_storage_sync t = w_storage_sync w" using arg_cong [OF assms, of w_storage_sync] by (simp add: frame_def)
  show "w_loop t = w_loop w" using arg_cong [OF assms, of w_loop] by (simp add: frame_def)
  show "w_now t = w_now w" using arg_cong [OF assms, of w_now] by (simp add: frame_def)
  show "w_ids t = w_ids w" using arg_cong [OF assms, of w_ids] by (simp add: frame_def)
qed

lemma quiet_frame_world: "quiet t = quiet w \<Longrightarrow> frame t = frame w"
  using quiet_eqD [of t w] core_rest [of "w_store t" "w_store w"] by (cases t; cases w) (simp add: frame_def)

lemma lift_law:
  assumes "\<exists>t. m (w_store w) = (t, Inr x) \<and> P t"
  shows "\<exists>v. on_store m w = (v, Inr x) \<and> P (w_store v) \<and> v = w\<lparr>w_store := w_store v\<rparr>"
proof -
  from assms obtain t where t: "m (w_store w) = (t, Inr x)" "P t" by blast
  then show ?thesis by (intro exI [of _ "w\<lparr>w_store := t\<rparr>"]) (simp add: on_store_apply)
qed

interpretation nodes: node_table world_ok tab may_write known machine quiet frame load listing
  insert_node save remove_node put_preview
proof unfold_locales
  fix s t :: world and p i :: pystr and n n0 :: node and lanes :: "pystr list" and doc :: json
  show "quiet t = quiet s \<Longrightarrow> tab t = tab s \<and> frame t = frame s"
    unfolding tab_def by (intro conjI core_view quiet_eqD(1) quiet_frame_world)
  show "frame t = frame s \<Longrightarrow> machine t = machine s \<and> may_write t = may_write s \<and> known t = known s"
    unfolding machine_def may_write_def known_def by (intro disk.frame_host frame_eqD(1))
  show "world_ok s \<Longrightarrow> tab s p i = Some n \<Longrightarrow> n_id n = i \<and> n_project_id n = p \<and> node_wf n \<and> known s n"
    using disk.tab_ids by (simp add: world_ok_def tab_def known_def)
  show "world_ok s \<Longrightarrow> \<exists>t. load p i s = (t, Inr (tab s p i)) \<and> world_ok t \<and> quiet t = quiet s"
    using disk.load_law [of "w_store s" p i]
    by (auto simp: world_ok_def tab_def load_def on_store_apply store_upd_eq)
  show "world_ok s \<Longrightarrow> \<exists>t ns. listing p lanes s = (t, Inr ns) \<and> world_ok t \<and> quiet t = quiet s \<and>
      distinct (map n_id ns) \<and> sorted (map n_created_at ns) \<and>
      (\<forall>n. n \<in> set ns \<longleftrightarrow> tab s p (n_id n) = Some n \<and> \<not> on_lanes lanes n)"
  proof -
    assume "world_ok s"
    then obtain u ns where u: "list_nodes p lanes (w_store s) = (u, Inr ns)" "store_ok u"
      "core u = core (w_store s)" "distinct (map n_id ns)" "sorted (map n_created_at ns)"
      "\<forall>n. n \<in> set ns \<longleftrightarrow> view (w_store s) p (n_id n) = Some n \<and> \<not> on_lanes lanes n"
      using disk.listing_law [of "w_store s" p lanes] unfolding world_ok_def by blast
    then have "listing p lanes s = (s\<lparr>w_store := u\<rparr>, Inr ns)" "quiet (s\<lparr>w_store := u\<rparr>) = quiet s"
      by (simp_all add: listing_def on_store_apply store_upd_eq)
    with u show ?thesis
      by (intro exI [of _ "s\<lparr>w_store := u\<rparr>"] exI [of _ ns]) (simp add: world_ok_def tab_def)
  qed
  show "world_ok s \<Longrightarrow> may_write s \<Longrightarrow> node_wf n \<Longrightarrow> known s n \<Longrightarrow>
      tab s (n_project_id n) (n_id n) = None \<Longrightarrow>
      \<exists>t m. insert_node n s = (t, Inr m) \<and> world_ok t \<and> frame t = frame s \<and> tab t = tab_put m (tab s) \<and>
        m = n\<lparr>n_origin_machine_id := (if n_origin_machine_id n = [] then machine s else n_origin_machine_id n),
              n_owner_host_id := machine s\<rparr>"
    using disk.create_law [of "w_store s" n]
    by (auto simp: world_ok_def tab_def may_write_def known_def machine_def insert_node_def on_store_apply store_upd_eq)
  show "world_ok s \<Longrightarrow> may_write s \<Longrightarrow> node_wf n \<Longrightarrow> known s n \<Longrightarrow>
      tab s (n_project_id n) (n_id n) = Some n0 \<Longrightarrow> n_owner_host_id n0 = machine s \<Longrightarrow>
      n_owner_host_id n = machine s \<Longrightarrow>
      \<exists>t m. save n s = (t, Inr m) \<and> world_ok t \<and> frame t = frame s \<and> tab t = tab_put m (tab s) \<and>
        m = n\<lparr>n_rev := max (n_rev n) (n_rev n0) + 1\<rparr>"
    using disk.update_law [of "w_store s" n n0]
    by (auto simp: world_ok_def tab_def may_write_def known_def machine_def save_def on_store_apply store_upd_eq)
  show "world_ok s \<Longrightarrow> may_write s \<Longrightarrow> tab s p i = Some n \<Longrightarrow> n_owner_host_id n = machine s \<Longrightarrow>
      \<exists>t. remove_node p i s = (t, Inr True) \<and> world_ok t \<and> frame t = frame s \<and> tab t = tab_drop p i (tab s)"
    using disk.delete_law [of "w_store s" p i n]
    by (auto simp: world_ok_def tab_def may_write_def machine_def remove_node_def on_store_apply store_upd_eq)
  show "world_ok s \<Longrightarrow> may_write s \<Longrightarrow> \<exists>t. put_preview p i doc s = (t, Inr ()) \<and> world_ok t \<and>
      frame t = frame s \<and> tab t = tab s"
    using disk.preview_law [of "w_store s" p i doc]
    by (auto simp: world_ok_def tab_def may_write_def put_preview_def on_store_apply store_upd_eq)
  show "\<not> may_write s \<Longrightarrow> (\<exists>e. insert_node n s = (s, Inl e)) \<and> (\<exists>e. save n s = (s, Inl e)) \<and>
      (\<exists>e. remove_node p i s = (s, Inl e)) \<and> (\<exists>e. put_preview p i doc s = (s, Inl e))"
    using disk.refusal [of "w_store s" n p i doc]
    by (auto simp: may_write_def insert_node_def save_def remove_node_def put_preview_def on_store_apply)
  show "\<not> known s n \<Longrightarrow> (\<exists>e. insert_node n s = (s, Inl e)) \<and> (\<exists>e. save n s = (s, Inl e))"
    using disk.unknown_preset [of "w_store s" n]
    by (auto simp: known_def insert_node_def save_def on_store_apply)
qed
end
