(* ===== verification/Scheduler.thy ===== *)
theory Scheduler
  imports World_Table
begin

text \<open>
  The laws of the scheduler of \<open>registry.py\<close>: what \<open>schedule_queued\<close> launches, that it respects the
  concurrency bound and the exclusive nodes, that no queued node is overtaken by a younger one, and
  that it stops only when nothing more can be launched. The code's loop over the store is shown to
  refine a step relation on the runtime alone (\<open>admission\<close>); the properties are inductions over it.
\<close>

section \<open>Runtimes\<close>

lemma alist_update_new: "k \<notin> fst ` set al \<Longrightarrow> AList.update k v al = al @ [(k, v)]"
  by (induction al) auto

lemma map_of_map_entry_eq:
  "map_of (AList.map_entry k f d) j = (if j = k then map_option f (map_of d k) else map_of d j)"
  by (induction d) auto

lemma map_entry_twice:
  "AList.map_entry k f (AList.map_entry k g d) = AList.map_entry k (\<lambda>x. f (g x)) d"
  by (induction d) auto

definition calm :: "world \<Rightarrow> world" where
  "calm w = (quiet w)\<lparr>w_runtimes := []\<rparr>"

lemma calm_eqD:
  assumes "calm t = calm w"
  shows "core (w_store t) = core (w_store w)" "w_lanes t = w_lanes w"
    "w_events t = w_events w" "w_remote t = w_remote w" "w_self_update t = w_self_update w"
    "w_storage_sync t = w_storage_sync w" "w_loop t = w_loop w" "w_now t = w_now w" "w_ids t = w_ids w"
proof -
  show "core (w_store t) = core (w_store w)" using arg_cong [OF assms, of w_store] by (simp add: calm_def quiet_def)
  show "w_lanes t = w_lanes w" using arg_cong [OF assms, of w_lanes] by (simp add: calm_def quiet_def)
  show "w_events t = w_events w" using arg_cong [OF assms, of w_events] by (simp add: calm_def quiet_def)
  show "w_remote t = w_remote w" using arg_cong [OF assms, of w_remote] by (simp add: calm_def quiet_def)
  show "w_self_update t = w_self_update w" using arg_cong [OF assms, of w_self_update] by (simp add: calm_def quiet_def)
  show "w_storage_sync t = w_storage_sync w" using arg_cong [OF assms, of w_storage_sync] by (simp add: calm_def quiet_def)
  show "w_loop t = w_loop w" using arg_cong [OF assms, of w_loop] by (simp add: calm_def quiet_def)
  show "w_now t = w_now w" using arg_cong [OF assms, of w_now] by (simp add: calm_def quiet_def)
  show "w_ids t = w_ids w" using arg_cong [OF assms, of w_ids] by (simp add: calm_def quiet_def)
qed

lemma calm_facts:
  assumes "calm t = calm w"
  shows "tab t = tab w" "machine t = machine w" "may_write t = may_write w" "known t = known w"
    "world_ok w \<Longrightarrow> st_local (w_store t) = st_local (w_store w)"
  using core_view [OF calm_eqD(1) [OF assms]] core_eqD [OF calm_eqD(1) [OF assms]]
    config_cong(2) [OF core_eqD(7) [OF calm_eqD(1) [OF assms]]]
  by (simp_all add: tab_def machine_def may_write_def known_def writable_def)

lemma quiet_calm: "quiet t = quiet w \<Longrightarrow> calm t = calm w"
  by (simp add: calm_def)

lemma calm_runtimes [simp]: "calm (w\<lparr>w_runtimes := r\<rparr>) = calm w"
  by (simp add: calm_def quiet_def)

lemma runtimes_upd [simp]:
  "world_ok (w\<lparr>w_runtimes := r\<rparr>) = world_ok w" "tab (w\<lparr>w_runtimes := r\<rparr>) = tab w"
  "machine (w\<lparr>w_runtimes := r\<rparr>) = machine w" "may_write (w\<lparr>w_runtimes := r\<rparr>) = may_write w"
  by (simp_all add: world_ok_def tab_def machine_def may_write_def)

lemma runtime_of_upd:
  "runtime_of (w\<lparr>w_runtimes := AList.map_entry pid f (w_runtimes w)\<rparr>) j =
     (if j = pid then map_option f (runtime_of w pid) else runtime_of w j)"
  by (simp add: runtime_of_def map_of_map_entry_eq)

lemma launchable_cong:
  assumes "calm t = calm w" and "rt_project r = rt_project r'"
  shows "launchable t r n = launchable w r' n"
  using calm_facts(2) [OF assms(1)]
  unfolding launchable_def is_native_node_def lane_archived_def machine_def calm_eqD(2) [OF assms(1)] assms(2)
  by simp

definition prioritised :: "world \<Rightarrow> pystr \<Rightarrow> runtime \<Rightarrow> pystr \<Rightarrow> bool" where
  "prioritised w pid rt i \<longleftrightarrow> i \<notin> set (keys (rt_tasks rt)) \<and>
     (case tab w pid i of None \<Rightarrow> False | Some n \<Rightarrow> launchable w rt n)"

lemma wp_still_priority:
  assumes "world_ok w"
    and "\<And>t. world_ok t \<Longrightarrow> quiet t = quiet w \<Longrightarrow> Q (prioritised w pid rt i) t"
  shows "wp (still_priority pid rt i) Q E w"
proof (cases "i \<in> set (keys (rt_tasks rt))")
  case True
  then show ?thesis using assms(2) [OF assms(1) refl] by (simp add: still_priority_def prioritised_def)
next
  case False
  have "wp (case n of None \<Rightarrow> ret False | Some n \<Rightarrow> reading (\<lambda>w. launchable w rt n)) Q E t"
    if "world_ok t" "quiet t = quiet w" "n = tab w pid i" for n t
    using assms(2) [OF that(1,2)] False launchable_cong [OF quiet_calm [OF that(2)] refl]
    unfolding that(3) prioritised_def by (cases "tab w pid i") simp_all
  then show ?thesis using False assms(1)
    by (auto simp: still_priority_def intro!: nodes.wp_load)
qed

lemma wp_filter_priority:
  assumes "world_ok w"
    and "\<And>t. world_ok t \<Longrightarrow> quiet t = quiet w \<Longrightarrow> Q (filter (prioritised w pid rt) xs) t"
  shows "wp (filter_prog (still_priority pid rt) xs) Q E w"
  using assms
proof (induction xs arbitrary: w Q)
  case Nil
  show ?case
    using Nil.prems(2) [OF Nil.prems(1) refl] unfolding filter_prog.simps wp_simps filter.simps .
next
  case (Cons x xs)
  have same: "prioritised t pid rt = prioritised w pid rt" if "quiet t = quiet w" for t
    using calm_facts(1) [OF quiet_calm [OF that]] launchable_cong [OF quiet_calm [OF that] refl]
    by (simp add: prioritised_def fun_eq_iff split: option.split)
  show ?case
    unfolding filter_prog.simps wp_simps
  proof (rule wp_still_priority [OF Cons.prems(1)])
    fix t assume t: "world_ok t" "quiet t = quiet w"
    show "wp (filter_prog (still_priority pid rt) xs)
        (\<lambda>ys. Q (if prioritised w pid rt x then x # ys else ys)) E t"
    proof (rule Cons.IH [OF t(1)])
      fix u assume u: "world_ok u" "quiet u = quiet t"
      then have "quiet u = quiet w" using t by simp
      from Cons.prems(2) [OF u(1) this] same [OF t(2)]
      show "Q (if prioritised w pid rt x then x # filter (prioritised t pid rt) xs
          else filter (prioritised t pid rt) xs) u"
        by (simp split: if_splits)
    qed
  qed
qed

section \<open>What the scheduler admits\<close>

text \<open>
  \<open>ready\<close>: a stored node the scheduler may launch. \<open>next_choice\<close>: the one it takes, the first
  priority node that is still launchable, otherwise the oldest. \<open>admission\<close> launches one node;
  \<open>settled\<close> says why nothing more is launched.
\<close>

definition ready :: "world \<Rightarrow> pystr \<Rightarrow> runtime \<Rightarrow> node \<Rightarrow> bool" where
  "ready w pid rt n \<longleftrightarrow> tab w pid (n_id n) = Some n \<and> launchable w rt n \<and> n_id n \<notin> set (keys (rt_tasks rt))"

definition next_choice :: "world \<Rightarrow> pystr \<Rightarrow> runtime \<Rightarrow> node \<Rightarrow> bool" where
  "next_choice w pid rt n \<longleftrightarrow> ready w pid rt n \<and>
     (case filter (prioritised w pid rt) (rt_priority rt) of
        i # _ \<Rightarrow> n_id n = i
      | [] \<Rightarrow> (\<forall>m. ready w pid rt m \<longrightarrow> (n_created_at n, n_id n) \<le> (n_created_at m, n_id m)))"

inductive admission :: "world \<Rightarrow> pystr \<Rightarrow> runtime \<Rightarrow> runtime \<Rightarrow> bool" for w pid where
  Admit: "has_capacity rt \<Longrightarrow> \<not> exclusive_node_active rt \<Longrightarrow> next_choice w pid rt n \<Longrightarrow>
    (is_exclusive_node n \<longrightarrow> \<not> is_running rt) \<Longrightarrow>
    rt' = (start_runner n rt)\<lparr>rt_priority := tl (filter (prioritised w pid rt) (rt_priority rt))\<rparr> \<Longrightarrow>
    admission w pid rt rt'"

definition settled :: "world \<Rightarrow> pystr \<Rightarrow> runtime \<Rightarrow> bool" where
  "settled w pid rt \<longleftrightarrow> \<not> w_loop w \<or> w_self_update w \<or> w_storage_sync w \<or> \<not> has_capacity rt \<or>
     exclusive_node_active rt \<or> (\<forall>n. \<not> ready w pid rt n) \<or>
     (\<exists>n. next_choice w pid rt n \<and> is_exclusive_node n \<and> is_running rt)"

definition others_kept :: "pystr \<Rightarrow> world \<Rightarrow> world \<Rightarrow> bool" where
  "others_kept pid w t \<longleftrightarrow> world_ok t \<and> calm t = calm w \<and> (\<forall>j. j \<noteq> pid \<longrightarrow> runtime_of t j = runtime_of w j)"

lemma priority_irrelevant [simp]:
  "active_count (rt\<lparr>rt_priority := ps\<rparr>) = active_count rt" "has_capacity (rt\<lparr>rt_priority := ps\<rparr>) = has_capacity rt"
  "is_running (rt\<lparr>rt_priority := ps\<rparr>) = is_running rt"
  "exclusive_node_active (rt\<lparr>rt_priority := ps\<rparr>) = exclusive_node_active rt"
  "prioritised w pid (rt\<lparr>rt_priority := ps\<rparr>) = prioritised w pid rt"
  "ready w pid (rt\<lparr>rt_priority := ps\<rparr>) = ready w pid rt"
  by (auto simp: active_count_def has_capacity_def is_running_def exclusive_node_active_def
      prioritised_def ready_def launchable_def fun_eq_iff split: option.splits)

lemma next_choice_filtered [simp]:
  "next_choice w pid (rt\<lparr>rt_priority := filter (prioritised w pid rt) (rt_priority rt)\<rparr>) = next_choice w pid rt"
  by (simp add: next_choice_def fun_eq_iff split: list.split)

lemma settled_filtered:
  "settled w pid (rt\<lparr>rt_priority := filter (prioritised w pid rt) (rt_priority rt)\<rparr>) = settled w pid rt"
  by (simp add: settled_def)

lemma active_start_runner:
  "n_id n \<notin> set (keys (rt_tasks rt)) \<Longrightarrow> active_count (start_runner n rt) = Suc (active_count rt)"
  by (simp add: active_count_def start_runner_def alist_update_new)

lemma exclusive_start_runner: "is_exclusive_node n \<Longrightarrow> exclusive_node_active (start_runner n rt)"
  by (auto simp: exclusive_node_active_def start_runner_def list_ex_iff dest: map_of_SomeD
      intro!: bexI [of _ "(n_id n, n)"] map_of_SomeD)

lemma wp_set_runtime [simp]:
  "wp (set_runtime pid f) Q E w = Q () (w\<lparr>w_runtimes := AList.map_entry pid f (w_runtimes w)\<rparr>)"
  by (simp add: set_runtime_def)

lemma others_kept_upd:
  "others_kept pid w t \<Longrightarrow> others_kept pid w (t\<lparr>w_runtimes := AList.map_entry pid f (w_runtimes t)\<rparr>)"
  by (simp add: others_kept_def runtime_of_upd)

lemma wp_launch_node:
  assumes "runtime_of w pid = Some rt"
    and "w_self_update w \<or> w_storage_sync w \<or> n_id n \<in> set (keys (rt_tasks rt)) \<or> \<not> has_capacity rt \<or>
      \<not> w_loop w \<Longrightarrow> Q False w"
    and "\<not> w_self_update w \<Longrightarrow> \<not> w_storage_sync w \<Longrightarrow> n_id n \<notin> set (keys (rt_tasks rt)) \<Longrightarrow>
      has_capacity rt \<Longrightarrow> w_loop w \<Longrightarrow>
      Q True (w\<lparr>w_runtimes := AList.map_entry pid (start_runner n) (w_runtimes w)\<rparr>)"
  shows "wp (launch_node pid n) Q E w"
  using assms by (auto simp: launch_node_def)

text \<open>The facts a proof about one pass needs of a state reached within the pass.\<close>

lemma ready_cong:
  assumes "calm t = calm w"
  shows "prioritised t pid rt = prioritised w pid rt" "ready t pid rt = ready w pid rt"
    "next_choice t pid rt = next_choice w pid rt"
proof -
  show p: "prioritised t pid rt = prioritised w pid rt"
    using calm_facts(1) [OF assms] launchable_cong [OF assms refl]
    by (simp add: prioritised_def fun_eq_iff split: option.split)
  show r: "ready t pid rt = ready w pid rt"
    using calm_facts(1) [OF assms] launchable_cong [OF assms refl]
    by (simp add: ready_def fun_eq_iff)
  show "next_choice t pid rt = next_choice w pid rt"
    unfolding next_choice_def fun_eq_iff p r by simp
qed

lemma settled_cong:
  assumes "calm t = calm w"
  shows "settled t pid rt = settled w pid rt"
  unfolding settled_def ready_cong [OF assms] calm_eqD [OF assms] ..

lemma admission_cong:
  assumes "calm t = calm w"
  shows "admission t pid = admission w pid"
  unfolding fun_eq_iff admission.simps ready_cong [OF assms] by (intro allI refl)

lemma quiet_runtime_of:
  assumes "quiet t = quiet w"
  shows "runtime_of t = runtime_of w"
  unfolding runtime_of_def fun_eq_iff quiet_eqD(2) [OF assms] by simp

lemma others_kept_refl: "world_ok w \<Longrightarrow> others_kept pid w w"
  by (simp add: others_kept_def)

lemma others_kept_quiet:
  "others_kept pid w t \<Longrightarrow> world_ok u \<Longrightarrow> quiet u = quiet t \<Longrightarrow> others_kept pid w u"
  unfolding others_kept_def using quiet_calm [of u t] quiet_runtime_of [of u t] by metis

lemma wp_launch_priority:
  assumes t: "others_kept pid w t" "runtime_of t pid = Some (rt\<lparr>rt_priority := i # ps\<rparr>)"
    and pr: "filter (prioritised w pid rt) (rt_priority rt) = i # ps"
    and room: "has_capacity rt" "\<not> exclusive_node_active rt"
    and stop: "\<And>u. others_kept pid w u \<Longrightarrow> runtime_of u pid = Some (rt\<lparr>rt_priority := i # ps\<rparr>) \<Longrightarrow>
      settled w pid rt \<Longrightarrow> Q False u"
    and go: "\<And>u n. others_kept pid w u \<Longrightarrow> next_choice w pid rt n \<Longrightarrow>
      (is_exclusive_node n \<longrightarrow> \<not> is_running rt) \<Longrightarrow>
      runtime_of u pid = Some ((start_runner n rt)\<lparr>rt_priority := ps\<rparr>) \<Longrightarrow> Q (\<not> is_exclusive_node n) u"
  shows "wp (launch_priority pid rt i) Q E t"
  unfolding launch_priority_def wp_simps
proof (rule nodes.wp_load)
  show "world_ok t" using t(1) by (simp add: others_kept_def)
next
  fix u assume u: "world_ok u" "quiet u = quiet t"
  have "prioritised w pid rt i"
    using arg_cong [OF pr, of set] by auto
  then obtain n where n: "tab w pid i = Some n" "launchable w rt n" and new: "i \<notin> set (keys (rt_tasks rt))"
    by (auto simp: prioritised_def split: option.splits)
  have tab: "tab t pid i = Some n" using n calm_facts(1) [of t w] t(1) by (simp add: others_kept_def)
  have id: "n_id n = i" using nodes.tab_ids [of t pid i n] tab t(1) by (simp add: others_kept_def)
  have choice: "next_choice w pid rt n" using n id new pr by (simp add: next_choice_def ready_def)
  have u': "others_kept pid w u" "runtime_of u pid = Some (rt\<lparr>rt_priority := i # ps\<rparr>)"
    using others_kept_quiet [OF t(1) u] quiet_runtime_of [OF u(2)] t(2) by simp_all
  have flags: "w_self_update u = w_self_update w" "w_storage_sync u = w_storage_sync w" "w_loop u = w_loop w"
    using u'(1) calm_eqD(5,6,7) [of u w] by (simp_all add: others_kept_def)
  have "wp (launch_node pid n) (\<lambda>launched. wp (if \<not> launched then ret False
      else andthen (set_runtime pid (\<lambda>rt. rt\<lparr>rt_priority := tl (rt_priority rt)\<rparr>)) (ret (\<not> is_exclusive_node n))) Q E) E u"
    if "is_exclusive_node n \<longrightarrow> \<not> is_running rt"
  proof (rule wp_launch_node [OF u'(2)])
    assume "w_self_update u \<or> w_storage_sync u \<or> n_id n \<in> set (keys (rt_tasks (rt\<lparr>rt_priority := i # ps\<rparr>))) \<or>
      \<not> has_capacity (rt\<lparr>rt_priority := i # ps\<rparr>) \<or> \<not> w_loop u"
    then have "settled w pid rt" using new id room flags by (auto simp: settled_def)
    then show "wp (if \<not> False then ret False else andthen (set_runtime pid (\<lambda>rt. rt\<lparr>rt_priority := tl (rt_priority rt)\<rparr>))
        (ret (\<not> is_exclusive_node n))) Q E u"
      using stop u' by simp
  next
    show "wp (if \<not> True then ret False else andthen (set_runtime pid (\<lambda>rt. rt\<lparr>rt_priority := tl (rt_priority rt)\<rparr>))
        (ret (\<not> is_exclusive_node n))) Q E (u\<lparr>w_runtimes := AList.map_entry pid (start_runner n) (w_runtimes u)\<rparr>)"
      using go [OF others_kept_upd [OF u'(1)] choice that] u'(2)
      by (simp add: runtime_of_upd start_runner_def map_entry_twice)
  qed
  moreover have "settled w pid rt" if "is_exclusive_node n" "is_running rt"
    using that choice by (auto simp: settled_def)
  ultimately show "wp (case tab t pid i of None \<Rightarrow> ret False
      | Some n \<Rightarrow> if is_exclusive_node n \<and> active_count rt > 0 then ret False
         else bind (launch_node pid n) (\<lambda>launched. if \<not> launched then ret False
           else andthen (set_runtime pid (\<lambda>rt. rt\<lparr>rt_priority := tl (rt_priority rt)\<rparr>)) (ret (\<not> is_exclusive_node n)))) Q E u"
    using stop [OF u'] tab by (simp add: is_running_def)
qed

lemma sort_key_head:
  assumes "sort_key f xs = y # ys"
  shows "y \<in> set xs" "x \<in> set xs \<Longrightarrow> f y \<le> f x"
proof -
  have s: "set xs = set (y # ys)" using assms by (metis set_sort)
  then show "y \<in> set xs" by (metis list.set_intros(1))
  have "sorted (map f (y # ys))" using sorted_sort_key [of f xs] assms by simp
  then show "x \<in> set xs \<Longrightarrow> f y \<le> f x" using s by auto
qed

lemma wp_launch_chosen:
  assumes u: "others_kept pid w u" "runtime_of u pid = Some (rt\<lparr>rt_priority := []\<rparr>)"
    and choice: "next_choice w pid rt n" and room: "has_capacity rt" "\<not> exclusive_node_active rt"
    and stop: "\<And>u. others_kept pid w u \<Longrightarrow> runtime_of u pid = Some (rt\<lparr>rt_priority := []\<rparr>) \<Longrightarrow>
      settled w pid rt \<Longrightarrow> Q False u"
    and go: "\<And>u n. others_kept pid w u \<Longrightarrow> next_choice w pid rt n \<Longrightarrow>
      (is_exclusive_node n \<longrightarrow> \<not> is_running rt) \<Longrightarrow>
      runtime_of u pid = Some ((start_runner n rt)\<lparr>rt_priority := []\<rparr>) \<Longrightarrow> Q (\<not> is_exclusive_node n) u"
  shows "wp (if is_exclusive_node n \<and> active_count rt > 0 then ret False
    else bind (launch_node pid n) (\<lambda>launched. ret (launched \<and> \<not> is_exclusive_node n))) Q E u"
proof -
  have flags: "w_self_update u = w_self_update w" "w_storage_sync u = w_storage_sync w" "w_loop u = w_loop w"
    using u(1) calm_eqD(5,6,7) [of u w] by (simp_all add: others_kept_def)
  have new: "n_id n \<notin> set (keys (rt_tasks rt))"
    using choice by (simp only: next_choice_def ready_def simp_thms)
  have "wp (launch_node pid n) (\<lambda>b. wp (ret (b \<and> \<not> is_exclusive_node n)) Q E) E u"
    if "is_exclusive_node n \<longrightarrow> \<not> is_running rt"
  proof (rule wp_launch_node [OF u(2)])
    assume "w_self_update u \<or> w_storage_sync u \<or> n_id n \<in> set (keys (rt_tasks (rt\<lparr>rt_priority := []\<rparr>))) \<or>
      \<not> has_capacity (rt\<lparr>rt_priority := []\<rparr>) \<or> \<not> w_loop u"
    then have "settled w pid rt" using new room flags by (auto simp: settled_def)
    then show "wp (ret (False \<and> \<not> is_exclusive_node n)) Q E u" using stop u by simp
  next
    show "wp (ret (True \<and> \<not> is_exclusive_node n)) Q E
        (u\<lparr>w_runtimes := AList.map_entry pid (start_runner n) (w_runtimes u)\<rparr>)"
      using go [OF others_kept_upd [OF u(1)] choice that] u(2) by (simp add: runtime_of_upd start_runner_def)
  qed
  moreover have "settled w pid rt" if "is_exclusive_node n" "is_running rt"
    using that choice by (auto simp: settled_def)
  ultimately show ?thesis using stop [OF u] by (simp add: is_running_def)
qed

lemma wp_launch_oldest:
  assumes t: "others_kept pid w t" "runtime_of t pid = Some (rt\<lparr>rt_priority := []\<rparr>)"
    and pr: "filter (prioritised w pid rt) (rt_priority rt) = []"
    and room: "has_capacity rt" "\<not> exclusive_node_active rt"
    and stop: "\<And>u. others_kept pid w u \<Longrightarrow> runtime_of u pid = Some (rt\<lparr>rt_priority := []\<rparr>) \<Longrightarrow>
      settled w pid rt \<Longrightarrow> Q False u"
    and go: "\<And>u n. others_kept pid w u \<Longrightarrow> next_choice w pid rt n \<Longrightarrow>
      (is_exclusive_node n \<longrightarrow> \<not> is_running rt) \<Longrightarrow>
      runtime_of u pid = Some ((start_runner n rt)\<lparr>rt_priority := []\<rparr>) \<Longrightarrow> Q (\<not> is_exclusive_node n) u"
  shows "wp (launch_oldest pid rt) Q E t"
  unfolding launch_oldest_def wp_simps
proof (rule nodes.wp_listing)
  show "world_ok t" using t(1) by (simp add: others_kept_def)
next
  fix ns u assume u: "world_ok u" "quiet u = quiet t"
    and mem: "\<And>n. n \<in> set ns \<longleftrightarrow> tab t pid (n_id n) = Some n \<and> \<not> on_lanes [] n"
  let ?q = "filter (\<lambda>n. launchable u rt n \<and> n_id n \<notin> set (keys (rt_tasks rt))) ns"
  have u': "others_kept pid w u" "runtime_of u pid = Some (rt\<lparr>rt_priority := []\<rparr>)"
    using others_kept_quiet [OF t(1) u] quiet_runtime_of [OF u(2)] t(2) by simp_all
  have calm: "calm u = calm w" "calm t = calm w" using u'(1) t(1) by (simp_all add: others_kept_def)
  have q: "n \<in> set ?q \<longleftrightarrow> ready w pid rt n" for n
    using mem [of n] calm_facts(1) [OF calm(2)] launchable_cong [OF calm(1) refl, of rt n]
    by (auto simp: ready_def on_lanes_def split: option.splits)
  show "wp (case sort_key (\<lambda>n. (n_created_at n, n_id n)) ?q of [] \<Rightarrow> ret False
     | n # _ \<Rightarrow> if is_exclusive_node n \<and> active_count rt > 0 then ret False
         else bind (launch_node pid n) (\<lambda>launched. ret (launched \<and> \<not> is_exclusive_node n))) Q E u"
  proof (cases "sort_key (\<lambda>n. (n_created_at n, n_id n)) ?q")
    case Nil
    then have "set ?q = {}" using set_sort [of "\<lambda>n. (n_created_at n, n_id n)" ?q] by (metis list.set(1))
    then have "\<forall>n. \<not> ready w pid rt n" using q by (metis empty_iff)
    then have "settled w pid rt" unfolding settled_def by blast
    then show ?thesis using stop u' unfolding Nil by simp
  next
    case (Cons n rest)
    then have "next_choice w pid rt n"
      using sort_key_head [OF Cons] q pr unfolding next_choice_def pr list.case by blast
    from wp_launch_chosen [OF u' this room stop go] show ?thesis unfolding Cons list.case .
  qed
qed

lemma wp_schedule_step:
  assumes w: "world_ok w" "runtime_of w pid = Some rt"
    and stop: "\<And>u rt'. others_kept pid w u \<Longrightarrow> runtime_of u pid = Some rt' \<Longrightarrow>
      rt' = rt \<or> rt' = rt\<lparr>rt_priority := filter (prioritised w pid rt) (rt_priority rt)\<rparr> \<Longrightarrow>
      settled w pid rt \<Longrightarrow> Q False u"
    and go: "\<And>u rt' n. others_kept pid w u \<Longrightarrow> runtime_of u pid = Some rt' \<Longrightarrow> admission w pid rt rt' \<Longrightarrow>
      active_count rt' = Suc (active_count rt) \<Longrightarrow> rt_project rt' = rt_project rt \<Longrightarrow>
      (is_exclusive_node n \<longrightarrow> exclusive_node_active rt') \<Longrightarrow> Q (\<not> is_exclusive_node n) u"
  shows "wp (schedule_step pid) Q E w"
proof (cases "has_capacity rt \<and> \<not> exclusive_node_active rt")
  case False
  then have "settled w pid rt" by (auto simp: settled_def)
  with False show ?thesis
    using stop [OF others_kept_refl [OF w(1)] w(2)] w(2) by (auto simp: schedule_step_def)
next
  case room: True
  let ?ps = "filter (prioritised w pid rt) (rt_priority rt)"
  have admit: "Q (\<not> is_exclusive_node n) u"
    if "others_kept pid w u" "next_choice w pid rt n" "is_exclusive_node n \<longrightarrow> \<not> is_running rt"
      "runtime_of u pid = Some ((start_runner n rt)\<lparr>rt_priority := tl ?ps\<rparr>)" for u n
  proof (rule go [OF that(1,4)])
    show "admission w pid rt ((start_runner n rt)\<lparr>rt_priority := tl ?ps\<rparr>)"
      by (rule Admit [OF _ _ that(2,3) refl]) (use room in simp_all)
    have "n_id n \<notin> set (keys (rt_tasks rt))" using that(2) by (simp only: next_choice_def ready_def simp_thms)
    then show "active_count ((start_runner n rt)\<lparr>rt_priority := tl ?ps\<rparr>) = Suc (active_count rt)"
      using active_start_runner [of n rt] by simp
    show "rt_project ((start_runner n rt)\<lparr>rt_priority := tl ?ps\<rparr>) = rt_project rt"
      by (simp add: start_runner_def)
    show "is_exclusive_node n \<longrightarrow> exclusive_node_active ((start_runner n rt)\<lparr>rt_priority := tl ?ps\<rparr>)"
      using exclusive_start_runner by simp
  qed
  have "wp (filter_prog (still_priority pid rt) (rt_priority rt)) (\<lambda>ps. wp (andthen
      (set_runtime pid (\<lambda>rt. rt\<lparr>rt_priority := ps\<rparr>))
      (case ps of nid # _ \<Rightarrow> launch_priority pid rt nid | [] \<Rightarrow> launch_oldest pid rt)) Q E) E w"
  proof (rule wp_filter_priority [OF w(1)])
    fix v assume v: "world_ok v" "quiet v = quiet w"
    let ?v = "v\<lparr>w_runtimes := AList.map_entry pid (\<lambda>rt. rt\<lparr>rt_priority := ?ps\<rparr>) (w_runtimes v)\<rparr>"
    have kept: "others_kept pid w ?v"
      by (rule others_kept_upd [OF others_kept_quiet [OF others_kept_refl [OF w(1)] v]])
    have rt: "runtime_of ?v pid = Some (rt\<lparr>rt_priority := ?ps\<rparr>)"
      using w(2) quiet_runtime_of [OF v(2)] by (simp add: runtime_of_upd)
    have stop': "Q False u" if "others_kept pid w u" "runtime_of u pid = Some (rt\<lparr>rt_priority := ?ps\<rparr>)"
      "settled w pid rt" for u
      by (rule stop [OF that(1,2) _ that(3)]) simp
    have "wp (case ?ps of nid # _ \<Rightarrow> launch_priority pid rt nid | [] \<Rightarrow> launch_oldest pid rt) Q E ?v"
    proof (cases ?ps)
      case Nil
      show ?thesis unfolding Nil list.case
        by (rule wp_launch_oldest [OF kept [unfolded Nil] rt [unfolded Nil] Nil _ _ stop' [unfolded Nil]
              admit [unfolded Nil list.sel]]) (use room in blast)+
    next
      case (Cons i ps)
      show ?thesis unfolding Cons list.case
        by (rule wp_launch_priority [OF kept [unfolded Cons] rt [unfolded Cons] Cons _ _ stop' [unfolded Cons]
              admit [unfolded Cons list.sel]]) (use room in blast)+
    qed
    then show "wp (andthen (set_runtime pid (\<lambda>rt. rt\<lparr>rt_priority := ?ps\<rparr>))
        (case ?ps of nid # _ \<Rightarrow> launch_priority pid rt nid | [] \<Rightarrow> launch_oldest pid rt)) Q E v"
      by simp
  qed
  then show ?thesis using room w(2) by (simp add: schedule_step_def)
qed

text \<open>
  The priority list is cleaned even when nothing is launched, so the loop ends in a runtime that is
  reached by admissions up to that list.
\<close>

inductive scheduled :: "world \<Rightarrow> pystr \<Rightarrow> runtime \<Rightarrow> runtime \<Rightarrow> bool" for w pid where
  Rest: "scheduled w pid rt rt"
| Clean: "scheduled w pid rt (rt\<lparr>rt_priority := filter (prioritised w pid rt) (rt_priority rt)\<rparr>)"
| Launch: "admission w pid rt rt' \<Longrightarrow> scheduled w pid rt' rt'' \<Longrightarrow> scheduled w pid rt rt''"

lemma scheduled_cong:
  assumes "calm t = calm w" and "scheduled t pid rt rt'"
  shows "scheduled w pid rt rt'"
  using assms(2)
proof induction
  case (Clean rt)
  then show ?case using scheduled.Clean [of w pid rt] unfolding ready_cong [OF assms(1)] .
next
  case (Launch rt rt' rt'')
  then show ?case using scheduled.Launch admission_cong [OF assms(1)] by metis
qed (rule scheduled.Rest)

lemma others_kept_trans: "others_kept pid w t \<Longrightarrow> others_kept pid t u \<Longrightarrow> others_kept pid w u"
  by (simp add: others_kept_def)

lemma wp_schedule_loop:
  assumes "world_ok w" and "runtime_of w pid = Some rt" and "p_concurrency (rt_project rt) - active_count rt < k"
    and "\<And>u rt'. others_kept pid w u \<Longrightarrow> runtime_of u pid = Some rt' \<Longrightarrow> scheduled w pid rt rt' \<Longrightarrow>
      settled w pid rt' \<Longrightarrow> Q () u"
  shows "wp (schedule_loop k pid) Q E w"
  using assms
proof (induction k arbitrary: w rt)
  case (Suc k)
  show ?case unfolding schedule_loop.simps wp_simps
  proof (rule wp_schedule_step [OF Suc.prems(1,2)])
    fix u rt' assume u: "others_kept pid w u" "runtime_of u pid = Some rt'" "settled w pid rt"
      "rt' = rt \<or> rt' = rt\<lparr>rt_priority := filter (prioritised w pid rt) (rt_priority rt)\<rparr>"
    have "scheduled w pid rt rt'" "settled w pid rt'"
      using u(3,4) Rest Clean settled_filtered by auto
    then show "wp (if False then schedule_loop k pid else ret ()) Q E u"
      using Suc.prems(4) [OF u(1,2)] by simp
  next
    fix u rt' n assume u: "others_kept pid w u" "runtime_of u pid = Some rt'" and adm: "admission w pid rt rt'"
      and more: "active_count rt' = Suc (active_count rt)" "rt_project rt' = rt_project rt"
      and excl: "is_exclusive_node n \<longrightarrow> exclusive_node_active rt'"
    have calm: "calm u = calm w" and ok: "world_ok u" using u(1) by (simp_all add: others_kept_def)
    have "has_capacity rt" using adm by cases
    then have less: "p_concurrency (rt_project rt') - active_count rt' < k"
      using more Suc.prems(3) by (simp add: has_capacity_def)
    have "wp (schedule_loop k pid) Q E u"
    proof (rule Suc.IH [OF ok u(2) less])
      fix v rt'' assume v: "others_kept pid u v" "runtime_of v pid = Some rt''" "scheduled u pid rt' rt''"
        "settled u pid rt''"
      show "Q () v"
        by (rule Suc.prems(4) [OF others_kept_trans [OF u(1) v(1)] v(2)
              Launch [OF adm scheduled_cong [OF calm v(3)]] v(4) [unfolded settled_cong [OF calm]]])
    qed
    moreover have "Q () u" if "is_exclusive_node n"
    proof (rule Suc.prems(4) [OF u Launch [OF adm Rest]])
      show "settled w pid rt'" using excl that by (simp add: settled_def)
    qed
    ultimately show "wp (if \<not> is_exclusive_node n then schedule_loop k pid else ret ()) Q E u" by simp
  qed
qed simp

definition scheduling_open :: "world \<Rightarrow> runtime \<Rightarrow> bool" where
  "scheduling_open w rt \<longleftrightarrow> \<not> w_storage_sync w \<and> \<not> w_self_update w \<and> p_archived_at (rt_project rt) = None \<and>
     is_native_project w (rt_project rt)"

lemma wp_schedule_queued:
  assumes "world_ok w"
    and "\<And>u. others_kept pid w u \<Longrightarrow> runtime_of u pid = runtime_of w pid \<Longrightarrow>
      (case runtime_of w pid of None \<Rightarrow> True | Some rt \<Rightarrow> \<not> scheduling_open w rt) \<Longrightarrow> Q () u"
    and "\<And>u rt rt'. others_kept pid w u \<Longrightarrow> runtime_of w pid = Some rt \<Longrightarrow> runtime_of u pid = Some rt' \<Longrightarrow>
      scheduling_open w rt \<Longrightarrow> scheduled w pid rt rt' \<Longrightarrow> settled w pid rt' \<Longrightarrow> Q () u"
  shows "wp (schedule_queued pid) Q E w"
proof (cases "runtime_of w pid")
  case None
  then show ?thesis using assms(2) [OF others_kept_refl [OF assms(1)]] by (simp add: schedule_queued_def)
next
  case (Some rt)
  show ?thesis
  proof (cases "scheduling_open w rt")
    case False
    then show ?thesis using assms(2) [OF others_kept_refl [OF assms(1)]] Some
      by (auto simp: schedule_queued_def scheduling_open_def)
  next
    case True
    have "wp (schedule_loop (Suc (p_concurrency (rt_project rt) - active_count rt)) pid) Q E w"
      by (rule wp_schedule_loop [OF assms(1) Some lessI]) (rule assms(3) [OF _ Some _ True])
    then show ?thesis using Some True by (simp add: schedule_queued_def scheduling_open_def)
  qed
qed

section \<open>Properties of the schedule\<close>

definition exclusive_alone :: "runtime \<Rightarrow> bool" where
  "exclusive_alone rt \<longleftrightarrow> (exclusive_node_active rt \<longrightarrow> active_count rt \<le> 1)"

lemmas admission_defs = next_choice_def ready_def start_runner_def

lemma start_runner_fields [simp]:
  "rt_tasks (start_runner n rt) = AList.update (n_id n) False (rt_tasks rt)"
  "rt_runners (start_runner n rt) = AList.update (n_id n) n (rt_runners rt)"
  "rt_project (start_runner n rt) = rt_project rt"
  by (simp_all add: start_runner_def)

lemma exclusive_active_iff:
  "distinct (keys (rt_runners rt)) \<Longrightarrow>
     exclusive_node_active rt \<longleftrightarrow> (\<exists>i n. map_of (rt_runners rt) i = Some n \<and> is_exclusive_node n)"
  by (auto simp: exclusive_node_active_def list_ex_iff dest: map_of_SomeD intro!: map_of_is_SomeI)

lemma set_update_subset: "set (AList.update k v d) \<subseteq> insert (k, v) (set d)"
  by (induction d) auto

lemma exclusive_start_runnerD:
  "exclusive_node_active (start_runner n rt) \<Longrightarrow> is_exclusive_node n \<or> exclusive_node_active rt"
  using set_update_subset [of "n_id n" n "rt_runners rt"]
  by (fastforce simp: exclusive_node_active_def list_ex_iff)

text \<open>What one admission does, as facts about the runtimes before and after.\<close>

lemma admission_facts:
  assumes "admission w pid rt rt'"
  obtains n where "next_choice w pid rt n" "rt_tasks rt' = rt_tasks rt @ [(n_id n, False)]"
    "rt_runners rt' = AList.update (n_id n) n (rt_runners rt)" "rt_project rt' = rt_project rt"
    "active_count rt' = Suc (active_count rt)" "active_count rt' \<le> p_concurrency (rt_project rt)"
    "exclusive_alone rt'" "rt_priority rt = [] \<longrightarrow> rt_priority rt' = []"
proof -
  from assms obtain n where n: "next_choice w pid rt n" "has_capacity rt" "\<not> exclusive_node_active rt"
    "is_exclusive_node n \<longrightarrow> \<not> is_running rt"
    "rt' = (start_runner n rt)\<lparr>rt_priority := tl (filter (prioritised w pid rt) (rt_priority rt))\<rparr>"
    by cases
  have new: "n_id n \<notin> set (keys (rt_tasks rt))" using n(1) by (simp only: next_choice_def ready_def simp_thms)
  have count: "active_count rt' = Suc (active_count rt)" using active_start_runner [OF new] n(5) by simp
  show thesis
  proof (rule that [OF n(1)])
    show "rt_tasks rt' = rt_tasks rt @ [(n_id n, False)]" using new n(5) by (simp add: alist_update_new)
    show "exclusive_alone rt'"
      using exclusive_start_runnerD [of n rt] n count by (auto simp: exclusive_alone_def is_running_def)
    show "active_count rt' \<le> p_concurrency (rt_project rt)" using count n(2) by (simp add: has_capacity_def)
  qed (use n(5) count in simp_all)
qed

lemma scheduled_facts:
  assumes "scheduled w pid rt rt'"
  shows "rt_project rt' = rt_project rt"
    "active_count rt' \<le> max (active_count rt) (p_concurrency (rt_project rt))"
    "exclusive_alone rt \<Longrightarrow> exclusive_alone rt'"
    "set (keys (rt_tasks rt)) \<subseteq> set (keys (rt_tasks rt'))"
  using assms
proof induction
  case (Launch rt rt' rt'')
  from Launch.hyps(1) obtain n :: node where n: "rt_tasks rt' = rt_tasks rt @ [(n_id n, False)]"
    "rt_project rt' = rt_project rt" "active_count rt' \<le> p_concurrency (rt_project rt)" "exclusive_alone rt'"
    by (rule admission_facts) (rule that)
  { case 1 show ?case using Launch.IH(1) n(2) by simp }
  { case 2 show ?case using Launch.IH(2) n(2,3) by simp }
  { case 3 show ?case using Launch.IH(3) n(4) by simp }
  { case 4 show ?case using Launch.IH(4) n(1) by auto }
qed (simp_all add: exclusive_alone_def)

lemma ready_tasks_mono:
  "rt_project r' = rt_project r \<Longrightarrow> set (keys (rt_tasks r)) \<subseteq> set (keys (rt_tasks r')) \<Longrightarrow>
     ready w pid r' n \<Longrightarrow> ready w pid r n"
  by (auto simp: ready_def launchable_def)

lemma scheduled_new_ready:
  assumes "scheduled w pid rt rt'" and "i \<in> set (keys (rt_tasks rt'))" and "i \<notin> set (keys (rt_tasks rt))"
  shows "\<exists>n. ready w pid rt n \<and> n_id n = i \<and> map_of (rt_runners rt') i = Some n"
proof -
  have "(i \<in> set (keys (rt_tasks rt')) \<longrightarrow> i \<notin> set (keys (rt_tasks rt)) \<longrightarrow>
      (\<exists>n. ready w pid rt n \<and> n_id n = i \<and> map_of (rt_runners rt') i = Some n)) \<and>
     (i \<in> set (keys (rt_tasks rt)) \<longrightarrow> map_of (rt_runners rt') i = map_of (rt_runners rt) i)"
    using assms(1)
  proof induction
    case (Launch rt rt' rt'')
    from Launch.hyps(1) obtain n where n: "next_choice w pid rt n" "rt_tasks rt' = rt_tasks rt @ [(n_id n, False)]"
      "rt_runners rt' = AList.update (n_id n) n (rt_runners rt)" "rt_project rt' = rt_project rt"
      by (rule admission_facts) (rule that)
    have r: "ready w pid rt n" "n_id n \<notin> set (keys (rt_tasks rt))"
      using n(1) by (simp_all only: next_choice_def ready_def simp_thms)
    have mono: "ready w pid rt m" if "ready w pid rt' m" for m
      by (rule ready_tasks_mono [OF n(4) _ that]) (use n(2) in auto)
    show ?case
    proof (cases "i = n_id n")
      case True
      then show ?thesis using Launch.IH n r by auto
    next
      case False
      then have "i \<in> set (keys (rt_tasks rt')) \<longleftrightarrow> i \<in> set (keys (rt_tasks rt))" using n(2) by auto
      then show ?thesis using Launch.IH n(3) mono False by auto
    qed
  qed simp_all
  then show ?thesis using assms(2,3) by blast
qed

lemma scheduled_no_overtaking:
  assumes "scheduled w pid rt rt'" and "rt_priority rt = []" and "ready w pid rt n" and "ready w pid rt m"
    and "n_id n \<in> set (keys (rt_tasks rt'))" and "n_id m \<notin> set (keys (rt_tasks rt'))"
  shows "(n_created_at n, n_id n) \<le> (n_created_at m, n_id m)"
  using assms
proof induction
  case (Launch rt rt' rt'')
  from Launch.hyps(1) obtain k where k: "next_choice w pid rt k" "rt_tasks rt' = rt_tasks rt @ [(n_id k, False)]"
    "rt_project rt' = rt_project rt" "rt_priority rt = [] \<longrightarrow> rt_priority rt' = []"
    by (rule admission_facts) (rule that)
  have sub: "set (keys (rt_tasks rt')) \<subseteq> set (keys (rt_tasks rt''))"
    by (rule scheduled_facts(4) [OF Launch.hyps(2)])
  have oldest: "\<forall>m. ready w pid rt m \<longrightarrow> (n_created_at k, n_id k) \<le> (n_created_at m, n_id m)"
    using k(1) Launch.prems(1) by (simp add: next_choice_def)
  have still: "ready w pid rt' x" if "ready w pid rt x" "n_id x \<noteq> n_id k" for x
    using that k(2,3) by (auto simp: ready_def launchable_def)
  show ?case
  proof (cases "n_id n = n_id k")
    case True
    then have "n = k" using k(1) Launch.prems(2) by (simp add: next_choice_def ready_def)
    then show ?thesis using oldest Launch.prems(3) by simp
  next
    case False
    have "n_id k \<in> set (keys (rt_tasks rt''))" using sub k(2) by auto
    then have "n_id m \<noteq> n_id k" using Launch.prems(5) by metis
    then show ?thesis
      using Launch.IH Launch.prems still [OF Launch.prems(2) False] still [OF Launch.prems(3)] k(4) by blast
  qed
qed (simp_all add: ready_def)

lemma scheduled_starts:
  assumes "scheduled w pid rt rt'" and "settled w pid rt'" and "\<not> is_running rt" and "rt_runners rt = []"
    and "0 < p_concurrency (rt_project rt)" and "w_loop w" and "\<not> w_self_update w" and "\<not> w_storage_sync w"
    and "ready w pid rt n"
  shows "is_running rt'"
  using assms(1)
proof cases
  case (Launch r)
  from Launch(1) obtain k :: node where "active_count r = Suc (active_count rt)" "rt_tasks r = rt_tasks rt @ [(n_id k, False)]"
    by (rule admission_facts) (rule that)
  have "active_count r \<le> active_count rt'"
    using Launch(2) by induction (auto elim: admission_facts)
  then show ?thesis using \<open>active_count r = _\<close> by (simp add: is_running_def)
qed (use assms settled_filtered [of w pid rt] in
      \<open>auto simp: settled_def has_capacity_def is_running_def exclusive_node_active_def\<close>)

section \<open>The scheduler of the code\<close>

lemma schedule_queued_run:
  assumes "world_ok w" and "runtime_of w pid = Some rt"
  obtains t rt' where "schedule_queued pid w = (t, Inr ())" "others_kept pid w t" "runtime_of t pid = Some rt'"
    "scheduled w pid rt rt'" "scheduling_open w rt \<longrightarrow> settled w pid rt'"
proof -
  have "wp (schedule_queued pid) (\<lambda>_ t. others_kept pid w t \<and> (\<exists>rt'. runtime_of t pid = Some rt' \<and>
      scheduled w pid rt rt' \<and> (scheduling_open w rt \<longrightarrow> settled w pid rt'))) (\<lambda>_ _. False) w"
    by (rule wp_schedule_queued [OF assms(1)]) (use assms(2) scheduled.Rest in auto)
  then show thesis using that by (auto simp: wp_def split: prod.splits sum.splits)
qed

text \<open>Three queued nodes of a project with two slots; the youngest has the smallest identifier.\<close>

definition queue_store :: store where
  "queue_store = sample_store\<lparr>st_dirs :=
     [((''p'', ''here'', ''a''), record_dir ((sample_agent ''a'' Queued)\<lparr>n_created_at := 9\<rparr>)),
      ((''p'', ''here'', ''b''), record_dir ((sample_agent ''b'' Queued)\<lparr>n_created_at := 3\<rparr>)),
      ((''p'', ''here'', ''c''), record_dir (sample_agent ''c'' Queued))]\<rparr>"

definition idle_runtime :: runtime where
  "idle_runtime = \<lparr>rt_project = sample_project, rt_runners = [], rt_tasks = [], rt_priority = [], rt_closed = False\<rparr>"

definition queue_world :: world where
  "queue_world = \<lparr>w_store = queue_store,
     w_lanes = \<lparr>ls_bound = [(''p'', [''main''])],
       ls_manifests = [(''main'', JObj [(''kind'', JStr ''planspace''), (''id'', JStr ''main'')])]\<rparr>,
     w_remote = [], w_runtimes = [(''p'', idle_runtime)], w_self_update = False, w_storage_sync = False,
     w_loop = True, w_now = 100, w_ids = 0, w_events = []\<rparr>"

definition queued_node :: "pystr \<Rightarrow> int \<Rightarrow> node" where
  "queued_node i at = (sample_agent i Queued)\<lparr>n_created_at := at, n_owner_host_id := ''here''\<rparr>"

lemma queue_world_ok: "world_ok queue_world"
  unfolding world_ok_def by (rule store_ok_execD) code_simp

lemma queue_world_runtime: "runtime_of queue_world ''p'' = Some idle_runtime"
  by code_simp

lemma queue_world_final:
  "map_option (\<lambda>rt. keys (rt_tasks rt)) (runtime_of (fst (schedule_queued ''p'' queue_world)) ''p'') = Some [''b'', ''c'']"
  by code_simp

text \<open>
  C1: scheduling refines the step relation. \<open>schedule_queued\<close> never raises, changes no stored record,
  no lane and no other project, reaches its runtime by admissions only, and, when the project may
  schedule at all, stops only in a settled runtime: no capacity, an exclusive node at work, nothing
  launchable, or an exclusive node waiting for the others to end.
\<close>

theorem schedule_queued_refines:
  assumes "world_ok w" and "runtime_of w pid = Some rt"
  shows "\<exists>t rt'. schedule_queued pid w = (t, Inr ()) \<and> others_kept pid w t \<and> runtime_of t pid = Some rt' \<and>
    scheduled w pid rt rt' \<and> (scheduling_open w rt \<longrightarrow> settled w pid rt')"
  using schedule_queued_run [OF assms] by metis

theorem schedule_queued_refines_witness:
  "\<exists>t rt'. schedule_queued ''p'' queue_world = (t, Inr ()) \<and> runtime_of t ''p'' = Some rt' \<and>
    scheduled queue_world ''p'' idle_runtime rt' \<and> settled queue_world ''p'' rt'"
proof -
  have "scheduling_open queue_world idle_runtime" by code_simp
  with schedule_queued_refines [OF queue_world_ok queue_world_runtime] show ?thesis by blast
qed

text \<open>
  C2: the scheduler respects its bounds. The tasks at work never exceed the project's concurrency (or
  what already ran), an exclusive node that runs runs alone, and every task it starts belongs to a
  stored node that is queued, native to this device, on an unarchived lane and launchable there.
\<close>

theorem schedule_queued_safe:
  assumes "world_ok w" and "runtime_of w pid = Some rt" and "schedule_queued pid w = (t, r)"
    and "runtime_of t pid = Some rt'" and "i \<in> set (keys (rt_tasks rt'))" and "i \<notin> set (keys (rt_tasks rt))"
  shows "active_count rt' \<le> max (active_count rt) (p_concurrency (rt_project rt)) \<and>
    (exclusive_alone rt \<longrightarrow> exclusive_alone rt') \<and>
    (\<exists>n. tab w pid i = Some n \<and> launchable w rt n \<and> map_of (rt_runners rt') i = Some n)"
proof -
  have s: "scheduled w pid rt rt'" using schedule_queued_run [OF assms(1,2)] assms(3,4) by (metis option.inject prod.inject)
  then show ?thesis
    using scheduled_facts(2,3) [OF s] scheduled_new_ready [OF s assms(5,6)] by (auto simp: ready_def)
qed

theorem schedule_queued_safe_witness:
  "\<exists>n rt'. runtime_of (fst (schedule_queued ''p'' queue_world)) ''p'' = Some rt' \<and>
    active_count rt' \<le> 2 \<and> exclusive_alone rt' \<and> tab queue_world ''p'' ''b'' = Some n"
proof -
  obtain rt' where rt: "runtime_of (fst (schedule_queued ''p'' queue_world)) ''p'' = Some rt'"
    and k: "keys (rt_tasks rt') = [''b'', ''c'']"
    using queue_world_final by auto
  have e: "exclusive_alone idle_runtime" "active_count idle_runtime = 0"
    "p_concurrency (rt_project idle_runtime) = 2" "rt_tasks idle_runtime = []"
    by code_simp+
  show ?thesis
    using schedule_queued_safe [OF queue_world_ok queue_world_runtime prod.collapse [symmetric] rt, of "''b''"]
      e k rt by auto
qed

text \<open>
  C3: a queued node is not starved while the project is idle. When a project that may schedule has a
  free slot, nothing at work and a launchable queued node, something runs after scheduling.
\<close>

theorem schedule_queued_progress:
  assumes "world_ok w" and "runtime_of w pid = Some rt" and "scheduling_open w rt" and "w_loop w"
    and "\<not> is_running rt" and "rt_runners rt = []" and "0 < p_concurrency (rt_project rt)"
    and "tab w pid (n_id n) = Some n" and "launchable w rt n" and "n_id n \<notin> set (keys (rt_tasks rt))"
  shows "\<exists>t rt'. schedule_queued pid w = (t, Inr ()) \<and> runtime_of t pid = Some rt' \<and> is_running rt'"
proof -
  obtain t rt' where t: "schedule_queued pid w = (t, Inr ())" "runtime_of t pid = Some rt'"
    "scheduled w pid rt rt'" "settled w pid rt'"
    using schedule_queued_run [OF assms(1,2)] assms(3) by metis
  have "ready w pid rt n" using assms(8-10) by (simp add: ready_def)
  then have "is_running rt'"
    using scheduled_starts [OF t(3,4) assms(5-7) assms(4)] assms(3) by (simp add: scheduling_open_def)
  with t show ?thesis by blast
qed

theorem schedule_queued_progress_witness:
  "\<exists>t rt'. schedule_queued ''p'' queue_world = (t, Inr ()) \<and> runtime_of t ''p'' = Some rt' \<and> is_running rt'"
proof -
  have "tab queue_world ''p'' ''b'' = Some (queued_node ''b'' 3)" "launchable queue_world idle_runtime (queued_node ''b'' 3)"
    "scheduling_open queue_world idle_runtime" "w_loop queue_world" "\<not> is_running idle_runtime"
    "rt_runners idle_runtime = []" "0 < p_concurrency (rt_project idle_runtime)"
    "n_id (queued_node ''b'' 3) = ''b''" "rt_tasks idle_runtime = []"
    by code_simp+
  then show ?thesis
    using schedule_queued_progress [OF queue_world_ok queue_world_runtime, of "queued_node ''b'' 3"] by simp
qed

text \<open>
  C4: first come, first served. With no priority nodes, a launchable node that is started is never
  younger than a launchable node left waiting, by creation time and then identifier.
\<close>

theorem schedule_queued_fair:
  assumes "world_ok w" and "runtime_of w pid = Some rt" and "rt_priority rt = []"
    and "schedule_queued pid w = (t, r)" and "runtime_of t pid = Some rt'"
    and "ready w pid rt n" and "n_id n \<in> set (keys (rt_tasks rt'))"
    and "ready w pid rt m" and "n_id m \<notin> set (keys (rt_tasks rt'))"
  shows "(n_created_at n, n_id n) \<le> (n_created_at m, n_id m)"
proof -
  have "scheduled w pid rt rt'" using schedule_queued_run [OF assms(1,2)] assms(4,5) by (metis option.inject prod.inject)
  then show ?thesis by (rule scheduled_no_overtaking [OF _ assms(3,6,8,7,9)])
qed

theorem schedule_queued_fair_witness:
  "(n_created_at (queued_node ''b'' 3), n_id (queued_node ''b'' 3)) \<le>
     (n_created_at (queued_node ''a'' 9), n_id (queued_node ''a'' 9))"
proof -
  obtain rt' where rt: "runtime_of (fst (schedule_queued ''p'' queue_world)) ''p'' = Some rt'"
    and k: "keys (rt_tasks rt') = [''b'', ''c'']"
    using queue_world_final by auto
  have "ready queue_world ''p'' idle_runtime (queued_node ''b'' 3)"
    "ready queue_world ''p'' idle_runtime (queued_node ''a'' 9)" "rt_priority idle_runtime = []"
    "n_id (queued_node ''b'' 3) = ''b''" "n_id (queued_node ''a'' 9) = ''a''"
    by code_simp+
  with schedule_queued_fair [OF queue_world_ok queue_world_runtime _ prod.collapse [symmetric] rt,
      of "queued_node ''b'' 3" "queued_node ''a'' 9"] k
  show ?thesis by simp
qed

end
