(* ===== verification/Promotion.thy ===== *)
theory Promotion
  imports Registry
begin

text \<open>
  Virtual nodes of \<open>registry.py\<close>: how a request's lane, dependencies, parent and resume source are
  checked against the store, how a virtual is promoted to the queue, on demand or by the sweep over
  the auto lanes, and how a queued node is taken back. A \<open>try ... except Exception\<close> around a log line
  is \<open>catching\<close>; the tasks created on the event loop are \<open>notify\<close>.
\<close>

section \<open>Node previews and events\<close>

definition write_virtual_preview :: "pystr \<Rightarrow> node \<Rightarrow> unit reg" where
  "write_virtual_preview pid n = (case render_virtual_preview n of
     Inl e \<Rightarrow> raise PreviewNotRendered | Inr doc \<Rightarrow> put_preview pid (n_id n) doc)"

definition try_virtual_preview :: "pystr \<Rightarrow> node \<Rightarrow> unit reg" where
  "try_virtual_preview pid n = catching (write_virtual_preview pid n) (\<lambda>_. ret ())"

section \<open>Checks on a request\<close>

definition require_project_lane :: "project \<Rightarrow> pystr option \<Rightarrow> pystr option reg" where
  "require_project_lane p planspace_id =
     (let requested = strip (or_empty planspace_id) in
      if requested = [] then ret None
      else bind (reading (\<lambda>w. list_project_planspace_ids (w_lanes w) (p_id p))) (\<lambda>reachable.
        bind (reject_if (requested \<notin> set reachable) (ValueError ''unknown planspace'')) (\<lambda>_.
        andthen (require_unarchived_lane p (Some requested)) (ret (Some requested)))))"

definition resolve_virtual_create_lane :: "project \<Rightarrow> pystr option \<Rightarrow> pystr reg" where
  "resolve_virtual_create_lane p planspace_id =
     bind (require_project_lane p planspace_id) (\<lambda>lane. case lane of
       None \<Rightarrow> raise (ValueError ''planspace id is required'') | Some l \<Rightarrow> ret l)"

text \<open>The loop over \<open>scheduled_deps\<close>; \<open>deps\<close> are the dependencies accepted so far (also \<open>seen\<close>).\<close>

fun collect_deps :: "pystr \<Rightarrow> pystr \<Rightarrow> pystr \<Rightarrow> pystr list \<Rightarrow> pystr list \<Rightarrow> pystr list reg" where
  "collect_deps pid vid lane deps [] = ret deps"
| "collect_deps pid vid lane deps (raw # raws) =
     bind (reject_if (strip raw = []) (ValueError ''scheduled_deps entries must be non-empty strings'')) (\<lambda>_.
     bind (reject_if (strip raw = vid) (ValueError ''scheduled_deps must not include the virtual itself'')) (\<lambda>_.
     if strip raw \<in> set deps then collect_deps pid vid lane deps raws
     else bind (load pid (strip raw)) (\<lambda>node. case node of
         None \<Rightarrow> raise (ValueError ''scheduled_dep does not resolve'')
       | Some d \<Rightarrow>
           bind (reject_if (lane_of d \<noteq> lane) (ValueError ''scheduled_dep is outside this lane'')) (\<lambda>_.
             collect_deps pid vid lane (deps @ [strip raw]) raws))))"

definition normalize_virtual_scheduled_deps :: "pystr \<Rightarrow> pystr \<Rightarrow> pystr \<Rightarrow> pystr list option \<Rightarrow> pystr list reg" where
  "normalize_virtual_scheduled_deps pid vid lane scheduled_deps =
     (case scheduled_deps of None \<Rightarrow> ret [] | Some raws \<Rightarrow> collect_deps pid vid lane [] raws)"

definition normalize_virtual_parent :: "pystr \<Rightarrow> pystr \<Rightarrow> pystr option \<Rightarrow> pystr option reg" where
  "normalize_virtual_parent pid lane parent_node_id =
     (let parent_id = strip (or_empty parent_node_id) in
      if parent_id = [] then ret None
      else bind (load pid parent_id) (\<lambda>node. case node of
          None \<Rightarrow> raise (ValueError ''parent_node_id does not resolve'')
        | Some parent \<Rightarrow>
            andthen (reject_if (lane_of parent \<noteq> lane) (ValueError ''parent_node_id is outside this lane''))
              (ret (Some parent_id))))"

definition normalize_virtual_resume_source :: "pystr \<Rightarrow> pystr \<Rightarrow> pystr option \<Rightarrow> bool \<Rightarrow> pystr option reg" where
  "normalize_virtual_resume_source pid lane resume_from allow_nonterminal =
     (let source_id = strip (or_empty resume_from) in
      if source_id = [] then ret None
      else bind (load pid source_id) (\<lambda>node. case node of
          None \<Rightarrow> raise (ValueError ''resume_from_node_id does not resolve'')
        | Some source \<Rightarrow>
            bind (reject_if (n_kind source = Op)
              (ValueError ''resume_from_node_id must reference an agent/verifier node'')) (\<lambda>_.
            bind (reject_if (lane_of source \<noteq> lane) (ValueError ''resume_from_node_id is outside this lane'')) (\<lambda>_.
            if allow_nonterminal then ret (Some source_id)
            else bind (reject_if (\<not> terminal (n_state source))
                (ValueError ''resume_from_node_id must reference a terminal node'')) (\<lambda>_.
              bind (reading (\<lambda>w. can_resume_provider_session w source)) (\<lambda>local.
              andthen (reject_if (\<not> truthy (n_provider_session_id source) \<and> local)
                (ValueError ''resume_from_node_id is not resumable''))
                (ret (Some source_id))))))))"

text \<open>The dependency graph of a lane with one node added or replaced.\<close>

definition lane_nodes_with :: "pystr \<Rightarrow> pystr \<Rightarrow> node \<Rightarrow> dep_graph reg" where
  "lane_nodes_with pid lane n =
     bind (listing pid []) (\<lambda>nodes. ret (AList.update (n_id n) (n_scheduled_deps n)
       (map (\<lambda>m. (n_id m, n_scheduled_deps m)) (filter (\<lambda>m. lane_of m = lane) nodes))))"

section \<open>Promotion\<close>

datatype promotion_code =
    ProjectUnavailable | VirtualNotFound | GitUnavailable | AlreadyPromoted | NodeNotVirtual
  | VirtualObsolete | PromptRequired | DependenciesNotTerminal | ResumeSourceMissing
  | ResumeSourceNotTerminal | ResumeSessionUnavailable | PreviewWriteFailed

record promotion_result =
  pr_node :: "node option"
  pr_code :: "promotion_code option"
  pr_blockers :: "pystr list"

definition refused :: "promotion_code \<Rightarrow> promotion_result" where
  "refused c = \<lparr>pr_node = None, pr_code = Some c, pr_blockers = []\<rparr>"

definition virtual_requires_prompt :: "review_subtype option \<Rightarrow> bool" where
  "virtual_requires_prompt subtype = (subtype \<noteq> Some CodeReview)"

definition lacks_prompt :: "node \<Rightarrow> bool" where
  "lacks_prompt n = (virtual_requires_prompt (n_subtype n) \<and> blank (or_empty (n_prompt_draft n)))"

definition obsolete :: "node \<Rightarrow> bool" where
  "obsolete n = truthy (n_obsolete_reason n)"

text \<open>A dependency that keeps its dependents from being promoted.\<close>

definition blocks :: "node option \<Rightarrow> bool" where
  "blocks d = (case d of None \<Rightarrow> False
     | Some p \<Rightarrow> \<not> terminal (n_state p) \<and> \<not> (n_state p = Virtual \<and> obsolete p))"

definition promotion_blockers :: "pystr \<Rightarrow> node \<Rightarrow> pystr list reg" where
  "promotion_blockers pid n =
     filter_prog (\<lambda>dep. bind (load pid dep) (\<lambda>d. ret (blocks d))) (n_scheduled_deps n)"

text \<open>What a continuation takes from its source; \<open>Inl\<close> carries the refusal.\<close>

definition inherit_resume :: "env \<Rightarrow> project \<Rightarrow> pystr \<Rightarrow> node \<Rightarrow> (promotion_result + node) reg" where
  "inherit_resume env p pid n =
     (if \<not> truthy (n_resume_from_node_id n) then ret (Inr n)
      else bind (load pid (or_empty (n_resume_from_node_id n))) (\<lambda>source. case source of
          None \<Rightarrow> ret (Inl (refused ResumeSourceMissing))
        | Some src \<Rightarrow>
            if \<not> terminal (n_state src)
            then ret (Inl ((refused ResumeSourceNotTerminal)\<lparr>pr_blockers := [n_id src]\<rparr>))
            else bind (reading (\<lambda>w. can_resume_provider_session w src)) (\<lambda>local.
              if \<not> truthy (n_provider_session_id src) \<and> local
              then ret (Inl (refused ResumeSessionUnavailable))
              else bind (reading_result (\<lambda>w. remote_resume_settings env w p src)) (\<lambda>settings.
                ret (Inr (n\<lparr>n_model_preset_id := n_model_preset_id src,
                  n_settings_snapshot := dict_updates (n_settings_snapshot n) settings,
                  n_provider_session_id := (if local then n_provider_session_id src else None),
                  n_parent_node_id := Some (n_id src)\<rparr>))))))"

text \<open>The record a promoted virtual becomes.\<close>

definition queued_form :: "node \<Rightarrow> node" where
  "queued_form n =
     (let prompt = (if n_kind n = Agent \<and> truthy (n_prompt_draft n) then or_empty (n_prompt_draft n) else n_prompt n);
          s1 = (if n_pending_extra_principles n \<noteq> []
                then AList.update ''extra_principles'' (JList (map JStr (n_pending_extra_principles n)))
                  (n_settings_snapshot n) else n_settings_snapshot n);
          s2 = (if n_pending_extra_skills n \<noteq> []
                then AList.update ''extra_skills'' (JList (n_pending_extra_skills n)) s1 else s1)
      in n\<lparr>n_state := Queued, n_prompt := prompt, n_prompt_draft := None, n_settings_snapshot := s2,
           n_pending_extra_principles := [], n_pending_extra_skills := []\<rparr>)"

definition commit_promotion :: "pystr \<Rightarrow> node \<Rightarrow> promotion_result reg" where
  "commit_promotion pid n =
     bind (catching (andthen (write_virtual_preview pid n) (ret True)) (\<lambda>_. ret False)) (\<lambda>written.
     if \<not> written then ret (refused PreviewWriteFailed)
     else bind (save (queued_form n)) (\<lambda>m.
       bind (notify pid (WorkspaceNode m (Some (n_state n)) False)) (\<lambda>_.
       bind (notify pid (NodeUpdated m)) (\<lambda>_.
       bind (schedule_queued pid) (\<lambda>_.
       bind (load pid (n_id m)) (\<lambda>stored.
         ret \<lparr>pr_node = Some (case stored of None \<Rightarrow> m | Some s \<Rightarrow> s), pr_code = None, pr_blockers = []\<rparr>))))))"

definition promote_checked :: "env \<Rightarrow> project \<Rightarrow> pystr \<Rightarrow> node \<Rightarrow> promotion_result reg" where
  "promote_checked env p pid n =
     (if n_state n \<noteq> Virtual
      then ret (if truthy (n_proposed_by n)
        then \<lparr>pr_node = Some n, pr_code = Some AlreadyPromoted, pr_blockers = []\<rparr> else refused NodeNotVirtual)
      else if obsolete n then ret (refused VirtualObsolete)
      else if lacks_prompt n then ret (refused PromptRequired)
      else bind (promotion_blockers pid n) (\<lambda>blockers.
        if blockers \<noteq> [] then ret ((refused DependenciesNotTerminal)\<lparr>pr_blockers := blockers\<rparr>)
        else bind (inherit_resume env p pid n) (\<lambda>inherited. case inherited of
            Inl r \<Rightarrow> ret r
          | Inr n' \<Rightarrow> bind (reading_result (\<lambda>w. validate_remote_execution w p n')) (\<lambda>_.
              commit_promotion pid n'))))"

definition promote_virtual_result :: "env \<Rightarrow> pystr \<Rightarrow> pystr \<Rightarrow> promotion_result reg" where
  "promote_virtual_result env pid vid =
     bind (reading (\<lambda>w. runtime_of w pid)) (\<lambda>rt. case rt of
       None \<Rightarrow> ret (refused ProjectUnavailable)
     | Some _ \<Rightarrow>
         bind (require_execution_project env pid) (\<lambda>p.
         bind (load pid vid) (\<lambda>node. case node of
             None \<Rightarrow> ret (refused VirtualNotFound)
           | Some n \<Rightarrow>
               bind (require_unarchived_lane p (n_planspace_id n)) (\<lambda>_.
               bind (require_native_node n) (\<lambda>_.
               if p_temporary p \<and> n_subtype n = Some CodeReview then ret (refused GitUnavailable)
               else promote_checked env p pid n)))))"

definition promote_virtual :: "env \<Rightarrow> pystr \<Rightarrow> pystr \<Rightarrow> node option reg" where
  "promote_virtual env pid vid =
     bind (promote_virtual_result env pid vid) (\<lambda>r. ret (if pr_code r = None then pr_node r else None))"

section \<open>Auto-promotion\<close>

fun all_prog :: "('a \<Rightarrow> ('e, 's, bool) prog) \<Rightarrow> 'a list \<Rightarrow> ('e, 's, bool) prog" where
  "all_prog f [] = ret True"
| "all_prog f (x # xs) = bind (f x) (\<lambda>ok. if ok then all_prog f xs else ret False)"

definition auto_ready :: "node option \<Rightarrow> bool" where
  "auto_ready d = (case d of None \<Rightarrow> True
     | Some p \<Rightarrow> n_state p = Done \<or> n_state p = Virtual \<and> obsolete p)"

definition is_dep_auto_ready :: "pystr \<Rightarrow> node list \<Rightarrow> pystr \<Rightarrow> bool reg" where
  "is_dep_auto_ready pid lane_nodes dep =
     (case find (\<lambda>m. n_id m = dep) lane_nodes of
        Some p \<Rightarrow> ret (auto_ready (Some p))
      | None \<Rightarrow> bind (load pid dep) (\<lambda>d. ret (auto_ready d)))"

definition auto_eligible :: "pystr \<Rightarrow> node list \<Rightarrow> node \<Rightarrow> bool reg" where
  "auto_eligible pid lane_nodes n =
     bind (reading (\<lambda>w. is_native_node w n)) (\<lambda>native.
     if \<not> native \<or> n_state n \<noteq> Virtual \<or> obsolete n \<or> lacks_prompt n then ret False
     else all_prog (is_dep_auto_ready pid lane_nodes) (n_scheduled_deps n))"

definition next_promotion_candidate :: "pystr \<Rightarrow> pystr \<Rightarrow> node option reg" where
  "next_promotion_candidate pid lane =
     bind (reading (\<lambda>w. get_project w pid)) (\<lambda>proj. case proj of
       None \<Rightarrow> ret None
     | Some _ \<Rightarrow>
         bind (listing pid []) (\<lambda>nodes.
         let lane_nodes = filter (\<lambda>n. lane_of n = lane) nodes in
         bind (filter_prog (auto_eligible pid lane_nodes) lane_nodes) (\<lambda>eligible.
         ret (case sort_key (\<lambda>n. (n_created_at n, n_id n)) eligible of [] \<Rightarrow> None | n # _ \<Rightarrow> Some n))))"

definition auto_lane_ids :: "world \<Rightarrow> project \<Rightarrow> pystr list" where
  "auto_lane_ids w p = filter (\<lambda>lane. \<not> read_planspace_archived (w_lanes w) (p_id p) lane \<and>
     read_planspace_mode (w_lanes w) (p_id p) lane = Auto) (list_project_planspace_ids (w_lanes w) (p_id p))"

text \<open>
  \<open>while True\<close> on one lane. Every round that continues has turned a virtual into a queued node, so
  the number of node directories bounds the rounds.
\<close>

fun promote_lane :: "nat \<Rightarrow> env \<Rightarrow> pystr \<Rightarrow> pystr \<Rightarrow> unit reg" where
  "promote_lane 0 env pid lane = ret ()"
| "promote_lane (Suc k) env pid lane =
     bind (next_promotion_candidate pid lane) (\<lambda>candidate. case candidate of
       None \<Rightarrow> ret ()
     | Some n \<Rightarrow> bind (promote_virtual env pid (n_id n)) (\<lambda>promoted.
         if promoted = None then ret () else promote_lane k env pid lane))"

definition promotion_rounds :: "world \<Rightarrow> nat" where
  "promotion_rounds w = Suc (length (st_dirs (w_store w)))"

definition auto_promote_eligible_virtuals :: "env \<Rightarrow> pystr \<Rightarrow> unit reg" where
  "auto_promote_eligible_virtuals env pid =
     bind (reading (\<lambda>w. (promotion_rounds w, map_option (auto_lane_ids w) (get_project w pid)))) (\<lambda>(k, lanes).
     case lanes of
       None \<Rightarrow> ret ()
     | Some ls \<Rightarrow> andthen (for_each ls (promote_lane k env pid)) (schedule_queued pid))"

section \<open>Back to virtual\<close>

definition dequeued_form :: "node \<Rightarrow> pystr list \<Rightarrow> json list \<Rightarrow> node" where
  "dequeued_form n principles skills = n\<lparr>n_state := Virtual, n_prompt := [], n_prompt_draft := Some (n_prompt n),
     n_pending_extra_principles := principles, n_pending_extra_skills := skills,
     n_resume_from_node_id :=
       (if n_resume_from_node_id n = None \<and> truthy (n_provider_session_id n) then n_parent_node_id n
        else n_resume_from_node_id n),
     n_provider_session_id := None, n_provider_turn_id := None,
     n_settings_snapshot := AList.delete ''extra_skills'' (AList.delete ''extra_principles'' (n_settings_snapshot n)),
     n_proposed_by := Some (if truthy (n_proposed_by n) then or_empty (n_proposed_by n) else ''user''),
     n_started_at := None, n_finished_at := None\<rparr>"

definition snapshot_or_empty :: "node \<Rightarrow> pystr \<Rightarrow> json" where
  "snapshot_or_empty n k = (case map_of (n_settings_snapshot n) k of None \<Rightarrow> JList [] | Some v \<Rightarrow> v)"

definition dequeue_checked :: "env \<Rightarrow> project \<Rightarrow> pystr \<Rightarrow> node \<Rightarrow> node option reg" where
  "dequeue_checked env p pid n =
     bind (reading (\<lambda>w. read_planspace_mode (w_lanes w) (p_id p) (lane_of n))) (\<lambda>mode.
     if mode = Auto then ret None
     else bind (result (e_expand_skills env (snapshot_or_empty n ''extra_skills''))) (\<lambda>skills.
       let virtual = dequeued_form n (normalize_principle_ids (snapshot_or_empty n ''extra_principles'')) skills in
       bind (write_virtual_preview pid virtual) (\<lambda>_.
       bind (save virtual) (\<lambda>m.
       bind (notify pid (WorkspaceNode m (Some (n_state n)) False)) (\<lambda>_.
       bind (set_runtime pid (\<lambda>rt. rt\<lparr>rt_priority := filter (\<lambda>i. i \<noteq> n_id m) (rt_priority rt)\<rparr>)) (\<lambda>_.
       bind (notify pid (NodeUpdated m)) (\<lambda>_.
       bind (load pid (n_id m)) (\<lambda>stored.
         ret (Some (case stored of None \<Rightarrow> m | Some s \<Rightarrow> s))))))))))"

definition dequeue_node :: "env \<Rightarrow> pystr \<Rightarrow> pystr \<Rightarrow> node option reg" where
  "dequeue_node env pid nid =
     bind (reading (\<lambda>w. runtime_of w pid)) (\<lambda>r. case r of
       None \<Rightarrow> ret None
     | Some rt \<Rightarrow>
         bind (require_unarchived env pid) (\<lambda>p.
         bind (load pid nid) (\<lambda>node. case node of
             None \<Rightarrow> ret None
           | Some n \<Rightarrow>
               bind (require_unarchived_lane p (n_planspace_id n)) (\<lambda>_.
               bind (require_native_node n) (\<lambda>_.
               if n_state n \<noteq> Queued \<or> n_kind n = Op \<or> n_id n \<in> set (keys (rt_tasks rt)) \<or> lane_of n = []
               then ret None
               else dequeue_checked env p pid n)))))"

end
