(* ===== verification/Virtual_Editing.thy ===== *)
theory Virtual_Editing
  imports Promotion
begin

text \<open>
  Creating, editing, deleting and rerunning virtual nodes, and starting a node directly. The keyword
  arguments of a method are a record; \<open>_UNSET\<close> is \<open>Unset\<close>, and enumeration arguments are their wire
  strings, which the source's string enumerations also are. Each method is cut at the points where the
  source changes subject; the parts run in the source's order.
\<close>

section \<open>Arguments\<close>

datatype 'a arg = Unset | Given 'a

record create_args =
  ca_prompt_draft :: pystr
  ca_category :: "pystr option"
  ca_subtype :: "pystr option"
  ca_brief :: "json option"
  ca_review_target :: "json option"
  ca_motivation :: "pystr option"
  ca_scheduled_deps :: "pystr list option"
  ca_extra_principles :: json
  ca_extra_skills :: json
  ca_qa_mode :: bool
  ca_diff_review :: bool
  ca_artifact_mode :: "pystr option"
  ca_artifact_spec :: "pystr option"
  ca_agent_op_kind :: "pystr option"
  ca_provider :: "pystr option"
  ca_model_preset_id :: "pystr option"
  ca_planspace_id :: "pystr option"
  ca_node_id :: "pystr option"
  ca_parent_node_id :: "pystr option"
  ca_resume_from :: "pystr option"
  ca_allow_compatibility :: bool
  ca_allow_nonterminal_resume :: bool
  ca_proposed_by :: pystr
  ca_template_instance_id :: "pystr option"
  ca_defer_auto_promotion :: bool
  ca_created_at :: "int option"

record update_args =
  ua_expected_mode :: "pystr option arg"
  ua_prompt_draft :: "pystr option arg"
  ua_category :: "pystr option arg"
  ua_subtype :: "pystr option arg"
  ua_brief :: "json option arg"
  ua_review_target :: "json option arg"
  ua_motivation :: "pystr option arg"
  ua_scheduled_deps :: "pystr list option arg"
  ua_extra_principles :: "json arg"
  ua_extra_skills :: "json arg"
  ua_qa_mode :: "bool option arg"
  ua_diff_review :: "bool option arg"
  ua_artifact_mode :: "pystr option arg"
  ua_artifact_spec :: "pystr option arg"
  ua_agent_op_kind :: "pystr option arg"
  ua_provider :: "pystr option arg"
  ua_model_preset_id :: "pystr option arg"
  ua_obsolete_reason :: "pystr option arg"

section \<open>Validation shared by the methods\<close>

text \<open>\<open>ReviewBrief.model_validate\<close> ignores unknown keys; \<open>ReviewTarget\<close> forbids them.\<close>

definition brief_of :: "json \<Rightarrow> exn + review_brief" where
  "brief_of j = (case j of
     JObj obj \<Rightarrow> (case (map_of obj ''check_what'', map_of obj ''expected'', map_of obj ''abnormal'') of
        (Some (JStr a), Some (JStr b), Some (JStr c)) \<Rightarrow> Inr \<lparr>check_what = a, expected = b, abnormal = c\<rparr>
      | _ \<Rightarrow> Inl (ValueError ''invalid review brief''))
   | _ \<Rightarrow> Inl (ValueError ''invalid review brief''))"

definition target_of :: "json \<Rightarrow> exn + review_target" where
  "target_of j = (case dec_target [] j of
     Inl _ \<Rightarrow> Inl (ValueError ''invalid review_target'') | Inr t \<Rightarrow> Inr t)"

definition optional :: "('a \<Rightarrow> exn + 'b) \<Rightarrow> 'a option \<Rightarrow> exn + 'b option" where
  "optional f x = (case x of None \<Rightarrow> Inr None
     | Some v \<Rightarrow> (case f v of Inl e \<Rightarrow> Inl e | Inr y \<Rightarrow> Inr (Some y)))"

definition enum_arg :: "(pystr \<Rightarrow> 'a option) \<Rightarrow> pystr \<Rightarrow> pystr \<Rightarrow> exn + 'a" where
  "enum_arg member msg s = (case member s of None \<Rightarrow> Inl (ValueError msg) | Some v \<Rightarrow> Inr v)"

definition preset_arg :: "pystr option \<Rightarrow> pystr reg" where
  "preset_arg raw = reading_result (\<lambda>w. case normalize_model_preset_id (st_config (w_store w)) raw of
     Inl e \<Rightarrow> Inl (PresetRejected e) | Inr p \<Rightarrow> Inr p)"

definition active_preset_arg :: "pystr \<Rightarrow> pystr reg" where
  "active_preset_arg p = reading_result (\<lambda>w. case normalize_active_model_preset_id (st_config (w_store w)) (Some p) of
     Inl e \<Rightarrow> Inl (PresetRejected e) | Inr q \<Rightarrow> Inr q)"

definition validated :: "node \<Rightarrow> node reg" where
  "validated n = result (case check_invariants n of Inl e \<Rightarrow> Inl (NodeRejected e) | Inr m \<Rightarrow> Inr m)"

text \<open>The tail of a create or edit: on an auto lane the sweep runs and the stored record is returned.\<close>

definition sweep_if_auto :: "env \<Rightarrow> project \<Rightarrow> pystr \<Rightarrow> bool \<Rightarrow> node \<Rightarrow> node option reg" where
  "sweep_if_auto env p pid enabled n =
     bind (reading (\<lambda>w. read_planspace_mode (w_lanes w) (p_id p) (lane_of n))) (\<lambda>mode.
     if enabled \<and> lane_of n \<noteq> [] \<and> mode = Auto
     then bind (auto_promote_eligible_virtuals env pid) (\<lambda>_.
       bind (load pid (n_id n)) (\<lambda>stored. ret (Some (case stored of None \<Rightarrow> n | Some s \<Rightarrow> s))))
     else ret (Some n))"

definition reject_cycle :: "pystr \<Rightarrow> node \<Rightarrow> unit reg" where
  "reject_cycle pid n = bind (lane_nodes_with pid (lane_of n) n) (\<lambda>g.
     reject_if (has_cycle g) (ValueError ''scheduled_deps would introduce a cycle in the lane DAG''))"

section \<open>create\_virtual\<close>

definition create_guards :: "env \<Rightarrow> project \<Rightarrow> pystr \<Rightarrow> create_args \<Rightarrow> unit reg" where
  "create_guards env p pid a =
     bind (reject_if (ca_diff_review a \<and> p_persistence_mode p \<noteq> Durable)
       (ValueError ''diff_review is only available for local durable projects'')) (\<lambda>_.
     bind (reject_if (ca_diff_review a \<and> \<not> e_is_git_repo env (p_root_path p))
       (ValueError ''diff_review requires a Git repository'')) (\<lambda>_.
     bind (reject_if (ca_provider a \<noteq> None) (ValueError ''provider is no longer accepted'')) (\<lambda>_.
     if ca_subtype a = Some ''code_review''
     then andthen (require_git_project env pid) (ret ()) else ret ())))"

definition create_preset :: "project \<Rightarrow> node option \<Rightarrow> create_args \<Rightarrow> pystr option reg" where
  "create_preset p source a = (case source of
     Some src \<Rightarrow>
       (case ca_model_preset_id a of
          None \<Rightarrow> ret (n_model_preset_id src)
        | Some mp \<Rightarrow> bind (preset_arg (Some mp)) (\<lambda>q.
            andthen (reject_if (Some q \<noteq> n_model_preset_id src)
              (ValueError ''resume virtuals inherit model_preset_id from their source node''))
              (ret (n_model_preset_id src))))
   | None \<Rightarrow>
       (case ca_model_preset_id a of
          None \<Rightarrow> ret (Some (p_model_preset_id p))
        | Some mp \<Rightarrow> bind (preset_arg (Some mp)) (\<lambda>q.
            if ca_allow_compatibility a then ret (Some q)
            else bind (active_preset_arg q) (\<lambda>q'. ret (Some q')))))"

definition create_category :: "create_args \<Rightarrow> exn + category" where
  "create_category a = enum_arg category_of ''unknown category''
     (if truthy (ca_category a) then or_empty (ca_category a) else ''regular'')"

definition subtype_arg :: "pystr option \<Rightarrow> exn + review_subtype option" where
  "subtype_arg s = (if truthy s
     then (case enum_arg subtype_of ''unknown review subtype'' (or_empty s) of Inl e \<Rightarrow> Inl e | Inr t \<Rightarrow> Inr (Some t))
     else Inr None)"

type_synonym review_fields =
  "category \<times> review_subtype option \<times> review_brief option \<times> review_target option"

definition create_review_fields :: "create_args \<Rightarrow> exn + review_fields" where
  "create_review_fields a =
     (case create_category a of Inl e \<Rightarrow> Inl e | Inr c \<Rightarrow>
      case subtype_arg (ca_subtype a) of Inl e \<Rightarrow> Inl e | Inr t \<Rightarrow>
      case optional brief_of (ca_brief a) of Inl e \<Rightarrow> Inl e | Inr b \<Rightarrow>
      case optional target_of (ca_review_target a) of Inl e \<Rightarrow> Inl e | Inr r \<Rightarrow>
      if c \<noteq> Review
      then if r \<noteq> None then Inl (ValueError ''review_target is only valid on code_review virtuals'')
        else Inr (c, None, None, None)
      else if t = None then Inl (ValueError ''review virtuals require a subtype'')
      else if t \<noteq> Some CodeReview \<and> b = None then Inl (ValueError ''review virtuals require a brief'')
      else if t = Some CodeReview then Inr (c, t, b, Some (case r of None \<Rightarrow> Uncommitted | Some x \<Rightarrow> x))
      else if r \<noteq> None then Inl (ValueError ''review_target is only valid on code_review virtuals'')
      else Inr (c, t, b, None))"

definition op_kind_arg :: "pystr option \<Rightarrow> category \<Rightarrow> exn + unit" where
  "op_kind_arg k c =
     (if k \<noteq> None \<and> \<not> op_kind_in k known_agent_op_kinds then Inl (ValueError ''unknown agent_op_kind'')
      else if op_kind_in k authoring_agent_op_kinds \<and> c \<noteq> Regular then Inl (ValueError ''requires category=regular'')
      else Inr ())"

definition spec_for :: "artifact_mode \<Rightarrow> pystr \<Rightarrow> pystr" where
  "spec_for mode spec = (if mode = CustomArtifact then strip spec else [])"

definition create_artifact :: "create_args \<Rightarrow> exn + artifact_mode \<times> pystr" where
  "create_artifact a =
     (case (case ca_artifact_mode a of None \<Rightarrow> Inr DefaultArtifact
            | Some s \<Rightarrow> enum_arg artifact_mode_of ''unknown artifact_mode'' s) of
        Inl e \<Rightarrow> Inl e
      | Inr m \<Rightarrow> Inr (m, spec_for m (or_empty (ca_artifact_spec a))))"

definition draft_node :: "pystr \<Rightarrow> create_args \<Rightarrow> pystr \<Rightarrow> pystr option \<Rightarrow> pystr option \<Rightarrow> pystr option \<Rightarrow>
    review_fields \<Rightarrow> artifact_mode \<times> pystr \<Rightarrow> json list \<Rightarrow> pystr \<Rightarrow> int \<Rightarrow> node" where
  "draft_node pid a lane parent resume preset f art skills nid at = (case (f, art) of ((c, t, b, r), mode, spec) \<Rightarrow>
     (default_node pid nid at)\<lparr>
       n_agent_op_kind := ca_agent_op_kind a, n_category := Some c, n_subtype := t, n_brief := b,
       n_review_target := r, n_state := Virtual, n_parent_node_id := parent, n_planspace_id := Some lane,
       n_model_preset_id := preset, n_prompt_draft := Some (ca_prompt_draft a),
       n_pending_extra_principles := normalize_principle_ids (ca_extra_principles a),
       n_pending_extra_skills := skills, n_qa_mode := ca_qa_mode a, n_diff_review := ca_diff_review a,
       n_artifact_mode := mode, n_artifact_spec := spec, n_resume_from_node_id := resume,
       n_proposed_by := Some (ca_proposed_by a), n_template_instance_id := ca_template_instance_id a,
       n_summary := Some (or_empty (ca_motivation a))\<rparr>)"

definition create_fields :: "env \<Rightarrow> pystr \<Rightarrow> create_args \<Rightarrow> pystr \<Rightarrow> pystr option \<Rightarrow> pystr option \<Rightarrow>
    pystr option \<Rightarrow> node reg" where
  "create_fields env pid a lane parent resume preset =
     bind (result (create_review_fields a)) (\<lambda>f.
     bind (result (op_kind_arg (ca_agent_op_kind a) (fst f))) (\<lambda>_.
     bind (result (create_artifact a)) (\<lambda>art.
     bind (result (e_expand_skills env (ca_extra_skills a))) (\<lambda>skills.
     bind (case ca_node_id a of Some i \<Rightarrow> ret i | None \<Rightarrow> fresh_id env) (\<lambda>nid.
     bind (reading (\<lambda>w. case ca_created_at a of Some at \<Rightarrow> at | None \<Rightarrow> w_now w)) (\<lambda>at.
     validated (draft_node pid a lane parent resume preset f art skills nid at)))))))"

text \<open>The lane, parent, resume source and preset of the new node, then the fields of its kind of work.\<close>

definition create_draft :: "env \<Rightarrow> project \<Rightarrow> pystr \<Rightarrow> create_args \<Rightarrow> node reg" where
  "create_draft env p pid a =
     bind (create_guards env p pid a) (\<lambda>_.
     bind (resolve_virtual_create_lane p (ca_planspace_id a)) (\<lambda>lane.
     bind (normalize_virtual_parent pid lane (ca_parent_node_id a)) (\<lambda>parent.
     bind (normalize_virtual_resume_source pid lane (ca_resume_from a) (ca_allow_nonterminal_resume a)) (\<lambda>resume.
     bind (case resume of None \<Rightarrow> ret None | Some r \<Rightarrow> load pid r) (\<lambda>source.
     bind (create_preset p source a) (\<lambda>preset.
     create_fields env pid a lane parent resume preset))))))"

definition create_checked :: "pystr \<Rightarrow> create_args \<Rightarrow> node \<Rightarrow> node reg" where
  "create_checked pid a n =
     bind (load pid (n_id n)) (\<lambda>existing.
     bind (reject_if (existing \<noteq> None) (ValueError ''node id already exists'')) (\<lambda>_.
     bind (normalize_virtual_scheduled_deps pid (n_id n) (lane_of n) (ca_scheduled_deps a)) (\<lambda>deps.
     bind (validated (n\<lparr>n_scheduled_deps := deps\<rparr>)) (\<lambda>m.
     andthen (reject_cycle pid m) (ret m)))))"

definition create_virtual :: "env \<Rightarrow> pystr \<Rightarrow> create_args \<Rightarrow> node option reg" where
  "create_virtual env pid a =
     bind (reading (\<lambda>w. runtime_of w pid)) (\<lambda>rt. case rt of
       None \<Rightarrow> ret None
     | Some _ \<Rightarrow>
         bind (require_unarchived env pid) (\<lambda>p.
         bind (create_draft env p pid a) (\<lambda>draft.
         bind (create_checked pid a draft) (\<lambda>n.
         bind (insert_node n) (\<lambda>m.
         bind (try_virtual_preview pid m) (\<lambda>_.
         bind (notify pid (NodeUpdated m)) (\<lambda>_.
         sweep_if_auto env p pid (\<not> ca_defer_auto_promotion a) m)))))))"

section \<open>update\_virtual\<close>

definition check_expected_mode :: "project \<Rightarrow> node \<Rightarrow> update_args \<Rightarrow> unit reg" where
  "check_expected_mode p n a = (case ua_expected_mode a of
     Unset \<Rightarrow> ret ()
   | Given None \<Rightarrow> raise (ValueError ''expected_planspace_mode is required'')
   | Given (Some s) \<Rightarrow> (case normalize_planspace_mode (Some s) of
       None \<Rightarrow> raise (ValueError ''unknown planspace mode'')
     | Some wanted \<Rightarrow>
         bind (reading (\<lambda>w. read_planspace_mode (w_lanes w) (p_id p) (lane_of n))) (\<lambda>current.
           reject_if (current \<noteq> wanted) ModePrecondition)))"

definition with_texts :: "update_args \<Rightarrow> node \<Rightarrow> node" where
  "with_texts a n =
     (let n1 = (case ua_prompt_draft a of Unset \<Rightarrow> n | Given s \<Rightarrow> n\<lparr>n_prompt_draft := Some (or_empty s)\<rparr>);
          n2 = (case ua_motivation a of Unset \<Rightarrow> n1 | Given s \<Rightarrow> n1\<lparr>n_summary := Some (or_empty s)\<rparr>)
      in case ua_obsolete_reason a of Unset \<Rightarrow> n2
       | Given s \<Rightarrow> n2\<lparr>n_obsolete_reason := (if blank (or_empty s) then None else Some (strip (or_empty s)))\<rparr>)"

definition update_category :: "update_args \<Rightarrow> node \<Rightarrow> exn + category" where
  "update_category a n = (case ua_category a of
     Unset \<Rightarrow> Inr (case n_category n of None \<Rightarrow> Regular | Some c \<Rightarrow> c)
   | Given None \<Rightarrow> Inl (ValueError ''category is required'')
   | Given (Some s) \<Rightarrow> enum_arg category_of ''unknown category'' s)"

definition update_field :: "('a \<Rightarrow> exn + 'b) \<Rightarrow> 'b \<Rightarrow> 'a arg \<Rightarrow> exn + 'b" where
  "update_field f old a = (case a of Unset \<Rightarrow> Inr old | Given v \<Rightarrow> f v)"

definition update_review_fields :: "update_args \<Rightarrow> node \<Rightarrow> exn + review_fields" where
  "update_review_fields a n =
     (case update_category a n of Inl e \<Rightarrow> Inl e | Inr c \<Rightarrow>
      case update_field subtype_arg (n_subtype n) (ua_subtype a) of Inl e \<Rightarrow> Inl e | Inr t \<Rightarrow>
      case update_field (optional brief_of) (n_brief n) (ua_brief a) of Inl e \<Rightarrow> Inl e | Inr b \<Rightarrow>
      case update_field (optional target_of) (n_review_target n) (ua_review_target a) of Inl e \<Rightarrow> Inl e | Inr r \<Rightarrow>
      if c \<noteq> Review
      then if ua_review_target a \<noteq> Unset \<and> r \<noteq> None
        then Inl (ValueError ''review_target is only valid on code_review virtuals'')
        else Inr (c, None, None, None)
      else if t = None then Inl (ValueError ''review virtuals require a subtype'')
      else if t \<noteq> Some CodeReview \<and> b = None then Inl (ValueError ''review virtuals require a brief'')
      else Inr (c, t, b, r))"

definition update_target :: "env \<Rightarrow> pystr \<Rightarrow> update_args \<Rightarrow> review_fields \<Rightarrow> review_target option reg" where
  "update_target env pid a f = (case f of (c, t, b, r) \<Rightarrow>
     if c \<noteq> Review then ret None
     else if t = Some CodeReview
     then andthen (require_git_project env pid) (ret (Some (case r of None \<Rightarrow> Uncommitted | Some x \<Rightarrow> x)))
     else andthen (reject_if (r \<noteq> None \<and> ua_review_target a \<noteq> Unset)
       (ValueError ''review_target is only valid on code_review virtuals'')) (ret None))"

definition with_review :: "update_args \<Rightarrow> review_fields \<Rightarrow> review_target option \<Rightarrow> node \<Rightarrow> node" where
  "with_review a f r n = (case f of (c, t, b, _) \<Rightarrow>
     n\<lparr>n_category := (if ua_category a = Unset then n_category n else Some c),
       n_subtype := t, n_brief := b, n_review_target := r,
       n_diff_review := (if c = Review \<and> ua_diff_review a = Unset then False else n_diff_review n)\<rparr>)"

definition update_op_kind :: "update_args \<Rightarrow> node \<Rightarrow> category \<Rightarrow> exn + pystr option" where
  "update_op_kind a n c =
     (let k = (case ua_agent_op_kind a of Unset \<Rightarrow> n_agent_op_kind n
               | Given s \<Rightarrow> if truthy s then s else None)
      in if ua_agent_op_kind a \<noteq> Unset \<and> k \<noteq> None \<and> \<not> op_kind_in k known_agent_op_kinds
         then Inl (ValueError ''unknown agent_op_kind'')
         else if op_kind_in k authoring_agent_op_kinds \<and> c \<noteq> Regular
         then Inl (ValueError ''requires category=regular'') else Inr k)"

definition missing_prompt :: "update_args \<Rightarrow> review_subtype option \<Rightarrow> node \<Rightarrow> bool" where
  "missing_prompt a t n =
     ((ua_prompt_draft a \<noteq> Unset \<or> ua_category a \<noteq> Unset \<or> ua_subtype a \<noteq> Unset) \<and>
      virtual_requires_prompt t \<and> blank (or_empty (n_prompt_draft n)))"

definition update_artifact :: "update_args \<Rightarrow> node \<Rightarrow> exn + artifact_mode \<times> pystr" where
  "update_artifact a n =
     (if ua_artifact_mode a = Unset \<and> ua_artifact_spec a = Unset then Inr (n_artifact_mode n, n_artifact_spec n)
      else case (case ua_artifact_mode a of Unset \<Rightarrow> Inr (n_artifact_mode n)
             | Given s \<Rightarrow> enum_arg artifact_mode_of ''unknown artifact_mode''
                 (if truthy s then or_empty s else ''default'')) of
        Inl e \<Rightarrow> Inl e
      | Inr m \<Rightarrow> Inr (m, spec_for m (case ua_artifact_spec a of Unset \<Rightarrow> n_artifact_spec n | Given s \<Rightarrow> or_empty s)))"

definition given_bool :: "bool option arg \<Rightarrow> bool \<Rightarrow> bool" where
  "given_bool v old = (case v of Unset \<Rightarrow> old | Given b \<Rightarrow> b = Some True)"

definition update_preset :: "pystr \<Rightarrow> update_args \<Rightarrow> node \<Rightarrow> pystr option reg" where
  "update_preset pid a n = (case ua_model_preset_id a of
     Unset \<Rightarrow> ret (n_model_preset_id n)
   | Given None \<Rightarrow> raise (ValueError ''model_preset_id is required'')
   | Given (Some s) \<Rightarrow>
       bind (preset_arg (Some s)) (\<lambda>q.
       bind (if truthy (n_resume_from_node_id n)
         then bind (load pid (or_empty (n_resume_from_node_id n))) (\<lambda>source.
           reject_if (Some q \<noteq> (case source of None \<Rightarrow> n_model_preset_id n | Some src \<Rightarrow> n_model_preset_id src))
             (ValueError ''resume virtuals inherit model_preset_id from their source node''))
         else ret ()) (\<lambda>_.
       if Some q \<noteq> n_model_preset_id n then bind (active_preset_arg q) (\<lambda>q'. ret (Some q')) else ret (Some q))))"

definition update_draft :: "env \<Rightarrow> project \<Rightarrow> pystr \<Rightarrow> update_args \<Rightarrow> node \<Rightarrow> node reg" where
  "update_draft env p pid a n =
     bind (result (update_review_fields a n)) (\<lambda>f.
     bind (update_target env pid a f) (\<lambda>r.
     bind (result (update_op_kind a n (fst f))) (\<lambda>k.
     let u = with_review a f r (with_texts a n) in
     bind (reject_if (missing_prompt a (fst (snd f)) u) (ValueError ''prompt_draft must be non-empty'')) (\<lambda>_.
     bind (case ua_scheduled_deps a of Unset \<Rightarrow> ret (n_scheduled_deps n)
       | Given ds \<Rightarrow> normalize_virtual_scheduled_deps pid (n_id n) (lane_of n) ds) (\<lambda>deps.
     bind (case ua_extra_skills a of Unset \<Rightarrow> ret (n_pending_extra_skills n)
       | Given j \<Rightarrow> result (e_expand_skills env j)) (\<lambda>skills.
     bind (reject_if (given_bool (ua_diff_review a) False \<and> p_persistence_mode p \<noteq> Durable)
       (ValueError ''diff_review is only available for local durable projects'')) (\<lambda>_.
     bind (reject_if (given_bool (ua_diff_review a) False \<and> \<not> e_is_git_repo env (p_root_path p))
       (ValueError ''diff_review requires a Git repository'')) (\<lambda>_.
     bind (result (update_artifact a n)) (\<lambda>(mode, spec).
     bind (reject_if (ua_provider a \<noteq> Unset) (ValueError ''provider is no longer accepted'')) (\<lambda>_.
     bind (update_preset pid a n) (\<lambda>preset.
     validated (u\<lparr>n_agent_op_kind := k, n_scheduled_deps := deps,
       n_pending_extra_principles := (case ua_extra_principles a of Unset \<Rightarrow> n_pending_extra_principles n
         | Given j \<Rightarrow> normalize_principle_ids j),
       n_pending_extra_skills := skills, n_qa_mode := given_bool (ua_qa_mode a) (n_qa_mode n),
       n_diff_review := given_bool (ua_diff_review a) (n_diff_review u),
       n_artifact_mode := mode, n_artifact_spec := spec, n_model_preset_id := preset\<rparr>))))))))))))"

definition update_checked :: "env \<Rightarrow> project \<Rightarrow> pystr \<Rightarrow> update_args \<Rightarrow> node \<Rightarrow> node option reg" where
  "update_checked env p pid a n =
     bind (check_expected_mode p n a) (\<lambda>_.
     bind (update_draft env p pid a n) (\<lambda>u.
     bind (reject_cycle pid u) (\<lambda>_.
     bind (save u) (\<lambda>m.
     bind (try_virtual_preview pid m) (\<lambda>_.
     bind (notify pid (NodeUpdated m)) (\<lambda>_.
     sweep_if_auto env p pid True m))))))"

definition update_virtual :: "env \<Rightarrow> pystr \<Rightarrow> pystr \<Rightarrow> update_args \<Rightarrow> node option reg" where
  "update_virtual env pid vid a =
     bind (reading (\<lambda>w. runtime_of w pid)) (\<lambda>rt. case rt of
       None \<Rightarrow> ret None
     | Some _ \<Rightarrow>
         bind (require_unarchived env pid) (\<lambda>p.
         bind (load pid vid) (\<lambda>existing. case existing of
             None \<Rightarrow> ret None
           | Some n \<Rightarrow>
               bind (require_unarchived_lane p (n_planspace_id n)) (\<lambda>_.
               bind (require_native_node n) (\<lambda>_.
               if n_kind n \<noteq> Agent \<or> n_state n \<noteq> Virtual then ret None
               else update_checked env p pid a n)))))"

section \<open>delete\_virtual and rerun\_node\<close>

definition depends_on :: "pystr \<Rightarrow> node \<Rightarrow> bool" where
  "depends_on vid n = (n_id n \<noteq> vid \<and> vid \<in> set (n_scheduled_deps n))"

definition drop_dep :: "pystr \<Rightarrow> pystr \<Rightarrow> node \<Rightarrow> unit reg" where
  "drop_dep pid vid other =
     bind (reading (\<lambda>w. is_native_node w other)) (\<lambda>native.
     if \<not> depends_on vid other \<or> \<not> native then ret ()
     else bind (save (other\<lparr>n_scheduled_deps := filter (\<lambda>d. d \<noteq> vid) (n_scheduled_deps other)\<rparr>)) (\<lambda>m.
       try_virtual_preview pid m))"

definition delete_checked :: "pystr \<Rightarrow> node \<Rightarrow> (bool \<times> pystr list) reg" where
  "delete_checked pid n =
     bind (reject_if (n_state n \<noteq> Virtual) (ValueError ''only virtual nodes can be deleted'')) (\<lambda>_.
     bind (listing pid []) (\<lambda>nodes.
     let blockers = map n_id (filter (\<lambda>m. depends_on (n_id n) m \<and> \<not> obsolete m) nodes) in
     if blockers \<noteq> [] then ret (False, blockers)
     else bind (for_each nodes (drop_dep pid (n_id n))) (\<lambda>_.
       bind (remove_node pid (n_id n)) (\<lambda>removed.
       if \<not> removed then ret (False, [])
       else bind (notify pid (WorkspaceRemoved n)) (\<lambda>_.
         bind (notify pid (NodeRemoved (n_id n))) (\<lambda>_. ret (True, [])))))))"

definition delete_virtual :: "env \<Rightarrow> pystr \<Rightarrow> pystr \<Rightarrow> (bool \<times> pystr list) reg" where
  "delete_virtual env pid vid =
     bind (reading (\<lambda>w. runtime_of w pid)) (\<lambda>rt. case rt of
       None \<Rightarrow> ret (False, [])
     | Some _ \<Rightarrow>
         bind (require_unarchived env pid) (\<lambda>p.
         bind (load pid vid) (\<lambda>node. case node of
             None \<Rightarrow> ret (False, [])
           | Some n \<Rightarrow>
               bind (require_unarchived_lane p (n_planspace_id n)) (\<lambda>_.
               bind (require_native_node n) (\<lambda>_. delete_checked pid n)))))"

definition brief_object :: "review_brief \<Rightarrow> json" where
  "brief_object b = JObj [(''check_what'', JStr (check_what b)), (''expected'', JStr (expected b)),
     (''abnormal'', JStr (abnormal b))]"

definition rerun_args :: "node \<Rightarrow> pystr \<Rightarrow> json list \<Rightarrow> create_args" where
  "rerun_args n prompt skills = \<lparr>
     ca_prompt_draft = prompt,
     ca_category = Some (category_value (case n_category n of None \<Rightarrow> Regular | Some c \<Rightarrow> c)),
     ca_subtype = map_option subtype_value (n_subtype n), ca_brief = map_option brief_object (n_brief n),
     ca_review_target = map_option (\<lambda>_. JObj [(''type'', JStr ''uncommitted'')]) (n_review_target n),
     ca_motivation = Some (''rerun of '' @ take 8 (n_id n)), ca_scheduled_deps = Some (n_scheduled_deps n),
     ca_extra_principles = JList (map JStr (normalize_principle_ids (snapshot_value n ''extra_principles''))),
     ca_extra_skills = JList skills, ca_qa_mode = n_qa_mode n, ca_diff_review = n_diff_review n,
     ca_artifact_mode = Some (artifact_mode_value (n_artifact_mode n)), ca_artifact_spec = Some (n_artifact_spec n),
     ca_agent_op_kind = n_agent_op_kind n, ca_provider = None, ca_model_preset_id = n_model_preset_id n,
     ca_planspace_id = n_planspace_id n, ca_node_id = None, ca_parent_node_id = n_parent_node_id n,
     ca_resume_from = n_resume_from_node_id n, ca_allow_compatibility = True,
     ca_allow_nonterminal_resume = False, ca_proposed_by = ''rerun:'' @ n_id n, ca_template_instance_id = None,
     ca_defer_auto_promotion = False, ca_created_at = None\<rparr>"

definition rerun_prompt :: "node \<Rightarrow> pystr" where
  "rerun_prompt n = strip (if n_prompt n \<noteq> [] then n_prompt n else or_empty (n_prompt_draft n))"

definition rerun_node :: "env \<Rightarrow> pystr \<Rightarrow> pystr \<Rightarrow> node option reg" where
  "rerun_node env pid nid =
     bind (reading (\<lambda>w. runtime_of w pid)) (\<lambda>rt. case rt of
       None \<Rightarrow> ret None
     | Some _ \<Rightarrow>
         bind (require_unarchived env pid) (\<lambda>p.
         bind (load pid nid) (\<lambda>original. case original of
             None \<Rightarrow> ret None
           | Some n \<Rightarrow>
               bind (require_unarchived_lane p (n_planspace_id n)) (\<lambda>_.
               bind (reject_if (n_kind n \<noteq> Agent) (ValueError ''only agent nodes support rerun'')) (\<lambda>_.
               bind (reject_if (n_state n \<notin> {Error, Cancelled})
                 (ValueError ''only error/cancelled nodes support rerun'')) (\<lambda>_.
               bind (reject_if (virtual_requires_prompt (n_subtype n) \<and> rerun_prompt n = [])
                 (ValueError ''original node has no prompt to rerun'')) (\<lambda>_.
               bind (result (e_expand_skills env (snapshot_value n ''extra_skills''))) (\<lambda>skills.
               bind (create_virtual env pid (rerun_args n (rerun_prompt n) skills)) (\<lambda>virtual. case virtual of
                   None \<Rightarrow> ret None
                 | Some v \<Rightarrow> bind (load pid (n_id v)) (\<lambda>stored.
                     ret (Some (case stored of None \<Rightarrow> v | Some s \<Rightarrow> s)))))))))))) "

end
