(* ===== verification/Lane_Safety.thy ===== *)
theory Lane_Safety
  imports Promotion Scheduler
begin

text \<open>
  What the operations on virtual nodes keep. \<open>steady w t\<close>: from \<open>w\<close> to \<open>t\<close> no node record, no lane and
  no identity of the host changed, only caches, runtimes, events and counters.
\<close>

section \<open>Steps that touch no node\<close>

lemma keeps_cases [keeps_intros]:
  "(\<And>a b. x = (a, b) \<Longrightarrow> keeps I (f a b)) \<Longrightarrow> keeps I (case x of (a, b) \<Rightarrow> f a b)"
  "(\<And>a. y = Inl a \<Longrightarrow> keeps I (g a)) \<Longrightarrow> (\<And>b. y = Inr b \<Longrightarrow> keeps I (h b)) \<Longrightarrow>
     keeps I (case y of Inl a \<Rightarrow> g a | Inr b \<Rightarrow> h b)"
  by (cases x, simp, cases y, simp_all)

definition host_same :: "world \<Rightarrow> world \<Rightarrow> bool" where
  "host_same w t \<longleftrightarrow> world_ok t \<and> w_lanes t = w_lanes w \<and> machine t = machine w \<and>
     may_write t = may_write w \<and> known t = known w"

definition steady :: "world \<Rightarrow> world \<Rightarrow> bool" where
  "steady w t \<longleftrightarrow> host_same w t \<and> tab t = tab w"

lemma steady_refl: "world_ok w \<Longrightarrow> steady w w"
  by (simp add: steady_def host_same_def)

lemma steady_trans: "steady w t \<Longrightarrow> steady t u \<Longrightarrow> steady w u"
  by (simp add: steady_def host_same_def)

lemma host_same_trans: "host_same w t \<Longrightarrow> host_same t u \<Longrightarrow> host_same w u"
  by (simp add: host_same_def)

lemma steadyD:
  "steady w t \<Longrightarrow> world_ok t" "steady w t \<Longrightarrow> tab t = tab w" "steady w t \<Longrightarrow> machine t = machine w"
  "steady w t \<Longrightarrow> w_lanes t = w_lanes w" "steady w t \<Longrightarrow> known t = known w"
  "steady w t \<Longrightarrow> may_write t = may_write w" "steady w t \<Longrightarrow> host_same w t"
  by (simp_all add: steady_def host_same_def)

lemma frame_host_same: "world_ok t \<Longrightarrow> frame t = frame w \<Longrightarrow> host_same w t"
  using nodes.frame_host [of t w] frame_eqD(3) [of t w] by (simp add: host_same_def)

lemma steady_frame: "steady w t \<Longrightarrow> world_ok u \<Longrightarrow> frame u = frame t \<Longrightarrow> tab u = tab t \<Longrightarrow> steady w u"
  using frame_host_same [of u t] by (auto simp: steady_def intro: host_same_trans)

lemma steady_calm: "steady w t \<Longrightarrow> world_ok u \<Longrightarrow> calm u = calm t \<Longrightarrow> steady w u"
  using calm_facts(1-4) [of u t] calm_eqD(2) [of u t] by (simp add: steady_def host_same_def)

text \<open>Fields outside the store and the lanes.\<close>

lemma steady_fields [simp]:
  "steady w (t\<lparr>w_runtimes := r\<rparr>) = steady w t" "steady w (t\<lparr>w_events := e\<rparr>) = steady w t"
  "steady w (t\<lparr>w_ids := k\<rparr>) = steady w t"
  by (simp_all add: steady_def host_same_def world_ok_def tab_def machine_def may_write_def known_def)

lemma host_same_fields [simp]:
  "host_same w (t\<lparr>w_runtimes := r\<rparr>) = host_same w t" "host_same w (t\<lparr>w_events := e\<rparr>) = host_same w t"
  "host_same w (t\<lparr>w_ids := k\<rparr>) = host_same w t"
  by (simp_all add: host_same_def world_ok_def machine_def may_write_def known_def)

lemma store_ok_local [simp]: "store_ok (s\<lparr>st_local := l\<rparr>) = store_ok s"
  "view (s\<lparr>st_local := l\<rparr>) = view s" "writable (s\<lparr>st_local := l\<rparr>) = writable s"
  "preset_known (s\<lparr>st_local := l\<rparr>) = preset_known s"
proof -
  let ?t = "s\<lparr>st_local := l\<rparr>"
  have c: "st_config ?t = st_config s" "st_dirs ?t = st_dirs s" by simp_all
  have r: "record_at ?t = record_at s" by (simp add: record_at_def dir_at_def fun_eq_iff)
  show "store_ok ?t = store_ok s"
    by (simp add: store_ok_def r config_cong [OF c(1)] lookup2_def)
  show "view ?t = view s" by (simp add: view_def files_of_def fun_eq_iff)
  show "writable ?t = writable s" by (simp add: writable_def)
  show "preset_known ?t = preset_known s" using config_cong(2) [OF c(1)] .
qed

lemma steady_local [simp]:
  "steady w (t\<lparr>w_store := (w_store t)\<lparr>st_local := l\<rparr>\<rparr>) = steady w t"
  by (simp add: steady_def host_same_def world_ok_def tab_def machine_def may_write_def known_def)

subsection \<open>Programs that keep \<open>steady\<close>\<close>

lemma wp_keeps:
  assumes "keeps (steady w) m" and "steady w t" and "\<And>x u. steady w u \<Longrightarrow> Q x u"
    and "\<And>e u. steady w u \<Longrightarrow> E e u"
  shows "wp m Q E t"
  using keepsD [OF assms(1,2)] assms(3,4) by (auto simp: wp_def split: prod.splits sum.splits)

lemma keeps_of_wp:
  assumes "\<And>t. steady w t \<Longrightarrow> wp m (\<lambda>_. steady w) (\<lambda>_. steady w) t"
  shows "keeps (steady w) m"
  using assms by (auto simp: keeps_def intro: wp_fst)

lemma wp_load_steady:
  assumes "steady w t" and "\<And>u. steady w u \<Longrightarrow> Q (tab w p i) u"
  shows "wp (load p i) Q E t"
proof (rule nodes.wp_load [OF steadyD(1) [OF assms(1)]])
  fix u assume "world_ok u" "tab u = tab t" "frame u = frame t"
  with steady_frame [OF assms(1)] steadyD(2) [OF assms(1)] show "Q (tab t p i) u"
    using assms(2) by simp
qed

lemma wp_listing_steady:
  assumes "steady w t"
    and "\<And>ns u. steady w u \<Longrightarrow> distinct (map n_id ns) \<Longrightarrow>
      (\<And>n. n \<in> set ns \<longleftrightarrow> tab w p (n_id n) = Some n) \<Longrightarrow> Q ns u"
  shows "wp (listing p []) Q E t"
proof (rule nodes.wp_listing [OF steadyD(1) [OF assms(1)]])
  fix ns u assume "world_ok u" "tab u = tab t" "frame u = frame t" "distinct (map n_id ns)"
    "\<And>n. n \<in> set ns \<longleftrightarrow> tab t p (n_id n) = Some n \<and> \<not> on_lanes [] n"
  then show "Q ns u"
    using steady_frame [OF assms(1)] steadyD(2) [OF assms(1)] assms(2)
    by (simp add: on_lanes_def split: option.splits)
qed

lemma keeps_load [keeps_intros]: "keeps (steady w) (load p i)"
  by (rule keeps_of_wp, rule wp_load_steady)

lemma keeps_listing [keeps_intros]: "keeps (steady w) (listing p [])"
  by (rule keeps_of_wp, rule wp_listing_steady)

lemma keeps_put_preview [keeps_intros]: "keeps (steady w) (put_preview p i doc)"
proof (rule keeps_of_wp)
  fix t assume t: "steady w t"
  show "wp (put_preview p i doc) (\<lambda>_. steady w) (\<lambda>_. steady w) t"
    by (rule nodes.wp_preview [OF steadyD(1) [OF t]]) (use t steady_frame in auto)
qed

lemma keeps_notify [keeps_intros]: "keeps (steady w) (notify p ev)"
  unfolding notify_def by (rule keeps_writing) simp

lemma keeps_set_runtime [keeps_intros]: "keeps (steady w) (set_runtime p f)"
  unfolding set_runtime_def by (rule keeps_writing) simp

lemma keeps_fresh_id [keeps_intros]: "keeps (steady w) (fresh_id env)"
  unfolding fresh_id_def by (intro keeps_intros) simp

lemma keeps_schedule [keeps_intros]: "keeps (steady w) (schedule_queued p)"
proof (rule keeps_of_wp)
  fix t assume t: "steady w t"
  have "steady w u" if "others_kept p t u" for u
    using steady_calm [OF t] that by (simp add: others_kept_def)
  then show "wp (schedule_queued p) (\<lambda>_. steady w) (\<lambda>_. steady w) t"
    by (intro wp_schedule_queued [OF steadyD(1) [OF t]])
qed

lemma keeps_filter_prog [keeps_intros]: "(\<And>x. keeps I (f x)) \<Longrightarrow> keeps I (filter_prog f xs)"
  unfolding keeps_def
proof (induction xs)
  case (Cons x xs)
  have "keeps I (bind (f x) (\<lambda>keep. bind (filter_prog f xs) (\<lambda>ys. ret (if keep then x # ys else ys))))"
    using Cons by (intro keeps_intros) (simp_all add: keeps_def)
  then show ?case by (simp add: keeps_def)
qed simp

lemma keeps_all_prog [keeps_intros]: "(\<And>x. keeps I (f x)) \<Longrightarrow> keeps I (all_prog f xs)"
  unfolding keeps_def
proof (induction xs)
  case (Cons x xs)
  have "keeps I (bind (f x) (\<lambda>ok. if ok then all_prog f xs else ret False))"
    using Cons by (intro keeps_intros) (simp_all add: keeps_def)
  then show ?case by (simp add: keeps_def)
qed simp

lemma keeps_assert_writable [keeps_intros]: "keeps (steady w) (on_store assert_writable)"
  by (rule keepsI) (simp add: on_store_apply assert_writable_def split: option.split)

lemma keeps_write_local [keeps_intros]:
  "keeps (steady w) (on_store (writing (\<lambda>s. s\<lparr>st_local := f s\<rparr>)))"
  by (rule keepsI) (simp add: on_store_apply)

lemmas guard_defs = prepare_temporary_workspace_def require_native_def require_unarchived_def
  require_git_project_def require_execution_project_def require_native_node_def assert_unarchived_def
  require_unarchived_lane_def

lemma keeps_guards [keeps_intros]:
  "keeps (steady w) (prepare_temporary_workspace env pr)" "keeps (steady w) (require_native env p)"
  "keeps (steady w) (require_unarchived env p)" "keeps (steady w) (require_git_project env p)"
  "keeps (steady w) (require_execution_project env p)" "keeps (steady w) (require_native_node n)"
  "keeps (steady w) (require_unarchived_lane pr lane)"
proof -
  show prep: "keeps (steady w) (prepare_temporary_workspace env pr)" for pr
    unfolding prepare_temporary_workspace_def
    by (intro keeps_intros | simp)+
  show nat: "keeps (steady w) (require_native env p)"
    unfolding require_native_def by (intro keeps_intros prep)
  show un: "keeps (steady w) (require_unarchived env p)"
    unfolding require_unarchived_def by (intro keeps_intros nat)
  show "keeps (steady w) (require_git_project env p)"
    unfolding require_git_project_def by (intro keeps_intros un)
  show "keeps (steady w) (require_execution_project env p)"
    unfolding require_execution_project_def by (intro keeps_intros un)
  show "keeps (steady w) (require_native_node n)" "keeps (steady w) (require_unarchived_lane pr lane)"
    unfolding require_native_node_def require_unarchived_lane_def by (intro keeps_intros)+
qed

section \<open>Promotion\<close>

lemma wp_filter_prog:
  assumes "\<And>x t Q E. x \<in> set xs \<Longrightarrow> steady w t \<Longrightarrow> (\<And>u. steady w u \<Longrightarrow> Q (P x) u) \<Longrightarrow> wp (f x) Q E t"
    and "steady w t" and "\<And>u. steady w u \<Longrightarrow> Q (filter P xs) u"
  shows "wp (filter_prog f xs) Q E t"
  using assms
proof (induction xs arbitrary: t Q)
  case Nil
  show ?case using Nil.prems(3) [OF Nil.prems(2)] unfolding filter_prog.simps wp_simps filter.simps .
next
  case (Cons x xs)
  show ?case unfolding filter_prog.simps wp_simps
  proof (rule Cons.prems(1) [OF _ Cons.prems(2)])
    fix u assume u: "steady w u"
    show "wp (filter_prog f xs) (\<lambda>ys. Q (if P x then x # ys else ys)) E u"
      by (rule Cons.IH [OF Cons.prems(1) u]) (use Cons.prems(3) in \<open>auto split: if_splits\<close>)
  qed simp
qed

lemma wp_all_prog:
  assumes "\<And>x t Q E. x \<in> set xs \<Longrightarrow> steady w t \<Longrightarrow> (\<And>u. steady w u \<Longrightarrow> Q (P x) u) \<Longrightarrow> wp (f x) Q E t"
    and "steady w t" and "\<And>u. steady w u \<Longrightarrow> Q (list_all P xs) u"
  shows "wp (all_prog f xs) Q E t"
  using assms
proof (induction xs arbitrary: t Q)
  case Nil
  show ?case using Nil.prems(3) [OF Nil.prems(2)] unfolding all_prog.simps wp_simps by simp
next
  case (Cons x xs)
  show ?case unfolding all_prog.simps wp_simps
  proof (rule Cons.prems(1) [OF _ Cons.prems(2)])
    fix u assume u: "steady w u"
    show "wp (if P x then all_prog f xs else ret False) Q E u"
    proof (cases "P x")
      case True
      then show ?thesis using Cons.IH [OF Cons.prems(1) u] Cons.prems(3) by simp
    next
      case False
      then show ?thesis using Cons.prems(3) [OF u] by simp
    qed
  qed simp
qed

definition usable_preset :: "node \<Rightarrow> bool" where
  "usable_preset n = (case n_model_preset_id n of None \<Rightarrow> False | Some p \<Rightarrow> \<not> blank p \<and> strip p = p)"

definition trimmed_preset :: "node \<Rightarrow> bool" where
  "trimmed_preset n = (case n_model_preset_id n of None \<Rightarrow> True | Some p \<Rightarrow> strip p = p)"

lemma usable_trimmed: "usable_preset n \<Longrightarrow> trimmed_preset n"
  by (simp add: usable_preset_def trimmed_preset_def split: option.splits)

definition resume_source_ok :: "world \<Rightarrow> pystr \<Rightarrow> node \<Rightarrow> bool" where
  "resume_source_ok w pid n \<longleftrightarrow> (truthy (n_resume_from_node_id n) \<longrightarrow>
     (case tab w pid (or_empty (n_resume_from_node_id n)) of None \<Rightarrow> True | Some src \<Rightarrow> usable_preset src))"

definition promotable :: "world \<Rightarrow> pystr \<Rightarrow> node \<Rightarrow> bool" where
  "promotable w pid n \<longleftrightarrow> n_state n = Virtual \<and> \<not> obsolete n \<and> \<not> lacks_prompt n \<and>
     n_owner_host_id n = machine w \<and> list_all (\<lambda>d. \<not> blocks (tab w pid d)) (n_scheduled_deps n) \<and>
     (truthy (n_resume_from_node_id n) \<longrightarrow>
       (case tab w pid (or_empty (n_resume_from_node_id n)) of None \<Rightarrow> False | Some src \<Rightarrow> terminal (n_state src)))"

definition promoted_from :: "node \<Rightarrow> node \<Rightarrow> bool" where
  "promoted_from n m \<longleftrightarrow> n_state m = Queued \<and> n_id m = n_id n \<and> n_project_id m = n_project_id n \<and>
     n_kind m = n_kind n \<and> n_category m = n_category n \<and> n_subtype m = n_subtype n \<and>
     n_planspace_id m = n_planspace_id n \<and> n_scheduled_deps m = n_scheduled_deps n \<and>
     n_resume_from_node_id m = n_resume_from_node_id n \<and> n_owner_host_id m = n_owner_host_id n \<and>
     n_created_at m = n_created_at n \<and> n_prompt_draft m = None \<and>
     (usable_preset n \<longrightarrow> usable_preset m) \<and> (trimmed_preset n \<longrightarrow> trimmed_preset m) \<and>
     n_prompt m = (if n_kind n = Agent \<and> truthy (n_prompt_draft n) then or_empty (n_prompt_draft n) else n_prompt n)"

lemma node_wf_transfer:
  assumes wf: "node_wf n"
    and same: "n_artifacts m = n_artifacts n" "n_artifact_mode m = n_artifact_mode n"
      "n_artifact_spec m = n_artifact_spec n" "n_kind m = n_kind n" "n_category m = n_category n"
      "n_agent_op_kind m = n_agent_op_kind n" "n_verify_script_ref m = n_verify_script_ref n"
      "n_scheduled_deps m = n_scheduled_deps n" "n_resume_from_node_id m = n_resume_from_node_id n"
      "n_qa_mode m = n_qa_mode n" "n_diff_review m = n_diff_review n"
      "n_subtype m = n_subtype n" "n_brief m = n_brief n" "n_review_target m = n_review_target n"
    and times: "n_state m = Virtual \<longrightarrow> n_started_at m = None \<and> n_finished_at m = None"
    and pending: "n_pending_extra_principles n = [] \<longrightarrow> n_pending_extra_principles m = []"
      "n_pending_extra_skills n = [] \<longrightarrow> n_pending_extra_skills m = []"
    and agent: "n_kind n = Agent \<longrightarrow> usable_preset m"
    and verifier: "n_kind n = Verifier \<longrightarrow> n_prompt m = [] \<and> \<not> truthy (n_prompt_draft m)"
  shows "node_wf m"
proof -
  have a: "agent_wf m" if "agent_wf n" "n_kind n = Agent"
    using that agent pending(1) unfolding agent_wf_def usable_preset_def same by simp
  have p: "plain_fields m" if "plain_fields n"
    using that pending unfolding plain_fields_def same by simp
  have "artifact_ok m = artifact_ok n" unfolding artifact_ok_def same ..
  with wf times verifier a p show ?thesis
    unfolding node_wf_def same by (cases "n_kind n") simp_all
qed

lemma virtual_times: "node_wf n \<Longrightarrow> n_state n = Virtual \<longrightarrow> n_started_at n = None \<and> n_finished_at n = None"
  by (simp add: node_wf_def)

lemma agent_usable: "node_wf n \<Longrightarrow> n_kind n = Agent \<Longrightarrow> usable_preset n"
  by (simp add: node_wf_def agent_wf_def usable_preset_def)

lemma verifier_prompt: "node_wf n \<Longrightarrow> n_kind n = Verifier \<Longrightarrow> n_prompt n = [] \<and> \<not> truthy (n_prompt_draft n)"
  by (simp add: node_wf_def)

lemma node_wf_queued_form: "node_wf n \<Longrightarrow> node_wf (queued_form n)"
  by (rule node_wf_transfer, assumption)
    (use agent_usable [of n] verifier_prompt [of n] in \<open>simp_all add: queued_form_def Let_def usable_preset_def\<close>)

lemma node_wf_resumed:
  assumes "node_wf n" and "n_kind n = Agent \<longrightarrow> usable_preset src"
  shows "node_wf (n\<lparr>n_model_preset_id := n_model_preset_id src, n_settings_snapshot := x,
    n_provider_session_id := y, n_parent_node_id := z\<rparr>)"
  by (rule node_wf_transfer [OF assms(1)])
    (use assms verifier_prompt [of n] virtual_times [of n] in \<open>simp_all add: usable_preset_def\<close>)

lemma wp_inherit_resume:
  assumes "steady w t" and "node_wf n" and "resume_source_ok w pid n"
    and refuse: "\<And>u r. steady w u \<Longrightarrow> pr_code r \<noteq> None \<Longrightarrow> Q (Inl r) u"
    and go: "\<And>u n'. steady w u \<Longrightarrow> node_wf n' \<Longrightarrow> promoted_from n (queued_form n') \<Longrightarrow> n_state n' = n_state n \<Longrightarrow>
      (truthy (n_resume_from_node_id n) \<longrightarrow>
        (case tab w pid (or_empty (n_resume_from_node_id n)) of None \<Rightarrow> False | Some src \<Rightarrow> terminal (n_state src))) \<Longrightarrow>
      Q (Inr n') u"
    and err: "\<And>e u. steady w u \<Longrightarrow> E e u"
  shows "wp (inherit_resume env p pid n) Q E t"
proof (cases "truthy (n_resume_from_node_id n)")
  case False
  have "promoted_from n (queued_form n)" by (simp add: promoted_from_def queued_form_def Let_def usable_preset_def trimmed_preset_def)
  with False show ?thesis using go [OF assms(1,2)] by (simp add: inherit_resume_def)
next
  case True
  have "wp (case tab w pid (or_empty (n_resume_from_node_id n)) of
          None \<Rightarrow> ret (Inl (refused ResumeSourceMissing))
        | Some src \<Rightarrow>
            if \<not> terminal (n_state src)
            then ret (Inl ((refused ResumeSourceNotTerminal)\<lparr>pr_blockers := [n_id src]\<rparr>))
            else bind (reading (\<lambda>w. can_resume_provider_session w src)) (\<lambda>local.
              if \<not> truthy (n_provider_session_id src) \<and> local
              then ret (Inl (refused ResumeSessionUnavailable))
              else bind (reading_result (\<lambda>w. remote_resume_settings env w p src)) (\<lambda>settings.
                ret (Inr (n\<lparr>n_model_preset_id := n_model_preset_id src,
                  n_settings_snapshot := dict_updates (n_settings_snapshot n) settings,
                  n_provider_session_id := (if local then n_provider_session_id src else None),
                  n_parent_node_id := Some (n_id src)\<rparr>))))) Q E u"
    if u: "steady w u" for u
  proof (cases "tab w pid (or_empty (n_resume_from_node_id n))")
    case None
    then show ?thesis using refuse [OF u] by (simp add: refused_def)
  next
    case (Some src)
    have wf: "node_wf (n\<lparr>n_model_preset_id := n_model_preset_id src, n_settings_snapshot := x,
        n_provider_session_id := y, n_parent_node_id := z\<rparr>)" for x y z
      by (rule node_wf_resumed [OF assms(2)]) (use assms(3) Some True in \<open>simp add: resume_source_ok_def\<close>)
    have from_n: "promoted_from n (queued_form (n\<lparr>n_model_preset_id := n_model_preset_id src, n_settings_snapshot := x,
        n_provider_session_id := y, n_parent_node_id := z\<rparr>))" for x y z
      using assms(3) Some True usable_trimmed [of src]
      by (simp add: promoted_from_def queued_form_def Let_def usable_preset_def trimmed_preset_def resume_source_ok_def)
    show ?thesis
      using refuse [OF u] err [OF u] go [OF u wf from_n] Some
      by (simp add: refused_def wp_result split: sum.split)
  qed
  with True show ?thesis
    by (simp add: inherit_resume_def wp_load_steady [OF assms(1)])
qed

lemma wp_write_virtual_preview:
  assumes "steady w t" and "\<And>u. steady w u \<Longrightarrow> Q () u" and "\<And>e u. steady w u \<Longrightarrow> E e u"
  shows "wp (write_virtual_preview p n) Q E t"
proof (rule wp_keeps [OF _ assms(1)])
  show "keeps (steady w) (write_virtual_preview p n)"
    unfolding write_virtual_preview_def by (intro keeps_intros)
qed (use assms in auto)

text \<open>The result of a run that changed one record, \<open>m\<close>.\<close>

definition wrote :: "world \<Rightarrow> node \<Rightarrow> world \<Rightarrow> bool" where
  "wrote w m t \<longleftrightarrow> host_same w t \<and> tab t = tab_put m (tab w)"

lemma wrote_steady: "wrote w m t \<Longrightarrow> steady t u \<Longrightarrow> wrote w m u"
  unfolding wrote_def steady_def using host_same_trans by auto

lemma wrote_self: "wrote w m t \<Longrightarrow> steady t t"
  by (intro steady_refl) (simp add: wrote_def host_same_def)

lemma wp_notify_steady: "steady w t \<Longrightarrow> (\<And>u. steady w u \<Longrightarrow> Q () u) \<Longrightarrow> wp (notify p ev) Q E t"
  by (simp add: notify_def)

lemma wp_schedule_steady:
  assumes "steady w t" and "\<And>u. steady w u \<Longrightarrow> Q () u"
  shows "wp (schedule_queued p) Q E t"
proof -
  have "steady w u" if "others_kept p t u" for u
    using steady_calm [OF assms(1)] that by (simp add: others_kept_def)
  with assms(2) show ?thesis by (intro wp_schedule_queued [OF steadyD(1) [OF assms(1)]]) blast+
qed

lemma wp_notify_wrote: "wrote w m t \<Longrightarrow> (\<And>u. wrote w m u \<Longrightarrow> Q () u) \<Longrightarrow> wp (notify p ev) Q E t"
  by (rule wp_notify_steady [OF wrote_self], assumption) (blast intro: wrote_steady)

lemma wp_schedule_wrote: "wrote w m t \<Longrightarrow> (\<And>u. wrote w m u \<Longrightarrow> Q () u) \<Longrightarrow> wp (schedule_queued p) Q E t"
  by (rule wp_schedule_steady [OF wrote_self], assumption) (blast intro: wrote_steady)

lemma wp_save_steady:
  assumes "steady w t" and "node_wf n" and "tab w (n_project_id n) (n_id n) = Some n0"
    and "n_owner_host_id n0 = machine w" and "n_owner_host_id n = machine w"
    and "\<And>u m. m = n\<lparr>n_rev := max (n_rev n) (n_rev n0) + 1\<rparr> \<Longrightarrow> wrote w m u \<Longrightarrow> Q m u"
    and "\<And>e u. steady w u \<Longrightarrow> E e u"
  shows "wp (save n) Q E t"
proof (rule nodes.wp_update [OF steadyD(1) [OF assms(1)] assms(2), of n0])
  show "tab t (n_project_id n) (n_id n) = Some n0" using assms(1,3) by (simp add: steadyD)
  show "n_owner_host_id n0 = machine t" "n_owner_host_id n = machine t" using assms(1,4,5) by (simp_all add: steadyD)
  fix u m assume u: "world_ok u" "frame u = frame t" "tab u = tab_put m (tab t)"
    "m = n\<lparr>n_rev := max (n_rev n) (n_rev n0) + 1\<rparr>"
  have "host_same w u" using frame_host_same [OF u(1,2)] steadyD(7) [OF assms(1)] host_same_trans by blast
  then show "Q m u" using assms(6) [OF u(4)] u(3) assms(1) by (simp add: wrote_def steadyD)
next
  show "E e t" for e using assms(7) [OF assms(1)] .
qed

lemma wp_load_wrote:
  assumes "wrote w m t" and "\<And>u. wrote w m u \<Longrightarrow> Q (tab_put m (tab w) p i) u"
  shows "wp (load p i) Q E t"
proof (rule wp_load_steady [where w = t])
  show "steady t t" using assms(1) by (intro steady_refl) (simp add: wrote_def host_same_def)
  fix u assume "steady t u"
  then show "Q (tab t p i) u" using assms wrote_steady [OF assms(1)] by (simp add: wrote_def)
qed

lemma wp_commit_promotion:
  assumes t: "steady w t" and n0: "tab w pid vid = Some n" "n_owner_host_id n = machine w"
    and n': "node_wf n'" "promoted_from n (queued_form n')"
    and refuse: "\<And>u. steady w u \<Longrightarrow> Q (refused PreviewWriteFailed) u"
    and fin: "\<And>u m. wrote w m u \<Longrightarrow> promoted_from n m \<Longrightarrow>
      Q \<lparr>pr_node = Some m, pr_code = None, pr_blockers = []\<rparr> u"
    and err: "\<And>e u. steady w u \<Longrightarrow> E e u"
  shows "wp (commit_promotion pid n') Q E t"
proof -
  have ids: "n_id n = vid" "n_project_id n = pid"
    using nodes.tab_ids [OF steadyD(1) [OF t]] n0(1) by (auto simp: steadyD(2) [OF t])
  have q: "n_project_id (queued_form n') = pid" "n_id (queued_form n') = vid"
    "n_owner_host_id (queued_form n') = machine w"
    using n'(2) ids n0(2) by (simp_all add: promoted_from_def)
  let ?rest = "\<lambda>m. bind (notify pid (WorkspaceNode m (Some (n_state n')) False)) (\<lambda>_.
       bind (notify pid (NodeUpdated m)) (\<lambda>_.
       bind (schedule_queued pid) (\<lambda>_.
       bind (load pid (n_id m)) (\<lambda>stored.
         ret \<lparr>pr_node = Some (case stored of None \<Rightarrow> m | Some s \<Rightarrow> s), pr_code = None, pr_blockers = []\<rparr>))))"
  have tail: "wp (?rest m) Q E u" if m: "wrote w m u" "promoted_from n m" for m u
  proof -
    have "wp (load pid (n_id m)) (\<lambda>stored. Q \<lparr>pr_node = Some (case stored of None \<Rightarrow> m | Some s \<Rightarrow> s),
        pr_code = None, pr_blockers = []\<rparr>) E v" if "wrote w m v" for v
      by (rule wp_load_wrote [OF that]) (use fin m(2) ids in \<open>simp add: promoted_from_def\<close>)
    then show ?thesis unfolding wp_simps
      by (intro wp_notify_wrote [OF m(1)] wp_notify_wrote wp_schedule_wrote; assumption?) simp_all
  qed
  have go: "wp (bind (save (queued_form n')) ?rest) Q E u" if u: "steady w u" for u
    unfolding wp_simps(6) [of "save _"]
  proof (rule wp_save_steady [OF u node_wf_queued_form [OF n'(1)], of n])
    fix v m assume m: "m = (queued_form n')\<lparr>n_rev := max (n_rev (queued_form n')) (n_rev n) + 1\<rparr>" "wrote w m v"
    then show "wp (?rest m) Q E v"
      by (intro tail) (use n'(2) in \<open>simp_all add: promoted_from_def usable_preset_def trimmed_preset_def\<close>)
  qed (use q n0 err in simp_all)
  show ?thesis unfolding commit_promotion_def wp_simps(6) [of "catching _ _"] wp_simps(7,8)
    by (rule wp_write_virtual_preview [OF t]) (use go refuse in simp_all)
qed

lemma wp_promotion_blockers:
  assumes "steady w t" and "\<And>u. steady w u \<Longrightarrow> Q (filter (\<lambda>d. blocks (tab w pid d)) (n_scheduled_deps n)) u"
  shows "wp (promotion_blockers pid n) Q E t"
  unfolding promotion_blockers_def
proof (rule wp_filter_prog [where P = "\<lambda>d. blocks (tab w pid d)", OF _ assms(1)])
  show "\<And>u. steady w u \<Longrightarrow> Q (filter (\<lambda>d. blocks (tab w pid d)) (n_scheduled_deps n)) u" by (rule assms(2))
  fix x u and Q' :: "bool \<Rightarrow> world \<Rightarrow> bool" and E'
  assume u: "steady w u" and Q': "\<And>v. steady w v \<Longrightarrow> Q' (blocks (tab w pid x)) v"
  show "wp (bind (load pid x) (\<lambda>d. ret (blocks d))) Q' E' u"
    unfolding wp_simps by (rule wp_load_steady [OF u]) (rule Q')
qed

lemma wp_promote_checked:
  assumes t: "steady w t" and n: "tab w pid vid = Some n" "n_owner_host_id n = machine w"
    and src: "n_state n = Virtual \<Longrightarrow> resume_source_ok w pid n"
    and refuse: "\<And>u r. steady w u \<Longrightarrow> pr_code r \<noteq> None \<Longrightarrow> Q r u"
    and fin: "\<And>u m. promotable w pid n \<Longrightarrow> promoted_from n m \<Longrightarrow> wrote w m u \<Longrightarrow>
      Q \<lparr>pr_node = Some m, pr_code = None, pr_blockers = []\<rparr> u"
    and err: "\<And>e u. steady w u \<Longrightarrow> E e u"
  shows "wp (promote_checked env p pid n) Q E t"
proof (cases "n_state n \<noteq> Virtual \<or> obsolete n \<or> lacks_prompt n")
  case True
  then show ?thesis using refuse [OF t] by (auto simp: promote_checked_def refused_def)
next
  case False
  have wf: "node_wf n" using nodes.tab_ids [OF steadyD(1) [OF t], of pid vid n] n(1) by (simp add: steadyD(2) [OF t])
  have "wp (if filter (\<lambda>d. blocks (tab w pid d)) (n_scheduled_deps n) \<noteq> []
        then ret ((refused DependenciesNotTerminal)\<lparr>pr_blockers := filter (\<lambda>d. blocks (tab w pid d)) (n_scheduled_deps n)\<rparr>)
        else bind (inherit_resume env p pid n) (\<lambda>inherited. case inherited of
            Inl r \<Rightarrow> ret r
          | Inr n' \<Rightarrow> bind (reading_result (\<lambda>w. validate_remote_execution w p n')) (\<lambda>_.
              commit_promotion pid n'))) Q E u" if u: "steady w u" for u
  proof (cases "filter (\<lambda>d. blocks (tab w pid d)) (n_scheduled_deps n) = []")
    case free: True
    have "wp (inherit_resume env p pid n) (\<lambda>inherited. wp (case inherited of
            Inl r \<Rightarrow> ret r
          | Inr n' \<Rightarrow> bind (reading_result (\<lambda>w. validate_remote_execution w p n')) (\<lambda>_.
              commit_promotion pid n')) Q E) E u"
    proof (rule wp_inherit_resume [OF u wf])
      show "resume_source_ok w pid n" using src False by simp
    next
      fix v and r :: promotion_result assume "steady w v" "pr_code r \<noteq> None"
      then show "wp (case Inl r of Inl r \<Rightarrow> ret r
          | Inr n' \<Rightarrow> bind (reading_result (\<lambda>w. validate_remote_execution w p n')) (\<lambda>_. commit_promotion pid n')) Q E v"
        using refuse by simp
    next
      fix v n' assume v: "steady w v" and n': "node_wf n'" "promoted_from n (queued_form n')"
        and resumed: "truthy (n_resume_from_node_id n) \<longrightarrow>
          (case tab w pid (or_empty (n_resume_from_node_id n)) of None \<Rightarrow> False | Some src \<Rightarrow> terminal (n_state src))"
      have "promotable w pid n"
        using False n(2) free resumed
        by (simp add: promotable_def filter_empty_conv list_all_iff)
      then have "wp (commit_promotion pid n') Q E v"
        by (intro wp_commit_promotion [OF v n n'] fin err) (simp_all add: refuse refused_def)
      then show "wp (case Inr n' of Inl r \<Rightarrow> ret r
          | Inr n' \<Rightarrow> bind (reading_result (\<lambda>w. validate_remote_execution w p n')) (\<lambda>_. commit_promotion pid n')) Q E v"
        using err [OF v] by (simp add: wp_result split: sum.split)
    qed (rule err)
    with free show ?thesis by simp
  qed (use refuse [OF u] in \<open>simp add: refused_def\<close>)
  then have "wp (bind (promotion_blockers pid n) (\<lambda>blockers.
        if blockers \<noteq> [] then ret ((refused DependenciesNotTerminal)\<lparr>pr_blockers := blockers\<rparr>)
        else bind (inherit_resume env p pid n) (\<lambda>inherited. case inherited of
            Inl r \<Rightarrow> ret r
          | Inr n' \<Rightarrow> bind (reading_result (\<lambda>w. validate_remote_execution w p n')) (\<lambda>_.
              commit_promotion pid n')))) Q E t"
    unfolding wp_simps(6) [of "promotion_blockers pid n"] by (rule wp_promotion_blockers [OF t])
  then show ?thesis using False by (simp add: promote_checked_def del: wp_simps)
qed

lemma wp_require_native_node:
  assumes "steady w t" and "n_owner_host_id n = machine w \<Longrightarrow> Q () t" and "\<And>e. E e t"
  shows "wp (require_native_node n) Q E t"
  using assms steadyD(3) [OF assms(1)] by (simp add: require_native_node_def is_native_node_def machine_def)

lemma wp_promote_virtual_result:
  assumes w: "world_ok w" and src: "\<And>n. tab w pid vid = Some n \<Longrightarrow> n_state n = Virtual \<Longrightarrow> resume_source_ok w pid n"
    and refuse: "\<And>u r. steady w u \<Longrightarrow> pr_code r \<noteq> None \<Longrightarrow> Q r u"
    and fin: "\<And>u n m. tab w pid vid = Some n \<Longrightarrow> promotable w pid n \<Longrightarrow> promoted_from n m \<Longrightarrow> wrote w m u \<Longrightarrow>
      Q \<lparr>pr_node = Some m, pr_code = None, pr_blockers = []\<rparr> u"
    and err: "\<And>e u. steady w u \<Longrightarrow> E e u"
  shows "wp (promote_virtual_result env pid vid) Q E w"
proof -
  have some: "wp (bind (require_unarchived_lane p (n_planspace_id n)) (\<lambda>_.
      bind (require_native_node n) (\<lambda>_.
      if p_temporary p \<and> n_subtype n = Some CodeReview then ret (refused GitUnavailable)
      else promote_checked env p pid n))) Q E u" if u: "steady w u" and n: "tab w pid vid = Some n" for u p n
    unfolding wp_simps
  proof (rule wp_keeps [OF keeps_guards(7) u _ err])
    fix x v assume v: "steady w v"
    show "wp (require_native_node n) (\<lambda>_. wp (if p_temporary p \<and> n_subtype n = Some CodeReview
        then ret (refused GitUnavailable) else promote_checked env p pid n) Q E) E v"
    proof (rule wp_require_native_node [OF v])
      assume own: "n_owner_host_id n = machine w"
      have "wp (promote_checked env p pid n) Q E v"
        by (rule wp_promote_checked [OF v n own]; rule src [OF n] refuse fin [OF n] err; assumption)
      then show "wp (if p_temporary p \<and> n_subtype n = Some CodeReview
          then ret (refused GitUnavailable) else promote_checked env p pid n) Q E v"
        using refuse [OF v] by (simp add: refused_def)
    qed (rule err [OF v])
  qed
  have "wp (bind (require_execution_project env pid) (\<lambda>p.
         bind (load pid vid) (\<lambda>node. case node of
             None \<Rightarrow> ret (refused VirtualNotFound)
           | Some n \<Rightarrow>
               bind (require_unarchived_lane p (n_planspace_id n)) (\<lambda>_.
               bind (require_native_node n) (\<lambda>_.
               if p_temporary p \<and> n_subtype n = Some CodeReview then ret (refused GitUnavailable)
               else promote_checked env p pid n))))) Q E w"
    unfolding wp_simps(6) [of "require_execution_project env pid"]
  proof (rule wp_keeps [OF keeps_guards(5) steady_refl [OF w] _ err])
    fix p u assume u: "steady w u"
    show "wp (bind (load pid vid) (\<lambda>node. case node of
             None \<Rightarrow> ret (refused VirtualNotFound)
           | Some n \<Rightarrow>
               bind (require_unarchived_lane p (n_planspace_id n)) (\<lambda>_.
               bind (require_native_node n) (\<lambda>_.
               if p_temporary p \<and> n_subtype n = Some CodeReview then ret (refused GitUnavailable)
               else promote_checked env p pid n)))) Q E u"
      unfolding wp_simps(6) [of "load pid vid"]
    proof (rule wp_load_steady [OF u])
      fix v assume v: "steady w v"
      show "wp (case tab w pid vid of
             None \<Rightarrow> ret (refused VirtualNotFound)
           | Some n \<Rightarrow>
               bind (require_unarchived_lane p (n_planspace_id n)) (\<lambda>_.
               bind (require_native_node n) (\<lambda>_.
               if p_temporary p \<and> n_subtype n = Some CodeReview then ret (refused GitUnavailable)
               else promote_checked env p pid n))) Q E v"
        using some [OF v] refuse [OF v] by (cases "tab w pid vid") (simp_all add: refused_def)
    qed
  qed
  then show ?thesis
    using refuse [OF steady_refl [OF w]]
    by (simp add: promote_virtual_result_def refused_def split: option.split)
qed

section \<open>The sweep over the auto lanes\<close>

type_synonym table = "pystr \<Rightarrow> pystr \<Rightarrow> node option"

definition auto_candidate :: "pystr \<Rightarrow> table \<Rightarrow> pystr \<Rightarrow> pystr \<Rightarrow> node \<Rightarrow> bool" where
  "auto_candidate host tb pid lane n \<longleftrightarrow> tb pid (n_id n) = Some n \<and> lane_of n = lane \<and>
     n_owner_host_id n = host \<and> n_state n = Virtual \<and> \<not> obsolete n \<and> \<not> lacks_prompt n \<and>
     list_all (\<lambda>d. auto_ready (tb pid d)) (n_scheduled_deps n)"

definition first_candidate :: "pystr \<Rightarrow> table \<Rightarrow> pystr \<Rightarrow> pystr \<Rightarrow> node \<Rightarrow> bool" where
  "first_candidate host tb pid lane n \<longleftrightarrow> auto_candidate host tb pid lane n \<and>
     (\<forall>m. auto_candidate host tb pid lane m \<longrightarrow> (n_created_at n, n_id n) \<le> (n_created_at m, n_id m))"

lemma wp_is_dep_auto_ready:
  assumes "steady w t" and "set lane_nodes \<subseteq> {n. tab w pid (n_id n) = Some n}"
    and "\<And>u. steady w u \<Longrightarrow> Q (auto_ready (tab w pid dep)) u"
  shows "wp (is_dep_auto_ready pid lane_nodes dep) Q E t"
proof (cases "find (\<lambda>m. n_id m = dep) lane_nodes")
  case None
  then show ?thesis
    unfolding is_dep_auto_ready_def None option.case wp_simps
    by (intro wp_load_steady [OF assms(1)]) (rule assms(3))
next
  case (Some p)
  then have "tab w pid dep = Some p" using assms(2) by (auto simp: find_Some_iff set_conv_nth)
  then show ?thesis using assms(3) [OF assms(1)] Some by (simp add: is_dep_auto_ready_def)
qed

lemma wp_auto_eligible:
  assumes "steady w t" and "set lane_nodes \<subseteq> {n. tab w pid (n_id n) = Some n}"
    and "\<And>u. steady w u \<Longrightarrow> Q (n_owner_host_id n = machine w \<and> n_state n = Virtual \<and> \<not> obsolete n \<and>
      \<not> lacks_prompt n \<and> list_all (\<lambda>d. auto_ready (tab w pid d)) (n_scheduled_deps n)) u"
  shows "wp (auto_eligible pid lane_nodes n) Q E t"
proof (cases "n_owner_host_id n \<noteq> machine w \<or> n_state n \<noteq> Virtual \<or> obsolete n \<or> lacks_prompt n")
  case True
  then have "Q False t" using assms(3) [OF assms(1)] by auto
  with True show ?thesis
    using steadyD(3) [OF assms(1)] by (auto simp: auto_eligible_def is_native_node_def machine_def)
next
  case False
  have "wp (all_prog (is_dep_auto_ready pid lane_nodes) (n_scheduled_deps n)) Q E t"
    by (rule wp_all_prog [where P = "\<lambda>d. auto_ready (tab w pid d)", OF _ assms(1)])
      (use False assms(2,3) wp_is_dep_auto_ready in auto)
  with False show ?thesis
    using steadyD(3) [OF assms(1)] by (simp add: auto_eligible_def is_native_node_def machine_def)
qed

lemma sort_key_Nil: "sort_key f xs = [] \<Longrightarrow> xs = []"
  using length_sort [of f xs] by simp

lemma wp_next_promotion_candidate:
  assumes "steady w t"
    and none: "\<And>u. steady w u \<Longrightarrow>
      get_project t pid = None \<or> (\<forall>n. \<not> auto_candidate (machine w) (tab w) pid lane n) \<Longrightarrow> Q None u"
    and some: "\<And>u n. steady w u \<Longrightarrow> first_candidate (machine w) (tab w) pid lane n \<Longrightarrow> Q (Some n) u"
  shows "wp (next_promotion_candidate pid lane) Q E t"
proof (cases "get_project t pid")
  case None
  then show ?thesis using none [OF assms(1)] by (simp add: next_promotion_candidate_def)
next
  case (Some p)
  let ?key = "\<lambda>n. (n_created_at n, n_id n)"
  let ?P = "\<lambda>n. n_owner_host_id n = machine w \<and> n_state n = Virtual \<and> \<not> obsolete n \<and>
      \<not> lacks_prompt n \<and> list_all (\<lambda>d. auto_ready (tab w pid d)) (n_scheduled_deps n)"
  have body: "wp (bind (filter_prog (auto_eligible pid (filter (\<lambda>n. lane_of n = lane) ns)) (filter (\<lambda>n. lane_of n = lane) ns))
      (\<lambda>eligible. ret (case sort_key ?key eligible of [] \<Rightarrow> None | n # _ \<Rightarrow> Some n))) Q E u"
    if u: "steady w u" and ns: "\<And>n. n \<in> set ns \<longleftrightarrow> tab w pid (n_id n) = Some n" for ns u
    unfolding wp_simps(6) [of "filter_prog _ _"]
  proof (rule wp_filter_prog [where P = ?P, OF _ u])
    fix n v and Q' :: "bool \<Rightarrow> world \<Rightarrow> bool" and E'
    assume v: "steady w v" and q: "\<And>u. steady w u \<Longrightarrow> Q' (?P n) u"
    have sub: "set (filter (\<lambda>n. lane_of n = lane) ns) \<subseteq> {n. tab w pid (n_id n) = Some n}"
      using ns by auto
    show "wp (auto_eligible pid (filter (\<lambda>n. lane_of n = lane) ns) n) Q' E' v"
      by (rule wp_auto_eligible [OF v sub]) (rule q)
  next
    fix v assume v: "steady w v"
    let ?e = "filter ?P (filter (\<lambda>n. lane_of n = lane) ns)"
    have e: "n \<in> set ?e \<longleftrightarrow> auto_candidate (machine w) (tab w) pid lane n" for n
      unfolding auto_candidate_def set_filter mem_Collect_eq ns [of n] by blast
    show "wp (ret (case sort_key ?key ?e of [] \<Rightarrow> None | n # _ \<Rightarrow> Some n)) Q E v"
    proof (cases "sort_key ?key ?e")
      case Nil
      from sort_key_Nil [OF this] have "\<forall>n. \<not> auto_candidate (machine w) (tab w) pid lane n"
        using e by (metis list.distinct(1) list.set_cases)
      then show ?thesis unfolding Nil using none [OF v] by simp
    next
      case (Cons n rest)
      then have "first_candidate (machine w) (tab w) pid lane n"
        using sort_key_head [OF Cons] e unfolding first_candidate_def by blast
      then show ?thesis unfolding Cons using some [OF v] by simp
    qed
  qed
  have "wp (listing pid []) (\<lambda>ns. wp (bind (filter_prog (auto_eligible pid (filter (\<lambda>n. lane_of n = lane) ns))
      (filter (\<lambda>n. lane_of n = lane) ns))
      (\<lambda>eligible. ret (case sort_key ?key eligible of [] \<Rightarrow> None | n # _ \<Rightarrow> Some n))) Q E) E t"
    by (rule wp_listing_steady [OF assms(1)]) (rule body)
  then show ?thesis
    unfolding next_promotion_candidate_def Let_def wp_simps(6) [of "reading _"] wp_simps(3) Some option.case
      wp_simps(6) [of "listing _ _"] .
qed

text \<open>
  The effect of a sweep on the node table: oldest candidates of the given lanes, promoted one by one.
\<close>

inductive swept :: "pystr \<Rightarrow> pystr \<Rightarrow> pystr set \<Rightarrow> table \<Rightarrow> table \<Rightarrow> bool" for host pid lanes where
  Swept_Refl: "swept host pid lanes tb tb"
| Swept_Step: "swept host pid lanes tb tb' \<Longrightarrow> lane \<in> lanes \<Longrightarrow> first_candidate host tb' pid lane n \<Longrightarrow>
    n_project_id n = pid \<Longrightarrow> promoted_from n m \<Longrightarrow> swept host pid lanes tb (tab_put m tb')"

definition sources_ok :: "pystr \<Rightarrow> table \<Rightarrow> bool" where
  "sources_ok pid tb \<longleftrightarrow> (\<forall>i n src. tb pid i = Some n \<longrightarrow> n_state n = Virtual \<longrightarrow> truthy (n_resume_from_node_id n) \<longrightarrow>
     tb pid (or_empty (n_resume_from_node_id n)) = Some src \<longrightarrow> usable_preset src) \<and>
     (\<forall>i n. tb pid i = Some n \<longrightarrow> trimmed_preset n)"

lemma sources_ok_resume:
  "sources_ok pid (tab w) \<Longrightarrow> tab w pid i = Some n \<Longrightarrow> n_state n = Virtual \<Longrightarrow> resume_source_ok w pid n"
  by (auto simp: sources_ok_def resume_source_ok_def split: option.split)

lemma sources_ok_promote:
  assumes "sources_ok pid tb" and "tb pid (n_id n) = Some n" and "promoted_from n m"
  shows "sources_ok pid (tab_put m tb)"
  using assms unfolding sources_ok_def promoted_from_def by (auto split: if_splits)

lemma wp_promote_virtual:
  assumes w: "world_ok w" and so: "sources_ok pid (tab w)"
    and refuse: "\<And>u. steady w u \<Longrightarrow> Q None u"
    and fin: "\<And>u n m. tab w pid vid = Some n \<Longrightarrow> promotable w pid n \<Longrightarrow> promoted_from n m \<Longrightarrow> wrote w m u \<Longrightarrow>
      Q (Some m) u"
    and err: "\<And>e u. steady w u \<Longrightarrow> E e u"
  shows "wp (promote_virtual env pid vid) Q E w"
proof -
  have "wp (promote_virtual_result env pid vid)
      (\<lambda>r. wp (ret (if pr_code r = None then pr_node r else None)) Q E) E w"
    by (rule wp_promote_virtual_result [OF w])
      (use sources_ok_resume [OF so] refuse fin err in auto)
  then show ?thesis by (simp add: promote_virtual_def)
qed

text \<open>What the sweep keeps at every point, from the world \<open>w\<close> it started in.\<close>

definition sweeping :: "world \<Rightarrow> pystr \<Rightarrow> pystr set \<Rightarrow> world \<Rightarrow> bool" where
  "sweeping w pid lanes t \<longleftrightarrow> host_same w t \<and> swept (machine w) pid lanes (tab w) (tab t) \<and> sources_ok pid (tab t)"

lemma sweeping_steady: "sweeping w pid lanes t \<Longrightarrow> steady t u \<Longrightarrow> sweeping w pid lanes u"
  unfolding sweeping_def steady_def using host_same_trans by auto

lemma sweepingD:
  "sweeping w pid lanes t \<Longrightarrow> world_ok t" "sweeping w pid lanes t \<Longrightarrow> sources_ok pid (tab t)"
  "sweeping w pid lanes t \<Longrightarrow> machine t = machine w"
  by (simp_all add: sweeping_def host_same_def)

lemma sweeping_wrote:
  assumes "sweeping w pid lanes t" and "lane \<in> lanes" and "first_candidate (machine t) (tab t) pid lane n"
    and "promoted_from n m" and "wrote t m u"
  shows "sweeping w pid lanes u"
proof -
  have n: "tab t pid (n_id n) = Some n" using assms(3) by (simp add: first_candidate_def auto_candidate_def)
  have p: "n_project_id n = pid" using nodes.tab_ids [OF sweepingD(1) [OF assms(1)] n] by simp
  have "swept (machine w) pid lanes (tab w) (tab_put m (tab t))"
    by (rule Swept_Step [OF _ assms(2) _ p assms(4)])
      (use assms(1,3) in \<open>simp_all add: sweeping_def host_same_def\<close>)
  moreover have "sources_ok pid (tab_put m (tab t))"
    by (rule sources_ok_promote [OF sweepingD(2) [OF assms(1)] n assms(4)])
  ultimately show ?thesis
    using assms(1,5) host_same_trans by (auto simp: sweeping_def wrote_def)
qed

lemma wp_promote_first:
  assumes t: "sweeping w pid lanes t" and "lane \<in> lanes" and n: "first_candidate (machine t) (tab t) pid lane n"
    and refuse: "\<And>u. steady t u \<Longrightarrow> Q None u"
    and fin: "\<And>u m. sweeping w pid lanes u \<Longrightarrow> promoted_from n m \<Longrightarrow> wrote t m u \<Longrightarrow> Q (Some m) u"
    and err: "\<And>e u. steady t u \<Longrightarrow> E e u"
  shows "wp (promote_virtual env pid (n_id n)) Q E t"
proof (rule wp_promote_virtual [OF sweepingD(1,2) [OF t]])
  fix u k m assume "tab t pid (n_id n) = Some k" and m: "promoted_from k m" "wrote t m u"
  then have "k = n" using n by (simp add: first_candidate_def auto_candidate_def)
  then show "Q (Some m) u" using fin sweeping_wrote [OF t assms(2) n] m by simp
qed (use refuse err in auto)

lemma wp_promote_lane:
  assumes "sweeping w pid lanes t" and "lane \<in> lanes"
  shows "wp (promote_lane k env pid lane) (\<lambda>_. sweeping w pid lanes) (\<lambda>_. sweeping w pid lanes) t"
  using assms(1)
proof (induction k arbitrary: t)
  case (Suc k)
  have "wp (case c of None \<Rightarrow> ret ()
     | Some n \<Rightarrow> bind (promote_virtual env pid (n_id n)) (\<lambda>promoted.
         if promoted = None then ret () else promote_lane k env pid lane))
     (\<lambda>_. sweeping w pid lanes) (\<lambda>_. sweeping w pid lanes) u"
    if u: "sweeping w pid lanes u"
      and c: "case c of None \<Rightarrow> True | Some n \<Rightarrow> first_candidate (machine u) (tab u) pid lane n" for c u
  proof (cases c)
    case None
    then show ?thesis using u by simp
  next
    case (Some n)
    have "wp (promote_virtual env pid (n_id n)) (\<lambda>promoted. wp (if promoted = None then ret ()
        else promote_lane k env pid lane) (\<lambda>_. sweeping w pid lanes) (\<lambda>_. sweeping w pid lanes))
        (\<lambda>_. sweeping w pid lanes) u"
      by (rule wp_promote_first [OF u assms(2)])
        (use Some c Suc.IH sweeping_steady [OF u] in simp_all)
    then show ?thesis unfolding Some by simp
  qed
  note body = this
  have ok: "world_ok t" using sweepingD(1) [OF Suc.prems] .
  show ?case unfolding promote_lane.simps wp_simps(6) [of "next_promotion_candidate _ _"]
  proof (rule wp_next_promotion_candidate [OF steady_refl [OF ok]])
    fix u assume u: "steady t u"
    show "wp (case (None :: node option) of None \<Rightarrow> ret ()
     | Some n \<Rightarrow> bind (promote_virtual env pid (n_id n)) (\<lambda>promoted.
         if promoted = None then ret () else promote_lane k env pid lane))
     (\<lambda>_. sweeping w pid lanes) (\<lambda>_. sweeping w pid lanes) u"
      by (rule body [OF sweeping_steady [OF Suc.prems u]]) simp
  next
    fix u n assume u: "steady t u" and n: "first_candidate (machine t) (tab t) pid lane n"
    show "wp (case Some n of None \<Rightarrow> ret ()
     | Some n \<Rightarrow> bind (promote_virtual env pid (n_id n)) (\<lambda>promoted.
         if promoted = None then ret () else promote_lane k env pid lane))
     (\<lambda>_. sweeping w pid lanes) (\<lambda>_. sweeping w pid lanes) u"
      by (rule body [OF sweeping_steady [OF Suc.prems u]]) (use n u in \<open>simp add: steadyD\<close>)
  qed
qed simp

lemma wp_auto_promote:
  assumes "world_ok w" and "sources_ok pid (tab w)"
  shows "wp (auto_promote_eligible_virtuals env pid)
    (\<lambda>_. sweeping w pid (case get_project w pid of None \<Rightarrow> {} | Some p \<Rightarrow> set (auto_lane_ids w p)))
    (\<lambda>_. sweeping w pid (case get_project w pid of None \<Rightarrow> {} | Some p \<Rightarrow> set (auto_lane_ids w p))) w"
proof -
  have start: "sweeping w pid lanes w" for lanes
    using assms by (simp add: sweeping_def host_same_def Swept_Refl)
  show ?thesis
  proof (cases "get_project w pid")
    case None
    then show ?thesis using start by (simp add: auto_promote_eligible_virtuals_def)
  next
    case (Some p)
    let ?I = "sweeping w pid (set (auto_lane_ids w p))"
    have "wp (for_each (auto_lane_ids w p) (promote_lane (promotion_rounds w) env pid))
        (\<lambda>_. wp (schedule_queued pid) (\<lambda>_. ?I) (\<lambda>_. ?I)) (\<lambda>_. ?I) w"
    proof (rule wp_for_each [where I = ?I])
      show "wp (promote_lane (promotion_rounds w) env pid lane) (\<lambda>_. ?I) (\<lambda>_. ?I) t"
        if "lane \<in> set (auto_lane_ids w p)" "?I t" for lane t
        by (rule wp_promote_lane [OF that(2,1)])
      show "wp (schedule_queued pid) (\<lambda>_. ?I) (\<lambda>_. ?I) t" if "?I t" for t
        by (rule wp_schedule_steady [OF steady_refl [OF sweepingD(1) [OF that]]])
          (rule sweeping_steady [OF that])
    qed (rule start)
    with Some show ?thesis by (simp add: auto_promote_eligible_virtuals_def)
  qed
qed

section \<open>What a sweep changes\<close>

definition lane_rel :: "table \<Rightarrow> pystr \<Rightarrow> pystr \<Rightarrow> (pystr \<times> pystr) set" where
  "lane_rel tb pid lane = {(x, d). \<exists>n. tb pid x = Some n \<and> lane_of n = lane \<and> d \<in> set (n_scheduled_deps n)}"

definition swept_node :: "pystr \<Rightarrow> pystr \<Rightarrow> pystr set \<Rightarrow> table \<Rightarrow> node \<Rightarrow> node \<Rightarrow> bool" where
  "swept_node host pid lanes tb n m \<longleftrightarrow> n_state n = Virtual \<and> \<not> obsolete n \<and> n_owner_host_id n = host \<and>
     lane_of n \<in> lanes \<and> list_all (\<lambda>d. auto_ready (tb pid d)) (n_scheduled_deps n) \<and> promoted_from n m"

lemma swept_others:
  assumes "swept host pid lanes tb tb'" and "q \<noteq> pid"
  shows "tb' q = tb q"
  using assms by induction (auto simp: fun_eq_iff promoted_from_def)

lemma swept_nodes:
  assumes "swept host pid lanes tb tb'"
  shows "tb' pid i = tb pid i \<or>
    (\<exists>n m. tb pid i = Some n \<and> tb' pid i = Some m \<and> swept_node host pid lanes tb n m)"
  using assms
proof (induction arbitrary: i)
  case (Swept_Step tb tb' lane n m)
  have n: "tb' pid (n_id n) = Some n" "n_state n = Virtual" "\<not> obsolete n" "n_owner_host_id n = host"
    "lane_of n = lane" "list_all (\<lambda>d. auto_ready (tb' pid d)) (n_scheduled_deps n)"
    using Swept_Step.hyps(3) by (simp_all add: first_candidate_def auto_candidate_def)
  have m: "n_project_id m = pid" "n_id m = n_id n" "promoted_from n m"
    using Swept_Step.hyps(4,5) by (simp_all add: promoted_from_def)
  have older: "auto_ready (tb pid d)" if "auto_ready (tb' pid d)" for d
    using Swept_Step.IH [of d] that by (auto simp: swept_node_def promoted_from_def auto_ready_def)
  have old: "tb pid (n_id n) = Some n"
    using Swept_Step.IH [of "n_id n"] n(1,2) by (auto simp: swept_node_def promoted_from_def)
  have "swept_node host pid lanes tb n m"
    using n m(3) older Swept_Step.hyps(2) by (simp add: swept_node_def list_all_iff)
  then show ?case using Swept_Step.IH [of i] m old by auto
qed simp

lemma swept_lane_rel:
  assumes "swept host pid lanes tb tb'"
  shows "lane_rel tb' q lane = lane_rel tb q lane"
proof (cases "q = pid")
  case False
  then show ?thesis using swept_others [OF assms] by (simp add: lane_rel_def)
next
  case True
  have "(\<exists>n. tb' pid x = Some n \<and> lane_of n = lane \<and> d \<in> set (n_scheduled_deps n)) \<longleftrightarrow>
     (\<exists>n. tb pid x = Some n \<and> lane_of n = lane \<and> d \<in> set (n_scheduled_deps n))" for x d
    using swept_nodes [OF assms, of x]
    by (elim disjE exE conjE) (simp_all add: swept_node_def promoted_from_def)
  with True show ?thesis by (simp add: lane_rel_def)
qed

section \<open>The sweep of a lane ends\<close>

definition virtual_ids :: "table \<Rightarrow> pystr \<Rightarrow> pystr set" where
  "virtual_ids tb pid = {i. \<exists>n. tb pid i = Some n \<and> n_state n = Virtual}"

lemma virtual_ids_dirs:
  assumes "world_ok w"
  shows "finite (virtual_ids (tab w) pid)" "card (virtual_ids (tab w) pid) \<le> length (st_dirs (w_store w))"
proof -
  let ?ids = "(\<lambda>e. snd (snd (fst e))) ` set (st_dirs (w_store w))"
  have sub: "virtual_ids (tab w) pid \<subseteq> ?ids"
  proof
    fix i assume "i \<in> virtual_ids (tab w) pid"
    then obtain n where "view (w_store w) pid i = Some n" by (auto simp: virtual_ids_def tab_def)
    then obtain h f where "record_at (w_store w) pid h i = Some f"
      using view_Some_iff [of "w_store w"] assms by (auto simp: world_ok_def)
    from record_at_dir [OF this] obtain e where "e \<in> set (st_dirs (w_store w))" "fst e = (pid, h, i)" by blast
    then show "i \<in> ?ids" by (intro image_eqI [of _ _ e]) simp_all
  qed
  then show "finite (virtual_ids (tab w) pid)" by (rule finite_subset) simp
  have "card (virtual_ids (tab w) pid) \<le> card ?ids" by (rule card_mono [OF _ sub]) simp
  also have "\<dots> \<le> card (set (st_dirs (w_store w)))" by (rule card_image_le) simp
  also have "\<dots> \<le> length (st_dirs (w_store w))" by (rule card_length)
  finally show "card (virtual_ids (tab w) pid) \<le> length (st_dirs (w_store w))" .
qed

lemma bind_cong_wp: "wp m (\<lambda>x u. f x u = g x u) (\<lambda>_ _. True) t \<Longrightarrow> bind m f t = bind m g t"
  by (auto simp: wp_def bind_def split: prod.splits sum.splits)

lemma promote_lane_enough:
  assumes "world_ok t" and "sources_ok pid (tab t)" and "card (virtual_ids (tab t) pid) < k"
    and "card (virtual_ids (tab t) pid) < k'"
  shows "promote_lane k env pid lane t = promote_lane k' env pid lane t"
  using assms
proof (induction k arbitrary: k' t)
  case (Suc k)
  then obtain j where k': "k' = Suc j" by (cases k') auto
  have start: "sweeping t pid {lane} t"
    using Suc.prems by (simp add: sweeping_def host_same_def Swept_Refl)
  have body: "wp (promote_virtual env pid (n_id n)) (\<lambda>promoted u. (if promoted = None then ret ()
        else promote_lane k env pid lane) u = (if promoted = None then ret () else promote_lane j env pid lane) u)
        (\<lambda>_ _. True) u"
    if u: "steady t u" and n: "first_candidate (machine t) (tab t) pid lane n" for n u
  proof (rule wp_promote_first [where lanes = "{lane}" and lane = lane and w = t])
    show "sweeping t pid {lane} u" by (rule sweeping_steady [OF start u])
    show "first_candidate (machine u) (tab u) pid lane n" using n u by (simp add: steadyD)
    fix v m assume v: "sweeping t pid {lane} v" "promoted_from n m" "wrote u m v"
    have n': "tab t pid (n_id n) = Some n" "n_state n = Virtual"
      using n by (simp_all add: first_candidate_def auto_candidate_def)
    have p: "n_project_id n = pid" using nodes.tab_ids [OF Suc.prems(1) n'(1)] by simp
    have "virtual_ids (tab v) pid = virtual_ids (tab t) pid - {n_id n}"
      using v(2,3) u n' p by (auto simp: virtual_ids_def wrote_def promoted_from_def steadyD)
    moreover have "n_id n \<in> virtual_ids (tab t) pid" using n' by (simp add: virtual_ids_def)
    ultimately have "card (virtual_ids (tab v) pid) < card (virtual_ids (tab t) pid)"
      using virtual_ids_dirs(1) [OF Suc.prems(1)] by (simp add: card_Diff1_less del: card_Diff_insert)
    then have "promote_lane k env pid lane v = promote_lane j env pid lane v"
      using Suc.prems(3,4) k' by (intro Suc.IH sweepingD [OF v(1)]) simp_all
    then show "(if Some m = None then ret () else promote_lane k env pid lane) v =
        (if Some m = None then ret () else promote_lane j env pid lane) v" by simp
  qed simp_all
  show ?case unfolding k' promote_lane.simps
  proof (rule bind_cong_wp, rule wp_next_promotion_candidate [OF steady_refl [OF Suc.prems(1)]])
    fix u n assume u: "steady t u" "first_candidate (machine t) (tab t) pid lane n"
    show "(case Some n of None \<Rightarrow> ret () | Some n \<Rightarrow> bind (promote_virtual env pid (n_id n)) (\<lambda>promoted.
         if promoted = None then ret () else promote_lane k env pid lane)) u =
      (case Some n of None \<Rightarrow> ret () | Some n \<Rightarrow> bind (promote_virtual env pid (n_id n)) (\<lambda>promoted.
         if promoted = None then ret () else promote_lane j env pid lane)) u"
      unfolding option.case by (rule bind_cong_wp, rule body [OF u])
  qed simp
qed simp

section \<open>Properties\<close>

text \<open>A world whose lane \<open>main\<close> is automatic, with a done node, a virtual that depends on it and one more.\<close>

definition auto_world :: world where
  "auto_world = queue_world\<lparr>w_store := sample_store\<lparr>st_dirs :=
       [((''p'', ''here'', ''a''), record_dir (sample_agent ''a'' Done)),
        ((''p'', ''here'', ''c''), record_dir ((sample_agent ''c'' Virtual)\<lparr>n_scheduled_deps := [''a'']\<rparr>)),
        ((''p'', ''here'', ''d''), record_dir ((sample_agent ''d'' Virtual)\<lparr>n_scheduled_deps := [''c'']\<rparr>))]\<rparr>,
     w_lanes := \<lparr>ls_bound = [(''p'', [''main''])], ls_manifests =
       [(''main'', JObj [(''kind'', JStr ''planspace''), (''id'', JStr ''main''), (''mode'', JStr ''auto'')])]\<rparr>\<rparr>"

definition sample_env :: env where
  "sample_env = \<lparr>e_new_id = (\<lambda>k. replicate k (CHR ''n'')), e_expand_skills = (\<lambda>_. Inr []), e_is_git_repo = (\<lambda>_. True),
     e_is_dir = (\<lambda>_. True), e_temporary_root = (\<lambda>_. ''/tmp/w''), e_access_digest = (\<lambda>_. ''digest''),
     e_codex_home = ''/codex''\<rparr>"

lemma auto_world_ok: "world_ok auto_world"
  unfolding world_ok_def by (rule store_ok_execD) code_simp

lemma no_resume_sources:
  assumes "world_ok w"
    and "list_all (\<lambda>e. case d_node (snd e) of
        Some (Readable n) \<Rightarrow> \<not> truthy (n_resume_from_node_id n) \<and> trimmed_preset n | _ \<Rightarrow> True)
      (st_dirs (w_store w))"
  shows "sources_ok pid (tab w)"
proof -
  have "\<not> truthy (n_resume_from_node_id n) \<and> trimmed_preset n" if n: "tab w pid i = Some n" for i n
  proof -
    obtain h m where m: "record_at (w_store w) pid h i = Some (Readable m)" "n = m\<lparr>n_owner_host_id := h\<rparr>"
      using n view_Some_iff [of "w_store w"] assms(1) by (auto simp: tab_def world_ok_def)
    from record_at_dir [OF m(1)] obtain e where "e \<in> set (st_dirs (w_store w))" "d_node (snd e) = Some (Readable m)"
      by blast
    with assms(2) m(2) show ?thesis by (fastforce simp: list_all_iff trimmed_preset_def)
  qed
  then show ?thesis by (fastforce simp: sources_ok_def)
qed

lemma auto_world_sources: "sources_ok pid (tab auto_world)"
  by (rule no_resume_sources [OF auto_world_ok]) code_simp

text \<open>
  C5: promotion of a virtual. When it succeeds, the node was a virtual of this device, neither obsolete
  nor without its prompt, with no unfinished dependency and, for a continuation, a finished source; it
  becomes a queued node of the same lane, dependencies and identity and nothing else in the table
  changes. When it is refused or raises, no node changes.
\<close>

theorem promote_virtual_exact:
  assumes "world_ok w" and "sources_ok pid (tab w)" and "promote_virtual_result env pid vid w = (t, res)"
  shows "host_same w t \<and> (case res of
      Inl e \<Rightarrow> tab t = tab w
    | Inr r \<Rightarrow>
        if pr_code r \<noteq> None then tab t = tab w
        else \<exists>n m. tab w pid vid = Some n \<and> promotable w pid n \<and> promoted_from n m \<and>
          pr_node r = Some m \<and> tab t = tab_put m (tab w))"
proof -
  have "wp (promote_virtual_result env pid vid)
    (\<lambda>r t. host_same w t \<and> (if pr_code r \<noteq> None then tab t = tab w
        else \<exists>n m. tab w pid vid = Some n \<and> promotable w pid n \<and> promoted_from n m \<and>
          pr_node r = Some m \<and> tab t = tab_put m (tab w))) (\<lambda>_ t. host_same w t \<and> tab t = tab w) w"
    by (rule wp_promote_virtual_result [OF assms(1)])
      (use sources_ok_resume [OF assms(2)] in \<open>auto simp: steady_def wrote_def\<close>)
  then show ?thesis using assms(3) by (auto simp: wp_def split: sum.splits)
qed

theorem promote_virtual_exact_witness:
  "host_same auto_world (fst (promote_virtual_result sample_env ''p'' ''c'' auto_world))"
  using promote_virtual_exact [OF auto_world_ok auto_world_sources prod.collapse [symmetric]] by blast

text \<open>
  C6: auto-promotion acts on its own lanes only. After a sweep every node of the project is as it was,
  or was an obsolete-free virtual of this device on an unarchived lane in auto mode, with every
  dependency done or an obsolete virtual before the sweep, and is now queued; other projects and the
  dependency edges of every lane are unchanged. It holds also when the sweep raises half way.
\<close>

theorem auto_promotion_sound:
  assumes "world_ok w" and "sources_ok pid (tab w)" and "get_project w pid = Some p"
    and "auto_promote_eligible_virtuals env pid w = (t, res)"
  shows "(tab t pid i = tab w pid i \<or>
      (\<exists>n m. tab w pid i = Some n \<and> tab t pid i = Some m \<and>
        swept_node (machine w) pid (set (auto_lane_ids w p)) (tab w) n m)) \<and>
    (q = pid \<or> tab t q = tab w q) \<and> lane_rel (tab t) q lane = lane_rel (tab w) q lane"
proof -
  have "sweeping w pid (set (auto_lane_ids w p)) t"
    using wp_fst [OF wp_auto_promote [OF assms(1,2), of env]] assms(3,4) by simp
  then have s: "swept (machine w) pid (set (auto_lane_ids w p)) (tab w) (tab t)"
    by (simp add: sweeping_def)
  show ?thesis using swept_nodes [OF s, of i] swept_others [OF s, of q] swept_lane_rel [OF s, of q lane] by blast
qed

theorem auto_promotion_sound_witness:
  "lane_rel (tab (fst (auto_promote_eligible_virtuals sample_env ''p'' auto_world))) ''p'' ''main'' =
     lane_rel (tab auto_world) ''p'' ''main''"
proof -
  have "get_project auto_world ''p'' = Some sample_project" by code_simp
  from auto_promotion_sound [OF auto_world_ok auto_world_sources this prod.collapse [symmetric]]
  show ?thesis by blast
qed

text \<open>
  C7: the \<open>while True\<close> loop of a sweep ends. Any number of rounds from the bound on gives the same
  result as the bound, the number of node directories plus one, so the loop stops by itself before.
\<close>

theorem promote_lane_terminates:
  assumes "world_ok w" and "sources_ok pid (tab w)" and "promotion_rounds w \<le> k"
  shows "promote_lane k env pid lane w = promote_lane (promotion_rounds w) env pid lane w"
  using virtual_ids_dirs(2) [OF assms(1), of pid] assms(3)
  by (intro promote_lane_enough [OF assms(1,2)]) (simp_all add: promotion_rounds_def)

theorem promote_lane_terminates_witness:
  "promote_lane 100 sample_env ''p'' ''main'' auto_world = promote_lane 4 sample_env ''p'' ''main'' auto_world"
proof -
  have "promotion_rounds auto_world = 4" by code_simp
  then show ?thesis
    using promote_lane_terminates [OF auto_world_ok auto_world_sources, of 100 sample_env "''p''" "''main''"] by simp
qed

end
