(* ===== verification/Editing_Safety.thy ===== *)
theory Editing_Safety
  imports Virtual_Editing Lane_Safety
begin

text \<open>
  What creating, editing and deleting virtual nodes keeps: every lane's dependency graph stays acyclic,
  the dependencies of a node resolve inside its lane, a request that is refused leaves the node table
  as it was, and a deleted node leaves no dependent behind.
\<close>

section \<open>The cycle check and the lane's graph\<close>

definition lanes_acyclic :: "table \<Rightarrow> pystr \<Rightarrow> bool" where
  "lanes_acyclic tb pid \<longleftrightarrow> (\<forall>lane. acyclic (lane_rel tb pid lane))"

lemma lane_graph_rel:
  assumes "distinct (map n_id ns)" and "\<And>k. k \<in> set ns \<longleftrightarrow> tb pid (n_id k) = Some k"
    and "\<And>i k. tb pid i = Some k \<Longrightarrow> n_id k = i" and "n_project_id m = pid"
  shows "dep_rel (AList.update (n_id m) (n_scheduled_deps m)
      (map (\<lambda>k. (n_id k, n_scheduled_deps k)) (filter (\<lambda>k. lane_of k = lane_of m) ns))) =
    lane_rel (tab_put m tb) pid (lane_of m)"
proof -
  let ?fs = "filter (\<lambda>k. lane_of k = lane_of m) ns"
  let ?g = "map (\<lambda>k. (n_id k, n_scheduled_deps k)) ?fs"
  have dist: "distinct (keys ?g)" using assms(1) by (simp add: comp_def distinct_map_filter)
  have g: "map_of ?g x = Some ds \<longleftrightarrow> (\<exists>k. tb pid x = Some k \<and> lane_of k = lane_of m \<and> n_scheduled_deps k = ds)" for x ds
    unfolding map_of_eq_Some_iff [OF dist] using assms(2,3) by (auto simp: image_iff)
  have "d \<in> set (deps_of (AList.update (n_id m) (n_scheduled_deps m) ?g) x) \<longleftrightarrow>
     (\<exists>n. tab_put m tb pid x = Some n \<and> lane_of n = lane_of m \<and> d \<in> set (n_scheduled_deps n))" for x d
  proof (cases "x = n_id m")
    case True
    then show ?thesis using assms(4) by (simp add: deps_of_def)
  next
    case False
    then have "d \<in> set (deps_of (AList.update (n_id m) (n_scheduled_deps m) ?g) x) \<longleftrightarrow>
        (\<exists>ds. map_of ?g x = Some ds \<and> d \<in> set ds)"
      by (cases "map_of ?g x") (simp_all add: deps_of_def)
    also have "\<dots> \<longleftrightarrow> (\<exists>k. tb pid x = Some k \<and> lane_of k = lane_of m \<and> d \<in> set (n_scheduled_deps k))"
      unfolding g by blast
    finally show ?thesis using False by simp
  qed
  then show ?thesis by (simp only: dep_rel_def lane_rel_def)
qed

lemma lane_rel_other_lane: "lane \<noteq> lane_of m \<Longrightarrow> lane_rel (tab_put m tb) pid lane \<subseteq> lane_rel tb pid lane"
  by (auto simp: lane_rel_def split: if_splits)

lemma lanes_acyclic_put:
  assumes "lanes_acyclic tb pid" and "acyclic (lane_rel (tab_put m tb) pid (lane_of m))"
  shows "lanes_acyclic (tab_put m tb) pid"
  using assms lane_rel_other_lane [of _ m tb pid] unfolding lanes_acyclic_def by (metis acyclic_subset)

lemma lanes_acyclic_mono:
  assumes "lanes_acyclic tb pid" and "\<And>lane. lane_rel tb' pid lane \<subseteq> lane_rel tb pid lane"
  shows "lanes_acyclic tb' pid"
  using assms acyclic_subset unfolding lanes_acyclic_def by metis

lemma lanes_acyclic_swept: "swept host p lanes tb tb' \<Longrightarrow> lanes_acyclic tb pid \<Longrightarrow> lanes_acyclic tb' pid"
  by (simp add: lanes_acyclic_def swept_lane_rel)

lemma wp_reject_cycle:
  assumes t: "steady w t" and "n_project_id m = pid"
    and "\<And>u. steady w u \<Longrightarrow> acyclic (lane_rel (tab_put m (tab w)) pid (lane_of m)) \<Longrightarrow> Q () u"
    and "\<And>e u. steady w u \<Longrightarrow> E e u"
  shows "wp (reject_cycle pid m) Q E t"
  unfolding reject_cycle_def lane_nodes_with_def wp_simps
proof (rule wp_listing_steady [OF t])
  fix ns u assume u: "steady w u" and ns: "distinct (map n_id ns)" "\<And>n. n \<in> set ns \<longleftrightarrow> tab w pid (n_id n) = Some n"
  have ids: "tab w pid i = Some k \<Longrightarrow> n_id k = i" for i k
    using nodes.tab_ids [OF steadyD(1) [OF t]] by (simp add: steadyD(2) [OF t])
  let ?g = "AList.update (n_id m) (n_scheduled_deps m)
      (map (\<lambda>k. (n_id k, n_scheduled_deps k)) (filter (\<lambda>k. lane_of k = lane_of m) ns))"
  have "dep_rel ?g = lane_rel (tab_put m (tab w)) pid (lane_of m)"
    by (rule lane_graph_rel [where tb = "tab w", OF ns ids assms(2)])
  then have "\<not> has_cycle ?g \<longleftrightarrow> acyclic (lane_rel (tab_put m (tab w)) pid (lane_of m))"
    by (simp add: no_cycle_acyclic)
  then show "if has_cycle ?g then E (ValueError ''scheduled_deps would introduce a cycle in the lane DAG'') u else Q () u"
    using assms(3,4) u by auto
qed

section \<open>Dependencies\<close>

definition in_lane :: "table \<Rightarrow> pystr \<Rightarrow> pystr \<Rightarrow> pystr \<Rightarrow> bool" where
  "in_lane tb pid lane d = (case tb pid d of None \<Rightarrow> False | Some k \<Rightarrow> lane_of k = lane)"

lemma wp_collect_deps:
  assumes "steady w t" and "distinct deps" and "vid \<notin> set deps" and "list_all (in_lane (tab w) pid lane) deps"
    and "\<And>u ds. steady w u \<Longrightarrow> distinct ds \<Longrightarrow> vid \<notin> set ds \<Longrightarrow> list_all (in_lane (tab w) pid lane) ds \<Longrightarrow> Q ds u"
    and "\<And>e u. steady w u \<Longrightarrow> E e u"
  shows "wp (collect_deps pid vid lane deps raws) Q E t"
  using assms
proof (induction raws arbitrary: deps t)
  case Nil
  then show ?case unfolding collect_deps.simps wp_simps by blast
next
  case (Cons raw raws)
  have new: "wp (load pid (strip raw)) (\<lambda>node. wp (case node of
         None \<Rightarrow> raise (ValueError ''scheduled_dep does not resolve'')
       | Some d \<Rightarrow>
           bind (reject_if (lane_of d \<noteq> lane) (ValueError ''scheduled_dep is outside this lane'')) (\<lambda>_.
             collect_deps pid vid lane (deps @ [strip raw]) raws)) Q E) E t"
    if fresh: "strip raw \<noteq> vid" "strip raw \<notin> set deps"
  proof (rule wp_load_steady [OF Cons.prems(1)])
    fix u assume u: "steady w u"
    have "wp (collect_deps pid vid lane (deps @ [strip raw]) raws) Q E u"
      if "tab w pid (strip raw) = Some d" "lane_of d = lane" for d
      by (rule Cons.IH [OF u]) (use Cons.prems fresh that in \<open>simp_all add: in_lane_def\<close>)
    then show "wp (case tab w pid (strip raw) of
         None \<Rightarrow> raise (ValueError ''scheduled_dep does not resolve'')
       | Some d \<Rightarrow>
           bind (reject_if (lane_of d \<noteq> lane) (ValueError ''scheduled_dep is outside this lane'')) (\<lambda>_.
             collect_deps pid vid lane (deps @ [strip raw]) raws)) Q E u"
      using Cons.prems(6) [OF u] by (simp split: option.split)
  qed
  have old: "wp (collect_deps pid vid lane deps raws) Q E t" by (rule Cons.IH [OF Cons.prems])
  show ?case
    unfolding collect_deps.simps wp_simps wp_if using new old Cons.prems(6) [OF Cons.prems(1)] by simp
qed

lemma wp_normalize_deps:
  assumes "steady w t"
    and "\<And>u ds. steady w u \<Longrightarrow> distinct ds \<Longrightarrow> vid \<notin> set ds \<Longrightarrow> list_all (in_lane (tab w) pid lane) ds \<Longrightarrow> Q ds u"
    and "\<And>e u. steady w u \<Longrightarrow> E e u"
  shows "wp (normalize_virtual_scheduled_deps pid vid lane raws) Q E t"
proof (cases raws)
  case None
  then show ?thesis using assms(2) [OF assms(1), of "[]"] by (simp add: normalize_virtual_scheduled_deps_def)
next
  case (Some ds)
  show ?thesis unfolding normalize_virtual_scheduled_deps_def Some option.case
    by (rule wp_collect_deps [OF assms(1)]) (use assms(2,3) in simp_all)
qed

section \<open>Validation\<close>

lemma agent_defaults_more [simp]:
  "n_id (agent_defaults n) = n_id n" "n_project_id (agent_defaults n) = n_project_id n"
  "n_planspace_id (agent_defaults n) = n_planspace_id n" "n_owner_host_id (agent_defaults n) = n_owner_host_id n"
  "n_pending_extra_skills (agent_defaults n) = n_pending_extra_skills n"
  "n_prompt_draft (agent_defaults n) = n_prompt_draft n" "n_created_at (agent_defaults n) = n_created_at n"
  "n_rev (agent_defaults n) = n_rev n" "n_origin_machine_id (agent_defaults n) = n_origin_machine_id n"
  by (simp_all add: agent_defaults_def)

lemma wp_validated:
  assumes "n_kind n = Agent" and "node_wf (agent_defaults n) \<Longrightarrow> Q (agent_defaults n) t" and "\<And>e. E e t"
  shows "wp (validated n) Q E t"
proof (cases "check_invariants n")
  case (Inl e)
  then show ?thesis using assms(3) by (simp add: validated_def wp_result)
next
  case (Inr m)
  then have "accepts n" "m = agent_defaults n"
    using assms(1) by (auto simp: check_invariants_def accepts_def first_issue_passes split: option.splits)
  then show ?thesis using accepts_agent [OF assms(1)] assms(2) Inr by (simp add: validated_def wp_result)
qed

lemma keeps_validated [keeps_intros]: "keeps I (validated n)"
  by (simp add: validated_def)


section \<open>Creating\<close>

text \<open>The draft of a new virtual: what the checks of \<open>create_virtual\<close> have established about it.\<close>

definition draft_ok :: "world \<Rightarrow> pystr \<Rightarrow> node \<Rightarrow> bool" where
  "draft_ok w pid n \<longleftrightarrow> node_wf n \<and> n_project_id n = pid \<and> n_kind n = Agent \<and> n_state n = Virtual \<and>
     lane_of n \<noteq> [] \<and> n_scheduled_deps n = [] \<and>
     (\<forall>r. n_resume_from_node_id n = Some r \<longrightarrow> (\<exists>src. tab w pid r = Some src \<and> lane_of src = lane_of n \<and>
        n_model_preset_id n = map_option strip (n_model_preset_id src)))"

lemma keeps_preset_args [keeps_intros]: "keeps I (preset_arg x)" "keeps I (active_preset_arg y)"
  by (simp_all add: preset_arg_def active_preset_arg_def)

lemma keeps_project_lane [keeps_intros]: "keeps (steady w) (require_project_lane p l)"
  unfolding require_project_lane_def by (intro keeps_intros)

lemma wp_project_lane:
  assumes "steady w t" and "\<And>u. steady w u \<Longrightarrow> Q None u"
    and "\<And>u l. steady w u \<Longrightarrow> l \<noteq> [] \<Longrightarrow> l \<in> set (list_project_planspace_ids (w_lanes w) (p_id p)) \<Longrightarrow> Q (Some l) u"
    and "\<And>e u. steady w u \<Longrightarrow> E e u"
  shows "wp (require_project_lane p l) Q E t"
  using assms wp_keeps [OF keeps_guards(7) assms(1)] steadyD(4) [OF assms(1)]
  unfolding require_project_lane_def by (simp add: Let_def)

lemma wp_create_lane:
  assumes "steady w t"
    and "\<And>u l. steady w u \<Longrightarrow> l \<noteq> [] \<Longrightarrow> l \<in> set (list_project_planspace_ids (w_lanes w) (p_id p)) \<Longrightarrow> Q l u"
    and "\<And>e u. steady w u \<Longrightarrow> E e u"
  shows "wp (resolve_virtual_create_lane p l) Q E t"
  unfolding resolve_virtual_create_lane_def wp_simps
  by (rule wp_project_lane [OF assms(1)]) (use assms(2,3) in simp_all)

lemma keeps_parent [keeps_intros]: "keeps (steady w) (normalize_virtual_parent pid lane x)"
  unfolding normalize_virtual_parent_def by (intro keeps_intros)

lemma wp_resume_source:
  assumes "steady w t" and "\<And>u. steady w u \<Longrightarrow> Q None u"
    and "\<And>u r src. steady w u \<Longrightarrow> r \<noteq> [] \<Longrightarrow> tab w pid r = Some src \<Longrightarrow> n_kind src \<noteq> Op \<Longrightarrow> lane_of src = lane \<Longrightarrow>
      allow \<or> terminal (n_state src) \<Longrightarrow> Q (Some r) u"
    and "\<And>e u. steady w u \<Longrightarrow> E e u"
  shows "wp (normalize_virtual_resume_source pid lane x allow) Q E t"
proof (cases "strip (or_empty x) = []")
  case True
  then show ?thesis using assms(2) [OF assms(1)] by (simp add: normalize_virtual_resume_source_def)
next
  case False
  have "wp (case tab w pid (strip (or_empty x)) of
          None \<Rightarrow> raise (ValueError ''resume_from_node_id does not resolve'')
        | Some source \<Rightarrow>
            bind (reject_if (n_kind source = Op)
              (ValueError ''resume_from_node_id must reference an agent/verifier node'')) (\<lambda>_.
            bind (reject_if (lane_of source \<noteq> lane) (ValueError ''resume_from_node_id is outside this lane'')) (\<lambda>_.
            if allow then ret (Some (strip (or_empty x)))
            else bind (reject_if (\<not> terminal (n_state source))
                (ValueError ''resume_from_node_id must reference a terminal node'')) (\<lambda>_.
              bind (reading (\<lambda>w. can_resume_provider_session w source)) (\<lambda>local.
              andthen (reject_if (\<not> truthy (n_provider_session_id source) \<and> local)
                (ValueError ''resume_from_node_id is not resumable''))
                (ret (Some (strip (or_empty x)))))))) ) Q E u" if "steady w u" for u
    using assms(3) [OF that False] assms(4) [OF that] by (cases "tab w pid (strip (or_empty x))") auto
  then have "wp (load pid (strip (or_empty x))) (\<lambda>node. wp (case node of
          None \<Rightarrow> raise (ValueError ''resume_from_node_id does not resolve'')
        | Some source \<Rightarrow>
            bind (reject_if (n_kind source = Op)
              (ValueError ''resume_from_node_id must reference an agent/verifier node'')) (\<lambda>_.
            bind (reject_if (lane_of source \<noteq> lane) (ValueError ''resume_from_node_id is outside this lane'')) (\<lambda>_.
            if allow then ret (Some (strip (or_empty x)))
            else bind (reject_if (\<not> terminal (n_state source))
                (ValueError ''resume_from_node_id must reference a terminal node'')) (\<lambda>_.
              bind (reading (\<lambda>w. can_resume_provider_session w source)) (\<lambda>local.
              andthen (reject_if (\<not> truthy (n_provider_session_id source) \<and> local)
                (ValueError ''resume_from_node_id is not resumable''))
                (ret (Some (strip (or_empty x)))))))) ) Q E) E t"
    by (rule wp_load_steady [OF assms(1)])
  with False show ?thesis
    unfolding normalize_virtual_resume_source_def Let_def wp_if wp_simps(6) [of "load _ _"] by simp
qed

lemma wp_create_preset:
  assumes "steady w t"
    and "\<And>u q. steady w u \<Longrightarrow> (\<forall>src. source = Some src \<longrightarrow> q = n_model_preset_id src) \<Longrightarrow> Q q u"
    and "\<And>e u. steady w u \<Longrightarrow> E e u"
  shows "wp (create_preset p source a) Q E t"
proof -
  have pr: "wp (preset_arg x) Q' E t" if "\<And>q. Q' q t" for x Q'
    using that assms(3) [OF assms(1)] by (simp add: preset_arg_def wp_result split: sum.split)
  have ac: "wp (active_preset_arg x) Q' E t" if "\<And>q. Q' q t" for x Q'
    using that assms(3) [OF assms(1)] by (simp add: active_preset_arg_def wp_result split: sum.split)
  show ?thesis
  proof (cases source)
    case (Some src)
    then have q: "Q (n_model_preset_id src) t" by (intro assms(2) [OF assms(1)]) simp
    then show ?thesis
      using Some assms(3) [OF assms(1)]
      by (cases "ca_model_preset_id a") (auto simp: create_preset_def intro!: pr)
  next
    case None
    have q: "Q q t" for q using None by (intro assms(2) [OF assms(1)]) simp
    then show ?thesis
      using None by (cases "ca_model_preset_id a") (auto simp: create_preset_def intro!: pr ac)
  qed
qed

lemma keeps_create_guards [keeps_intros]: "keeps (steady w) (create_guards env p pid a)"
  unfolding create_guards_def by (intro keeps_intros)

lemma wp_bindI: "wp m (\<lambda>x. wp (f x) Q E) E t \<Longrightarrow> wp (bind m f) Q E t"
  by simp

lemma wp_bind_keeps:
  assumes "keeps (steady w) m" and "steady w t" and "\<And>x u. steady w u \<Longrightarrow> wp (f x) Q E u"
    and "\<And>e u. steady w u \<Longrightarrow> E e u"
  shows "wp (bind m f) Q E t"
  by (rule wp_bindI, rule wp_keeps [OF assms(1,2)]) (use assms(3,4) in auto)

lemma wp_load_option:
  assumes "steady w t" and "\<And>u src. steady w u \<Longrightarrow> (\<forall>i. r = Some i \<longrightarrow> src = tab w pid i) \<Longrightarrow> Q src u"
  shows "wp (case r of None \<Rightarrow> ret None | Some i \<Rightarrow> load pid i) Q E t"
proof (cases r)
  case None
  then show ?thesis using assms by simp
next
  case (Some i)
  show ?thesis unfolding Some option.case by (rule wp_load_steady [OF assms(1)]) (use Some assms(2) in simp)
qed

lemma draft_node_fields [simp]:
  "n_kind (draft_node pid a lane parent resume preset f art skills nid at) = Agent"
  "n_project_id (draft_node pid a lane parent resume preset f art skills nid at) = pid"
  "n_state (draft_node pid a lane parent resume preset f art skills nid at) = Virtual"
  "n_planspace_id (draft_node pid a lane parent resume preset f art skills nid at) = Some lane"
  "n_scheduled_deps (draft_node pid a lane parent resume preset f art skills nid at) = []"
  "n_resume_from_node_id (draft_node pid a lane parent resume preset f art skills nid at) = resume"
  "n_model_preset_id (draft_node pid a lane parent resume preset f art skills nid at) = preset"
  by (simp_all add: draft_node_def default_node_def split: prod.split)

definition resumes :: "table \<Rightarrow> pystr \<Rightarrow> pystr \<Rightarrow> pystr option \<Rightarrow> pystr option \<Rightarrow> bool" where
  "resumes tb pid lane resume preset \<longleftrightarrow> (\<forall>i. resume = Some i \<longrightarrow>
     (\<exists>src. tb pid i = Some src \<and> lane_of src = lane \<and> preset = n_model_preset_id src))"

lemma wp_create_fields:
  assumes t: "steady w t" and "lane \<noteq> []" and "resumes (tab w) pid lane resume preset"
    and q: "\<And>u n. steady w u \<Longrightarrow> draft_ok w pid n \<Longrightarrow> Q n u" and err: "\<And>e u. steady w u \<Longrightarrow> E e u"
  shows "wp (create_fields env pid a lane parent resume preset) Q E t"
proof -
  have last: "wp (validated (draft_node pid a lane parent resume preset f art skills nid at)) Q E u"
    if u: "steady w u" for u f art skills nid at
  proof (rule wp_validated)
    assume "node_wf (agent_defaults (draft_node pid a lane parent resume preset f art skills nid at))"
    then have "draft_ok w pid (agent_defaults (draft_node pid a lane parent resume preset f art skills nid at))"
      using assms(2,3) by (auto simp: draft_ok_def resumes_def)
    then show "Q (agent_defaults (draft_node pid a lane parent resume preset f art skills nid at)) u"
      by (rule q [OF u])
  qed (simp_all add: err [OF u])
  show ?thesis
    unfolding create_fields_def using t
    by (intro wp_bind_keeps [OF _ _ _ err] last; (assumption | (intro keeps_intros)[1])?)
qed

lemma wp_create_draft:
  assumes t: "steady w t" and q: "\<And>u n. steady w u \<Longrightarrow> draft_ok w pid n \<Longrightarrow> Q n u"
    and err: "\<And>e u. steady w u \<Longrightarrow> E e u"
  shows "wp (create_draft env p pid a) Q E t"
  unfolding create_draft_def
proof (rule wp_bind_keeps [OF keeps_create_guards t _ err], rule wp_bindI, erule wp_create_lane [OF _ _ err],
    erule wp_bind_keeps [OF keeps_parent _ _ err], rule wp_bindI, erule wp_resume_source [OF _ _ _ err])
  fix lane :: pystr and parent and u assume u: "steady w u" and lane: "lane \<noteq> []"
  show "wp (bind (case None of None \<Rightarrow> ret None | Some r \<Rightarrow> load pid r) (\<lambda>source.
     bind (create_preset p source a) (create_fields env pid a lane parent None))) Q E u"
    by (rule wp_bindI, rule wp_load_option [OF u], rule wp_bindI, erule wp_create_preset [OF _ _ err],
        erule wp_create_fields [OF _ lane _ q err]) (simp add: resumes_def)
next
  fix lane :: pystr and parent and u r src
  assume u: "steady w u" and lane: "lane \<noteq> []" and r: "tab w pid r = Some src" "lane_of src = lane"
  show "wp (bind (case Some r of None \<Rightarrow> ret None | Some r \<Rightarrow> load pid r) (\<lambda>source.
     bind (create_preset p source a) (create_fields env pid a lane parent (Some r)))) Q E u"
    by (rule wp_bindI, rule wp_load_option [OF u], rule wp_bindI, erule wp_create_preset [OF _ _ err],
        erule wp_create_fields [OF _ lane _ q err]) (use r in \<open>simp add: resumes_def\<close>)
qed

definition new_virtual :: "world \<Rightarrow> pystr \<Rightarrow> node \<Rightarrow> bool" where
  "new_virtual w pid m \<longleftrightarrow> tab w pid (n_id m) = None \<and> n_project_id m = pid \<and> n_kind m = Agent \<and>
     n_state m = Virtual \<and> node_wf m \<and> n_owner_host_id m = machine w \<and> lane_of m \<noteq> [] \<and>
     distinct (n_scheduled_deps m) \<and> n_id m \<notin> set (n_scheduled_deps m) \<and>
     list_all (in_lane (tab w) pid (lane_of m)) (n_scheduled_deps m) \<and>
     acyclic (lane_rel (tab_put m (tab w)) pid (lane_of m)) \<and>
     (\<forall>r. n_resume_from_node_id m = Some r \<longrightarrow> (\<exists>src. tab w pid r = Some src \<and> lane_of src = lane_of m \<and>
        n_model_preset_id m = map_option strip (n_model_preset_id src)))"

definition auto_lanes :: "world \<Rightarrow> pystr set" where
  "auto_lanes w = {lane. \<exists>q. read_planspace_mode (w_lanes w) q lane = Auto}"

definition then_swept :: "world \<Rightarrow> pystr \<Rightarrow> table \<Rightarrow> world \<Rightarrow> bool" where
  "then_swept w pid tb u \<longleftrightarrow> host_same w u \<and> swept (machine w) pid (auto_lanes w) tb (tab u)"

lemma swept_mono: "swept host pid A tb tb' \<Longrightarrow> A \<subseteq> B \<Longrightarrow> swept host pid B tb tb'"
  by (induction rule: swept.induct) (auto intro: swept.intros)

lemma auto_lane_ids_sub: "w_lanes t = w_lanes w \<Longrightarrow> set (auto_lane_ids t p) \<subseteq> auto_lanes w"
  by (auto simp: auto_lane_ids_def auto_lanes_def)

lemma wrote_then_swept: "wrote w m t \<Longrightarrow> then_swept w pid (tab_put m (tab w)) t"
  by (simp add: wrote_def then_swept_def swept.intros)

lemma sweeping_then_swept:
  assumes t: "wrote w m t" and u: "sweeping t pid A u" and A: "A \<subseteq> auto_lanes w"
  shows "then_swept w pid (tab_put m (tab w)) u"
  using t u swept_mono [OF _ A] host_same_trans [of w t u]
  by (auto simp: then_swept_def sweeping_def wrote_def host_same_def)

lemma wp_sweep_if_auto:
  assumes t: "wrote w m t" and so: "sources_ok pid (tab t)" and p: "n_project_id m = pid"
    and q: "\<And>u k. then_swept w pid (tab_put m (tab w)) u \<Longrightarrow> tab u pid (n_id m) = Some k \<Longrightarrow> Q (Some k) u"
    and err: "\<And>e u. then_swept w pid (tab_put m (tab w)) u \<Longrightarrow> enabled \<Longrightarrow> lane_of m \<in> auto_lanes w \<Longrightarrow> E e u"
  shows "wp (sweep_if_auto env pr pid enabled m) Q E t"
proof (cases "enabled \<and> lane_of m \<noteq> [] \<and> read_planspace_mode (w_lanes t) (p_id pr) (lane_of m) = Auto")
  case False
  have "tab t pid (n_id m) = Some m" using t p by (simp add: wrote_def)
  then show ?thesis using False q [OF wrote_then_swept [OF t]] by (auto simp: sweep_if_auto_def)
next
  case True
  have lanes: "w_lanes t = w_lanes w" and ok: "world_ok t" using t by (simp_all add: wrote_def host_same_def)
  let ?A = "case get_project t pid of None \<Rightarrow> {} | Some p \<Rightarrow> set (auto_lane_ids t p)"
  have A: "?A \<subseteq> auto_lanes w" using auto_lane_ids_sub [OF lanes] by (simp split: option.split)
  have auto: "lane_of m \<in> auto_lanes w" using True lanes by (auto simp: auto_lanes_def)
  have "wp (auto_promote_eligible_virtuals env pid) (\<lambda>_. wp (bind (load pid (n_id m)) (\<lambda>stored.
      ret (Some (case stored of None \<Rightarrow> m | Some s \<Rightarrow> s)))) Q E) E t"
  proof (rule wp_mono [OF wp_auto_promote [OF ok so]])
    fix x u assume u: "sweeping t pid ?A u"
    show "wp (bind (load pid (n_id m)) (\<lambda>stored. ret (Some (case stored of None \<Rightarrow> m | Some s \<Rightarrow> s)))) Q E u"
      unfolding wp_simps(6)
    proof (rule wp_load_steady [OF steady_refl [OF sweepingD(1) [OF u]]])
      fix v assume v: "steady u v"
      have sw: "then_swept w pid (tab_put m (tab w)) v"
        by (rule sweeping_then_swept [OF t sweeping_steady [OF u v] A])
      have "tab_put m (tab w) pid (n_id m) = Some m" using p by simp
      then obtain k where k: "tab v pid (n_id m) = Some k"
        using swept_nodes [of "machine w" pid "auto_lanes w" "tab_put m (tab w)" "tab v" "n_id m"] sw
        unfolding then_swept_def by (metis (no_types))
      then show "wp (ret (Some (case tab u pid (n_id m) of None \<Rightarrow> m | Some s \<Rightarrow> s))) Q E v"
        using q [OF sw k] v by (simp add: steadyD)
    qed
  next
    fix e u assume "sweeping t pid ?A u"
    then show "E e u" using True by (intro err sweeping_then_swept [OF t _ A] auto) simp_all
  qed
  with True show ?thesis by (simp add: sweep_if_auto_def)
qed

lemma usable_of_stripped: "usable_preset m \<Longrightarrow> trimmed_preset src \<Longrightarrow>
    n_model_preset_id m = map_option strip (n_model_preset_id src) \<Longrightarrow> usable_preset src"
  by (cases "n_model_preset_id src") (auto simp: usable_preset_def trimmed_preset_def)

lemma sources_ok_new:
  assumes "sources_ok pid (tab w)" and new: "new_virtual w pid m"
  shows "sources_ok pid (tab_put m (tab w))"
proof -
  have m: "usable_preset m" "trimmed_preset m" using new agent_usable usable_trimmed by (auto simp: new_virtual_def)
  have "usable_preset src"
    if n: "tab_put m (tab w) pid i = Some n" "n_state n = Virtual" "truthy (n_resume_from_node_id n)"
      and src: "tab_put m (tab w) pid (or_empty (n_resume_from_node_id n)) = Some src" for i n src
  proof (cases "src = m")
    case False
    then have s: "tab w pid (or_empty (n_resume_from_node_id n)) = Some src" using src new by (simp add: new_virtual_def split: if_splits)
    show ?thesis
    proof (cases "i = n_id m")
      case True
      obtain r where "n_resume_from_node_id n = Some r" using n(3) by (auto simp: truthy_iff)
      then show ?thesis
        using True n(1) s new m(1) assms(1) usable_of_stripped [of m src]
        by (auto simp: new_virtual_def sources_ok_def)
    next
      case False
      then show ?thesis using n s assms(1) new by (auto simp: sources_ok_def new_virtual_def)
    qed
  qed (use m in simp)
  then show ?thesis using assms(1) m(2) unfolding sources_ok_def by (auto split: if_splits)
qed

lemma wp_create_checked:
  assumes t: "steady w t" and d: "draft_ok w pid n"
    and q: "\<And>u m. steady w u \<Longrightarrow> new_virtual w pid (m\<lparr>n_owner_host_id := machine w\<rparr>) \<Longrightarrow> Q m u"
    and err: "\<And>e u. steady w u \<Longrightarrow> E e u"
  shows "wp (create_checked pid a n) Q E t"
  unfolding create_checked_def
proof (rule wp_bindI, rule wp_load_steady [OF t])
  fix u assume u: "steady w u"
  have body: "wp (bind (normalize_virtual_scheduled_deps pid (n_id n) (lane_of n) (ca_scheduled_deps a)) (\<lambda>deps.
     bind (validated (n\<lparr>n_scheduled_deps := deps\<rparr>)) (\<lambda>m. andthen (reject_cycle pid m) (ret m)))) Q E u"
    if fresh: "tab w pid (n_id n) = None"
  proof (rule wp_bindI, rule wp_normalize_deps [OF u _ err])
    fix v ds assume v: "steady w v" and ds: "distinct ds" "n_id n \<notin> set ds" "list_all (in_lane (tab w) pid (lane_of n)) ds"
    show "wp (bind (validated (n\<lparr>n_scheduled_deps := ds\<rparr>)) (\<lambda>m. andthen (reject_cycle pid m) (ret m))) Q E v"
    proof (rule wp_bindI, rule wp_validated)
      let ?m = "agent_defaults (n\<lparr>n_scheduled_deps := ds\<rparr>)"
      assume wf: "node_wf ?m"
      have "wp (reject_cycle pid ?m) (\<lambda>_. wp (ret ?m) Q E) E v"
      proof (rule wp_reject_cycle [OF v _ _ err])
        show "n_project_id ?m = pid" using d by (simp add: draft_ok_def)
        fix v' assume v': "steady w v'" and ac: "acyclic (lane_rel (tab_put ?m (tab w)) pid (lane_of ?m))"
        have rel: "lane_rel (tab_put (?m\<lparr>n_owner_host_id := machine w\<rparr>) (tab w)) pid (lane_of n) =
            lane_rel (tab_put ?m (tab w)) pid (lane_of n)"
          by (rule set_eqI) (auto simp: lane_rel_def)
        have "n_model_preset_id ?m = map_option strip (n_model_preset_id n)" by simp
        then have "new_virtual w pid (?m\<lparr>n_owner_host_id := machine w\<rparr>)"
          using d wf ds fresh ac rel by (auto simp: new_virtual_def draft_ok_def option.map_comp comp_def)
        from q [OF v' this] show "wp (ret ?m) Q E v'" by simp
      qed
      then show "wp (andthen (reject_cycle pid ?m) (ret ?m)) Q E v" by simp
    qed (use d err [OF v] in \<open>simp_all add: draft_ok_def\<close>)
  qed
  show "wp (bind (reject_if (tab w pid (n_id n) \<noteq> None) (ValueError ''node id already exists'')) (\<lambda>_.
     bind (normalize_virtual_scheduled_deps pid (n_id n) (lane_of n) (ca_scheduled_deps a)) (\<lambda>deps.
     bind (validated (n\<lparr>n_scheduled_deps := deps\<rparr>)) (\<lambda>m. andthen (reject_cycle pid m) (ret m))))) Q E u"
    by (rule wp_bindI) (use body err [OF u] in simp)
qed

lemma wp_insert_new:
  assumes t: "steady w t" and n: "new_virtual w pid (n\<lparr>n_owner_host_id := machine w\<rparr>)"
    and q: "\<And>u m. wrote w m u \<Longrightarrow> new_virtual w pid m \<Longrightarrow> Q m u" and err: "\<And>e u. steady w u \<Longrightarrow> E e u"
  shows "wp (insert_node n) Q E t"
proof (rule nodes.wp_create [OF steadyD(1) [OF t]])
  show "node_wf n" using n by (simp add: new_virtual_def)
  show "tab t (n_project_id n) (n_id n) = None" using n t by (simp add: new_virtual_def steadyD)
  fix u m assume u: "world_ok u" "frame u = frame t" "tab u = tab_put m (tab t)"
    and m: "m = n\<lparr>n_origin_machine_id := (if n_origin_machine_id n = [] then machine t else n_origin_machine_id n),
            n_owner_host_id := machine t\<rparr>"
  have rel: "lane_rel (tab_put m (tab w)) pid (lane_of n) =
      lane_rel (tab_put (n\<lparr>n_owner_host_id := machine w\<rparr>) (tab w)) pid (lane_of n)"
    by (rule set_eqI) (auto simp: lane_rel_def m)
  have "host_same w u" using frame_host_same [OF u(1,2)] steadyD(7) [OF t] host_same_trans by blast
  then have "wrote w m u" using u(3) t by (simp add: wrote_def steadyD)
  moreover have "new_virtual w pid m"
    using n m rel steadyD(3) [OF t] by (simp add: new_virtual_def)
  ultimately show "Q m u" by (rule q)
qed (rule err [OF t])

lemma wp_try_preview_wrote:
  assumes "wrote w m t" and "\<And>u. wrote w m u \<Longrightarrow> Q () u"
  shows "wp (try_virtual_preview pid n) Q E t"
  unfolding try_virtual_preview_def wp_simps(8)
  by (rule wp_write_virtual_preview [OF wrote_self [OF assms(1)]])
    (use assms wrote_steady in auto)

text \<open>What \<open>create_virtual\<close> may leave: nothing, or the new node followed by a sweep of the auto lanes.\<close>

lemma wp_create_virtual:
  assumes w: "world_ok w" and so: "sources_ok pid (tab w)"
    and none: "\<And>u. steady w u \<Longrightarrow> Q None u"
    and some: "\<And>u m k. new_virtual w pid m \<Longrightarrow> then_swept w pid (tab_put m (tab w)) u \<Longrightarrow>
      tab u pid (n_id m) = Some k \<Longrightarrow> Q (Some k) u"
    and err: "\<And>e u. steady w u \<Longrightarrow> E e u"
    and late: "\<And>e u m. new_virtual w pid m \<Longrightarrow> then_swept w pid (tab_put m (tab w)) u \<Longrightarrow>
      \<not> ca_defer_auto_promotion a \<Longrightarrow> lane_of m \<in> auto_lanes w \<Longrightarrow> E e u"
  shows "wp (create_virtual env pid a) Q E w"
proof (cases "runtime_of w pid")
  case None
  then show ?thesis using none [OF steady_refl [OF w]] by (simp add: create_virtual_def)
next
  case (Some rt)
  have tail: "wp (bind (try_virtual_preview pid m) (\<lambda>_. bind (notify pid (NodeUpdated m)) (\<lambda>_.
      sweep_if_auto env p pid (\<not> ca_defer_auto_promotion a) m))) Q E u"
    if u: "wrote w m u" and m: "new_virtual w pid m" for p m u
  proof (rule wp_bindI, rule wp_try_preview_wrote [OF u], rule wp_bindI, erule wp_notify_wrote)
    fix v assume v: "wrote w m v"
    show "wp (sweep_if_auto env p pid (\<not> ca_defer_auto_promotion a) m) Q E v"
    proof (rule wp_sweep_if_auto [OF v])
      show "sources_ok pid (tab v)" using sources_ok_new [OF so m] v by (simp add: wrote_def)
    qed (use m some late in \<open>simp_all add: new_virtual_def\<close>)
  qed
  have "wp (bind (require_unarchived env pid) (\<lambda>p.
         bind (create_draft env p pid a) (\<lambda>draft.
         bind (create_checked pid a draft) (\<lambda>n.
         bind (insert_node n) (\<lambda>m.
         bind (try_virtual_preview pid m) (\<lambda>_.
         bind (notify pid (NodeUpdated m)) (\<lambda>_.
         sweep_if_auto env p pid (\<not> ca_defer_auto_promotion a) m))))))) Q E w"
    by (rule wp_bind_keeps [OF keeps_guards(3) steady_refl [OF w] _ err], rule wp_bindI,
        erule wp_create_draft [OF _ _ err], rule wp_bindI, erule (1) wp_create_checked [OF _ _ _ err],
        rule wp_bindI, erule (1) wp_insert_new [OF _ _ _ err], erule (1) tail)
  with Some show ?thesis by (simp add: create_virtual_def)
qed

section \<open>Editing\<close>

definition edited :: "world \<Rightarrow> pystr \<Rightarrow> node \<Rightarrow> node \<Rightarrow> bool" where
  "edited w pid n m \<longleftrightarrow> n_id m = n_id n \<and> n_project_id m = n_project_id n \<and> n_planspace_id m = n_planspace_id n \<and>
     n_owner_host_id m = n_owner_host_id n \<and> n_kind m = Agent \<and> n_state m = Virtual \<and> node_wf m \<and>
     n_resume_from_node_id m = n_resume_from_node_id n \<and>
     acyclic (lane_rel (tab_put m (tab w)) pid (lane_of m)) \<and>
     (n_scheduled_deps m = n_scheduled_deps n \<or>
       distinct (n_scheduled_deps m) \<and> n_id m \<notin> set (n_scheduled_deps m) \<and>
       list_all (in_lane (tab w) pid (lane_of m)) (n_scheduled_deps m))"

definition same_place :: "node \<Rightarrow> node \<Rightarrow> bool" where
  "same_place n u \<longleftrightarrow> n_id u = n_id n \<and> n_project_id u = n_project_id n \<and> n_planspace_id u = n_planspace_id n \<and>
     n_owner_host_id u = n_owner_host_id n \<and> n_kind u = n_kind n \<and> n_state u = n_state n \<and>
     n_resume_from_node_id u = n_resume_from_node_id n"

lemma same_place_texts: "same_place n (with_texts a n)"
  by (auto simp: same_place_def with_texts_def Let_def split: arg.split)

lemma same_place_review: "same_place n u \<Longrightarrow> same_place n (with_review a f r u)"
  by (simp add: same_place_def with_review_def split: prod.split)

lemma keeps_update_parts [keeps_intros]:
  "keeps (steady w) (update_target env pid a f)" "keeps (steady w) (check_expected_mode p n a)"
proof -
  show "keeps (steady w) (update_target env pid a f)"
    unfolding update_target_def by (intro keeps_intros)
  show "keeps (steady w) (check_expected_mode p n a)"
    unfolding check_expected_mode_def
    by (cases "ua_expected_mode a") (auto intro!: keeps_intros split: option.split)
qed

lemma keeps_update_preset [keeps_intros]: "keeps (steady w) (update_preset pid a n)"
  unfolding update_preset_def
  by (cases "ua_model_preset_id a") (auto intro!: keeps_intros split: option.split)

lemma wp_update_deps:
  assumes t: "steady w t"
    and q: "\<And>u ds. steady w u \<Longrightarrow> ds = n_scheduled_deps n \<or> distinct ds \<and> n_id n \<notin> set ds \<and>
      list_all (in_lane (tab w) pid (lane_of n)) ds \<Longrightarrow> Q ds u"
    and err: "\<And>e u. steady w u \<Longrightarrow> E e u"
  shows "wp (case ua_scheduled_deps a of Unset \<Rightarrow> ret (n_scheduled_deps n)
       | Given ds \<Rightarrow> normalize_virtual_scheduled_deps pid (n_id n) (lane_of n) ds) Q E t"
proof (cases "ua_scheduled_deps a")
  case Unset
  then show ?thesis using q [OF t] by simp
next
  case (Given ds)
  show ?thesis unfolding Given arg.case by (rule wp_normalize_deps [OF t _ err]) (rule q, assumption, blast)
qed

lemma keeps_update_skills [keeps_intros]:
  "keeps (steady w) (case ua_extra_skills a of Unset \<Rightarrow> ret x | Given j \<Rightarrow> result (f j))"
  by (cases "ua_extra_skills a") simp_all

definition drafted :: "world \<Rightarrow> pystr \<Rightarrow> node \<Rightarrow> node \<Rightarrow> bool" where
  "drafted w pid n m \<longleftrightarrow> same_place n m \<and> node_wf m \<and> (n_scheduled_deps m = n_scheduled_deps n \<or>
     distinct (n_scheduled_deps m) \<and> n_id m \<notin> set (n_scheduled_deps m) \<and>
     list_all (in_lane (tab w) pid (lane_of m)) (n_scheduled_deps m))"

lemma wp_update_draft:
  assumes t: "steady w t" and n: "n_kind n = Agent"
    and q: "\<And>u m. steady w u \<Longrightarrow> drafted w pid n m \<Longrightarrow> Q m u"
    and err: "\<And>e u. steady w u \<Longrightarrow> E e u"
  shows "wp (update_draft env p pid a n) Q E t"
proof -
  have last: "wp (validated (x\<lparr>n_agent_op_kind := k, n_scheduled_deps := deps, n_pending_extra_principles := ps,
       n_pending_extra_skills := skills, n_qa_mode := qa, n_diff_review := dr,
       n_artifact_mode := mode, n_artifact_spec := spec, n_model_preset_id := preset\<rparr>)) Q E u"
    if u: "steady w u" and x: "same_place n x" and deps: "deps = n_scheduled_deps n \<or> distinct deps \<and> n_id n \<notin> set deps \<and>
      list_all (in_lane (tab w) pid (lane_of n)) deps"
    for u x k deps ps skills qa dr mode spec preset
  proof (rule wp_validated)
    let ?y = "agent_defaults (x\<lparr>n_agent_op_kind := k, n_scheduled_deps := deps, n_pending_extra_principles := ps,
       n_pending_extra_skills := skills, n_qa_mode := qa, n_diff_review := dr,
       n_artifact_mode := mode, n_artifact_spec := spec, n_model_preset_id := preset\<rparr>)"
    assume "node_wf ?y"
    moreover have "same_place n ?y" using x by (simp add: same_place_def)
    ultimately have "drafted w pid n ?y" using deps x by (auto simp: drafted_def same_place_def)
    then show "Q ?y u" by (rule q [OF u])
  qed (use x n err [OF u] in \<open>simp_all add: same_place_def\<close>)
  have art: "wp (case art of (mode, spec) \<Rightarrow> bind (reject_if b e) (\<lambda>_. bind (update_preset pid a n) (\<lambda>preset.
     validated (x\<lparr>n_agent_op_kind := k, n_scheduled_deps := deps, n_pending_extra_principles := ps,
       n_pending_extra_skills := skills, n_qa_mode := qa, n_diff_review := dr,
       n_artifact_mode := mode, n_artifact_spec := spec, n_model_preset_id := preset\<rparr>)))) Q E u"
    if "steady w u" "same_place n x" "deps = n_scheduled_deps n \<or> distinct deps \<and> n_id n \<notin> set deps \<and>
      list_all (in_lane (tab w) pid (lane_of n)) deps"
    for u art b e x k deps ps skills qa dr
  proof (cases art)
    case (Pair mode spec)
    show ?thesis unfolding Pair prod.case
      by (rule wp_bind_keeps [OF _ that(1) _ err], simp, rule wp_bind_keeps [OF keeps_update_preset _ _ err],
          assumption, erule last [OF _ that(2,3)])
  qed
  have place: "same_place n (with_review a f r (with_texts a n))" for f r
    by (rule same_place_review [OF same_place_texts])
  show ?thesis
    unfolding update_draft_def Let_def
    by (rule wp_bind_keeps [OF keeps_basic(5) t _ err], erule wp_bind_keeps [OF keeps_update_parts(1) _ _ err],
        erule wp_bind_keeps [OF keeps_basic(5) _ _ err], erule wp_bind_keeps [OF keeps_basic(6) _ _ err],
        rule wp_bindI, erule wp_update_deps [OF _ _ err], erule wp_bind_keeps [OF keeps_update_skills _ _ err],
        erule wp_bind_keeps [OF keeps_basic(6) _ _ err], erule wp_bind_keeps [OF keeps_basic(6) _ _ err],
        rule wp_bind_keeps [OF keeps_basic(5) _ _ err], assumption, erule art [OF _ place])
qed

lemma sources_ok_edited:
  assumes so: "sources_ok pid (tab w)" and n: "tab w pid (n_id n) = Some n" "n_state n = Virtual"
    and m: "edited w pid n m" "n_project_id n = pid"
  shows "sources_ok pid (tab_put m (tab w))"
proof -
  have ok: "usable_preset m" "trimmed_preset m" using m agent_usable usable_trimmed by (auto simp: edited_def)
  have e: "n_id m = n_id n" "n_project_id m = pid" "n_resume_from_node_id m = n_resume_from_node_id n"
    "n_state m = Virtual" using m by (simp_all add: edited_def)
  have "usable_preset src"
    if k: "tab_put m (tab w) pid i = Some k" "n_state k = Virtual" "truthy (n_resume_from_node_id k)"
      and src: "tab_put m (tab w) pid (or_empty (n_resume_from_node_id k)) = Some src" for i k src
  proof (cases "src = m")
    case False
    then have s: "tab w pid (or_empty (n_resume_from_node_id k)) = Some src" using src e by (simp split: if_splits)
    show ?thesis
    proof (cases "k = m")
      case True
      then show ?thesis using s k(3) n so e unfolding sources_ok_def by metis
    next
      case False
      then have "tab w pid i = Some k" using k(1) e by (simp split: if_splits)
      then show ?thesis using s k so unfolding sources_ok_def by blast
    qed
  qed (use ok in simp)
  then show ?thesis using so ok(2) unfolding sources_ok_def by (auto split: if_splits)
qed

lemma wp_update_checked:
  assumes t: "steady w t" and n: "tab w pid (n_id n) = Some n" "n_kind n = Agent" "n_state n = Virtual"
      "n_owner_host_id n = machine w" "n_project_id n = pid"
    and so: "sources_ok pid (tab w)"
    and some: "\<And>u m k. edited w pid n m \<Longrightarrow> then_swept w pid (tab_put m (tab w)) u \<Longrightarrow>
      tab u pid (n_id m) = Some k \<Longrightarrow> Q (Some k) u"
    and err: "\<And>e u. steady w u \<Longrightarrow> E e u"
    and late: "\<And>e u m. edited w pid n m \<Longrightarrow> then_swept w pid (tab_put m (tab w)) u \<Longrightarrow>
      lane_of m \<in> auto_lanes w \<Longrightarrow> E e u"
  shows "wp (update_checked env p pid a n) Q E t"
  unfolding update_checked_def
proof (rule wp_bind_keeps [OF keeps_update_parts(2) t _ err], rule wp_bindI, erule wp_update_draft [OF _ n(2) _ err],
    rule wp_bindI)
  fix u m assume u: "steady w u" and m: "drafted w pid n m"
  have place: "n_id m = n_id n" "n_project_id m = pid" "n_owner_host_id m = machine w" "node_wf m"
    using m n by (simp_all add: drafted_def same_place_def)
  show "wp (reject_cycle pid m) (\<lambda>_. wp (bind (save m) (\<lambda>m. bind (try_virtual_preview pid m) (\<lambda>_.
     bind (notify pid (NodeUpdated m)) (\<lambda>_. sweep_if_auto env p pid True m)))) Q E) E u"
  proof (rule wp_reject_cycle [OF u place(2) _ err], rule wp_bindI, erule wp_save_steady [OF _ place(4) _ _ place(3) _ err])
    show "tab w (n_project_id m) (n_id m) = Some n" using n(1) place by simp
    show "n_owner_host_id n = machine w" by (rule n(4))
    fix v k assume ac: "acyclic (lane_rel (tab_put m (tab w)) pid (lane_of m))"
      and k: "k = m\<lparr>n_rev := max (n_rev m) (n_rev n) + 1\<rparr>" and v: "wrote w k v"
    have "lane_rel (tab_put k (tab w)) pid (lane_of m) = lane_rel (tab_put m (tab w)) pid (lane_of m)"
      by (rule set_eqI) (auto simp: lane_rel_def k)
    moreover have "node_wf k" by (rule node_wf_transfer [OF place(4)])
      (use k place(4) agent_usable [of m] verifier_prompt [of m] virtual_times [of m] in \<open>simp_all add: usable_preset_def\<close>)
    ultimately have ed: "edited w pid n k"
      using m n ac k by (auto simp: drafted_def edited_def same_place_def)
    show "wp (bind (try_virtual_preview pid k) (\<lambda>_.
     bind (notify pid (NodeUpdated k)) (\<lambda>_. sweep_if_auto env p pid True k))) Q E v"
    proof (rule wp_bindI, rule wp_try_preview_wrote [OF v], rule wp_bindI, erule wp_notify_wrote)
      fix v' assume v': "wrote w k v'"
      show "wp (sweep_if_auto env p pid True k) Q E v'"
      proof (rule wp_sweep_if_auto [OF v'])
        show "sources_ok pid (tab v')" using sources_ok_edited [OF so n(1,3) ed n(5)] v' by (simp add: wrote_def)
        show "n_project_id k = pid" using k place by simp
      qed (rule some [OF ed] late [OF ed]; assumption)+
    qed
  qed
qed

lemma wp_update_virtual:
  assumes w: "world_ok w" and so: "sources_ok pid (tab w)"
    and none: "\<And>u. steady w u \<Longrightarrow> Q None u"
    and some: "\<And>u n m k. tab w pid vid = Some n \<Longrightarrow> n_state n = Virtual \<Longrightarrow> n_owner_host_id n = machine w \<Longrightarrow>
      edited w pid n m \<Longrightarrow> then_swept w pid (tab_put m (tab w)) u \<Longrightarrow> tab u pid vid = Some k \<Longrightarrow> Q (Some k) u"
    and err: "\<And>e u. steady w u \<Longrightarrow> E e u"
    and late: "\<And>e u n m. tab w pid vid = Some n \<Longrightarrow> n_state n = Virtual \<Longrightarrow> n_owner_host_id n = machine w \<Longrightarrow>
      edited w pid n m \<Longrightarrow> then_swept w pid (tab_put m (tab w)) u \<Longrightarrow> lane_of m \<in> auto_lanes w \<Longrightarrow> E e u"
  shows "wp (update_virtual env pid vid a) Q E w"
proof (cases "runtime_of w pid")
  case None
  then show ?thesis using none [OF steady_refl [OF w]] by (simp add: update_virtual_def)
next
  case (Some rt)
  have body: "wp (bind (require_unarchived_lane p (n_planspace_id n)) (\<lambda>_.
               bind (require_native_node n) (\<lambda>_.
               if n_kind n \<noteq> Agent \<or> n_state n \<noteq> Virtual then ret None
               else update_checked env p pid a n))) Q E u"
    if u: "steady w u" and n: "tab w pid vid = Some n" for p n u
  proof (rule wp_bind_keeps [OF keeps_guards(7) u _ err], rule wp_bindI, rule wp_require_native_node, assumption)
    fix v assume v: "steady w v" and own: "n_owner_host_id n = machine w"
    have ids: "n_id n = vid" "n_project_id n = pid" using nodes.tab_ids [OF w n] by auto
    have "wp (update_checked env p pid a n) Q E v" if "n_kind n = Agent" "n_state n = Virtual"
      by (rule wp_update_checked [OF v _ that own ids(2) so _ err])
        (use n ids some [OF n that(2) own] late [OF n that(2) own] in \<open>simp_all add: edited_def\<close>)
    then show "wp (if n_kind n \<noteq> Agent \<or> n_state n \<noteq> Virtual then ret None
               else update_checked env p pid a n) Q E v" using none [OF v] by simp
  next
    fix v e assume "steady w v" then show "E e v" by (rule err)
  qed
  have "wp (bind (require_unarchived env pid) (\<lambda>p.
         bind (load pid vid) (\<lambda>existing. case existing of
             None \<Rightarrow> ret None
           | Some n \<Rightarrow>
               bind (require_unarchived_lane p (n_planspace_id n)) (\<lambda>_.
               bind (require_native_node n) (\<lambda>_.
               if n_kind n \<noteq> Agent \<or> n_state n \<noteq> Virtual then ret None
               else update_checked env p pid a n))))) Q E w"
  proof (rule wp_bind_keeps [OF keeps_guards(3) steady_refl [OF w] _ err], rule wp_bindI, erule wp_load_steady)
    fix p u assume u: "steady w u"
    show "wp (case tab w pid vid of
             None \<Rightarrow> ret None
           | Some n \<Rightarrow>
               bind (require_unarchived_lane p (n_planspace_id n)) (\<lambda>_.
               bind (require_native_node n) (\<lambda>_.
               if n_kind n \<noteq> Agent \<or> n_state n \<noteq> Virtual then ret None
               else update_checked env p pid a n))) Q E u"
      using none [OF u] body [OF u] by (cases "tab w pid vid") simp_all
  qed
  with Some show ?thesis by (simp add: update_virtual_def)
qed

section \<open>Deleting\<close>

definition attached :: "world \<Rightarrow> pystr \<Rightarrow> node \<Rightarrow> bool" where
  "attached w vid n \<longleftrightarrow> n_owner_host_id n = machine w \<and> depends_on vid n"

definition cut :: "pystr \<Rightarrow> node \<Rightarrow> node \<Rightarrow> bool" where
  "cut vid n m \<longleftrightarrow> (\<exists>r. m = n\<lparr>n_scheduled_deps := filter (\<lambda>d. d \<noteq> vid) (n_scheduled_deps n), n_rev := r\<rparr>)"

text \<open>
  A pass over the nodes of a project: the selected records among \<open>ids\<close> are related to the old ones by
  \<open>rel\<close>, every other record is the old one.
\<close>

definition rewritten ::
  "table \<Rightarrow> pystr \<Rightarrow> (node \<Rightarrow> bool) \<Rightarrow> (node \<Rightarrow> node \<Rightarrow> bool) \<Rightarrow> pystr set \<Rightarrow> table \<Rightarrow> bool" where
  "rewritten old pid sel rel ids tb \<longleftrightarrow> (\<forall>q i. old q i = None \<longrightarrow> tb q i = None) \<and>
     (\<forall>q i n. old q i = Some n \<longrightarrow>
       (if q = pid \<and> i \<in> ids \<and> sel n then \<exists>m. tb q i = Some m \<and> rel n m else tb q i = Some n))"

abbreviation detached :: "world \<Rightarrow> pystr \<Rightarrow> pystr \<Rightarrow> pystr set \<Rightarrow> table \<Rightarrow> bool" where
  "detached w pid vid \<equiv> rewritten (tab w) pid (attached w vid) (cut vid)"

definition detaching :: "world \<Rightarrow> pystr \<Rightarrow> pystr \<Rightarrow> pystr set \<Rightarrow> world \<Rightarrow> bool" where
  "detaching w pid vid ids u \<longleftrightarrow> host_same w u \<and> detached w pid vid ids (tab u) \<and>
     (\<not> may_write w \<longrightarrow> tab u = tab w)"

lemma rewritten_none: "rewritten tb pid sel rel {} tb"
  by (simp add: rewritten_def)

lemma rewritten_skip:
  assumes "rewritten old pid sel rel ids tb" and "\<And>n. old pid i = Some n \<Longrightarrow> \<not> sel n"
  shows "rewritten old pid sel rel (insert i ids) tb"
proof -
  have "(q = pid \<and> j \<in> insert i ids \<and> sel n) = (q = pid \<and> j \<in> ids \<and> sel n)"
    if "old q j = Some n" for q j n using that assms(2) by auto
  then show ?thesis using assms(1) unfolding rewritten_def by simp
qed

lemma rewritten_step:
  assumes "rewritten old pid sel rel ids tb" and n: "old pid (n_id n) = Some n" "sel n" "rel n m"
    and m: "n_id m = n_id n" "n_project_id m = pid"
  shows "rewritten old pid sel rel (insert (n_id n) ids) (tab_put m tb)"
proof -
  have d: "old q i = None \<Longrightarrow> tb q i = None"
    "old q i = Some k \<Longrightarrow> (if q = pid \<and> i \<in> ids \<and> sel k then \<exists>m. tb q i = Some m \<and> rel k m
       else tb q i = Some k)" for q i k
    using assms(1) unfolding rewritten_def by blast+
  have none: "tab_put m tb q i = None" if "old q i = None" for q i
    using that d(1) n m by auto
  have some: "if q = pid \<and> i \<in> insert (n_id n) ids \<and> sel k
      then \<exists>m'. tab_put m tb q i = Some m' \<and> rel k m' else tab_put m tb q i = Some k"
    if k: "old q i = Some k" for q i k
  proof (cases "q = pid \<and> i = n_id n")
    case True
    then show ?thesis using k n m by simp
  next
    case False
    then show ?thesis using d(2) [OF k] m by auto
  qed
  show ?thesis unfolding rewritten_def using none some by blast
qed

lemma rewritten_all:
  assumes "rewritten old pid sel rel ids tb" and "\<And>i n. old pid i = Some n \<Longrightarrow> i \<in> ids"
  shows "rewritten old pid sel rel UNIV tb"
  using assms unfolding rewritten_def by (metis UNIV_I)

lemma rewritten_node:
  assumes "rewritten old pid sel rel ids tb" and "tb q i = Some m"
  obtains n where "old q i = Some n" "m = n \<or> rel n m"
  using assms unfolding rewritten_def by (metis not_Some_eq option.inject)

lemma rewritten_here:
  "rewritten old pid sel rel ids tb \<Longrightarrow> old pid i = Some n \<Longrightarrow> i \<notin> ids \<or> \<not> sel n \<Longrightarrow> tb pid i = Some n"
  unfolding rewritten_def by metis

text \<open>The loop over the nodes of a project, with what it keeps stated over the ids passed so far.\<close>

lemma wp_for_nodes:
  assumes "distinct (map n_id ns)" and "n_id ` set ns \<inter> ids = {}" and "I ids t"
    and "\<And>n ids u Q'. n \<in> set ns \<Longrightarrow> n_id n \<notin> ids \<Longrightarrow> I ids u \<Longrightarrow>
      (\<And>v. I (insert (n_id n) ids) v \<Longrightarrow> Q' () v) \<Longrightarrow> wp (f n) Q' E u"
    and "\<And>u. I (ids \<union> n_id ` set ns) u \<Longrightarrow> Q () u"
  shows "wp (for_each ns f) Q E t"
  using assms
proof (induction ns arbitrary: ids t)
  case Nil
  then show ?case unfolding for_each.simps wp_simps by simp
next
  case (Cons n ns)
  show ?case unfolding for_each.simps
  proof (rule wp_bindI, rule Cons.prems(4))
    fix u assume u: "I (insert (n_id n) ids) u"
    show "wp (for_each ns f) Q E u"
      by (rule Cons.IH [OF _ _ u]) (use Cons.prems in auto)
  qed (use Cons.prems in auto)
qed

lemma node_wf_cut:
  assumes "node_wf n" shows "node_wf (n\<lparr>n_scheduled_deps := filter P (n_scheduled_deps n)\<rparr>)"
proof -
  let ?m = "n\<lparr>n_scheduled_deps := filter P (n_scheduled_deps n)\<rparr>"
  have same: "n_kind ?m = n_kind n" "n_category ?m = n_category n" "n_subtype ?m = n_subtype n"
    "n_brief ?m = n_brief n" "n_review_target ?m = n_review_target n" "n_model_preset_id ?m = n_model_preset_id n"
    "n_verify_script_ref ?m = n_verify_script_ref n" "n_agent_op_kind ?m = n_agent_op_kind n"
    "n_resume_from_node_id ?m = n_resume_from_node_id n" "n_pending_extra_principles ?m = n_pending_extra_principles n"
    "n_qa_mode ?m = n_qa_mode n" "n_diff_review ?m = n_diff_review n" "n_state ?m = n_state n"
    "n_started_at ?m = n_started_at n" "n_finished_at ?m = n_finished_at n" "n_prompt ?m = n_prompt n"
    "n_prompt_draft ?m = n_prompt_draft n" "n_artifacts ?m = n_artifacts n"
    "n_artifact_mode ?m = n_artifact_mode n" "n_artifact_spec ?m = n_artifact_spec n"
    "n_pending_extra_skills ?m = n_pending_extra_skills n"
    "n_scheduled_deps ?m = filter P (n_scheduled_deps n)" by simp_all
  have a: "agent_wf n \<Longrightarrow> agent_wf ?m" unfolding agent_wf_def same by (elim conjE, intro conjI; simp)
  have b: "artifact_ok ?m = artifact_ok n" unfolding artifact_ok_def same ..
  have c: "plain_fields n \<Longrightarrow> plain_fields ?m" unfolding plain_fields_def same by simp
  show ?thesis using assms a b c unfolding node_wf_def same by (cases "n_kind n") simp_all
qed

lemma steady_detaching: "detaching w pid vid ids t \<Longrightarrow> steady t u \<Longrightarrow> detaching w pid vid ids u"
  unfolding detaching_def steady_def using host_same_trans by auto

lemma detaching_steady: "detaching w pid vid ids t \<Longrightarrow> steady t t"
  by (intro steady_refl) (simp add: detaching_def host_same_def)

lemma wp_drop_dep:
  assumes t: "detaching w pid vid ids t" and n: "tab w pid (n_id n) = Some n" "n_id n \<notin> ids" and w: "world_ok w"
    and q: "\<And>u. detaching w pid vid (insert (n_id n) ids) u \<Longrightarrow> Q () u"
    and err: "\<And>e u. steady w u \<Longrightarrow> E e u"
  shows "wp (drop_dep pid vid n) Q E t"
proof -
  have host: "machine t = machine w" "world_ok t" "may_write t = may_write w" "known t = known w"
    using t by (simp_all add: detaching_def host_same_def)
  have ids: "n_project_id n = pid" "node_wf n" "known w n" using nodes.tab_ids [OF w n(1)] by auto
  have here: "tab t pid (n_id n) = Some n"
    using t n by (auto simp: detaching_def intro: rewritten_here)
  let ?m = "n\<lparr>n_scheduled_deps := filter (\<lambda>d. d \<noteq> vid) (n_scheduled_deps n)\<rparr>"
  show ?thesis
  proof (cases "attached w vid n")
    case False
    then have "detaching w pid vid (insert (n_id n) ids) t"
      using t n(1) by (auto simp: detaching_def intro: rewritten_skip)
    then have "Q () t" by (rule q)
    moreover have "\<not> depends_on vid n \<or> n_owner_host_id n \<noteq> st_machine (w_store t)"
      using False host(1) by (auto simp: attached_def machine_def)
    ultimately show ?thesis unfolding drop_dep_def wp_simps wp_if by (auto simp: is_native_node_def machine_def)
  next
    case True
    note True = this
    have "wp (save ?m) (\<lambda>m. wp (try_virtual_preview pid m) Q E) E t"
    proof (cases "may_write w")
      case False
      then have "steady w t" using t by (simp add: detaching_def steady_def)
      then show ?thesis using nodes.refusal [of t ?m] False host(3) err by (blast intro: wp_raises)
    next
      case mw: True
      have known: "known t ?m" using ids(3) host(4) by (simp add: known_def preset_known_def)
      obtain u m where s: "save ?m t = (u, Inr m)" and u: "world_ok u" "frame u = frame t" "tab u = tab_put m (tab t)"
        and m: "m = ?m\<lparr>n_rev := max (n_rev ?m) (n_rev n) + 1\<rparr>"
        using nodes.update_law [OF host(2) _ node_wf_cut [OF ids(2)] known, of n] mw host here ids True
        by (auto simp: attached_def)
      have "cut vid n m" using m by (auto simp: cut_def)
      then have "detached w pid vid (insert (n_id n) ids) (tab u)"
        using rewritten_step [of "tab w" pid "attached w vid" "cut vid" ids "tab t" n m] n(1) t u(3) True ids m
        by (simp add: detaching_def)
      moreover have "host_same w u"
        using frame_host_same [OF u(1,2)] t host_same_trans unfolding detaching_def by blast
      ultimately have d: "detaching w pid vid (insert (n_id n) ids) u"
        using mw by (simp add: detaching_def)
      have "wp (try_virtual_preview pid m) Q E u"
        unfolding try_virtual_preview_def wp_simps(8)
        by (rule wp_write_virtual_preview [OF detaching_steady [OF d]])
          (use q steady_detaching [OF d] in auto)
      with s show ?thesis by (rule wp_returns)
    qed
    then show ?thesis using True host(1)
      by (simp add: drop_dep_def attached_def is_native_node_def machine_def)
  qed
qed

definition removed :: "world \<Rightarrow> pystr \<Rightarrow> node \<Rightarrow> world \<Rightarrow> bool" where
  "removed w pid n u \<longleftrightarrow> host_same w u \<and> (\<exists>tb. detached w pid (n_id n) UNIV tb \<and> tab u = tab_drop pid (n_id n) tb)"

lemma removed_steady: "removed w pid n t \<Longrightarrow> steady t u \<Longrightarrow> removed w pid n u"
  unfolding removed_def steady_def using host_same_trans by auto

lemma wp_remove:
  assumes w: "world_ok w" and d: "detaching w pid (n_id n) ids t" and n: "tab w pid (n_id n) = Some n" "n_owner_host_id n = machine w"
    and all: "\<And>i m. tab w pid i = Some m \<Longrightarrow> i \<in> ids"
    and q: "\<And>u. removed w pid n u \<Longrightarrow> Q True u" and err: "\<And>e u. steady w u \<Longrightarrow> E e u"
  shows "wp (remove_node pid (n_id n)) Q E t"
proof (cases "may_write w")
  case False
  then have "steady w t" "\<not> may_write t" using d by (simp_all add: detaching_def steady_def host_same_def)
  then show ?thesis using nodes.refusal [of t n pid "n_id n"] err by (blast intro: wp_raises)
next
  case True
  have host: "world_ok t" "may_write t" "machine t = machine w" using d True by (simp_all add: detaching_def host_same_def)
  have "\<not> attached w (n_id n) n" by (simp add: attached_def depends_on_def)
  then have here: "tab t pid (n_id n) = Some n"
    using d n(1) by (auto simp: detaching_def intro: rewritten_here)
  obtain u where u: "remove_node pid (n_id n) t = (u, Inr True)" "world_ok u" "frame u = frame t"
      "tab u = tab_drop pid (n_id n) (tab t)"
    using nodes.delete_law [OF host(1,2) here] n(2) host(3) by auto
  have "host_same w u" using frame_host_same [OF u(2,3)] d host_same_trans unfolding detaching_def by blast
  then have "removed w pid n u"
    unfolding removed_def using d u(4) rewritten_all [of "tab w" pid "attached w (n_id n)" "cut (n_id n)" ids "tab t"] all
    by (auto simp: detaching_def)
  with u(1) q show ?thesis by (blast intro: wp_returns)
qed

lemma wp_notify_removed:
  "removed w pid n t \<Longrightarrow> (\<And>u. removed w pid n u \<Longrightarrow> Q () u) \<Longrightarrow> wp (notify p ev) Q E t"
  by (rule wp_notify_steady [of t]) (auto simp: removed_def host_same_def steady_def intro: removed_steady)

lemma wp_delete_checked:
  assumes w: "world_ok w" and t: "steady w t" and n: "tab w pid (n_id n) = Some n" "n_owner_host_id n = machine w"
    and blocked: "\<And>u bs. steady w u \<Longrightarrow> n_state n = Virtual \<Longrightarrow> bs \<noteq> [] \<Longrightarrow>
      (\<And>i. i \<in> set bs \<longleftrightarrow> (\<exists>m. tab w pid i = Some m \<and> depends_on (n_id n) m \<and> \<not> obsolete m)) \<Longrightarrow> Q (False, bs) u"
    and gone: "\<And>u. n_state n = Virtual \<Longrightarrow> removed w pid n u \<Longrightarrow>
      (\<And>i m. tab w pid i = Some m \<Longrightarrow> depends_on (n_id n) m \<Longrightarrow> obsolete m) \<Longrightarrow> Q (True, []) u"
    and err: "\<And>e u. steady w u \<Longrightarrow> E e u"
  shows "wp (delete_checked pid n) Q E t"
proof (cases "n_state n = Virtual")
  case False
  then show ?thesis using err [OF t] by (simp add: delete_checked_def)
next
  case True
  let ?go = "\<lambda>nodes. bind (for_each nodes (drop_dep pid (n_id n))) (\<lambda>_.
       bind (remove_node pid (n_id n)) (\<lambda>removed.
       if \<not> removed then ret (False, [])
       else bind (notify pid (WorkspaceRemoved n)) (\<lambda>_.
         bind (notify pid (NodeRemoved (n_id n))) (\<lambda>_. ret (True, [])))))"
  have body: "wp (let blockers = map n_id (filter (\<lambda>m. depends_on (n_id n) m \<and> \<not> obsolete m) ns) in
     if blockers \<noteq> [] then ret (False, blockers) else ?go ns) Q E u"
    if u: "steady w u" and ns: "distinct (map n_id ns)" "\<And>m. m \<in> set ns \<longleftrightarrow> tab w pid (n_id m) = Some m" for ns u
  proof -
    have ids: "tab w pid i = Some k \<Longrightarrow> n_id k = i" for i k using nodes.tab_ids [OF w] by blast
    let ?bs = "map n_id (filter (\<lambda>m. depends_on (n_id n) m \<and> \<not> obsolete m) ns)"
    have bs: "i \<in> set ?bs \<longleftrightarrow> (\<exists>m. tab w pid i = Some m \<and> depends_on (n_id n) m \<and> \<not> obsolete m)" for i
    proof
      show "i \<in> set ?bs \<Longrightarrow> \<exists>m. tab w pid i = Some m \<and> depends_on (n_id n) m \<and> \<not> obsolete m" using ns(2) by auto
      assume "\<exists>m. tab w pid i = Some m \<and> depends_on (n_id n) m \<and> \<not> obsolete m"
      then obtain m where m: "tab w pid i = Some m" "depends_on (n_id n) m" "\<not> obsolete m" by blast
      then have "m \<in> set ns" "n_id m = i" using ns(2) [of m] ids by simp_all
      with m show "i \<in> set ?bs" by auto
    qed
    have all: "tab w pid i = Some m \<Longrightarrow> i \<in> n_id ` set ns" for i m
      using ns(2) [of m] ids [of i m] by blast
    have "wp (?go ns) Q E u" if "?bs = []"
    proof (rule wp_bindI, rule wp_for_nodes [OF ns(1), where I = "detaching w pid (n_id n)" and ids = "{}"])
      show "detaching w pid (n_id n) {} u"
        using u rewritten_none [of "tab w"] by (simp add: detaching_def steady_def)
      fix v assume v: "detaching w pid (n_id n) ({} \<union> n_id ` set ns) v"
      have old: "obsolete m" if "tab w pid i = Some m" "depends_on (n_id n) m" for i m
        using bs [of i] that \<open>?bs = []\<close> by auto
      show "wp (bind (remove_node pid (n_id n)) (\<lambda>removed.
       if \<not> removed then ret (False, [])
       else bind (notify pid (WorkspaceRemoved n)) (\<lambda>_.
         bind (notify pid (NodeRemoved (n_id n))) (\<lambda>_. ret (True, []))))) Q E v"
      proof (rule wp_bindI, rule wp_remove [OF w v n _ _ err])
        fix x assume x: "removed w pid n x"
        have "wp (bind (notify pid (WorkspaceRemoved n)) (\<lambda>_.
         bind (notify pid (NodeRemoved (n_id n))) (\<lambda>_. ret (True, [])))) Q E x"
          by (rule wp_bindI, rule wp_notify_removed [OF x], rule wp_bindI, erule wp_notify_removed)
            (use gone [OF True _ old] in simp)
        then show "wp (if \<not> True then ret (False, [])
       else bind (notify pid (WorkspaceRemoved n)) (\<lambda>_.
         bind (notify pid (NodeRemoved (n_id n))) (\<lambda>_. ret (True, [])))) Q E x" by simp
      qed (use all in auto)
    next
      fix k ids x and Q' :: "unit \<Rightarrow> world \<Rightarrow> bool"
      assume k: "k \<in> set ns" "n_id k \<notin> ids" and x: "detaching w pid (n_id n) ids x"
        and q: "\<And>v. detaching w pid (n_id n) (insert (n_id k) ids) v \<Longrightarrow> Q' () v"
      show "wp (drop_dep pid (n_id n) k) Q' E x"
        by (rule wp_drop_dep [OF x _ k(2) w], use k ns(2) in simp) (rule q err; assumption)+
    qed simp
    then show ?thesis using blocked [OF u True _ bs] by (auto simp: Let_def)
  qed
  have "wp (bind (listing pid []) (\<lambda>ns. let blockers = map n_id (filter (\<lambda>m. depends_on (n_id n) m \<and> \<not> obsolete m) ns) in
     if blockers \<noteq> [] then ret (False, blockers) else ?go ns)) Q E t"
    by (rule wp_bindI, rule wp_listing_steady [OF t]) (rule body)
  then show ?thesis unfolding delete_checked_def
    by - (rule wp_bindI, simp only: wp_simps(5) True simp_thms if_False)
qed

lemma wp_delete_virtual:
  assumes w: "world_ok w" and none: "\<And>u. steady w u \<Longrightarrow> Q (False, []) u"
    and blocked: "\<And>u n bs. tab w pid vid = Some n \<Longrightarrow> steady w u \<Longrightarrow> n_state n = Virtual \<Longrightarrow> bs \<noteq> [] \<Longrightarrow>
      (\<And>i. i \<in> set bs \<longleftrightarrow> (\<exists>m. tab w pid i = Some m \<and> depends_on vid m \<and> \<not> obsolete m)) \<Longrightarrow> Q (False, bs) u"
    and gone: "\<And>u n. tab w pid vid = Some n \<Longrightarrow> n_state n = Virtual \<Longrightarrow> n_owner_host_id n = machine w \<Longrightarrow> removed w pid n u \<Longrightarrow>
      (\<And>i m. tab w pid i = Some m \<Longrightarrow> depends_on vid m \<Longrightarrow> obsolete m) \<Longrightarrow> Q (True, []) u"
    and err: "\<And>e u. steady w u \<Longrightarrow> E e u"
  shows "wp (delete_virtual env pid vid) Q E w"
proof (cases "runtime_of w pid")
  case None
  then show ?thesis using none [OF steady_refl [OF w]] by (simp add: delete_virtual_def)
next
  case (Some rt)
  have body: "wp (bind (require_unarchived_lane p (n_planspace_id n)) (\<lambda>_.
               bind (require_native_node n) (\<lambda>_. delete_checked pid n))) Q E u"
    if u: "steady w u" and n: "tab w pid vid = Some n" for p n u
  proof (rule wp_bind_keeps [OF keeps_guards(7) u _ err], rule wp_bindI, rule wp_require_native_node, assumption)
    fix v assume v: "steady w v" and own: "n_owner_host_id n = machine w"
    have vid: "n_id n = vid" using nodes.tab_ids [OF w n] by blast
    show "wp (delete_checked pid n) Q E v"
      by (rule wp_delete_checked [OF w v _ own _ _ err], unfold vid)
        (rule n blocked [OF n] gone [OF n _ own]; assumption)+
  qed (rule err)
  have "wp (bind (require_unarchived env pid) (\<lambda>p.
         bind (load pid vid) (\<lambda>node. case node of
             None \<Rightarrow> ret (False, [])
           | Some n \<Rightarrow>
               bind (require_unarchived_lane p (n_planspace_id n)) (\<lambda>_.
               bind (require_native_node n) (\<lambda>_. delete_checked pid n))))) Q E w"
  proof (rule wp_bind_keeps [OF keeps_guards(3) steady_refl [OF w] _ err], rule wp_bindI, erule wp_load_steady)
    fix p u assume u: "steady w u"
    show "wp (case tab w pid vid of
             None \<Rightarrow> ret (False, [])
           | Some n \<Rightarrow>
               bind (require_unarchived_lane p (n_planspace_id n)) (\<lambda>_.
               bind (require_native_node n) (\<lambda>_. delete_checked pid n))) Q E u"
      using none [OF u] body [OF u] by (cases "tab w pid vid") simp_all
  qed
  with Some show ?thesis by (simp add: delete_virtual_def)
qed

section \<open>Reruns\<close>

lemma steady_changes_world:
  assumes "steady w u"
  shows "new_virtual u pid m = new_virtual w pid m" "then_swept u pid tb v \<Longrightarrow> then_swept w pid tb v"
    "auto_lanes u = auto_lanes w"
  using assms host_same_trans [of w u v]
  by (simp_all add: new_virtual_def then_swept_def auto_lanes_def steady_def host_same_def)

lemma wp_rerun_node:
  assumes w: "world_ok w" and so: "sources_ok pid (tab w)"
    and none: "\<And>u. steady w u \<Longrightarrow> Q None u"
    and some: "\<And>u n m k. tab w pid nid = Some n \<Longrightarrow> n_kind n = Agent \<Longrightarrow> n_state n \<in> {Error, Cancelled} \<Longrightarrow>
      new_virtual w pid m \<Longrightarrow> then_swept w pid (tab_put m (tab w)) u \<Longrightarrow> tab u pid (n_id m) = Some k \<Longrightarrow> Q (Some k) u"
    and err: "\<And>e u. steady w u \<Longrightarrow> E e u"
    and late: "\<And>e u m. new_virtual w pid m \<Longrightarrow> then_swept w pid (tab_put m (tab w)) u \<Longrightarrow> E e u"
  shows "wp (rerun_node env pid nid) Q E w"
proof (cases "runtime_of w pid")
  case None
  then show ?thesis using none [OF steady_refl [OF w]] by (simp add: rerun_node_def)
next
  case (Some rt)
  let ?reload = "\<lambda>virtual. case virtual of None \<Rightarrow> ret None
    | Some v \<Rightarrow> bind (load pid (n_id v)) (\<lambda>stored. ret (Some (case stored of None \<Rightarrow> v | Some s \<Rightarrow> s)))"
  have create: "wp (create_virtual env pid a) (\<lambda>virtual. wp (?reload virtual) Q E) E u"
    if u: "steady w u" and n: "tab w pid nid = Some n" "n_kind n = Agent" "n_state n \<in> {Error, Cancelled}" for u n a
  proof (rule wp_create_virtual)
    show "world_ok u" "sources_ok pid (tab u)" using so by (simp_all add: steadyD [OF u])
    show "wp (?reload None) Q E v" if "steady u v" for v
      using none [OF steady_trans [OF u that]] by simp
    show "E e v" if "steady u v" for e v by (rule err [OF steady_trans [OF u that]])
    fix v m k assume m: "new_virtual u pid m" and v: "then_swept u pid (tab_put m (tab u)) v" "tab v pid (n_id m) = Some k"
    have m': "new_virtual w pid m" using m steady_changes_world(1) [OF u] by blast
    have k: "n_id k = n_id m" using nodes.tab_ids [of v pid "n_id m" k] v by (simp add: then_swept_def host_same_def)
    have "wp (load pid (n_id k)) (\<lambda>stored. Q (Some (case stored of None \<Rightarrow> k | Some s \<Rightarrow> s)) ) E v"
    proof (rule wp_load_steady)
      show "steady v v" using v(1) by (intro steady_refl) (simp add: then_swept_def host_same_def)
      fix x assume x: "steady v x"
      have "then_swept u pid (tab_put m (tab u)) x"
        using v(1) x host_same_trans [of u v x] by (simp add: then_swept_def steady_def)
      then have "then_swept w pid (tab_put m (tab w)) x"
        using steady_changes_world(2) [OF u] by (simp add: steadyD(2) [OF u])
      then show "Q (Some (case tab v pid (n_id k) of None \<Rightarrow> k | Some s \<Rightarrow> s)) x"
        using some [OF n m'] v(2) x k by (simp add: steadyD)
    qed
    then show "wp (?reload (Some k)) Q E v" unfolding option.case wp_simps .
  next
    fix e v m assume "new_virtual u pid m" "then_swept u pid (tab_put m (tab u)) v"
    then show "E e v" using late steady_changes_world [OF u] steadyD(2) [OF u] by metis
  qed
  have body: "wp (bind (require_unarchived_lane p (n_planspace_id n)) (\<lambda>_.
               bind (reject_if (n_kind n \<noteq> Agent) (ValueError ''only agent nodes support rerun'')) (\<lambda>_.
               bind (reject_if (n_state n \<notin> {Error, Cancelled})
                 (ValueError ''only error/cancelled nodes support rerun'')) (\<lambda>_.
               bind (reject_if (virtual_requires_prompt (n_subtype n) \<and> rerun_prompt n = [])
                 (ValueError ''original node has no prompt to rerun'')) (\<lambda>_.
               bind (result (e_expand_skills env (snapshot_value n ''extra_skills''))) (\<lambda>skills.
               bind (create_virtual env pid (rerun_args n (rerun_prompt n) skills)) ?reload)))))) Q E u"
    if u: "steady w u" and n: "tab w pid nid = Some n" for p n u
  proof (rule wp_bind_keeps [OF keeps_guards(7) u _ err])
    fix x v assume v: "steady w v"
    have go: "wp (bind (result (e_expand_skills env (snapshot_value n ''extra_skills''))) (\<lambda>skills.
               bind (create_virtual env pid (rerun_args n (rerun_prompt n) skills)) ?reload)) Q E v"
      if "n_kind n = Agent" "n_state n \<in> {Error, Cancelled}"
      by (rule wp_bindI, rule wp_resultI, rule err [OF v], rule wp_bindI, rule create [OF v n that])
    show "wp (bind (reject_if (n_kind n \<noteq> Agent) (ValueError ''only agent nodes support rerun'')) (\<lambda>_.
               bind (reject_if (n_state n \<notin> {Error, Cancelled})
                 (ValueError ''only error/cancelled nodes support rerun'')) (\<lambda>_.
               bind (reject_if (virtual_requires_prompt (n_subtype n) \<and> rerun_prompt n = [])
                 (ValueError ''original node has no prompt to rerun'')) (\<lambda>_.
               bind (result (e_expand_skills env (snapshot_value n ''extra_skills''))) (\<lambda>skills.
               bind (create_virtual env pid (rerun_args n (rerun_prompt n) skills)) ?reload))))) Q E v"
      unfolding wp_simps(6) [of "reject_if _ _"] wp_simps(5) using go err [OF v] by simp
  qed
  have "wp (bind (require_unarchived env pid) (\<lambda>p.
         bind (load pid nid) (\<lambda>original. case original of
             None \<Rightarrow> ret None
           | Some n \<Rightarrow>
               bind (require_unarchived_lane p (n_planspace_id n)) (\<lambda>_.
               bind (reject_if (n_kind n \<noteq> Agent) (ValueError ''only agent nodes support rerun'')) (\<lambda>_.
               bind (reject_if (n_state n \<notin> {Error, Cancelled})
                 (ValueError ''only error/cancelled nodes support rerun'')) (\<lambda>_.
               bind (reject_if (virtual_requires_prompt (n_subtype n) \<and> rerun_prompt n = [])
                 (ValueError ''original node has no prompt to rerun'')) (\<lambda>_.
               bind (result (e_expand_skills env (snapshot_value n ''extra_skills''))) (\<lambda>skills.
               bind (create_virtual env pid (rerun_args n (rerun_prompt n) skills)) ?reload)))))))) Q E w"
    by (rule wp_bind_keeps [OF keeps_guards(3) steady_refl [OF w] _ err], rule wp_bindI, erule wp_load_steady)
      (use none body in \<open>simp split: option.split del: wp_simps(6)\<close>)
  then show ?thesis unfolding rerun_node_def by - (rule wp_bindI, simp only: wp_simps(3) Some option.case)
qed

section \<open>Properties\<close>

lemma sources_ok_swept: "swept host pid lanes tb tb' \<Longrightarrow> sources_ok pid tb \<Longrightarrow> sources_ok pid tb'"
  by (induction rule: swept.induct) (auto simp: first_candidate_def auto_candidate_def intro: sources_ok_promote)

lemma steady_graph: "steady w u \<Longrightarrow> P (tab w) \<Longrightarrow> P (tab u)"
  by (simp add: steadyD(2))

text \<open>What every edit keeps.\<close>

definition graph_ok :: "pystr \<Rightarrow> table \<Rightarrow> bool" where
  "graph_ok pid tb \<longleftrightarrow> lanes_acyclic tb pid \<and> sources_ok pid tb"

lemma graph_ok_swept:
  "then_swept w pid tb u \<Longrightarrow> graph_ok pid tb \<Longrightarrow> graph_ok pid (tab u)"
  using lanes_acyclic_swept sources_ok_swept unfolding graph_ok_def then_swept_def by blast

lemma graph_ok_new: "new_virtual w pid m \<Longrightarrow> graph_ok pid (tab w) \<Longrightarrow> graph_ok pid (tab_put m (tab w))"
  using lanes_acyclic_put sources_ok_new unfolding graph_ok_def new_virtual_def by blast

lemma graph_ok_edited:
  assumes "edited w pid n m" and "world_ok w" and "tab w pid vid = Some n" and "n_state n = Virtual"
    and "graph_ok pid (tab w)"
  shows "graph_ok pid (tab_put m (tab w))"
  using assms lanes_acyclic_put [of "tab w" pid m] sources_ok_edited [of pid w n m] nodes.tab_ids [of w pid vid n]
  by (auto simp: graph_ok_def edited_def)

lemma cut_fields:
  "cut vid n m \<Longrightarrow> lane_of m = lane_of n \<and> set (n_scheduled_deps m) \<subseteq> set (n_scheduled_deps n) \<and>
    n_model_preset_id m = n_model_preset_id n \<and> n_state m = n_state n \<and>
    n_resume_from_node_id m = n_resume_from_node_id n"
  by (auto simp: cut_def)

lemma graph_ok_removed:
  assumes "removed w pid n u" and "graph_ok pid (tab w)"
  shows "graph_ok pid (tab u)"
proof -
  obtain tb where tb: "detached w pid (n_id n) UNIV tb" "tab u = tab_drop pid (n_id n) tb"
    using assms(1) by (auto simp: removed_def)
  have old: "\<exists>k. tab w q i = Some k \<and> lane_of m = lane_of k \<and> set (n_scheduled_deps m) \<subseteq> set (n_scheduled_deps k) \<and>
      n_model_preset_id m = n_model_preset_id k \<and> n_state m = n_state k \<and>
      n_resume_from_node_id m = n_resume_from_node_id k" if "tab u q i = Some m" for q i m
  proof -
    have "tb q i = Some m" using that tb(2) by (simp split: if_splits)
    from rewritten_node [OF tb(1) this] obtain k where "tab w q i = Some k" "m = k \<or> cut (n_id n) k m" by blast
    then show ?thesis using cut_fields by (intro exI [of _ k]) blast
  qed
  have "lane_rel (tab u) pid lane \<subseteq> lane_rel (tab w) pid lane" for lane
    using old unfolding lane_rel_def by fastforce
  then have "lanes_acyclic (tab u) pid" using assms(2) lanes_acyclic_mono unfolding graph_ok_def by blast
  moreover have "sources_ok pid (tab u)"
    unfolding sources_ok_def
  proof (intro conjI allI impI)
    fix i m src assume m: "tab u pid i = Some m" "n_state m = Virtual" "truthy (n_resume_from_node_id m)"
      and src: "tab u pid (or_empty (n_resume_from_node_id m)) = Some src"
    obtain k where k: "tab w pid i = Some k" "n_state m = n_state k" "n_resume_from_node_id m = n_resume_from_node_id k"
      using old [OF m(1)] by blast
    obtain s where s: "tab w pid (or_empty (n_resume_from_node_id m)) = Some s" "n_model_preset_id src = n_model_preset_id s"
      using old [OF src] by blast
    then show "usable_preset src"
      using assms(2) k m unfolding graph_ok_def sources_ok_def by (metis usable_preset_def)
  next
    fix i m assume "tab u pid i = Some m"
    from old [OF this] show "trimmed_preset m"
      using assms(2) unfolding graph_ok_def sources_ok_def by (metis trimmed_preset_def)
  qed
  ultimately show ?thesis by (simp add: graph_ok_def)
qed

lemma ordered_deps_acyclic:
  assumes "world_ok w"
    and "list_all (\<lambda>e. case d_node (snd e) of
        Some (Readable n) \<Rightarrow> list_all (\<lambda>d. d < n_id n) (n_scheduled_deps n) | _ \<Rightarrow> True) (st_dirs (w_store w))"
  shows "lanes_acyclic (tab w) pid"
proof -
  have "d < x" if x: "(x, d) \<in> lane_rel (tab w) pid lane" for x d lane
  proof -
    obtain n where n: "tab w pid x = Some n" "d \<in> set (n_scheduled_deps n)" using x by (auto simp: lane_rel_def)
    have id: "n_id n = x" using nodes.tab_ids [OF assms(1) n(1)] by blast
    obtain h m where m: "record_at (w_store w) pid h x = Some (Readable m)" "n = m\<lparr>n_owner_host_id := h\<rparr>"
      using n(1) view_Some_iff [of "w_store w"] assms(1) by (auto simp: tab_def world_ok_def)
    from record_at_dir [OF m(1)] obtain e where "e \<in> set (st_dirs (w_store w))" "d_node (snd e) = Some (Readable m)"
      by blast
    with assms(2) have "list_all (\<lambda>d. d < n_id m) (n_scheduled_deps m)" by (fastforce simp: list_all_iff)
    then show ?thesis using n(2) id m(2) by (simp add: list_all_iff)
  qed
  then show ?thesis unfolding lanes_acyclic_def by (blast intro: acyclicI_order [where f = id, unfolded id_apply])
qed

lemma auto_world_graph: "graph_ok ''p'' (tab auto_world)"
  unfolding graph_ok_def
  by (intro conjI auto_world_sources ordered_deps_acyclic [OF auto_world_ok]) code_simp

definition sample_create :: create_args where
  "sample_create = rerun_args ((sample_agent ''c'' Virtual)\<lparr>n_scheduled_deps := [''a''], n_planspace_id := Some ''main''\<rparr>) ''work'' []"

definition sample_update :: update_args where
  "sample_update = \<lparr>ua_expected_mode = Unset, ua_prompt_draft = Given (Some ''again''), ua_category = Unset,
     ua_subtype = Unset, ua_brief = Unset, ua_review_target = Unset, ua_motivation = Unset,
     ua_scheduled_deps = Given (Some [''c'']), ua_extra_principles = Unset, ua_extra_skills = Unset,
     ua_qa_mode = Unset, ua_diff_review = Unset, ua_artifact_mode = Unset, ua_artifact_spec = Unset,
     ua_agent_op_kind = Unset, ua_provider = Unset, ua_model_preset_id = Unset, ua_obsolete_reason = Unset\<rparr>"

definition succeeds :: "exn + 'a option \<Rightarrow> bool" where
  "succeeds r = (case r of Inl e \<Rightarrow> False | Inr x \<Rightarrow> x \<noteq> None)"

lemma succeedsE: "succeeds r \<Longrightarrow> (\<And>k. r = Inr (Some k) \<Longrightarrow> P) \<Longrightarrow> P"
  by (auto simp: succeeds_def split: sum.splits)

text \<open>
  C8: editing the graph keeps it acyclic. Creating, updating, deleting and rerunning a virtual, whether
  the request succeeds, is refused or raises, keeps every lane of the project free of dependency cycles
  and every continuation's source fit for promotion.
\<close>

theorem edits_keep_graph:
  assumes "world_ok w" and "graph_ok pid (tab w)"
  shows "graph_ok pid (tab (fst (create_virtual env pid ca w))) \<and>
    graph_ok pid (tab (fst (update_virtual env pid vid ua w))) \<and>
    graph_ok pid (tab (fst (delete_virtual env pid vid w))) \<and>
    graph_ok pid (tab (fst (rerun_node env pid vid w)))"
proof -
  let ?I = "\<lambda>t. graph_ok pid (tab t)"
  have so: "sources_ok pid (tab w)" using assms(2) by (simp add: graph_ok_def)
  have st: "steady w u \<Longrightarrow> ?I u" for u using assms(2) by (simp add: steadyD)
  have new: "new_virtual w pid m \<Longrightarrow> then_swept w pid (tab_put m (tab w)) u \<Longrightarrow> ?I u" for m u
    using graph_ok_swept graph_ok_new assms(2) by blast
  have ed: "tab w pid vid = Some n \<Longrightarrow> n_state n = Virtual \<Longrightarrow> edited w pid n m \<Longrightarrow>
      then_swept w pid (tab_put m (tab w)) u \<Longrightarrow> ?I u" for n m u
    using graph_ok_swept graph_ok_edited assms by blast
  have rm: "removed w pid n u \<Longrightarrow> ?I u" for n u using graph_ok_removed assms(2) by blast
  have "wp (create_virtual env pid ca) (\<lambda>_. ?I) (\<lambda>_. ?I) w"
    by (rule wp_create_virtual [OF assms(1) so]) (blast intro: st new)+
  moreover have "wp (update_virtual env pid vid ua) (\<lambda>_. ?I) (\<lambda>_. ?I) w"
    by (rule wp_update_virtual [OF assms(1) so]) (blast intro: st ed)+
  moreover have "wp (delete_virtual env pid vid) (\<lambda>_. ?I) (\<lambda>_. ?I) w"
    by (rule wp_delete_virtual [OF assms(1)]) (blast intro: st rm)+
  moreover have "wp (rerun_node env pid vid) (\<lambda>_. ?I) (\<lambda>_. ?I) w"
    by (rule wp_rerun_node [OF assms(1) so]) (blast intro: st new)+
  ultimately show ?thesis by - (intro conjI wp_fst [where I = ?I]; assumption)
qed

theorem edits_keep_graph_witness:
  "graph_ok ''p'' (tab (fst (create_virtual sample_env ''p'' sample_create auto_world)))"
  using edits_keep_graph [OF auto_world_ok auto_world_graph] by blast

text \<open>
  C9: creation of a virtual. A request that returns no node changed no record; one that returns a node
  inserted a fresh well-formed virtual of this device in an unarchived lane, its dependencies distinct,
  resolved in its own lane and without a cycle, its continuation source in the lane with the same model
  preset, and then at most swept the automatic lanes. One that raises did nothing, or had inserted the
  node and failed in the sweep of an automatic lane.
\<close>

theorem create_virtual_exact:
  assumes "world_ok w" and "sources_ok pid (tab w)" and "create_virtual env pid a w = (t, res)"
  shows "host_same w t \<and> (case res of
      Inr None \<Rightarrow> tab t = tab w
    | Inr (Some k) \<Rightarrow> \<exists>m. new_virtual w pid m \<and> tab t pid (n_id m) = Some k \<and>
        swept (machine w) pid (auto_lanes w) (tab_put m (tab w)) (tab t)
    | Inl e \<Rightarrow> tab t = tab w \<or> (\<not> ca_defer_auto_promotion a \<and> (\<exists>m. new_virtual w pid m \<and>
        lane_of m \<in> auto_lanes w \<and> swept (machine w) pid (auto_lanes w) (tab_put m (tab w)) (tab t))))"
proof -
  have "wp (create_virtual env pid a)
    (\<lambda>r t. host_same w t \<and> (case r of None \<Rightarrow> tab t = tab w
      | Some k \<Rightarrow> \<exists>m. new_virtual w pid m \<and> tab t pid (n_id m) = Some k \<and>
          swept (machine w) pid (auto_lanes w) (tab_put m (tab w)) (tab t)))
    (\<lambda>e t. host_same w t \<and> (tab t = tab w \<or> (\<not> ca_defer_auto_promotion a \<and> (\<exists>m. new_virtual w pid m \<and>
        lane_of m \<in> auto_lanes w \<and> swept (machine w) pid (auto_lanes w) (tab_put m (tab w)) (tab t))))) w"
    by (rule wp_create_virtual [OF assms(1,2)]) (auto simp: steady_def then_swept_def)
  then show ?thesis using assms(3) by (auto simp: wp_def split: sum.splits option.splits)
qed

theorem create_virtual_exact_witness:
  "\<exists>k m. snd (create_virtual sample_env ''p'' sample_create auto_world) = Inr (Some k) \<and>
    new_virtual auto_world ''p'' m \<and>
    tab (fst (create_virtual sample_env ''p'' sample_create auto_world)) ''p'' (n_id m) = Some k"
proof -
  have "succeeds (snd (create_virtual sample_env ''p'' sample_create auto_world))" by code_simp
  then obtain k where k: "snd (create_virtual sample_env ''p'' sample_create auto_world) = Inr (Some k)"
    by (rule succeedsE)
  from create_virtual_exact [OF auto_world_ok auto_world_sources prod.collapse [symmetric],
    of sample_env "''p''" sample_create] k show ?thesis by auto
qed

text \<open>
  C17: update of a virtual. Only a virtual agent node of this device is edited; its identity, lane, owner
  and continuation source stay, the record stays well formed, its dependencies are the old ones or
  distinct, resolved in the lane and without the node itself, and the lane stays acyclic. A request
  that returns no node or raises before the write changes nothing.
\<close>

theorem update_virtual_exact:
  assumes "world_ok w" and "sources_ok pid (tab w)" and "update_virtual env pid vid a w = (t, res)"
  shows "host_same w t \<and> (res = Inr None \<longrightarrow> tab t = tab w) \<and> (tab t = tab w \<or>
      (\<exists>n m. tab w pid vid = Some n \<and> n_state n = Virtual \<and> n_owner_host_id n = machine w \<and> edited w pid n m \<and>
        swept (machine w) pid (auto_lanes w) (tab_put m (tab w)) (tab t) \<and>
        (\<forall>k. res = Inr (Some k) \<longrightarrow> tab t pid vid = Some k) \<and>
        (\<forall>e. res = Inl e \<longrightarrow> lane_of m \<in> auto_lanes w)))"
proof -
  have "wp (update_virtual env pid vid a)
    (\<lambda>r t. host_same w t \<and> (case r of None \<Rightarrow> tab t = tab w
      | Some k \<Rightarrow> \<exists>n m. tab w pid vid = Some n \<and> n_state n = Virtual \<and> n_owner_host_id n = machine w \<and>
          edited w pid n m \<and> swept (machine w) pid (auto_lanes w) (tab_put m (tab w)) (tab t) \<and> tab t pid vid = Some k))
    (\<lambda>e t. host_same w t \<and> (tab t = tab w \<or> (\<exists>n m. tab w pid vid = Some n \<and> n_state n = Virtual \<and>
        n_owner_host_id n = machine w \<and> edited w pid n m \<and>
        swept (machine w) pid (auto_lanes w) (tab_put m (tab w)) (tab t) \<and> lane_of m \<in> auto_lanes w))) w"
  proof (rule wp_update_virtual [OF assms(1,2)], goal_cases)
    case (2 u n m k)
    then show ?case by (auto simp: then_swept_def)
  next
    case (4 e u n m)
    then show ?case by (auto simp: then_swept_def)
  qed (simp_all add: steady_def)
  then show ?thesis using assms(3)
    by (cases res) (auto simp: wp_def split: option.splits)
qed

theorem update_virtual_exact_witness:
  "\<exists>k n m. snd (update_virtual sample_env ''p'' ''d'' sample_update auto_world) = Inr (Some k) \<and>
    host_same auto_world (fst (update_virtual sample_env ''p'' ''d'' sample_update auto_world)) \<and>
    (tab (fst (update_virtual sample_env ''p'' ''d'' sample_update auto_world)) = tab auto_world \<or>
      edited auto_world ''p'' n m \<and> n_id n = ''d'')"
proof -
  have "succeeds (snd (update_virtual sample_env ''p'' ''d'' sample_update auto_world))" by code_simp
  then obtain k where k: "snd (update_virtual sample_env ''p'' ''d'' sample_update auto_world) = Inr (Some k)"
    by (rule succeedsE)
  note spec = update_virtual_exact [OF auto_world_ok auto_world_sources prod.collapse [symmetric],
    of sample_env "''p''" "''d''" sample_update]
  have "n_id n = ''d''" if "tab auto_world ''p'' ''d'' = Some n" for n
    using nodes.tab_ids [OF auto_world_ok that] by blast
  with spec k show ?thesis by blast
qed

text \<open>
  C18: deletion of a virtual. It answers with the live dependents and changes nothing when there are any;
  when it succeeds the node was a virtual of this device, it is gone, no node of this device depends on
  it any more, and every other record of every project is unchanged but for that dependency and its
  revision. When it raises, no node changes.
\<close>

theorem delete_virtual_exact:
  assumes "world_ok w" and "delete_virtual env pid vid w = (t, res)"
  shows "host_same w t \<and> (case res of
      Inr (True, bs) \<Rightarrow> bs = [] \<and> tab t pid vid = None \<and>
        (\<exists>n. tab w pid vid = Some n \<and> n_state n = Virtual \<and> n_owner_host_id n = machine w) \<and>
        (\<forall>q i m. tab t q i = Some m \<longrightarrow> (\<exists>n. tab w q i = Some n \<and> (m = n \<or> cut vid n m))) \<and>
        (\<forall>q i n. tab w q i = Some n \<longrightarrow> tab t q i \<noteq> None \<or> q = pid \<and> i = vid) \<and>
        (\<forall>i m. tab t pid i = Some m \<longrightarrow> n_owner_host_id m = machine w \<longrightarrow> vid \<notin> set (n_scheduled_deps m))
    | Inr (False, bs) \<Rightarrow> tab t = tab w \<and> (bs \<noteq> [] \<longrightarrow>
        (\<forall>i. i \<in> set bs \<longleftrightarrow> (\<exists>m. tab w pid i = Some m \<and> depends_on vid m \<and> \<not> obsolete m)))
    | Inl e \<Rightarrow> tab t = tab w)"
proof -
  have gone: "t' pid vid = None \<and>
        (\<forall>q i m. t' q i = Some m \<longrightarrow> (\<exists>n. tab w q i = Some n \<and> (m = n \<or> cut vid n m))) \<and>
        (\<forall>q i n. tab w q i = Some n \<longrightarrow> t' q i \<noteq> None \<or> q = pid \<and> i = vid) \<and>
        (\<forall>i m. t' pid i = Some m \<longrightarrow> n_owner_host_id m = machine w \<longrightarrow> vid \<notin> set (n_scheduled_deps m))"
    if tb: "detached w pid vid UNIV tb" and t': "t' = tab_drop pid vid tb" for tb t'
  proof (intro conjI allI impI)
    show "t' pid vid = None" by (simp add: t')
    show "\<exists>n. tab w q i = Some n \<and> (m = n \<or> cut vid n m)" if "t' q i = Some m" for q i m
      using that rewritten_node [OF tb, of q i m] t' by (auto split: if_splits)
    show "t' q i \<noteq> None \<or> q = pid \<and> i = vid" if "tab w q i = Some n" for q i n
    proof -
      have "tb q i \<noteq> None" using tb that unfolding rewritten_def by (cases "q = pid \<and> attached w vid n") fastforce+
      then show ?thesis by (simp add: t')
    qed
    show "vid \<notin> set (n_scheduled_deps m)" if m: "t' pid i = Some m" "n_owner_host_id m = machine w" for i m
    proof -
      have i: "tb pid i = Some m" "i \<noteq> vid" using m(1) t' by (auto split: if_splits)
      obtain n where n: "tab w pid i = Some n" "m = n \<or> cut vid n m" using rewritten_node [OF tb i(1)] .
      have id: "n_id n = i" using nodes.tab_ids [OF assms(1) n(1)] by blast
      show ?thesis
      proof (cases "attached w vid n")
        case True
        then have "cut vid n m" using tb n(1) i(1) unfolding rewritten_def by fastforce
        then show ?thesis by (auto simp: cut_def)
      next
        case False
        then have "m = n" using tb n(1) i(1) unfolding rewritten_def by fastforce
        then show ?thesis using False m(2) id i(2) by (auto simp: attached_def depends_on_def)
      qed
    qed
  qed
  have "wp (delete_virtual env pid vid)
    (\<lambda>(ok, bs) t. host_same w t \<and> (if ok then bs = [] \<and>
        (\<exists>n. tab w pid vid = Some n \<and> n_state n = Virtual \<and> n_owner_host_id n = machine w) \<and>
        (\<exists>tb. detached w pid vid UNIV tb \<and> tab t = tab_drop pid vid tb)
      else tab t = tab w \<and> (bs \<noteq> [] \<longrightarrow>
        (\<forall>i. i \<in> set bs \<longleftrightarrow> (\<exists>m. tab w pid i = Some m \<and> depends_on vid m \<and> \<not> obsolete m)))))
    (\<lambda>e t. host_same w t \<and> tab t = tab w) w"
  proof (rule wp_delete_virtual [OF assms(1)], goal_cases)
    case (1 u)
    then show ?case by (simp add: steady_def)
  next
    case (2 u n bs)
    show ?case unfolding prod.case if_False using 2(2,4,5) by (simp add: steady_def)
  next
    case (3 u n)
    then have "n_id n = vid" using nodes.tab_ids [OF assms(1)] by blast
    then show ?case using 3 by (auto simp: removed_def)
  next
    case (4 e u)
    then show ?case by (simp add: steady_def)
  qed
  note run = this
  show ?thesis
  proof (cases res)
    case (Inl e)
    then show ?thesis using wp_Inl [OF run, of t e] assms(2) by simp
  next
    case (Inr r)
    obtain ok bs where r: "r = (ok, bs)" by (cases r)
    have post: "case (ok, bs) of (ok, bs) \<Rightarrow> host_same w t \<and> (if ok then bs = [] \<and>
        (\<exists>n. tab w pid vid = Some n \<and> n_state n = Virtual \<and> n_owner_host_id n = machine w) \<and>
        (\<exists>tb. detached w pid vid UNIV tb \<and> tab t = tab_drop pid vid tb)
      else tab t = tab w \<and> (bs \<noteq> [] \<longrightarrow>
        (\<forall>i. i \<in> set bs \<longleftrightarrow> (\<exists>m. tab w pid i = Some m \<and> depends_on vid m \<and> \<not> obsolete m))))"
      using wp_Inr [OF run, of t r] assms(2) Inr unfolding r by simp
    show ?thesis
    proof (cases ok)
      case True
      then obtain tb where tb: "detached w pid vid UNIV tb" "tab t = tab_drop pid vid tb" using post by auto
      show ?thesis unfolding Inr r True sum.case prod.case bool.case
        using post True gone [OF tb] by (intro conjI) simp_all
    next
      case False
      show ?thesis unfolding Inr r False sum.case prod.case bool.case
        using post False by simp
    qed
  qed
qed

theorem delete_virtual_exact_witness:
  "tab (fst (delete_virtual sample_env ''p'' ''d'' auto_world)) ''p'' ''d'' = None"
proof -
  have "snd (delete_virtual sample_env ''p'' ''d'' auto_world) = Inr (True, [])" by code_simp
  with delete_virtual_exact [OF auto_world_ok prod.collapse [symmetric], of sample_env "''p''" "''d''"]
  show ?thesis by simp
qed

definition failed_world :: world where
  "failed_world = auto_world\<lparr>w_store := sample_store\<lparr>st_dirs :=
     [((''p'', ''here'', ''a''), record_dir ((sample_agent ''a'' Error)\<lparr>n_planspace_id := Some ''main'', n_prompt := ''work''\<rparr>))]\<rparr>\<rparr>"

lemma failed_world_ok: "world_ok failed_world"
  unfolding world_ok_def by (rule store_ok_execD) code_simp

lemma failed_world_sources: "sources_ok pid (tab failed_world)"
  by (rule no_resume_sources [OF failed_world_ok]) code_simp

text \<open>
  C19: a rerun returns a node only for an agent node that ended in error or was cancelled; the original
  record stays and a fresh virtual is created under the rules of creation, then at most swept.
\<close>

theorem rerun_node_exact:
  assumes "world_ok w" and "sources_ok pid (tab w)" and "rerun_node env pid nid w = (t, res)"
  shows "host_same w t \<and> (case res of
      Inr None \<Rightarrow> tab t = tab w
    | Inr (Some k) \<Rightarrow> \<exists>n m. tab w pid nid = Some n \<and> n_kind n = Agent \<and> n_state n \<in> {Error, Cancelled} \<and>
        new_virtual w pid m \<and> tab t pid (n_id m) = Some k \<and> tab t pid nid = Some n \<and>
        swept (machine w) pid (auto_lanes w) (tab_put m (tab w)) (tab t)
    | Inl e \<Rightarrow> tab t = tab w \<or> (\<exists>m. new_virtual w pid m \<and>
        swept (machine w) pid (auto_lanes w) (tab_put m (tab w)) (tab t)))"
proof -
  have kept: "tb pid nid = Some n"
    if "swept (machine w) pid A (tab_put m (tab w)) tb" "new_virtual w pid m" "tab w pid nid = Some n" "n_state n \<noteq> Virtual"
    for A m tb n
    using swept_nodes [OF that(1), of nid] that(2-4) by (auto simp: new_virtual_def swept_node_def split: if_splits)
  have "wp (rerun_node env pid nid)
    (\<lambda>r t. host_same w t \<and> (case r of None \<Rightarrow> tab t = tab w
      | Some k \<Rightarrow> \<exists>n m. tab w pid nid = Some n \<and> n_kind n = Agent \<and> n_state n \<in> {Error, Cancelled} \<and>
          new_virtual w pid m \<and> tab t pid (n_id m) = Some k \<and> tab t pid nid = Some n \<and>
          swept (machine w) pid (auto_lanes w) (tab_put m (tab w)) (tab t)))
    (\<lambda>e t. host_same w t \<and> (tab t = tab w \<or> (\<exists>m. new_virtual w pid m \<and>
        swept (machine w) pid (auto_lanes w) (tab_put m (tab w)) (tab t)))) w"
  proof (rule wp_rerun_node [OF assms(1,2)], goal_cases)
    case (2 u n m k)
    then have "swept (machine w) pid (auto_lanes w) (tab_put m (tab w)) (tab u)" by (simp add: then_swept_def)
    moreover from this have "tab u pid nid = Some n" by (rule kept) (use 2 in auto)
    ultimately show ?case using 2 by (auto simp: then_swept_def)
  qed (auto simp: steady_def then_swept_def)
  then show ?thesis using assms(3) by (auto simp: wp_def split: sum.splits option.splits)
qed

theorem rerun_node_exact_witness:
  "\<exists>k n m. snd (rerun_node sample_env ''p'' ''a'' failed_world) = Inr (Some k) \<and>
    tab failed_world ''p'' ''a'' = Some n \<and> n_state n \<in> {Error, Cancelled} \<and> new_virtual failed_world ''p'' m"
proof -
  have "succeeds (snd (rerun_node sample_env ''p'' ''a'' failed_world))" by code_simp
  then obtain k where k: "snd (rerun_node sample_env ''p'' ''a'' failed_world) = Inr (Some k)"
    by (rule succeedsE)
  from rerun_node_exact [OF failed_world_ok failed_world_sources prod.collapse [symmetric],
    of sample_env "''p''" "''a''"] k show ?thesis by auto
qed

end
