(* ===== verification/Lifecycle.thy ===== *)
theory Lifecycle
  imports Virtual_Editing
begin

text \<open>
  The life of a node outside the virtual editor: repair after a restart, starting, the two entry points
  of Git and review work, the completion callback of a runner task, interruption, archiving and the
  flags that stop launches during a self-update or a storage sync. A runner mutates its node in memory,
  so the record in \<open>rt_runners\<close> is the node as the runner last saw it. Non-ASCII texts that reach a
  record are written as their UTF-8 bytes.
\<close>

definition utf8 :: "nat list \<Rightarrow> pystr" where
  "utf8 bs = map char_of bs"

section \<open>Reading nodes\<close>

definition archived_lanes :: "world \<Rightarrow> project \<Rightarrow> pystr list" where
  "archived_lanes w p = filter (read_planspace_archived (w_lanes w) (p_id p))
     (list_project_planspace_ids (w_lanes w) (p_id p))"

definition list_visible_nodes :: "pystr \<Rightarrow> node list option reg" where
  "list_visible_nodes pid =
     bind (reading (\<lambda>w. runtime_of w pid)) (\<lambda>r. case r of
       None \<Rightarrow> ret None
     | Some _ \<Rightarrow>
         bind (assert_unarchived pid) (\<lambda>p.
         bind (reading (\<lambda>w. archived_lanes w p)) (\<lambda>lanes.
         bind (listing pid lanes) (\<lambda>ns. ret (Some ns)))))"

definition get_node :: "pystr \<Rightarrow> pystr \<Rightarrow> node option reg" where
  "get_node pid nid =
     bind (reading (\<lambda>w. runtime_of w pid)) (\<lambda>r. case r of
       None \<Rightarrow> ret None
     | Some rt \<Rightarrow>
         bind (assert_unarchived pid) (\<lambda>_.
         bind (load pid nid) (\<lambda>node.
         reading (\<lambda>w. case node of None \<Rightarrow> None
           | Some n \<Rightarrow> if lane_archived w (rt_project rt) (n_planspace_id n) then None else Some n))))"

text \<open>
  \<open>replay_node_events\<close> up to the projection of each event for the client; \<open>with_snapshot\<close> is the node
  attached to the lifecycle events that carry none, \<open>dump\<close> its serialisation.
\<close>

definition with_snapshot :: "(node \<Rightarrow> json) \<Rightarrow> node \<Rightarrow> event_line \<Rightarrow> event_line" where
  "with_snapshot dump n l = (case el_event l of
     JObj kvs \<Rightarrow>
       if map_of kvs ''type'' \<in> {Some (JStr ''node_started''), Some (JStr ''turn_done'')} \<and>
          (case map_of kvs ''node'' of Some (JObj _) \<Rightarrow> False | _ \<Rightarrow> True)
       then l\<lparr>el_event := JObj (AList.update ''node'' (dump n) kvs)\<rparr> else l
   | _ \<Rightarrow> l)"

definition replay_node :: "(node \<Rightarrow> json) \<Rightarrow> pystr \<Rightarrow> pystr \<Rightarrow> nat \<Rightarrow> runtime \<Rightarrow> event_line list option reg" where
  "replay_node dump pid nid since rt =
     bind (load pid nid) (\<lambda>found. case found of
       None \<Rightarrow> ret None
     | Some _ \<Rightarrow>
         bind (on_store (replay_events pid nid since)) (\<lambda>records.
         bind (load pid nid) (\<lambda>node. case node of
             None \<Rightarrow> ret None
           | Some n \<Rightarrow> reading (\<lambda>w. if lane_archived w (rt_project rt) (n_planspace_id n) then None
               else Some (map (with_snapshot dump n) records)))))"

definition replay_node_events :: "(node \<Rightarrow> json) \<Rightarrow> pystr \<Rightarrow> pystr \<Rightarrow> nat \<Rightarrow> event_line list option reg" where
  "replay_node_events dump pid nid since =
     bind (reading (\<lambda>w. runtime_of w pid)) (\<lambda>r. case r of
       None \<Rightarrow> ret None
     | Some rt \<Rightarrow>
         bind (assert_unarchived pid) (\<lambda>_.
         if nid \<noteq> [] then replay_node dump pid nid since rt
         else bind (on_store (latest_node pid)) (\<lambda>latest. case latest of
             None \<Rightarrow> ret (Some [])
           | Some n \<Rightarrow> replay_node dump pid (n_id n) since rt)))"

section \<open>Terminal records\<close>

definition add_error :: "pystr \<Rightarrow> node \<Rightarrow> node" where
  "add_error reason n = n\<lparr>n_error := Some ((if truthy (n_error n) then or_empty (n_error n) @ [CHR 0x0A] else []) @ reason)\<rparr>"

definition finish_at :: "int \<Rightarrow> node \<Rightarrow> node" where
  "finish_at now n = n\<lparr>n_started_at := Some (case n_started_at n of None \<Rightarrow> n_created_at n | Some t \<Rightarrow> t),
     n_finished_at := Some now\<rparr>"

definition try_executed_preview :: "pystr \<Rightarrow> node \<Rightarrow> pystr \<Rightarrow> pystr \<Rightarrow> pystr \<Rightarrow> unit reg" where
  "try_executed_preview pid n motivation summary implications =
     catching
       (bind (reading w_now) (\<lambda>now.
          case render_executed_preview now n motivation summary implications [] of
            Inl e \<Rightarrow> raise PreviewNotRendered
          | Inr doc \<Rightarrow> put_preview pid (n_id n) doc))
       (\<lambda>_. ret ())"

section \<open>Repair after a restart\<close>

definition startup_interrupt_reason :: pystr where
  "startup_interrupt_reason = ''interrupted by backend restart''"

definition repaired :: "int \<Rightarrow> node \<Rightarrow> node" where
  "repaired now n = finish_at now (add_error startup_interrupt_reason (n\<lparr>n_state := Cancelled\<rparr>))"

definition stale :: "world \<Rightarrow> node \<Rightarrow> bool" where
  "stale w n \<longleftrightarrow> is_native_node w n \<and> \<not> terminal (n_state n) \<and> n_state n \<notin> {Virtual, Queued}"

definition repair_node :: "pystr \<Rightarrow> int \<Rightarrow> node \<Rightarrow> unit reg" where
  "repair_node pid now n =
     bind (reading (\<lambda>w. stale w n)) (\<lambda>mid_flight.
     if \<not> mid_flight then ret ()
     else bind (catching (bind (save (repaired now n)) (\<lambda>m. ret (Some m))) (\<lambda>_. ret None)) (\<lambda>saved. case saved of
         None \<Rightarrow> ret ()
       | Some m \<Rightarrow> try_executed_preview pid m
           (if n_prompt m \<noteq> [] then take 200 (n_prompt m) else ''(no motivation recorded)'')
           startup_interrupt_reason
           ''node was mid-flight when the backend restarted; rerun from the panel to try again''))"

definition repair_stale_nodes :: "pystr \<Rightarrow> unit reg" where
  "repair_stale_nodes pid =
     bind (reading (\<lambda>w. (w_now w, get_project w pid))) (\<lambda>(now, proj). case proj of
       None \<Rightarrow> ret ()
     | Some _ \<Rightarrow> bind (listing pid []) (\<lambda>nodes. for_each nodes (repair_node pid now)))"

section \<open>Starting a node\<close>

record start_args =
  sa_prompt :: pystr
  sa_resume_from :: "pystr option"
  sa_extra_principles :: json
  sa_extra_skills :: json
  sa_agent_op_kind :: "pystr option"
  sa_model_preset_id :: "pystr option"
  sa_category :: category
  sa_subtype :: "review_subtype option"
  sa_brief :: "review_brief option"
  sa_parent_node_id :: "pystr option"
  sa_planspace_id :: "pystr option"
  sa_scheduled_deps :: "pystr list"

definition start_preset :: "project \<Rightarrow> node option \<Rightarrow> start_args \<Rightarrow> pystr option reg" where
  "start_preset p source a = (case source of
     Some src \<Rightarrow> (case sa_model_preset_id a of
         None \<Rightarrow> ret (n_model_preset_id src)
       | Some s \<Rightarrow> bind (preset_arg (Some s)) (\<lambda>q.
           andthen (reject_if (Some q \<noteq> n_model_preset_id src)
             (ValueError ''resume nodes inherit model_preset_id from their source node''))
             (ret (n_model_preset_id src))))
   | None \<Rightarrow> (case sa_model_preset_id a of
         None \<Rightarrow> ret (Some (p_model_preset_id p))
       | Some s \<Rightarrow> bind (preset_arg (Some s)) (\<lambda>q.
           if q \<noteq> p_model_preset_id p then bind (active_preset_arg q) (\<lambda>q'. ret (Some q')) else ret (Some q))))"

definition start_settings :: "(pystr, json) dict \<Rightarrow> pystr list \<Rightarrow> json list \<Rightarrow> (pystr, json) dict" where
  "start_settings inherited principles skills =
     (let s1 = (if principles \<noteq> [] then AList.update ''extra_principles'' (JList (map JStr principles)) inherited
                else inherited)
      in if skills \<noteq> [] then AList.update ''extra_skills'' (JList skills) s1 else s1)"

definition start_record :: "pystr \<Rightarrow> start_args \<Rightarrow> node option \<Rightarrow> bool \<Rightarrow> pystr option \<Rightarrow> pystr option \<Rightarrow>
    (pystr, json) dict \<Rightarrow> pystr \<Rightarrow> int \<Rightarrow> node" where
  "start_record pid a source locally lane preset settings nid at = (default_node pid nid at)\<lparr>
     n_agent_op_kind := sa_agent_op_kind a, n_category := Some (sa_category a), n_subtype := sa_subtype a,
     n_brief := sa_brief a, n_state := Queued,
     n_parent_node_id := (case source of Some src \<Rightarrow> Some (n_id src) | None \<Rightarrow> sa_parent_node_id a),
     n_planspace_id := lane, n_model_preset_id := preset,
     n_provider_session_id := (case source of Some src \<Rightarrow> if locally then n_provider_session_id src else None
       | None \<Rightarrow> None),
     n_prompt := sa_prompt a, n_scheduled_deps := sa_scheduled_deps a, n_settings_snapshot := settings\<rparr>"

text \<open>The node of a request whose continuation source is settled.\<close>

definition start_draft :: "env \<Rightarrow> project \<Rightarrow> pystr \<Rightarrow> start_args \<Rightarrow> node option \<Rightarrow> node reg" where
  "start_draft env p pid a source =
     bind (start_preset p source a) (\<lambda>preset.
     bind (result (e_expand_skills env (sa_extra_skills a))) (\<lambda>skills.
     bind (case source of None \<Rightarrow> ret []
       | Some src \<Rightarrow> reading_result (\<lambda>w. remote_resume_settings env w p src)) (\<lambda>inherited.
     bind (require_project_lane p (sa_planspace_id a)) (\<lambda>lane.
     bind (reading (\<lambda>w. case source of None \<Rightarrow> False | Some src \<Rightarrow> can_resume_provider_session w src)) (\<lambda>locally.
     bind (fresh_id env) (\<lambda>nid.
     bind (reading w_now) (\<lambda>at.
     bind (validated (start_record pid a source locally
       (case lane of Some l \<Rightarrow> Some l | None \<Rightarrow> (case source of None \<Rightarrow> None | Some src \<Rightarrow> n_planspace_id src))
       preset (start_settings inherited (normalize_principle_ids (sa_extra_principles a)) skills) nid at)) (\<lambda>n.
     andthen (reading_result (\<lambda>w. validate_remote_execution w p n)) (ret n)))))))))"

definition seeded_preview :: "node \<Rightarrow> node" where
  "seeded_preview n = n\<lparr>n_state := Virtual, n_prompt_draft := Some (n_prompt n),
     n_proposed_by := Some (if truthy (n_parent_node_id n) then ''node:'' @ or_empty (n_parent_node_id n)
       else ''user:'' @ n_id n),
     n_summary := Some (case n_brief n of Some b \<Rightarrow> check_what b | None \<Rightarrow> take 200 (n_prompt n))\<rparr>"

text \<open>Insert, announce, schedule, and answer with the stored record.\<close>

definition schedule_and_reload :: "pystr \<Rightarrow> node \<Rightarrow> node option reg" where
  "schedule_and_reload pid m =
     bind (schedule_queued pid) (\<lambda>_.
     bind (load pid (n_id m)) (\<lambda>stored. ret (Some (case stored of None \<Rightarrow> m | Some s \<Rightarrow> s))))"

definition start_checked :: "env \<Rightarrow> project \<Rightarrow> pystr \<Rightarrow> start_args \<Rightarrow> node option \<Rightarrow> node option reg" where
  "start_checked env p pid a source =
     bind (start_draft env p pid a source) (\<lambda>n.
     bind (insert_node n) (\<lambda>m.
     bind (notify pid (WorkspaceNode m None True)) (\<lambda>_.
     bind (if n_category m = Some Review then try_virtual_preview pid (seeded_preview m) else ret ()) (\<lambda>_.
     schedule_and_reload pid m))))"

definition start_node :: "env \<Rightarrow> pystr \<Rightarrow> start_args \<Rightarrow> node option reg" where
  "start_node env pid a =
     bind (reading (\<lambda>w. runtime_of w pid)) (\<lambda>r. case r of
       None \<Rightarrow> ret None
     | Some _ \<Rightarrow>
         bind (require_execution_project env pid) (\<lambda>p.
         bind (if sa_subtype a = Some CodeReview then andthen (require_git_project env pid) (ret ()) else ret ()) (\<lambda>_.
         bind (reject_if (sa_agent_op_kind a = Some cold_start \<and> truthy (sa_resume_from a))
           (ValueError ''cold_start nodes must not resume a prior session'')) (\<lambda>_.
         if \<not> truthy (sa_resume_from a) then start_checked env p pid a None
         else bind (load pid (or_empty (sa_resume_from a))) (\<lambda>source. case source of
             None \<Rightarrow> ret None
           | Some src \<Rightarrow>
               bind (reading (\<lambda>w. can_resume_provider_session w src)) (\<lambda>local.
               if \<not> terminal (n_state src) \<or> \<not> truthy (n_provider_session_id src) \<and> local then ret None
               else start_checked env p pid a (Some src)))))))"

section \<open>Git operations and code review\<close>

definition op_record :: "pystr \<Rightarrow> pystr \<Rightarrow> pystr option \<Rightarrow> pystr option \<Rightarrow> pystr option \<Rightarrow> pystr \<Rightarrow> pystr \<Rightarrow> int \<Rightarrow> node" where
  "op_record pid kind parent lane preset prompt nid at = (default_node pid nid at)\<lparr>n_kind := Op,
     n_op_kind := Some kind, n_state := Queued, n_parent_node_id := parent, n_planspace_id := lane,
     n_model_preset_id := preset, n_prompt := prompt\<rparr>"

definition append_priority :: "pystr \<Rightarrow> pystr \<Rightarrow> unit reg" where
  "append_priority pid nid = set_runtime pid (\<lambda>rt. rt\<lparr>rt_priority := rt_priority rt @ [nid]\<rparr>)"

definition enqueue_first :: "pystr \<Rightarrow> node \<Rightarrow> node reg" where
  "enqueue_first pid n =
     bind (validated n) (\<lambda>v.
     bind (insert_node v) (\<lambda>m.
     bind (notify pid (WorkspaceNode m None True)) (\<lambda>_.
     andthen (append_priority pid (n_id m)) (ret m))))"

definition spawn_git_op :: "env \<Rightarrow> pystr \<Rightarrow> pystr \<Rightarrow> pystr \<Rightarrow> node option reg" where
  "spawn_git_op env pid kind message =
     bind (reading (\<lambda>w. runtime_of w pid)) (\<lambda>r. case r of
       None \<Rightarrow> ret None
     | Some _ \<Rightarrow>
         bind (require_git_project env pid) (\<lambda>p.
         bind (reject_if (p_persistence_mode p = Remote) (ValueError ''no commit or pull in remote projects'')) (\<lambda>_.
         bind (reject_if (kind \<notin> {''commit'', ''pull''}) (ValueError ''unknown git op_kind'')) (\<lambda>_.
         bind (fresh_id env) (\<lambda>nid.
         bind (reading w_now) (\<lambda>at.
         bind (enqueue_first pid (op_record pid kind None None (Some (p_model_preset_id p)) (strip message) nid at)) (\<lambda>m.
         schedule_and_reload pid m)))))))"

text \<open>
  \<open>spawn_code_review\<close> awaits a Git probe between its two scans of the node list, so other operations
  may run in between: it is two steps, before and after the await.
\<close>

definition review_in_progress :: "node \<Rightarrow> bool" where
  "review_in_progress n \<longleftrightarrow> n_subtype n = Some CodeReview \<and> n_state n \<in> {Queued, Running}"

definition spawn_review_before :: "env \<Rightarrow> pystr \<Rightarrow> (project \<times> node option) reg" where
  "spawn_review_before env pid =
     bind (require_git_project env pid) (\<lambda>p.
     bind (listing pid []) (\<lambda>nodes. ret (p, find review_in_progress nodes)))"

definition review_record :: "pystr \<Rightarrow> pystr option \<Rightarrow> pystr \<Rightarrow> pystr \<Rightarrow> int \<Rightarrow> node" where
  "review_record pid lane preset nid at = (default_node pid nid at)\<lparr>n_category := Some Review,
     n_subtype := Some CodeReview, n_review_target := Some Uncommitted, n_state := Queued,
     n_planspace_id := lane, n_model_preset_id := Some preset\<rparr>"

definition spawn_review_after :: "env \<Rightarrow> project \<Rightarrow> pystr \<Rightarrow> pystr option \<Rightarrow> node option reg" where
  "spawn_review_after env p pid lane =
     bind (reject_if (\<not> e_is_git_repo env (p_root_path p)) (ValueError ''code review requires a Git repository'')) (\<lambda>_.
     bind (listing pid []) (\<lambda>nodes. case find review_in_progress nodes of
         Some n \<Rightarrow> ret (Some n)
       | None \<Rightarrow>
           bind (require_project_lane p lane) (\<lambda>review_lane.
           bind (reading (\<lambda>w. default_code_review_model_preset_id (st_config (w_store w)))) (\<lambda>preset.
           bind (fresh_id env) (\<lambda>nid.
           bind (reading w_now) (\<lambda>at.
           bind (enqueue_first pid (review_record pid review_lane preset nid at)) (\<lambda>m.
           schedule_and_reload pid m)))))))"

text \<open>The two steps with nothing in between.\<close>

definition spawn_code_review :: "env \<Rightarrow> pystr \<Rightarrow> pystr option \<Rightarrow> node option reg" where
  "spawn_code_review env pid lane =
     bind (reading (\<lambda>w. runtime_of w pid)) (\<lambda>r. case r of
       None \<Rightarrow> ret None
     | Some _ \<Rightarrow>
         bind (spawn_review_before env pid) (\<lambda>(p, existing). case existing of
             Some n \<Rightarrow> ret (Some n)
           | None \<Rightarrow> spawn_review_after env p pid lane))"

text \<open>The commit that follows an agent node when the project commits automatically.\<close>

definition spawn_op_commit :: "env \<Rightarrow> pystr \<Rightarrow> node \<Rightarrow> unit reg" where
  "spawn_op_commit env pid agent =
     bind (fresh_id env) (\<lambda>nid.
     bind (reading w_now) (\<lambda>at.
     bind (enqueue_first pid (op_record pid ''commit'' (Some (n_id agent)) (n_planspace_id agent)
       (n_model_preset_id agent) [] nid at)) (\<lambda>_.
     schedule_queued pid)))"

section \<open>Completion of a runner task\<close>

datatype task_end = NoTask | StillRunning | TaskCancelled | TaskFailed pystr | TaskReturned

definition task_over :: "task_end \<Rightarrow> bool" where
  "task_over e = (case e of NoTask \<Rightarrow> False | StillRunning \<Rightarrow> False | _ \<Rightarrow> True)"

definition cancelled_before_start :: pystr where
  "cancelled_before_start = utf8 [114, 117, 110, 110, 101, 114, 32, 229, 144, 175, 229, 138, 168, 229, 137, 141, 229, 183, 178, 229, 143, 150, 230, 182, 136]"

definition unfinished_reason :: "task_end \<Rightarrow> pystr" where
  "unfinished_reason e = (case e of
     TaskCancelled \<Rightarrow> utf8 [114, 117, 110, 110, 101, 114, 32, 116, 97, 115, 107, 32, 229, 156, 168, 232, 191, 155, 229, 133, 165, 231, 187, 136, 230, 128, 129, 229, 137, 141, 232, 162, 171, 229, 143, 150, 230, 182, 136]
   | TaskFailed detail \<Rightarrow>
       utf8 [114, 117, 110, 110, 101, 114, 32, 116, 97, 115, 107, 32, 229, 156, 168, 232, 191, 155, 229, 133, 165, 231, 187, 136, 230, 128, 129, 229, 137, 141, 229, 164, 177, 232, 180, 165, 239, 188, 154] @ detail
   | _ \<Rightarrow> utf8 [114, 117, 110, 110, 101, 114, 32, 116, 97, 115, 107, 32, 229, 183, 178, 231, 187, 147, 230, 157, 159, 228, 189, 134, 232, 138, 130, 231, 130, 185, 230, 156, 170, 232, 191, 155, 229, 133, 165, 231, 187, 136, 230, 128, 129])"

definition no_purpose :: pystr where
  "no_purpose = utf8 [239, 188, 136, 230, 156, 170, 232, 174, 176, 229, 189, 149, 232, 191, 144, 232, 161, 140, 231, 155, 174, 231, 154, 132, 239, 188, 137]"

definition check_and_rerun :: pystr where
  "check_and_rerun = utf8 [230, 163, 128, 230, 159, 165, 233, 148, 153, 232, 175, 175, 229, 142, 159, 229, 155, 160, 229, 144, 142, 233, 135, 141, 230, 150, 176, 232, 191, 144, 232, 161, 140, 232, 175, 165, 232, 138, 130, 231, 130, 185]"

definition persist_unexpected_terminal :: "pystr \<Rightarrow> node \<Rightarrow> node_state \<Rightarrow> pystr \<Rightarrow> node reg" where
  "persist_unexpected_terminal pid n previous reason =
     bind (reading w_now) (\<lambda>now.
     bind (save (finish_at now (add_error reason n))) (\<lambda>m.
     bind (try_executed_preview pid m (if n_prompt m \<noteq> [] then take 200 (n_prompt m) else no_purpose)
       reason check_and_rerun) (\<lambda>_.
     bind (notify pid (WorkspaceNode m (Some previous) False)) (\<lambda>_.
     bind (notify pid (NodeUpdated m)) (\<lambda>_. ret m)))))"

definition settle_node :: "pystr \<Rightarrow> node \<Rightarrow> task_end \<Rightarrow> node reg" where
  "settle_node pid n e =
     (if e = TaskCancelled \<and> n_state n = Queued
      then bind (reading w_now) (\<lambda>now.
        bind (save (n\<lparr>n_state := Cancelled, n_error := Some cancelled_before_start,
          n_started_at := Some (n_created_at n), n_finished_at := Some now\<rparr>)) (\<lambda>m.
        bind (notify pid (WorkspaceNode m (Some (n_state n)) False)) (\<lambda>_. ret m)))
      else if task_over e \<and> \<not> terminal (n_state n)
      then persist_unexpected_terminal pid (n\<lparr>n_state := (if e = TaskCancelled then Cancelled else Error)\<rparr>)
        (n_state n) (unfinished_reason e)
      else ret n)"

text \<open>A finished commit hands its commit id to the agent node it follows.\<close>

definition propagate_commit :: "pystr \<Rightarrow> node \<Rightarrow> unit reg" where
  "propagate_commit pid n =
     (if n_kind n = Op \<and> n_op_kind n = Some ''commit'' \<and> n_state n = Done \<and> truthy (n_parent_node_id n) \<and>
         truthy (n_commit_after n) \<and> n_commit_after n \<noteq> n_commit_before n
      then bind (load pid (or_empty (n_parent_node_id n))) (\<lambda>agent. case agent of
          None \<Rightarrow> ret ()
        | Some a \<Rightarrow>
            if n_commit_after a = n_commit_after n then ret ()
            else bind (save (a\<lparr>n_commit_after := n_commit_after n\<rparr>)) (\<lambda>m. notify pid (NodeUpdated m)))
      else ret ())"

definition broadcast_git_status :: "pystr \<Rightarrow> project \<Rightarrow> unit reg" where
  "broadcast_git_status pid p = (if p_temporary p then ret () else notify pid GitStatusSent)"

definition commits_automatically :: "project \<Rightarrow> bool" where
  "commits_automatically p \<longleftrightarrow> \<not> p_temporary p \<and> p_persistence_mode p \<noteq> Remote \<and>
     (case map_of (p_settings_override p) ''auto_commit'' of None \<Rightarrow> False | Some v \<Rightarrow> json_truthy v)"

definition after_done :: "env \<Rightarrow> pystr \<Rightarrow> project \<Rightarrow> node \<Rightarrow> unit reg" where
  "after_done env pid p n =
     (if n_kind n = Agent \<and> n_state n = Done \<and> commits_automatically p
      then andthen (spawn_op_commit env pid n) (schedule_queued pid)
      else andthen (if n_state n = Done then auto_promote_eligible_virtuals env pid else ret ())
        (andthen (broadcast_git_status pid p) (schedule_queued pid)))"

definition on_runner_done :: "env \<Rightarrow> pystr \<Rightarrow> pystr \<Rightarrow> task_end \<Rightarrow> unit reg" where
  "on_runner_done env pid nid e =
     bind (reading (\<lambda>w. runtime_of w pid)) (\<lambda>r. case r of
       None \<Rightarrow> ret ()
     | Some rt \<Rightarrow>
         bind (set_runtime pid (remove_runner nid)) (\<lambda>_.
         case map_of (rt_runners rt) nid of
           None \<Rightarrow> ret ()
         | Some n \<Rightarrow>
             if rt_closed rt then ret ()
             else bind (settle_node pid n e) (\<lambda>m.
               bind (propagate_commit pid m) (\<lambda>_. after_done env pid (rt_project rt) m))))"

section \<open>Interruption\<close>

definition interrupt :: "env \<Rightarrow> pystr \<Rightarrow> pystr \<Rightarrow> bool reg" where
  "interrupt env pid nid =
     bind (reading (\<lambda>w. runtime_of w pid)) (\<lambda>r. case r of
       None \<Rightarrow> ret False
     | Some rt \<Rightarrow>
         bind (require_unarchived env pid) (\<lambda>p.
         bind (load pid nid) (\<lambda>node.
         bind (case node of None \<Rightarrow> ret ()
           | Some n \<Rightarrow> andthen (require_unarchived_lane p (n_planspace_id n)) (require_native_node n)) (\<lambda>_.
         if nid \<notin> set (keys (rt_runners rt)) \<or> map_of (rt_tasks rt) nid \<noteq> Some False then ret False
         else bind (reading w_loop) (\<lambda>loop.
           bind (reject_if (\<not> loop) (RuntimeError ''no running event loop'')) (\<lambda>_.
           andthen (notify pid (InterruptRequested nid)) (ret True)))))))"

section \<open>Archiving\<close>

definition archive_blockers :: "pystr \<Rightarrow> runtime \<Rightarrow> pystr option \<Rightarrow> pystr list reg" where
  "archive_blockers pid rt lane =
     bind (listing pid []) (\<lambda>nodes. ret (map n_id (filter (\<lambda>n.
       (lane = None \<or> n_planspace_id n = lane) \<and>
       (n_id n \<in> set (keys (rt_tasks rt)) \<or> n_state n \<noteq> Virtual \<and> \<not> terminal (n_state n))) nodes)))"

definition set_archived_at :: "pystr \<Rightarrow> int option \<Rightarrow> unit reg" where
  "set_archived_at pid at = set_runtime pid (\<lambda>rt. rt\<lparr>rt_project := (rt_project rt)\<lparr>p_archived_at := at\<rparr>\<rparr>)"

definition project_label :: "project \<Rightarrow> pystr" where
  "project_label p = (if p_name p = [] then p_id p else p_name p)"

text \<open>\<open>refreshing\<close>: whether a context refresh of the project runs in the background.\<close>

definition archive_project :: "env \<Rightarrow> bool \<Rightarrow> pystr \<Rightarrow> (project option \<times> pystr list) reg" where
  "archive_project env refreshing pid =
     bind (reading (\<lambda>w. runtime_of w pid)) (\<lambda>r. case r of
       None \<Rightarrow> ret (None, [])
     | Some rt \<Rightarrow>
         bind (require_native env pid) (\<lambda>p.
         if p_archived_at p \<noteq> None then ret (Some p, [])
         else bind (reject_if refreshing (RuntimeError ''context refresh in progress'')) (\<lambda>_.
           bind (archive_blockers pid rt None) (\<lambda>busy.
           if busy \<noteq> [] then ret (None, busy)
           else bind (reading w_now) (\<lambda>now.
             bind (set_archived_at pid (Some now)) (\<lambda>_.
             bind (on_store (update_project (p\<lparr>p_archived_at := Some now\<rparr>))) (\<lambda>_.
             bind (on_store (schedule_commit (''archive project '' @ quoted (project_label p)))) (\<lambda>_.
             bind (listing pid []) (\<lambda>nodes.
             bind (for_each nodes (\<lambda>n. notify pid (WorkspaceRemoved n))) (\<lambda>_.
             ret (Some (p\<lparr>p_archived_at := Some now\<rparr>), [])))))))))))"

definition unarchive_project :: "env \<Rightarrow> pystr \<Rightarrow> project option reg" where
  "unarchive_project env pid =
     bind (reading (\<lambda>w. runtime_of w pid)) (\<lambda>r. case r of
       None \<Rightarrow> ret None
     | Some _ \<Rightarrow>
         bind (require_native env pid) (\<lambda>p.
         if p_archived_at p = None then ret (Some p)
         else bind (set_archived_at pid None) (\<lambda>_.
           bind (on_store (update_project (p\<lparr>p_archived_at := None\<rparr>))) (\<lambda>_.
           bind (on_store (schedule_commit (''unarchive project '' @ quoted (project_label p)))) (\<lambda>_.
           ret (Some (p\<lparr>p_archived_at := None\<rparr>)))))))"

definition write_archive_mark :: "pystr \<Rightarrow> project \<Rightarrow> pystr \<Rightarrow> bool \<Rightarrow> (bool \<times> pystr list) reg" where
  "write_archive_mark pid p lane archived =
     bind (reading w_now) (\<lambda>now.
     bind (on_lanes_state (set_planspace_archived (p_id p) lane archived now)) (\<lambda>_.
     bind (on_store (schedule_commit ((if archived then ''archive'' else ''unarchive'') @ '' planspace '' @ lane))) (\<lambda>_.
     if \<not> archived then ret (True, [])
     else bind (listing pid []) (\<lambda>nodes.
       bind (for_each (filter (\<lambda>n. n_planspace_id n = Some lane) nodes) (\<lambda>n. notify pid (WorkspaceRemoved n))) (\<lambda>_.
       ret (True, []))))))"

definition set_planspace_archive :: "env \<Rightarrow> bool \<Rightarrow> pystr \<Rightarrow> pystr \<Rightarrow> bool \<Rightarrow> (bool \<times> pystr list) reg" where
  "set_planspace_archive env refreshing pid planspace_id archived =
     bind (reading (\<lambda>w. runtime_of w pid)) (\<lambda>r. case r of
       None \<Rightarrow> ret (False, [])
     | Some rt \<Rightarrow>
         bind (require_unarchived env pid) (\<lambda>p.
         bind (reject_if (strip planspace_id = []) (ValueError ''planspace id is required'')) (\<lambda>_.
         bind (reading (\<lambda>w. (strip planspace_id \<in> set (list_project_planspace_ids (w_lanes w) (p_id p)),
           read_planspace_archived (w_lanes w) (p_id p) (strip planspace_id)))) (\<lambda>(bound, current).
         if \<not> bound then ret (False, [])
         else if current = archived then ret (True, [])
         else if \<not> archived then write_archive_mark pid p (strip planspace_id) False
         else bind (reject_if refreshing (RuntimeError ''context refresh in progress'')) (\<lambda>_.
           bind (archive_blockers pid rt (Some (strip planspace_id))) (\<lambda>busy.
           if busy \<noteq> [] then ret (False, busy)
           else write_archive_mark pid p (strip planspace_id) True))))))"

section \<open>Self-update and storage sync\<close>

definition idle_runtimes :: "world \<Rightarrow> bool" where
  "idle_runtimes w = list_all (\<lambda>(i, rt). rt_tasks rt = [] \<and> rt_runners rt = []) (w_runtimes w)"

definition require_storage_idle :: "unit reg" where
  "require_storage_idle = bind (reading idle_runtimes) (\<lambda>idle.
     reject_if (\<not> idle) (RuntimeError ''wait for the current tasks to finish before syncing''))"

definition prepare_storage_sync :: "unit reg" where
  "prepare_storage_sync =
     bind (reading (\<lambda>w. w_storage_sync w \<or> w_self_update w)) (\<lambda>pending.
     bind (reject_if pending (RuntimeError ''storage is syncing or updating'')) (\<lambda>_.
     andthen require_storage_idle (writing (\<lambda>w. w\<lparr>w_storage_sync := True\<rparr>))))"

definition schedule_all :: "unit reg" where
  "schedule_all =
     bind (reading (\<lambda>w. w)) (\<lambda>w.
     if w_storage_sync w \<or> w_self_update w \<or> \<not> writable (w_store w) then ret ()
     else for_each (w_runtimes w) (\<lambda>(i, rt).
       if p_archived_at (rt_project rt) = None \<and> is_native_project w (rt_project rt)
       then schedule_queued i else ret ()))"

definition finish_storage_sync :: "unit reg" where
  "finish_storage_sync = andthen (writing (\<lambda>w. w\<lparr>w_storage_sync := False\<rparr>)) schedule_all"

definition prepare_self_update :: "bool reg" where
  "prepare_self_update =
     bind (reading (\<lambda>w. w_self_update w \<or> w_storage_sync w)) (\<lambda>pending.
     if pending then ret False
     else andthen (writing (\<lambda>w. w\<lparr>w_self_update := True\<rparr>)) (ret True))"

definition cancel_self_update :: "unit reg" where
  "cancel_self_update =
     bind (reading w_self_update) (\<lambda>pending.
     if \<not> pending then ret ()
     else andthen (writing (\<lambda>w. w\<lparr>w_self_update := False\<rparr>)) schedule_all)"

definition finalizing_runner_nodes :: "world \<Rightarrow> (project \<times> pystr) list" where
  "finalizing_runner_nodes w = concat (map (\<lambda>(i, rt).
     map (\<lambda>(nid, done). (rt_project rt, nid)) (filter (\<lambda>(nid, done). \<not> done) (rt_tasks rt))) (w_runtimes w))"

end
