(* ===== verification/Lifecycle_Safety.thy ===== *)
theory Lifecycle_Safety
  imports Lifecycle Editing_Safety
begin

text \<open>
  What the life-cycle operations keep and establish: no node of this device is left mid-flight after
  the repair at startup, the completion callback leaves a finished task's node terminal, a started node
  is a fresh well-formed queued record, an archived project refuses every operation and launches stop
  during a self-update or a storage sync.
\<close>

section \<open>Repair at startup\<close>

definition healed :: "int \<Rightarrow> node \<Rightarrow> node \<Rightarrow> bool" where
  "healed now n m \<longleftrightarrow> (\<exists>r. m = (repaired now n)\<lparr>n_rev := r\<rparr>)"

lemma repaired_fields [simp]:
  "n_id (repaired now n) = n_id n" "n_project_id (repaired now n) = n_project_id n"
  "n_owner_host_id (repaired now n) = n_owner_host_id n" "n_state (repaired now n) = Cancelled"
  "n_model_preset_id (repaired now n) = n_model_preset_id n"
  by (simp_all add: repaired_def finish_at_def add_error_def)

lemma node_wf_ended:
  assumes "node_wf n" and "s \<noteq> Virtual"
  shows "node_wf (n\<lparr>n_state := s, n_error := e, n_started_at := a, n_finished_at := b\<rparr>)"
  by (rule node_wf_transfer [OF assms(1)])
    (use assms agent_usable [of n] verifier_prompt [of n] in \<open>simp_all add: usable_preset_def\<close>)

lemma node_wf_repaired: "node_wf n \<Longrightarrow> node_wf (repaired now n)"
  using node_wf_ended [of n Cancelled] by (simp add: repaired_def finish_at_def add_error_def)

lemma keeps_try_executed [keeps_intros]: "keeps (steady w) (try_executed_preview pid n m s i)"
  unfolding try_executed_preview_def by (intro keeps_intros)

lemma wp_try_executed:
  assumes "steady w t" and "\<And>u. steady w u \<Longrightarrow> Q () u"
  shows "wp (try_executed_preview pid n m s i) Q E t"
proof -
  have "keeps (steady w) (bind (reading w_now) (\<lambda>now.
          case render_executed_preview now n m s i [] of
            Inl e \<Rightarrow> raise PreviewNotRendered
          | Inr doc \<Rightarrow> put_preview pid (n_id n) doc))"
    by (intro keeps_intros)
  from wp_keeps [OF this assms(1)] show ?thesis
    unfolding try_executed_preview_def wp_simps(8) using assms(2) by simp
qed

lemma wp_try_executed_wrote:
  "wrote w k t \<Longrightarrow> (\<And>u. wrote w k u \<Longrightarrow> Q () u) \<Longrightarrow> wp (try_executed_preview pid n m s i) Q E t"
  by (rule wp_try_executed [OF wrote_self], assumption) (blast intro: wrote_steady)

definition repairing :: "world \<Rightarrow> pystr \<Rightarrow> pystr set \<Rightarrow> world \<Rightarrow> bool" where
  "repairing w pid ids u \<longleftrightarrow> host_same w u \<and>
     rewritten (tab w) pid (\<lambda>n. may_write w \<and> stale w n) (healed (w_now w)) ids (tab u)"

lemma repairing_steady: "repairing w pid ids t \<Longrightarrow> steady t u \<Longrightarrow> repairing w pid ids u"
  unfolding repairing_def steady_def using host_same_trans by auto

lemma stale_same: "machine t = machine w \<Longrightarrow> stale t n = stale w n"
  by (simp add: stale_def is_native_node_def machine_def)

lemma wp_repair_node:
  assumes w: "world_ok w" and n: "tab w pid (n_id n) = Some n" "n_id n \<notin> ids" and t: "repairing w pid ids t"
    and q: "\<And>u. repairing w pid (insert (n_id n) ids) u \<Longrightarrow> Q () u"
  shows "wp (repair_node pid (w_now w) n) Q E t"
proof -
  have host: "machine t = machine w" "world_ok t" "may_write t = may_write w" "known t = known w"
    using t by (simp_all add: repairing_def host_same_def)
  have ids: "n_project_id n = pid" "node_wf n" "known w n" using nodes.tab_ids [OF w n(1)] by auto
  have here: "tab t pid (n_id n) = Some n" using t n by (auto simp: repairing_def intro: rewritten_here)
  let ?m = "repaired (w_now w) n"
  let ?saving = "catching (bind (save ?m) (\<lambda>m. ret (Some m))) (\<lambda>_. ret None)"
  let ?next = "\<lambda>saved. case saved of None \<Rightarrow> ret ()
       | Some m \<Rightarrow> try_executed_preview pid m
           (if n_prompt m \<noteq> [] then take 200 (n_prompt m) else ''(no motivation recorded)'')
           startup_interrupt_reason
           ''node was mid-flight when the backend restarted; rerun from the panel to try again''"
  have skip: "Q () t" if "\<not> (may_write w \<and> stale w n)"
    using that t n(1) by (intro q) (auto simp: repairing_def intro: rewritten_skip)
  show ?thesis
  proof (cases "stale w n")
    case False
    then show ?thesis using skip stale_same [OF host(1)] by (simp add: repair_node_def)
  next
    case st: True
    have own: "n_owner_host_id n = machine t" using st host(1) by (simp add: stale_def is_native_node_def machine_def)
    have "wp ?saving (\<lambda>saved. wp (?next saved) Q E) E t"
    proof (cases "may_write w")
      case False
      then obtain e where "save ?m t = (t, Inl e)" using nodes.refusal [of t ?m] host(3) by blast
      then show ?thesis using skip False by (simp add: wp_def catching_def bind_def ret_def)
    next
      case True
      have known: "known t ?m" using ids(3) host(4) by (simp add: known_def preset_known_def)
      obtain u m where s: "save ?m t = (u, Inr m)" and u: "world_ok u" "frame u = frame t" "tab u = tab_put m (tab t)"
        and m: "m = ?m\<lparr>n_rev := max (n_rev ?m) (n_rev n) + 1\<rparr>"
        using nodes.update_law [OF host(2) _ node_wf_repaired [OF ids(2)] known, of n] True host here ids own by auto
      have "rewritten (tab w) pid (\<lambda>n. may_write w \<and> stale w n) (healed (w_now w)) (insert (n_id n) ids) (tab u)"
        unfolding u(3)
        by (rule rewritten_step) (use t n(1) True st m ids in \<open>auto simp: repairing_def healed_def\<close>)
      moreover have "host_same w u"
        using frame_host_same [OF u(1,2)] t host_same_trans unfolding repairing_def by blast
      ultimately have d: "repairing w pid (insert (n_id n) ids) u" by (simp add: repairing_def)
      have "wp (?next (Some m)) Q E u"
        unfolding option.case
        by (rule wp_try_executed [OF steady_refl [OF u(1)]]) (rule q [OF repairing_steady [OF d]])
      moreover have "?saving t = (u, Inr (Some m))" using s by (simp add: catching_def bind_def ret_def)
      ultimately show ?thesis by - (rule wp_returns)
    qed
    then show ?thesis using st stale_same [OF host(1)] unfolding repair_node_def wp_simps(6) [of "reading _"] wp_simps(3)
      by (simp del: wp_simps(8))
  qed
qed

lemma wp_repair_stale:
  assumes w: "world_ok w" and p: "get_project w pid = Some p"
    and q: "\<And>u. repairing w pid UNIV u \<Longrightarrow> Q () u"
  shows "wp (repair_stale_nodes pid) Q E w"
proof -
  have "wp (listing pid []) (\<lambda>ns. wp (for_each ns (repair_node pid (w_now w))) Q E) E w"
  proof (rule wp_listing_steady [OF steady_refl [OF w]])
    fix ns u assume u: "steady w u" and ns: "distinct (map n_id ns)" "\<And>n. n \<in> set ns \<longleftrightarrow> tab w pid (n_id n) = Some n"
    have all: "i \<in> {} \<union> n_id ` set ns" if "tab w pid i = Some n" for i n
      using that ns(2) [of n] nodes.tab_ids [OF w that] by auto
    show "wp (for_each ns (repair_node pid (w_now w))) Q E u"
    proof (rule wp_for_nodes [OF ns(1), where I = "repairing w pid" and ids = "{}"])
      show "repairing w pid {} u" using u rewritten_none by (simp add: repairing_def steady_def)
      fix n ids x and Q' :: "unit \<Rightarrow> world \<Rightarrow> bool"
      assume n: "n \<in> set ns" "n_id n \<notin> ids" and x: "repairing w pid ids x"
        and q': "\<And>v. repairing w pid (insert (n_id n) ids) v \<Longrightarrow> Q' () v"
      show "wp (repair_node pid (w_now w) n) Q' E x"
        by (rule wp_repair_node [OF w _ n(2) x]) (use n ns(2) q' in auto)
    next
      fix x assume "repairing w pid ({} \<union> n_id ` set ns) x"
      then show "Q () x" using all by (intro q) (auto simp: repairing_def elim: rewritten_all)
    qed simp
  qed
  then show ?thesis unfolding repair_stale_nodes_def wp_simps(6) wp_simps(3) prod.case p option.case .
qed


lemma repair_leaves_none:
  assumes w: "world_ok w" and "may_write w" and t: "repairing w pid UNIV t" and n: "tab t pid i = Some n"
  shows "\<not> stale w n"
proof -
  have r: "rewritten (tab w) pid (\<lambda>n. may_write w \<and> stale w n) (healed (w_now w)) UNIV (tab t)"
    using t by (simp add: repairing_def)
  obtain k where k: "tab w pid i = Some k" "n = k \<or> healed (w_now w) k n" using rewritten_node [OF r n] .
  show ?thesis
  proof (cases "stale w k")
    case True
    then have "healed (w_now w) k n" using r k(1) n assms(2) unfolding rewritten_def by fastforce
    then show ?thesis by (auto simp: healed_def stale_def)
  next
    case False
    then have "n = k" using r k(1) n unfolding rewritten_def by fastforce
    then show ?thesis using False by simp
  qed
qed

section \<open>Other changes of one record\<close>

text \<open>A write that keeps preset and continuation keeps the sources of continuations usable.\<close>

lemma sources_ok_put:
  assumes so: "sources_ok pid tb" and n0: "tb pid (n_id m) = Some n0" and m: "n_project_id m = pid"
    and same: "n_model_preset_id m = n_model_preset_id n0"
      "n_state m = Virtual \<Longrightarrow> n_state n0 = Virtual \<and> n_resume_from_node_id m = n_resume_from_node_id n0"
  shows "sources_ok pid (tab_put m tb)"
proof -
  have u: "usable_preset m = usable_preset n0" "trimmed_preset m = trimmed_preset n0"
    using same(1) by (simp_all add: usable_preset_def trimmed_preset_def)
  have "usable_preset src"
    if k: "tab_put m tb pid i = Some k" "n_state k = Virtual" "truthy (n_resume_from_node_id k)"
      and src: "tab_put m tb pid (or_empty (n_resume_from_node_id k)) = Some src" for i k src
  proof -
    obtain k' where k': "tb pid i = Some k'" "n_state k' = Virtual"
      "n_resume_from_node_id k' = n_resume_from_node_id k"
      using k n0 m same(2) by (cases "i = n_id m") auto
    have "usable_preset src'" if "tb pid (or_empty (n_resume_from_node_id k)) = Some src'" for src'
      using so k' k(3) that unfolding sources_ok_def by metis
    then show ?thesis using src n0 m u(1) by (auto split: if_splits)
  qed
  then show ?thesis using so n0 m u(2) unfolding sources_ok_def by (auto split: if_splits)
qed

lemma sources_ok_fresh:
  assumes "sources_ok pid tb" and "tb pid (n_id m) = None" and "n_project_id m = pid"
    and "n_state m \<noteq> Virtual" and "trimmed_preset m"
    and "\<And>i k. tb pid i = Some k \<Longrightarrow> n_state k = Virtual \<Longrightarrow> truthy (n_resume_from_node_id k) \<Longrightarrow>
      or_empty (n_resume_from_node_id k) \<noteq> n_id m"
  shows "sources_ok pid (tab_put m tb)"
  using assms unfolding sources_ok_def by (auto split: if_splits)

section \<open>The completion callback\<close>

definition runner_ok :: "world \<Rightarrow> pystr \<Rightarrow> pystr \<Rightarrow> node \<Rightarrow> bool" where
  "runner_ok w pid nid n \<longleftrightarrow> tab w pid nid = Some n \<and> n_owner_host_id n = machine w \<and> n_state n \<noteq> Virtual"

text \<open>The state a finished task leaves its node in.\<close>

definition end_state :: "task_end \<Rightarrow> node \<Rightarrow> node_state" where
  "end_state e n = (if terminal (n_state n) then n_state n else if e = TaskCancelled then Cancelled else Error)"

definition ended :: "task_end \<Rightarrow> node \<Rightarrow> node \<Rightarrow> bool" where
  "ended e n m \<longleftrightarrow> task_over e \<and> \<not> terminal (n_state n) \<and> n_state m = end_state e n \<and> n_id m = n_id n \<and> n_project_id m = n_project_id n \<and>
     n_kind m = n_kind n \<and> n_planspace_id m = n_planspace_id n \<and> n_owner_host_id m = n_owner_host_id n \<and>
     n_model_preset_id m = n_model_preset_id n \<and> n_parent_node_id m = n_parent_node_id n \<and> n_finished_at m \<noteq> None"

lemma wp_no_raise: "wp m Q E s \<Longrightarrow> wp m (\<lambda>_ _. True) (\<lambda>_ _. False) s \<Longrightarrow> wp m Q E' s"
  by (auto simp: wp_def split: prod.splits sum.splits)

text \<open>A write that may happen at all does not raise: the record is well formed and its preset known.\<close>

lemma wp_save_ended:
  assumes t: "steady w t" and n: "tab w pid (n_id n) = Some n" "n_owner_host_id n = machine w"
    and w: "world_ok w" and wf: "node_wf k" and k: "n_id k = n_id n" "n_project_id k = n_project_id n"
      "n_owner_host_id k = n_owner_host_id n" "n_model_preset_id k = n_model_preset_id n"
    and q: "\<And>u r. wrote w (k\<lparr>n_rev := r\<rparr>) u \<Longrightarrow> Q (k\<lparr>n_rev := r\<rparr>) u"
    and err: "\<And>e u. \<not> may_write w \<Longrightarrow> steady w u \<Longrightarrow> E e u"
  shows "wp (save k) Q E t"
proof -
  have n': "tab w (n_project_id k) (n_id k) = Some n" "n_owner_host_id k = machine w"
    using nodes.tab_ids [OF w n(1)] n k by simp_all
  have save: "wp (save k) Q E' t" if e: "\<And>e u. steady w u \<Longrightarrow> E' e u" for E'
    by (rule wp_save_steady [OF t wf n'(1) n(2) n'(2) _ e]) (simp_all add: q)
  show ?thesis
  proof (cases "may_write w")
    case True
    have "known w k" using nodes.tab_ids [OF w n(1)] k(4) by (simp add: known_def preset_known_def)
    then have "known t k" using t by (simp add: steady_def host_same_def)
    then obtain u m where "save k t = (u, Inr m)"
      using nodes.update_law [of t k n] steadyD [OF t] wf n' n True by auto
    then have "wp (save k) (\<lambda>_ _. True) (\<lambda>_ _. False) t" by (simp add: wp_def)
    with save [of "\<lambda>_ _. True"] show ?thesis by (blast intro: wp_no_raise)
  qed (use save err in blast)
qed

lemma wp_settle_node:
  assumes w: "world_ok w" and t: "steady w t" and r: "runner_ok w pid (n_id n) n"
    and same: "\<And>u. steady w u \<Longrightarrow> terminal (n_state n) \<or> \<not> task_over e \<Longrightarrow> Q n u"
    and fin: "\<And>u m. wrote w m u \<Longrightarrow> ended e n m \<Longrightarrow> Q m u"
    and err: "\<And>e u. \<not> may_write w \<Longrightarrow> steady w u \<Longrightarrow> E e u"
  shows "wp (settle_node pid n e) Q E t"
proof -
  have n: "tab w pid (n_id n) = Some n" "n_owner_host_id n = machine w" using r by (simp_all add: runner_ok_def)
  have wf: "node_wf n" using nodes.tab_ids [OF w n(1)] by blast
  show ?thesis
  proof (cases "e = TaskCancelled \<and> n_state n = Queued")
    case True
    let ?k = "n\<lparr>n_state := Cancelled, n_error := Some cancelled_before_start,
          n_started_at := Some (n_created_at n), n_finished_at := Some (w_now t)\<rparr>"
    have "wp (save ?k) (\<lambda>m. wp (bind (notify pid (WorkspaceNode m (Some (n_state n)) False)) (\<lambda>_. ret m)) Q E) E t"
    proof (rule wp_save_ended [OF t n w _ _ _ _ _ _ err])
      show "node_wf ?k" by (rule node_wf_ended [OF wf]) simp
      fix u r assume u: "wrote w (?k\<lparr>n_rev := r\<rparr>) u"
      have "ended e n (?k\<lparr>n_rev := r\<rparr>)" using True by (simp add: ended_def end_state_def task_over_def terminal_def terminal_node_states_def)
      note fin = fin [OF _ this]
      show "wp (bind (notify pid (WorkspaceNode (?k\<lparr>n_rev := r\<rparr>) (Some (n_state n)) False))
          (\<lambda>_. ret (?k\<lparr>n_rev := r\<rparr>))) Q E u"
        by (rule wp_bindI, rule wp_notify_wrote [OF u], unfold wp_simps, erule fin)
    qed simp_all
    then show ?thesis using True by (simp add: settle_node_def)
  next
    case cancelled: False
    show ?thesis
    proof (cases "task_over e \<and> \<not> terminal (n_state n)")
      case False
      then have "Q n t" by (intro same [OF t]) blast
      then show ?thesis unfolding settle_node_def if_not_P [OF cancelled] if_not_P [OF False] wp_simps .
    next
      case True
      let ?n = "n\<lparr>n_state := (if e = TaskCancelled then Cancelled else Error)\<rparr>"
      let ?k = "finish_at (w_now t) (add_error (unfinished_reason e) ?n)"
      have wf': "node_wf ?k" using node_wf_ended [OF wf] by (simp add: finish_at_def add_error_def)
      have ended: "ended e n (?k\<lparr>n_rev := r\<rparr>)" for r
        using True by (simp add: ended_def end_state_def finish_at_def add_error_def)
      have "wp (save ?k) (\<lambda>m. wp (bind (try_executed_preview pid m (if n_prompt m \<noteq> [] then take 200 (n_prompt m) else no_purpose)
         (unfinished_reason e) check_and_rerun) (\<lambda>_.
       bind (notify pid (WorkspaceNode m (Some (n_state n)) False)) (\<lambda>_.
       bind (notify pid (NodeUpdated m)) (\<lambda>_. ret m)))) Q E) E t"
      proof (rule wp_save_ended [OF t n w wf' _ _ _ _ _ err])
        fix u r assume u: "wrote w (?k\<lparr>n_rev := r\<rparr>) u"
        let ?m = "?k\<lparr>n_rev := r\<rparr>"
        show "wp (bind (try_executed_preview pid ?m (if n_prompt ?m \<noteq> [] then take 200 (n_prompt ?m) else no_purpose)
         (unfinished_reason e) check_and_rerun) (\<lambda>_.
       bind (notify pid (WorkspaceNode ?m (Some (n_state n)) False)) (\<lambda>_.
       bind (notify pid (NodeUpdated ?m)) (\<lambda>_. ret ?m)))) Q E u"
          by (rule wp_bindI, rule wp_try_executed_wrote [OF u], rule wp_bindI, erule wp_notify_wrote,
              rule wp_bindI, erule wp_notify_wrote, unfold wp_simps, erule fin [OF _ ended])
      qed (simp_all add: finish_at_def add_error_def)
      then show ?thesis
        unfolding settle_node_def if_not_P [OF cancelled] if_P [OF True] persist_unexpected_terminal_def
        by - (rule wp_bindI, unfold wp_simps(3), rule wp_bindI)
    qed
  qed
qed


definition passes_commit :: "node \<Rightarrow> bool" where
  "passes_commit n \<longleftrightarrow> n_kind n = Op \<and> n_op_kind n = Some ''commit'' \<and> n_state n = Done \<and> truthy (n_parent_node_id n) \<and>
     truthy (n_commit_after n) \<and> n_commit_after n \<noteq> n_commit_before n"

text \<open>The node a finished commit belongs to, where there is one, has the commit's id.\<close>

definition commit_passed :: "pystr \<Rightarrow> node \<Rightarrow> table \<Rightarrow> table \<Rightarrow> bool" where
  "commit_passed pid n tb tb' \<longleftrightarrow> (\<forall>a. passes_commit n \<longrightarrow> tb pid (or_empty (n_parent_node_id n)) = Some a \<longrightarrow>
     (\<exists>a'. tb' pid (or_empty (n_parent_node_id n)) = Some a' \<and> n_commit_after a' = n_commit_after n \<and> n_state a' = n_state a))"

lemma wp_propagate_commit:
  assumes w: "world_ok w" and t: "steady w t"
    and native: "\<And>a. n_kind n = Op \<Longrightarrow> tab w pid (or_empty (n_parent_node_id n)) = Some a \<Longrightarrow> n_owner_host_id a = machine w"
    and same: "\<And>u. steady w u \<Longrightarrow> commit_passed pid n (tab w) (tab w) \<Longrightarrow> Q () u"
    and put: "\<And>u a r. tab w pid (n_id a) = Some a \<Longrightarrow>
      wrote w (a\<lparr>n_commit_after := n_commit_after n, n_rev := r\<rparr>) u \<Longrightarrow> commit_passed pid n (tab w) (tab u) \<Longrightarrow> Q () u"
    and err: "\<And>e u. steady w u \<Longrightarrow> E e u"
  shows "wp (propagate_commit pid n) Q E t"
proof (cases "n_kind n = Op \<and> n_op_kind n = Some ''commit'' \<and> n_state n = Done \<and> truthy (n_parent_node_id n) \<and>
         truthy (n_commit_after n) \<and> n_commit_after n \<noteq> n_commit_before n")
  case False
  then show ?thesis unfolding propagate_commit_def if_not_P [OF False] wp_simps
    by (intro same [OF t]) (use False in \<open>auto simp: commit_passed_def passes_commit_def\<close>)
next
  case True
  have "wp (case tab w pid (or_empty (n_parent_node_id n)) of
          None \<Rightarrow> ret ()
        | Some a \<Rightarrow>
            if n_commit_after a = n_commit_after n then ret ()
            else bind (save (a\<lparr>n_commit_after := n_commit_after n\<rparr>)) (\<lambda>m. notify pid (NodeUpdated m))) Q E u"
    if u: "steady w u" for u
  proof (cases "tab w pid (or_empty (n_parent_node_id n))")
    case None
    then show ?thesis using same [OF u] by (simp add: commit_passed_def)
  next
    case (Some a)
    have ids: "n_id a = or_empty (n_parent_node_id n)" "n_project_id a = pid" "node_wf a"
      using nodes.tab_ids [OF w Some] by auto
    have here: "tab w pid (n_id a) = Some a" using Some ids by simp
    let ?k = "a\<lparr>n_commit_after := n_commit_after n\<rparr>"
    have "wp (bind (save ?k) (\<lambda>m. notify pid (NodeUpdated m))) Q E u"
    proof (rule wp_bindI, rule wp_save_ended [OF u here _ w _ _ _ _ _ _ err])
      show "n_owner_host_id a = machine w" using native True Some by blast
      fix v r assume "wrote w (?k\<lparr>n_rev := r\<rparr>) v"
      then show "wp (notify pid (NodeUpdated (?k\<lparr>n_rev := r\<rparr>))) Q E v"
        by (rule wp_notify_wrote) (rule put [OF here], use ids Some in \<open>simp_all add: wrote_def commit_passed_def\<close>)
    qed (use ids in simp_all)
    then show ?thesis using Some same [OF u] by (simp add: commit_passed_def)
  qed
  then show ?thesis unfolding propagate_commit_def if_P [OF True]
    by - (rule wp_bindI, rule wp_load_steady [OF t])
qed

text \<open>The id generator never yields an id that is in use (\<open>uuid4\<close>).\<close>

definition ids_unused :: "env \<Rightarrow> world \<Rightarrow> pystr \<Rightarrow> bool" where
  "ids_unused env w pid \<longleftrightarrow> (\<forall>k. tab w pid (e_new_id env k) = None)"

definition recorded :: "world \<Rightarrow> node \<Rightarrow> node \<Rightarrow> bool" where
  "recorded w n m \<longleftrightarrow> (\<exists>k origin. check_invariants n = Inr k \<and>
     m = k\<lparr>n_origin_machine_id := origin, n_owner_host_id := machine w\<rparr>)"

lemma recorded_facts:
  assumes "recorded w n m"
  shows "n_id m = n_id n" "n_project_id m = n_project_id n" "n_state m = n_state n" "n_kind m = n_kind n"
    "n_planspace_id m = n_planspace_id n" "node_wf m" "n_owner_host_id m = machine w"
  using assms check_frame check_result_wf by (auto simp: recorded_def)

lemma wp_validated_any:
  "(\<And>m. check_invariants n = Inr m \<Longrightarrow> Q m t) \<Longrightarrow> (\<And>e. E e t) \<Longrightarrow> wp (validated n) Q E t"
  by (simp add: validated_def wp_result split: sum.split)

lemma wp_insert_checked:
  assumes t: "steady w t" and n: "check_invariants n = Inr k" "n_project_id n = pid" "tab w pid (n_id n) = None"
    and q: "\<And>u m. recorded w n m \<Longrightarrow> wrote w m u \<Longrightarrow> Q m u" and err: "\<And>e u. steady w u \<Longrightarrow> E e u"
  shows "wp (insert_node k) Q E t"
proof (rule nodes.wp_create [OF steadyD(1) [OF t] check_result_wf [OF n(1)]])
  show "tab t (n_project_id k) (n_id k) = None" using check_frame [OF n(1)] n t by (simp add: steadyD)
  fix u m assume u: "world_ok u" "frame u = frame t" "tab u = tab_put m (tab t)"
    and m: "m = k\<lparr>n_origin_machine_id := (if n_origin_machine_id k = [] then machine t else n_origin_machine_id k),
            n_owner_host_id := machine t\<rparr>"
  have "host_same w u" using frame_host_same [OF u(1,2)] steadyD(7) [OF t] host_same_trans by blast
  then have "wrote w m u" using u(3) t by (simp add: wrote_def steadyD)
  moreover have "recorded w n m" using n(1) m unfolding recorded_def steadyD(3) [OF t] by blast
  ultimately show "Q m u" by - (rule q)
qed (rule err [OF t])

lemma wp_enqueue_first:
  assumes t: "steady w t" and n: "n_project_id n = pid" "tab w pid (n_id n) = None"
    and q: "\<And>u m. recorded w n m \<Longrightarrow> wrote w m u \<Longrightarrow> Q m u" and err: "\<And>e u. steady w u \<Longrightarrow> E e u"
  shows "wp (enqueue_first pid n) Q E t"
  unfolding enqueue_first_def
proof (rule wp_bindI, rule wp_validated_any)
  fix k assume k: "check_invariants n = Inr k"
  show "wp (bind (insert_node k) (\<lambda>m. bind (notify pid (WorkspaceNode m None True)) (\<lambda>_.
     andthen (append_priority pid (n_id m)) (ret m)))) Q E t"
  proof (rule wp_bindI, rule wp_insert_checked [OF t k n _ err], rule wp_bindI, erule wp_notify_wrote)
    fix u m assume m: "recorded w n m" and u: "wrote w m u"
    have "keeps (steady u) (append_priority pid (n_id m))"
      unfolding append_priority_def by (rule keeps_set_runtime)
    then have "wp (append_priority pid (n_id m)) (\<lambda>_. wp (ret m) Q E) E u"
      unfolding append_priority_def set_runtime_def wp_simps
      using q [OF m wrote_steady [OF u]] wrote_self [OF u] by simp
    then show "wp (andthen (append_priority pid (n_id m)) (ret m)) Q E u" by simp
  qed
qed (rule err [OF t])

lemma wp_fresh_id:
  assumes "steady w t" and "ids_unused env w pid" and "\<And>u i. steady w u \<Longrightarrow> tab w pid i = None \<Longrightarrow> Q i u"
  shows "wp (fresh_id env) Q E t"
  using assms by (simp add: fresh_id_def ids_unused_def)

lemma wp_schedule_and_reload:
  assumes "wrote w m t" and "n_project_id m = pid" and "\<And>u. wrote w m u \<Longrightarrow> Q (Some m) u"
  shows "wp (schedule_and_reload pid m) Q E t"
  unfolding schedule_and_reload_def
  by (rule wp_bindI, rule wp_schedule_wrote [OF assms(1)], rule wp_bindI, erule wp_load_wrote)
    (use assms(2,3) in simp)

text \<open>What follows a finished node: a queued commit, a sweep, or nothing.\<close>

definition commit_for :: "node \<Rightarrow> node \<Rightarrow> bool" where
  "commit_for n c \<longleftrightarrow> n_kind c = Op \<and> n_op_kind c = Some ''commit'' \<and> n_state c = Queued \<and>
     n_parent_node_id c = Some (n_id n) \<and> n_planspace_id c = n_planspace_id n \<and> node_wf c"

definition followed_up :: "world \<Rightarrow> pystr \<Rightarrow> project \<Rightarrow> node \<Rightarrow> world \<Rightarrow> bool" where
  "followed_up w pid p n u \<longleftrightarrow>
     (if n_kind n = Agent \<and> n_state n = Done \<and> commits_automatically p
      then \<exists>c. tab w pid (n_id c) = None \<and> n_project_id c = pid \<and> commit_for n c \<and> wrote w c u
      else if n_state n = Done then then_swept w pid (tab w) u else steady w u)"

lemma wp_spawn_op_commit:
  assumes t: "steady w t" and "ids_unused env w pid"
    and q: "\<And>u c. tab w pid (n_id c) = None \<Longrightarrow> n_project_id c = pid \<Longrightarrow> commit_for n c \<Longrightarrow> wrote w c u \<Longrightarrow> Q () u"
    and err: "\<And>e u. steady w u \<Longrightarrow> E e u"
  shows "wp (spawn_op_commit env pid n) Q E t"
  unfolding spawn_op_commit_def
proof (rule wp_bindI, rule wp_fresh_id [OF t assms(2)], rule wp_bindI, unfold wp_simps(3))
  fix u i assume u: "steady w u" and i: "tab w pid i = None"
  let ?n = "op_record pid ''commit'' (Some (n_id n)) (n_planspace_id n) (n_model_preset_id n) [] i (w_now u)"
  show "wp (bind (enqueue_first pid ?n) (\<lambda>_. schedule_queued pid)) Q E u"
  proof (rule wp_bindI, rule wp_enqueue_first [OF u _ _ _ err])
    show "n_project_id ?n = pid" "tab w pid (n_id ?n) = None" using i by (simp_all add: op_record_def default_node_def)
    fix v m assume m: "recorded w ?n m" and v: "wrote w m v"
    have "commit_for n m" using m recorded_facts(6) [OF m]
      by (auto simp: commit_for_def recorded_def check_invariants_Inr op_record_def default_node_def)
    moreover have "n_id m = i" "n_project_id m = pid"
      using recorded_facts(1,2) [OF m] by (simp_all add: op_record_def default_node_def)
    ultimately show "wp (schedule_queued pid) Q E v"
      using i by (intro wp_schedule_wrote [OF v] q) simp_all
  qed
qed


lemma wp_broadcast_git: "steady w t \<Longrightarrow> (\<And>u. steady w u \<Longrightarrow> Q () u) \<Longrightarrow> wp (broadcast_git_status pid p) Q E t"
  by (simp add: broadcast_git_status_def wp_notify_steady)

lemma then_swept_steady: "then_swept w pid tb t \<Longrightarrow> steady t u \<Longrightarrow> then_swept w pid tb u"
  unfolding then_swept_def steady_def using host_same_trans by auto

lemma wp_after_done:
  assumes w: "world_ok w" and so: "sources_ok pid (tab w)" and unused: "ids_unused env w pid"
    and q: "\<And>u. followed_up w pid p n u \<Longrightarrow> Q () u"
    and err: "\<And>e u. steady w u \<or> followed_up w pid p n u \<Longrightarrow> E e u"
  shows "wp (after_done env pid p n) Q E w"
proof (cases "n_kind n = Agent \<and> n_state n = Done \<and> commits_automatically p")
  case True
  have f: "followed_up w pid p n u" if "tab w pid (n_id c) = None" "n_project_id c = pid" "commit_for n c" "wrote w c u" for c u
    unfolding followed_up_def if_P [OF True] using that by blast
  show ?thesis unfolding after_done_def if_P [OF True] wp_simps(7)
    by (rule wp_spawn_op_commit [OF steady_refl [OF w] unused])
      (erule wp_schedule_wrote, rule q, erule (3) f, rule err, blast)
next
  case not_commit: False
  show ?thesis
  proof (cases "n_state n = Done")
    case False
    have f: "followed_up w pid p n u" if "steady w u" for u
      using that unfolding followed_up_def if_not_P [OF not_commit] if_not_P [OF False] .
    show ?thesis unfolding after_done_def if_not_P [OF not_commit] if_not_P [OF False] wp_simps(7) wp_simps(1)
      by (rule wp_broadcast_git [OF steady_refl [OF w]], erule wp_schedule_steady, rule q, erule f)
  next
    case True
    let ?A = "case get_project w pid of None \<Rightarrow> {} | Some p \<Rightarrow> set (auto_lane_ids w p)"
    have A: "?A \<subseteq> auto_lanes w" using auto_lane_ids_sub [of w w] by (simp split: option.split)
    have s: "then_swept w pid (tab w) u" if "sweeping w pid ?A u" for u
      using that swept_mono [OF _ A] by (auto simp: then_swept_def sweeping_def)
    have f: "followed_up w pid p n u" if "then_swept w pid (tab w) u" for u
      using that unfolding followed_up_def if_not_P [OF not_commit] if_P [OF True] .
    show ?thesis unfolding after_done_def if_not_P [OF not_commit] if_P [OF True] wp_simps(7)
    proof (rule wp_mono [OF wp_auto_promote [OF w so]])
      fix x u assume u: "sweeping w pid ?A u"
      show "wp (broadcast_git_status pid p) (\<lambda>_. wp (schedule_queued pid) Q E) E u"
        by (rule wp_broadcast_git [OF steady_refl [OF sweepingD(1) [OF u]]], erule wp_schedule_steady, rule q, rule f)
          (erule then_swept_steady [OF s [OF u]])
    qed (use err f s in blast)
  qed
qed

text \<open>The states of the callback: settled, the parent's commit recorded, followed up.\<close>

definition settled_as :: "world \<Rightarrow> pystr \<Rightarrow> node \<Rightarrow> task_end \<Rightarrow> node \<Rightarrow> world \<Rightarrow> bool" where
  "settled_as w pid n e m u \<longleftrightarrow> (steady w u \<and> m = n \<and> (terminal (n_state n) \<or> \<not> task_over e)) \<or>
     (wrote w m u \<and> ended e n m)"

definition untouched :: "pystr \<Rightarrow> table \<Rightarrow> table \<Rightarrow> bool" where
  "untouched pid tb tb' \<longleftrightarrow> (\<forall>i k. tb pid i = Some k \<longrightarrow> (\<exists>k'. tb' pid i = Some k' \<and> n_id k' = n_id k \<and>
     (n_state k \<noteq> Virtual \<longrightarrow> n_state k' = n_state k \<and> n_kind k' = n_kind k)))"

lemma untouched_refl: "untouched pid tb tb"
  by (simp add: untouched_def)

lemma untouched_trans: "untouched pid a b \<Longrightarrow> untouched pid b c \<Longrightarrow> untouched pid a c"
  unfolding untouched_def by metis

lemma untouched_swept:
  assumes "swept host pid lanes tb tb'" shows "untouched pid tb tb'"
  unfolding untouched_def
proof (intro allI impI)
  fix i k assume k: "tb pid i = Some k"
  consider "tb' pid i = tb pid i" | n m where "tb pid i = Some n" "tb' pid i = Some m" "swept_node host pid lanes tb n m"
    using swept_nodes [OF assms, of i] by blast
  then show "\<exists>k'. tb' pid i = Some k' \<and> n_id k' = n_id k \<and>
      (n_state k \<noteq> Virtual \<longrightarrow> n_state k' = n_state k \<and> n_kind k' = n_kind k)"
    by cases (use k in \<open>auto simp: swept_node_def promoted_from_def\<close>)
qed

lemma untouched_fresh: "tb pid (n_id m) = None \<Longrightarrow> n_project_id m = pid \<Longrightarrow> untouched pid tb (tab_put m tb)"
  by (auto simp: untouched_def)

lemma untouched_put:
  "tb pid (n_id m) = Some a \<Longrightarrow> n_project_id m = pid \<Longrightarrow> n_id a = n_id m \<Longrightarrow> n_state m = n_state a \<Longrightarrow>
    n_kind m = n_kind a \<Longrightarrow> untouched pid tb (tab_put m tb)"
  by (auto simp: untouched_def)

lemma untouched_followed:
  assumes "followed_up w pid p n u" shows "untouched pid (tab w) (tab u)"
proof -
  consider c where "tab w pid (n_id c) = None" "n_project_id c = pid" "wrote w c u" | "then_swept w pid (tab w) u"
    | "steady w u"
    using assms unfolding followed_up_def by (auto split: if_splits)
  then show ?thesis
    by cases (auto simp: wrote_def then_swept_def steady_def intro: untouched_fresh untouched_swept untouched_refl)
qed


lemma ids_unused_put:
  "ids_unused env w pid \<Longrightarrow> tab w pid (n_id m) \<noteq> None \<Longrightarrow> tab t = tab_put m (tab w) \<Longrightarrow> ids_unused env t pid"
  by (auto simp: ids_unused_def) (metis option.distinct(1))

text \<open>A state the callback may leave once the node is settled as \<open>m\<close> in \<open>u\<close>.\<close>

definition wound_up :: "pystr \<Rightarrow> project \<Rightarrow> node \<Rightarrow> world \<Rightarrow> world \<Rightarrow> bool" where
  "wound_up pid p m u t \<longleftrightarrow> (\<exists>v. untouched pid (tab u) (tab v) \<and> (\<forall>i. tab v pid i = None \<longleftrightarrow> tab u pid i = None) \<and>
     commit_passed pid m (tab u) (tab v) \<and> followed_up v pid p m t)"

lemma wp_wind_up:
  assumes u: "world_ok u" and so: "sources_ok pid (tab u)" and unused: "ids_unused env u pid"
    and native: "\<And>a. n_kind m = Op \<Longrightarrow> tab u pid (or_empty (n_parent_node_id m)) = Some a \<Longrightarrow> n_owner_host_id a = machine u"
    and q: "\<And>t. wound_up pid p m u t \<Longrightarrow> Q () t" and err: "\<And>e t. untouched pid (tab u) (tab t) \<Longrightarrow> E e t"
  shows "wp (bind (propagate_commit pid m) (\<lambda>_. after_done env pid p m)) Q E u"
proof (rule wp_bindI, rule wp_propagate_commit [OF u steady_refl [OF u] native], assumption, assumption)
  fix e v assume "steady u v"
  then show "E e v" using untouched_refl [of pid "tab u"] by (intro err) (simp add: steadyD)
next
  fix v assume v: "steady u v" and c: "commit_passed pid m (tab u) (tab u)"
  have w: "wound_up pid p m u t" if "followed_up v pid p m t" for t
    unfolding wound_up_def using that v c untouched_refl [of pid "tab u"] by (intro exI [of _ v]) (simp add: steadyD)
  have e: "E x t" if "steady v t \<or> followed_up v pid p m t" for x t
    using that v untouched_followed [of v pid p m t] untouched_refl [of pid "tab u"] by (intro err) (auto simp: steadyD)
  show "wp (after_done env pid p m) Q E v"
    by (rule wp_after_done)
      (use v so unused q w e in \<open>auto simp: steadyD ids_unused_def\<close>)
next
  fix v a r assume c: "commit_passed pid m (tab u) (tab v)" and a: "tab u pid (n_id a) = Some a" and v: "wrote u (a\<lparr>n_commit_after := n_commit_after m, n_rev := r\<rparr>) v"
  let ?a = "a\<lparr>n_commit_after := n_commit_after m, n_rev := r\<rparr>"
  have p: "n_project_id a = pid" using nodes.tab_ids [OF u a] by blast
  have tv: "tab v = tab_put ?a (tab u)" "world_ok v" using v by (simp_all add: wrote_def host_same_def)
  have un: "untouched pid (tab u) (tab v)" unfolding tv(1) by (rule untouched_put) (use a p in simp_all)
  have none: "tab v pid i = None \<longleftrightarrow> tab u pid i = None" for i using tv(1) a p by simp
  have w: "wound_up pid p m u t" if "followed_up v pid p m t" for t
    unfolding wound_up_def using that un none c by blast
  have e: "E x t" if "steady v t \<or> followed_up v pid p m t" for x t
    using that un untouched_trans [OF un untouched_followed [of v pid p m t]] by (intro err) (auto simp: steadyD)
  show "wp (after_done env pid p m) Q E v"
  proof (rule wp_after_done [OF tv(2) _ _ _ e])
    show "sources_ok pid (tab v)" unfolding tv(1)
      by (rule sources_ok_put [OF so, of ?a a]) (use a p in simp_all)
    show "ids_unused env v pid" by (rule ids_unused_put [OF unused _ tv(1)]) (use a in simp)
  qed (rule q, erule w)
qed

lemma wp_on_runner_done:
  assumes w: "world_ok w" and so: "sources_ok pid (tab w)" and unused: "ids_unused env w pid"
    and rt: "runtime_of w pid = Some rt" "map_of (rt_runners rt) nid = Some n" "\<not> rt_closed rt"
    and r: "runner_ok w pid nid n"
    and native: "\<And>a. n_kind n = Op \<Longrightarrow> tab w pid (or_empty (n_parent_node_id n)) = Some a \<Longrightarrow> n_owner_host_id a = machine w"
    and parent: "n_kind n = Op \<Longrightarrow> or_empty (n_parent_node_id n) \<noteq> nid"
    and q: "\<And>u m t. settled_as w pid n e m u \<Longrightarrow> wound_up pid (rt_project rt) m u t \<Longrightarrow> Q () t"
    and err: "\<And>u m x t. settled_as w pid n e m u \<Longrightarrow> untouched pid (tab u) (tab t) \<Longrightarrow> E x t"
    and refused: "\<And>x t. \<not> may_write w \<Longrightarrow> steady w t \<Longrightarrow> E x t"
  shows "wp (on_runner_done env pid nid e) Q E w"
proof -
  have id: "n_id n = nid" "n_project_id n = pid" using nodes.tab_ids [OF w] r by (auto simp: runner_ok_def)
  have r': "runner_ok w pid (n_id n) n" using r id by simp
  have "wp (settle_node pid n e) (\<lambda>m. wp (bind (propagate_commit pid m) (\<lambda>_. after_done env pid (rt_project rt) m)) Q E) E t"
    if t: "steady w t" for t
  proof (rule wp_settle_node [OF w t r' _ _ refused])
    fix u assume u: "steady w u" and over: "terminal (n_state n) \<or> \<not> task_over e"
    show "wp (bind (propagate_commit pid n) (\<lambda>_. after_done env pid (rt_project rt) n)) Q E u"
    proof (rule wp_wind_up)
      show "world_ok u" "sources_ok pid (tab u)" using so by (simp_all add: steadyD [OF u])
      show "ids_unused env u pid" using unused by (simp add: steadyD [OF u] ids_unused_def)
      show "n_owner_host_id a = machine u" if "n_kind n = Op" "tab u pid (or_empty (n_parent_node_id n)) = Some a" for a
        using native that by (simp add: steadyD [OF u])
      show "Q () t" if "wound_up pid (rt_project rt) n u t" for t
        using q [OF _ that] u over unfolding settled_as_def by blast
      show "E x t" if "untouched pid (tab u) (tab t)" for x t
        using err [OF _ that] u over unfolding settled_as_def by blast
    qed
  next
    fix u m assume u: "wrote w m u" and m: "ended e n m"
    have tu: "tab u = tab_put m (tab w)" "world_ok u" "machine u = machine w"
      using u by (simp_all add: wrote_def host_same_def)
    have mi: "n_id m = nid" "n_project_id m = pid" "n_kind m = n_kind n" "n_state m \<noteq> Virtual"
      using m id r by (auto simp: ended_def end_state_def runner_ok_def)
    have here: "tab w pid (n_id m) = Some n" using r mi by (simp add: runner_ok_def)
    show "wp (bind (propagate_commit pid m) (\<lambda>_. after_done env pid (rt_project rt) m)) Q E u"
    proof (rule wp_wind_up [OF tu(2)])
      show "sources_ok pid (tab u)" unfolding tu(1)
        by (rule sources_ok_put [OF so here mi(2)]) (use m mi in \<open>simp_all add: ended_def\<close>)
      show "ids_unused env u pid" by (rule ids_unused_put [OF unused _ tu(1)]) (use here in simp)
      fix a assume a: "n_kind m = Op" "tab u pid (or_empty (n_parent_node_id m)) = Some a"
      have "or_empty (n_parent_node_id m) = or_empty (n_parent_node_id n)" using m by (simp add: ended_def)
      then show "n_owner_host_id a = machine u" using a parent native mi tu by auto
    next
      fix t assume "wound_up pid (rt_project rt) m u t"
      then show "Q () t" using q u m unfolding settled_as_def by blast
    next
      show "E x t" if "untouched pid (tab u) (tab t)" for x t
        using err [OF _ that] u m unfolding settled_as_def by blast
    qed
  qed
  then have run: "wp (bind (settle_node pid n e) (\<lambda>m. bind (propagate_commit pid m)
      (\<lambda>_. after_done env pid (rt_project rt) m))) Q E t" if "steady w t" for t
    using that by (intro wp_bindI)
  have "wp (set_runtime pid (remove_runner nid)) (\<lambda>_. wp (bind (settle_node pid n e) (\<lambda>m. bind (propagate_commit pid m)
      (\<lambda>_. after_done env pid (rt_project rt) m))) Q E) E w"
    unfolding set_runtime_def wp_simps(4) by (rule run) (use steady_refl [OF w] in simp)
  then show ?thesis
    unfolding on_runner_done_def using rt
    by - (rule wp_bindI, unfold wp_simps(3) rt option.case, rule wp_bindI, simp del: wp_simps(6))
qed

section \<open>Starting, Git operations and reviews\<close>

text \<open>A new record of this device in a lane the project has (or none), and nothing else changed.\<close>

definition new_queued :: "world \<Rightarrow> pystr \<Rightarrow> node \<Rightarrow> bool" where
  "new_queued w pid m \<longleftrightarrow> tab w pid (n_id m) = None \<and> n_project_id m = pid \<and> n_state m = Queued \<and>
     node_wf m \<and> n_owner_host_id m = machine w"

lemma wp_require_lane_any:
  assumes "steady w t" and "\<And>u l. steady w u \<Longrightarrow> Q l u" and "\<And>e u. steady w u \<Longrightarrow> E e u"
  shows "wp (require_project_lane p lane) Q E t"
  by (rule wp_project_lane [OF assms(1)]) (use assms(2,3) in auto)

lemma keeps_start_preset [keeps_intros]: "keeps I (start_preset p source a)"
  unfolding start_preset_def by (cases source; cases "sa_model_preset_id a") (auto intro!: keeps_intros)

lemma recorded_new_queued:
  assumes "recorded w n m" and "tab w pid (n_id n) = None" and "n_project_id n = pid" and "n_state n = Queued"
  shows "new_queued w pid m"
  using recorded_facts [OF assms(1)] assms(2-4) by (simp add: new_queued_def)


lemma wp_assert_writable:
  "(may_write w \<Longrightarrow> Q () w) \<Longrightarrow> (\<And>e. \<not> may_write w \<Longrightarrow> E e w) \<Longrightarrow> wp (on_store assert_writable) Q E w"
  by (auto simp: wp_def on_store_apply assert_writable_def may_write_def writable_def split: option.splits)

lemma wp_prepare_temporary:
  assumes t: "steady w t" and q: "\<And>u r. steady w u \<Longrightarrow> Q (p\<lparr>p_root_path := r\<rparr>) u" and same: "Q p t"
    and err: "\<And>e u. steady w u \<Longrightarrow> E e u"
  shows "wp (prepare_temporary_workspace env p) Q E t"
proof -
  define tail where "tail root = andthen (on_store (writing (\<lambda>s. s\<lparr>st_local := AList.update (p_id p) root (st_local s)\<rparr>)))
        (andthen (set_runtime (p_id p) (\<lambda>rt. rt\<lparr>rt_project := (rt_project rt)\<lparr>p_root_path := root\<rparr>\<rparr>))
          (ret (p\<lparr>p_root_path := root\<rparr>)))" for root :: pystr
  have tail: "wp (tail root) Q E u" if "steady w u" for u root
    unfolding tail_def wp_simps(7)
    by (rule wp_keeps [OF keeps_write_local that], erule wp_keeps [OF keeps_set_runtime])
      (use q err in simp_all)
  show ?thesis
    unfolding prepare_temporary_workspace_def tail_def [symmetric]
    by (cases "map_of (st_local (w_store t)) (p_id p)")
      (use t same err tail in \<open>auto intro!: wp_assert_writable\<close>)
qed

lemma wp_require_native:
  assumes w: "world_ok w" and p: "get_project w pid = Some p"
    and q: "\<And>u r. steady w u \<Longrightarrow> may_write w \<Longrightarrow> Q (p\<lparr>p_root_path := r\<rparr>) u"
    and err: "\<And>e u. steady w u \<Longrightarrow> E e u"
  shows "wp (require_native env pid) Q E w"
proof -
  have self: "p\<lparr>p_root_path := p_root_path p\<rparr> = p" by simp
  have tmp: "wp (prepare_temporary_workspace env p) Q E w" if "may_write w"
    by (rule wp_prepare_temporary [OF steady_refl [OF w]])
      (use that q [OF steady_refl [OF w] that, of "p_root_path p"] q err in \<open>simp_all add: self\<close>)
  show ?thesis
    unfolding require_native_def
    by (rule wp_bindI, rule wp_assert_writable)
      (use p tmp err [OF steady_refl [OF w]] q [OF steady_refl [OF w], of "p_root_path p"] in \<open>simp_all add: self\<close>)
qed

lemma wp_require_unarchived:
  assumes "world_ok w" and "get_project w pid = Some p"
    and "\<And>u r. steady w u \<Longrightarrow> may_write w \<Longrightarrow> p_archived_at p = None \<Longrightarrow> Q (p\<lparr>p_root_path := r\<rparr>) u"
    and "\<And>e u. steady w u \<Longrightarrow> E e u"
  shows "wp (require_unarchived env pid) Q E w"
  unfolding require_unarchived_def
  by (rule wp_bindI, rule wp_require_native [OF assms(1,2)]) (use assms(3,4) in auto)

lemma wp_require_git:
  assumes "world_ok w" and "get_project w pid = Some p"
    and "\<And>u r. steady w u \<Longrightarrow> may_write w \<Longrightarrow> p_archived_at p = None \<Longrightarrow> \<not> p_temporary p \<Longrightarrow> Q (p\<lparr>p_root_path := r\<rparr>) u"
    and "\<And>e u. steady w u \<Longrightarrow> E e u"
  shows "wp (require_git_project env pid) Q E w"
  unfolding require_git_project_def
  by (rule wp_bindI, rule wp_require_unarchived [OF assms(1,2)]) (use assms(3,4) in auto)

lemma wp_require_execution:
  assumes "world_ok w" and "get_project w pid = Some p"
    and "\<And>u r. steady w u \<Longrightarrow> may_write w \<Longrightarrow> p_archived_at p = None \<Longrightarrow> Q (p\<lparr>p_root_path := r\<rparr>) u"
    and "\<And>e u. steady w u \<Longrightarrow> E e u"
  shows "wp (require_execution_project env pid) Q E w"
  unfolding require_execution_project_def
  by (rule wp_bindI, rule wp_require_unarchived [OF assms(1,2)]) (use assms(3,4) in auto)

subsection \<open>Starting\<close>

definition started :: "world \<Rightarrow> pystr \<Rightarrow> project \<Rightarrow> start_args \<Rightarrow> node \<Rightarrow> bool" where
  "started w pid p a m \<longleftrightarrow> new_queued w pid m \<and> n_kind m = Agent \<and>
     (\<forall>l. n_planspace_id m = Some l \<longrightarrow> l \<in> set (list_project_planspace_ids (w_lanes w) (p_id p)) \<or>
       (\<exists>src. tab w pid (or_empty (sa_resume_from a)) = Some src \<and> terminal (n_state src) \<and> n_planspace_id src = Some l))"

lemma start_record_fields [simp]:
  "n_project_id (start_record pid a source locally lane preset settings nid at) = pid"
  "n_id (start_record pid a source locally lane preset settings nid at) = nid"
  "n_state (start_record pid a source locally lane preset settings nid at) = Queued"
  "n_kind (start_record pid a source locally lane preset settings nid at) = Agent"
  "n_planspace_id (start_record pid a source locally lane preset settings nid at) = lane"
  by (simp_all add: start_record_def default_node_def)

text \<open>What a request to start a node has established before the record is written.\<close>

definition start_ready :: "world \<Rightarrow> pystr \<Rightarrow> pystr \<Rightarrow> node option \<Rightarrow> node \<Rightarrow> node \<Rightarrow> bool" where
  "start_ready w pid bid source n k \<longleftrightarrow> check_invariants n = Inr k \<and> tab w pid (n_id n) = None \<and>
     n_project_id n = pid \<and> n_state n = Queued \<and> n_kind n = Agent \<and>
     (\<forall>l. n_planspace_id n = Some l \<longrightarrow> l \<in> set (list_project_planspace_ids (w_lanes w) bid) \<or>
       (\<exists>src. source = Some src \<and> n_planspace_id src = Some l))"

lemma wp_start_draft:
  assumes t: "steady w t" and unused: "ids_unused env w pid"
    and q: "\<And>u n k. steady w u \<Longrightarrow> start_ready w pid (p_id p) source n k \<Longrightarrow> Q k u"
    and err: "\<And>e u. steady w u \<Longrightarrow> E e u"
  shows "wp (start_draft env p pid a source) Q E t"
proof -
  have last: "wp (bind (reading (\<lambda>w. case source of None \<Rightarrow> False | Some src \<Rightarrow> can_resume_provider_session w src)) (\<lambda>locally.
     bind (fresh_id env) (\<lambda>nid.
     bind (reading w_now) (\<lambda>at.
     bind (validated (start_record pid a source locally
       (case lane of Some l \<Rightarrow> Some l | None \<Rightarrow> (case source of None \<Rightarrow> None | Some src \<Rightarrow> n_planspace_id src))
       preset settings nid at)) (\<lambda>n.
     andthen (reading_result (\<lambda>w. validate_remote_execution w p n)) (ret n)))))) Q E u"
    if u: "steady w u" and lane: "\<And>l. lane = Some l \<Longrightarrow> l \<in> set (list_project_planspace_ids (w_lanes w) (p_id p))"
    for u lane preset settings
  proof (rule wp_bindI, unfold wp_simps(3), rule wp_bindI, rule wp_fresh_id [OF u unused], rule wp_bindI,
      unfold wp_simps(3), rule wp_bindI, rule wp_validated_any)
    fix v :: world and nid k
    let ?l = "case lane of Some l \<Rightarrow> Some l | None \<Rightarrow> (case source of None \<Rightarrow> None | Some src \<Rightarrow> n_planspace_id src)"
    let ?n = "start_record pid a source (case source of None \<Rightarrow> False | Some src \<Rightarrow> can_resume_provider_session u src)
       ?l preset settings nid (w_now v)"
    assume v: "steady w v" and fresh: "tab w pid nid = None" and k: "check_invariants ?n = Inr k"
    have "start_ready w pid (p_id p) source ?n k"
      using fresh k lane by (auto simp: start_ready_def split: option.splits)
    then show "wp (andthen (reading_result (\<lambda>w. validate_remote_execution w p k)) (ret k)) Q E v"
      using q [OF v] err [OF v] by (simp add: wp_result split: sum.split)
  qed (rule err)
  have lane: "wp (bind (require_project_lane p (sa_planspace_id a)) (\<lambda>lane.
     bind (reading (\<lambda>w. case source of None \<Rightarrow> False | Some src \<Rightarrow> can_resume_provider_session w src)) (\<lambda>locally.
     bind (fresh_id env) (\<lambda>nid.
     bind (reading w_now) (\<lambda>at.
     bind (validated (start_record pid a source locally
       (case lane of Some l \<Rightarrow> Some l | None \<Rightarrow> (case source of None \<Rightarrow> None | Some src \<Rightarrow> n_planspace_id src))
       preset settings nid at)) (\<lambda>n.
     andthen (reading_result (\<lambda>w. validate_remote_execution w p n)) (ret n))))))) Q E u"
    if u: "steady w u" for u preset settings
  proof (rule wp_bindI, rule wp_project_lane [OF u], goal_cases)
    case (1 v)
    then show ?case by (rule last) simp
  next
    case (2 v l)
    then show ?case by (intro last) simp_all
  next
    case (3 e v)
    then show ?case by (rule err)
  qed
  show ?thesis
    unfolding start_draft_def
    by (rule wp_bind_keeps [OF keeps_start_preset t _ err], erule wp_bind_keeps [OF keeps_basic(5) _ _ err],
        rule wp_bind_keeps [OF _ _ _ err], (intro keeps_intros)[1], assumption, erule lane)
qed

lemma wp_start_checked:
  assumes t: "steady w t" and unused: "ids_unused env w pid"
    and some: "\<And>u n k m. start_ready w pid (p_id p) source n k \<Longrightarrow> recorded w n m \<Longrightarrow> wrote w m u \<Longrightarrow> Q (Some m) u"
    and err: "\<And>e u. steady w u \<Longrightarrow> E e u"
  shows "wp (start_checked env p pid a source) Q E t"
  unfolding start_checked_def
proof (rule wp_bindI, rule wp_start_draft [OF t unused _ err], rule wp_bindI)
  fix u n k assume u: "steady w u" and k: "start_ready w pid (p_id p) source n k"
  show "wp (insert_node k) (\<lambda>m. wp (bind (notify pid (WorkspaceNode m None True)) (\<lambda>_.
     bind (if n_category m = Some Review then try_virtual_preview pid (seeded_preview m) else ret ()) (\<lambda>_.
     schedule_and_reload pid m))) Q E) E u"
  proof (rule wp_insert_checked [OF u _ _ _ _ err])
    show "check_invariants n = Inr k" "n_project_id n = pid" "tab w pid (n_id n) = None"
      using k by (simp_all add: start_ready_def)
    fix v m assume m: "recorded w n m" and v: "wrote w m v"
    have fin: "wp (schedule_and_reload pid m) Q E x" if "wrote w m x" for x
      by (rule wp_schedule_and_reload [OF that])
        (use recorded_facts(2) [OF m] k some m in \<open>auto simp: start_ready_def\<close>)
    show "wp (bind (notify pid (WorkspaceNode m None True)) (\<lambda>_.
     bind (if n_category m = Some Review then try_virtual_preview pid (seeded_preview m) else ret ()) (\<lambda>_.
     schedule_and_reload pid m))) Q E v"
    proof (rule wp_bindI, rule wp_notify_wrote [OF v], rule wp_bindI)
      fix x assume x: "wrote w m x"
      have "wp (try_virtual_preview pid (seeded_preview m)) (\<lambda>_. wp (schedule_and_reload pid m) Q E) E x"
        by (rule wp_try_preview_wrote [OF x]) (rule fin)
      then show "wp (if n_category m = Some Review then try_virtual_preview pid (seeded_preview m) else ret ())
          (\<lambda>_. wp (schedule_and_reload pid m) Q E) E x"
        using fin [OF x] by simp
    qed
  qed
qed


lemma wp_ifI: "(c \<Longrightarrow> wp m Q E t) \<Longrightarrow> (\<not> c \<Longrightarrow> wp k Q E t) \<Longrightarrow> wp (if c then m else k) Q E t"
  by (cases c) (simp_all only: if_True if_False not_False_eq_True simp_thms)

lemma keeps_review_guard [keeps_intros]:
  "keeps (steady w) (if b then andthen (require_git_project env pid) (ret ()) else ret ())"
  by (intro keeps_intros)

lemma wp_start_node:
  assumes w: "world_ok w" and p: "get_project w pid = Some p" and unused: "ids_unused env w pid"
    and none: "\<And>u. steady w u \<Longrightarrow> Q None u"
    and some: "\<And>u m. started w pid p a m \<Longrightarrow> wrote w m u \<Longrightarrow> Q (Some m) u"
    and err: "\<And>e u. steady w u \<Longrightarrow> E e u"
  shows "wp (start_node env pid a) Q E w"
proof -
  obtain rt where rt: "runtime_of w pid = Some rt" using p by (auto simp: get_project_def)
  have go: "wp (start_checked env (p\<lparr>p_root_path := r\<rparr>) pid a source) Q E u"
    if u: "steady w u" and src: "\<And>s. source = Some s \<Longrightarrow> tab w pid (or_empty (sa_resume_from a)) = Some s \<and> terminal (n_state s)"
    for u r source
  proof (rule wp_start_checked [OF u unused _ err])
    fix v n k m assume k: "start_ready w pid (p_id (p\<lparr>p_root_path := r\<rparr>)) source n k" and m: "recorded w n m" and v: "wrote w m v"
    have "new_queued w pid m" using k by (intro recorded_new_queued [OF m]) (simp_all add: start_ready_def)
    then have "started w pid p a m"
      using k src recorded_facts(4,5) [OF m] by (auto simp: started_def start_ready_def)
    then show "Q (Some m) v" using v by (rule some)
  qed
  have resume: "wp (case tab w pid (or_empty (sa_resume_from a)) of
             None \<Rightarrow> ret None
           | Some src \<Rightarrow>
               bind (reading (\<lambda>w. can_resume_provider_session w src)) (\<lambda>local.
               if \<not> terminal (n_state src) \<or> \<not> truthy (n_provider_session_id src) \<and> local then ret None
               else start_checked env (p\<lparr>p_root_path := r\<rparr>) pid a (Some src))) Q E u" if u: "steady w u" for u r
    using none [OF u] go [OF u, of "Some _"] by (cases "tab w pid (or_empty (sa_resume_from a))") auto
  have rest: "wp (bind (if sa_subtype a = Some CodeReview then andthen (require_git_project env pid) (ret ()) else ret ()) (\<lambda>_.
         bind (reject_if (sa_agent_op_kind a = Some cold_start \<and> truthy (sa_resume_from a))
           (ValueError ''cold_start nodes must not resume a prior session'')) (\<lambda>_.
         if \<not> truthy (sa_resume_from a) then start_checked env (p\<lparr>p_root_path := r\<rparr>) pid a None
         else bind (load pid (or_empty (sa_resume_from a))) (\<lambda>source. case source of
             None \<Rightarrow> ret None
           | Some src \<Rightarrow>
               bind (reading (\<lambda>w. can_resume_provider_session w src)) (\<lambda>local.
               if \<not> terminal (n_state src) \<or> \<not> truthy (n_provider_session_id src) \<and> local then ret None
               else start_checked env (p\<lparr>p_root_path := r\<rparr>) pid a (Some src)))))) Q E u" if u: "steady w u" for u r
  proof (rule wp_bind_keeps [OF keeps_review_guard u _ err], rule wp_bind_keeps [OF keeps_basic(6) _ _ err], assumption)
    fix v assume v: "steady w v"
    have "wp (bind (load pid (or_empty (sa_resume_from a))) (\<lambda>source. case source of
             None \<Rightarrow> ret None
           | Some src \<Rightarrow>
               bind (reading (\<lambda>w. can_resume_provider_session w src)) (\<lambda>local.
               if \<not> terminal (n_state src) \<or> \<not> truthy (n_provider_session_id src) \<and> local then ret None
               else start_checked env (p\<lparr>p_root_path := r\<rparr>) pid a (Some src)))) Q E v"
      by (rule wp_bindI, rule wp_load_steady [OF v], erule resume)
    then show "wp (if \<not> truthy (sa_resume_from a) then start_checked env (p\<lparr>p_root_path := r\<rparr>) pid a None
         else bind (load pid (or_empty (sa_resume_from a))) (\<lambda>source. case source of
             None \<Rightarrow> ret None
           | Some src \<Rightarrow>
               bind (reading (\<lambda>w. can_resume_provider_session w src)) (\<lambda>local.
               if \<not> terminal (n_state src) \<or> \<not> truthy (n_provider_session_id src) \<and> local then ret None
               else start_checked env (p\<lparr>p_root_path := r\<rparr>) pid a (Some src)))) Q E v"
      by (intro wp_ifI go [OF v]) simp_all
  qed
  show ?thesis unfolding start_node_def
    by (rule wp_bindI, unfold wp_simps(3) rt option.case, rule wp_bindI,
        rule wp_require_execution [OF w p _ err], erule rest)
qed

subsection \<open>Git operations and reviews\<close>

lemma op_record_fields [simp]:
  "n_project_id (op_record pid kind parent lane preset prompt nid at) = pid"
  "n_id (op_record pid kind parent lane preset prompt nid at) = nid"
  "n_state (op_record pid kind parent lane preset prompt nid at) = Queued"
  "n_kind (op_record pid kind parent lane preset prompt nid at) = Op"
  "n_op_kind (op_record pid kind parent lane preset prompt nid at) = Some kind"
  by (simp_all add: op_record_def default_node_def)

lemma review_record_fields [simp]:
  "n_project_id (review_record pid lane preset nid at) = pid" "n_id (review_record pid lane preset nid at) = nid"
  "n_state (review_record pid lane preset nid at) = Queued"
  "n_subtype (review_record pid lane preset nid at) = Some CodeReview"
  by (simp_all add: review_record_def default_node_def)

lemma recorded_kind:
  assumes "recorded w n m"
  shows "n_subtype m = n_subtype n" "n_op_kind m = n_op_kind n"
  using assms by (auto simp: recorded_def check_invariants_Inr agent_defaults_def)

text \<open>A fresh id, the time, then the record goes to the front of the queue and the project is scheduled.\<close>

lemma wp_enqueue_fresh:
  assumes t: "steady w t" and unused: "ids_unused env w pid"
    and rec: "\<And>nid at. n_project_id (r nid at) = pid \<and> n_id (r nid at) = nid \<and> n_state (r nid at) = Queued"
    and q: "\<And>u m nid at. new_queued w pid m \<Longrightarrow> recorded w (r nid at) m \<Longrightarrow> wrote w m u \<Longrightarrow> Q (Some m) u"
    and err: "\<And>e u. steady w u \<Longrightarrow> E e u"
  shows "wp (bind (fresh_id env) (\<lambda>nid. bind (reading w_now) (\<lambda>at.
     bind (enqueue_first pid (r nid at)) (\<lambda>m. schedule_and_reload pid m)))) Q E t"
proof (rule wp_bindI, rule wp_fresh_id [OF t unused], rule wp_bindI, unfold wp_simps(3), rule wp_bindI)
  fix u :: world and nid assume u: "steady w u" and fresh: "tab w pid nid = None"
  show "wp (enqueue_first pid (r nid (w_now u))) (\<lambda>m. wp (schedule_and_reload pid m) Q E) E u"
  proof (rule wp_enqueue_first [OF u _ _ _ err])
    show "n_project_id (r nid (w_now u)) = pid" "tab w pid (n_id (r nid (w_now u))) = None" using rec fresh by simp_all
    fix v m assume m: "recorded w (r nid (w_now u)) m" and v: "wrote w m v"
    have nq: "new_queued w pid m" by (rule recorded_new_queued [OF m]) (use rec fresh in simp_all)
    show "wp (schedule_and_reload pid m) Q E v"
      by (rule wp_schedule_and_reload [OF v]) (use nq q m in \<open>auto simp: new_queued_def\<close>)
  qed
qed

lemma wp_spawn_git_op:
  assumes w: "world_ok w" and p: "get_project w pid = Some p" and unused: "ids_unused env w pid"
    and some: "\<And>u m. kind \<in> {''commit'', ''pull''} \<Longrightarrow> p_persistence_mode p \<noteq> Remote \<Longrightarrow> \<not> p_temporary p \<Longrightarrow>
      new_queued w pid m \<Longrightarrow> n_kind m = Op \<Longrightarrow> n_op_kind m = Some kind \<Longrightarrow> wrote w m u \<Longrightarrow> Q (Some m) u"
    and err: "\<And>e u. steady w u \<Longrightarrow> E e u"
  shows "wp (spawn_git_op env pid kind message) Q E w"
proof -
  obtain rt where rt: "runtime_of w pid = Some rt" using p by (auto simp: get_project_def)
  show ?thesis unfolding spawn_git_op_def
  proof (rule wp_bindI, unfold wp_simps(3) rt option.case, rule wp_bindI, rule wp_require_git [OF w p _ err])
    fix u r assume u: "steady w u" and p': "\<not> p_temporary p"
    let ?p = "p\<lparr>p_root_path := r\<rparr>"
    let ?r = "op_record pid kind None None (Some (p_model_preset_id ?p)) (strip message)"
    have "wp (bind (fresh_id env) (\<lambda>nid. bind (reading w_now) (\<lambda>at. bind (enqueue_first pid (?r nid at))
       (schedule_and_reload pid)))) Q E u" if "kind \<in> {''commit'', ''pull''}" "p_persistence_mode p \<noteq> Remote"
      by (rule wp_enqueue_fresh [OF u unused _ _ err])
        (simp, rule some [OF that p'], use recorded_facts(4) recorded_kind(2) in auto)
    then show "wp (bind (reject_if (p_persistence_mode ?p = Remote) (ValueError ''no commit or pull in remote projects'')) (\<lambda>_.
         bind (reject_if (kind \<notin> {''commit'', ''pull''}) (ValueError ''unknown git op_kind'')) (\<lambda>_.
         bind (fresh_id env) (\<lambda>nid.
         bind (reading w_now) (\<lambda>at.
         bind (enqueue_first pid (?r nid at)) (\<lambda>m. schedule_and_reload pid m)))))) Q E u"
      using err [OF u] unfolding wp_simps(6) [of "reject_if _ _"] wp_simps(5) by auto
  qed
qed


definition reviews :: "table \<Rightarrow> pystr \<Rightarrow> pystr set" where
  "reviews tb pid = {i. \<exists>n. tb pid i = Some n \<and> review_in_progress n}"

lemma find_review:
  assumes "world_ok w" and "\<And>n. n \<in> set ns \<longleftrightarrow> tab w pid (n_id n) = Some n"
  shows "find review_in_progress ns = Some n \<Longrightarrow> n_id n \<in> reviews (tab w) pid \<and> tab w pid (n_id n) = Some n"
    "find review_in_progress ns = None \<Longrightarrow> reviews (tab w) pid = {}"
proof -
  show "n_id n \<in> reviews (tab w) pid \<and> tab w pid (n_id n) = Some n" if f: "find review_in_progress ns = Some n"
  proof -
    have "n \<in> set ns" "review_in_progress n" using f by (auto simp: find_Some_iff)
    then show ?thesis using assms(2) [of n] by (auto simp: reviews_def)
  qed
  show "reviews (tab w) pid = {}" if f: "find review_in_progress ns = None"
  proof -
    have "\<not> review_in_progress k" if k: "tab w pid i = Some k" for i k
      using f k assms(2) [of k] nodes.tab_ids [OF assms(1) k] by (auto simp: find_None_iff)
    then show ?thesis by (auto simp: reviews_def)
  qed
qed

lemma wp_review_after:
  assumes w: "world_ok w" and t: "steady w t" and unused: "ids_unused env w pid"
    and old: "\<And>u n. steady w u \<Longrightarrow> n_id n \<in> reviews (tab w) pid \<Longrightarrow> tab w pid (n_id n) = Some n \<Longrightarrow> Q (Some n) u"
    and new: "\<And>u m. reviews (tab w) pid = {} \<Longrightarrow> new_queued w pid m \<Longrightarrow> n_subtype m = Some CodeReview \<Longrightarrow>
      wrote w m u \<Longrightarrow> Q (Some m) u"
    and err: "\<And>e u. steady w u \<Longrightarrow> E e u"
  shows "wp (spawn_review_after env p pid lane) Q E t"
proof -
  have create: "wp (bind (require_project_lane p lane) (\<lambda>review_lane.
           bind (reading (\<lambda>w. default_code_review_model_preset_id (st_config (w_store w)))) (\<lambda>preset.
           bind (fresh_id env) (\<lambda>nid.
           bind (reading w_now) (\<lambda>at.
           bind (enqueue_first pid (review_record pid review_lane preset nid at)) (\<lambda>m.
           schedule_and_reload pid m)))))) Q E u"
    if u: "steady w u" and none: "reviews (tab w) pid = {}" for u
  proof (rule wp_bind_keeps [OF keeps_project_lane u _ err], rule wp_bindI, unfold wp_simps(3))
    fix l and v :: world assume v: "steady w v"
    let ?r = "review_record pid l (default_code_review_model_preset_id (st_config (w_store v)))"
    show "wp (bind (fresh_id env) (\<lambda>nid. bind (reading w_now) (\<lambda>at. bind (enqueue_first pid (?r nid at)) (\<lambda>m.
           schedule_and_reload pid m)))) Q E v"
    proof (rule wp_enqueue_fresh [OF v unused])
      fix x m nid at assume m: "new_queued w pid m" "recorded w (?r nid at) m" "wrote w m x"
      have "n_subtype m = Some CodeReview" using recorded_kind(1) [OF m(2)] by simp
      then show "Q (Some m) x" using new [OF none m(1) _ m(3)] by blast
    qed (simp_all add: err)
  qed
  have scan: "wp (case find review_in_progress ns of
         Some n \<Rightarrow> ret (Some n)
       | None \<Rightarrow>
           bind (require_project_lane p lane) (\<lambda>review_lane.
           bind (reading (\<lambda>w. default_code_review_model_preset_id (st_config (w_store w)))) (\<lambda>preset.
           bind (fresh_id env) (\<lambda>nid.
           bind (reading w_now) (\<lambda>at.
           bind (enqueue_first pid (review_record pid review_lane preset nid at)) (\<lambda>m.
           schedule_and_reload pid m)))))) Q E u"
    if u: "steady w u" and ns: "\<And>n. n \<in> set ns \<longleftrightarrow> tab w pid (n_id n) = Some n" for ns u
  proof (cases "find review_in_progress ns")
    case None
    show ?thesis unfolding None option.case by (rule create [OF u find_review(2) [OF w ns None]])
  next
    case (Some n)
    then show ?thesis unfolding Some option.case wp_simps using find_review(1) [OF w ns Some] old [OF u] by blast
  qed
  show ?thesis unfolding spawn_review_after_def
    by (rule wp_bind_keeps [OF keeps_basic(6) t _ err], rule wp_bindI, erule wp_listing_steady, erule scan)
qed

lemma wp_spawn_code_review:
  assumes w: "world_ok w" and p: "get_project w pid = Some p" and unused: "ids_unused env w pid"
    and old: "\<And>u n. steady w u \<Longrightarrow> n_id n \<in> reviews (tab w) pid \<Longrightarrow> tab w pid (n_id n) = Some n \<Longrightarrow> Q (Some n) u"
    and new: "\<And>u m. reviews (tab w) pid = {} \<Longrightarrow> new_queued w pid m \<Longrightarrow> n_subtype m = Some CodeReview \<Longrightarrow>
      wrote w m u \<Longrightarrow> Q (Some m) u"
    and err: "\<And>e u. steady w u \<Longrightarrow> E e u"
  shows "wp (spawn_code_review env pid lane) Q E w"
proof -
  obtain rt where rt: "runtime_of w pid = Some rt" using p by (auto simp: get_project_def)
  have scan: "wp (case (q, find review_in_progress ns) of (p, existing) \<Rightarrow> case existing of
             Some n \<Rightarrow> ret (Some n)
           | None \<Rightarrow> spawn_review_after env p pid lane) Q E u"
    if u: "steady w u" and ns: "\<And>n. n \<in> set ns \<longleftrightarrow> tab w pid (n_id n) = Some n" for ns u q
  proof (cases "find review_in_progress ns")
    case None
    show ?thesis unfolding None prod.case option.case
      by (rule wp_review_after [OF w u unused]; (rule old new err; assumption))
  next
    case (Some n)
    then show ?thesis unfolding Some prod.case option.case wp_simps using find_review(1) [OF w ns Some] old [OF u] by blast
  qed
  show ?thesis unfolding spawn_code_review_def spawn_review_before_def
    by (rule wp_bindI, unfold wp_simps(3) rt option.case, rule wp_bindI, rule wp_bindI, rule wp_require_git [OF w p _ err],
        rule wp_bindI, erule wp_listing_steady, unfold wp_simps(1), erule scan)
qed

end
