(* ===== verification/Lifecycle_Results.thy ===== *)
theory Lifecycle_Results
  imports Lifecycle_Safety
begin

text \<open>
  The properties of the life-cycle operations: repair at startup, the completion callback, starting,
  Git operations and reviews, each with a concrete world.
\<close>

section \<open>Repair and completion\<close>

lemma world_okI: "store_ok_exec (w_store w) \<Longrightarrow> world_ok w"
  unfolding world_ok_def by (rule store_ok_execD)

text \<open>A world with a running, an automatic-commit and a queued commit node.\<close>

definition running_agent :: node where
  "running_agent = (sample_agent ''a'' Running)\<lparr>n_prompt := ''work'', n_prompt_draft := None, n_owner_host_id := ''here''\<rparr>"

definition commit_op :: node where
  "commit_op = (op_record ''p'' ''commit'' (Some ''b'') (Some ''main'') (Some ''opus'') [] ''c'' 7)\<lparr>n_state := Done,
     n_commit_after := Some ''f00'', n_owner_host_id := ''here''\<rparr>"

definition busy_world :: world where
  "busy_world = queue_world\<lparr>w_store := sample_store\<lparr>st_dirs :=
       [((''p'', ''here'', ''a''), record_dir running_agent),
        ((''p'', ''here'', ''b''), record_dir ((sample_agent ''b'' Done)\<lparr>n_prompt_draft := None\<rparr>)),
        ((''p'', ''here'', ''c''), record_dir commit_op)]\<rparr>,
     w_runtimes := [(''p'', idle_runtime\<lparr>
       rt_project := sample_project\<lparr>p_settings_override := [(''auto_commit'', JBool True)]\<rparr>,
       rt_runners := [(''a'', running_agent), (''c'', commit_op)], rt_tasks := [(''a'', True), (''c'', True)]\<rparr>)]\<rparr>"

lemma busy_world_ok: "world_ok busy_world"
  by (rule world_okI) code_simp

lemma busy_world_sources: "sources_ok pid (tab busy_world)"
  by (rule no_resume_sources [OF busy_world_ok]) code_simp

text \<open>
  C20: repair at startup. It never raises; every node of the project that this device left mid-flight is
  cancelled with the restart reason appended and its times filled in, whenever the store may be written
  at all; every other record of every project stays as it was, and no node of this device is mid-flight
  afterwards.
\<close>

theorem repair_complete:
  assumes "world_ok w" and "get_project w pid = Some p"
  shows "\<exists>t. repair_stale_nodes pid w = (t, Inr ()) \<and> host_same w t \<and>
    (\<forall>i n. tab w pid i = Some n \<longrightarrow>
      (\<exists>m. tab t pid i = Some m \<and> (if may_write w \<and> stale w n then healed (w_now w) n m else m = n))) \<and>
    (\<forall>i. tab w pid i = None \<longrightarrow> tab t pid i = None) \<and> (\<forall>q. q \<noteq> pid \<longrightarrow> tab t q = tab w q) \<and>
    (may_write w \<longrightarrow> (\<forall>i n. tab t pid i = Some n \<longrightarrow> \<not> stale w n))"
proof -
  have "wp (repair_stale_nodes pid) (\<lambda>_. repairing w pid UNIV) (\<lambda>_ _. False) w"
    by (rule wp_repair_stale [OF assms])
  then obtain t where run: "repair_stale_nodes pid w = (t, Inr ())" and t: "repairing w pid UNIV t"
    by (auto simp: wp_def split: prod.splits sum.splits)
  have r: "rewritten (tab w) pid (\<lambda>n. may_write w \<and> stale w n) (healed (w_now w)) UNIV (tab t)" and h: "host_same w t"
    using t by (simp_all add: repairing_def)
  have none: "tab t q i = None" if "tab w q i = None" for q i
    using r that by (simp add: rewritten_def)
  have some: "if q = pid \<and> may_write w \<and> stale w n then \<exists>m. tab t q i = Some m \<and> healed (w_now w) n m
      else tab t q i = Some n" if n: "tab w q i = Some n" for q i n
  proof -
    have "if q = pid \<and> i \<in> UNIV \<and> may_write w \<and> stale w n then \<exists>m. tab t q i = Some m \<and> healed (w_now w) n m
      else tab t q i = Some n" using r n unfolding rewritten_def by blast
    then show ?thesis by simp
  qed
  have other: "tab t q = tab w q" if "q \<noteq> pid" for q
  proof
    show "tab t q i = tab w q i" for i using none [of q i] some [of q i] that by (cases "tab w q i") simp_all
  qed
  have here: "\<exists>m. tab t pid i = Some m \<and> (if may_write w \<and> stale w n then healed (w_now w) n m else m = n)"
    if "tab w pid i = Some n" for i n
    using some [OF that] by (auto split: if_splits)
  show ?thesis using run h here none other repair_leaves_none [OF assms(1) _ t] by blast
qed

theorem repair_complete_witness:
  "\<exists>m. tab (fst (repair_stale_nodes ''p'' busy_world)) ''p'' ''a'' = Some m \<and> n_state m = Cancelled \<and> n_finished_at m = Some 100"
proof -
  have "get_project busy_world ''p'' \<noteq> None" by code_simp
  then obtain p where p: "get_project busy_world ''p'' = Some p" by blast
  have a: "tab busy_world ''p'' ''a'' = Some running_agent" "may_write busy_world" "stale busy_world running_agent"
    "w_now busy_world = 100" by code_simp+
  from repair_complete [OF busy_world_ok p] a show ?thesis
    by (fastforce simp: healed_def repaired_def finish_at_def add_error_def)
qed

text \<open>What the callback follows up leaves finished nodes as they are.\<close>

lemma followed_keeps:
  assumes "followed_up w pid p n u" and "tab w pid i = Some k" and "n_state k \<noteq> Virtual"
  shows "tab u pid i = Some k"
proof -
  consider c where "tab w pid (n_id c) = None" "n_project_id c = pid" "wrote w c u" | "then_swept w pid (tab w) u"
    | "steady w u"
    using assms(1) unfolding followed_up_def by (auto split: if_splits)
  then show ?thesis
  proof cases
    case 2
    then have s: "swept (machine w) pid (auto_lanes w) (tab w) (tab u)" by (simp add: then_swept_def)
    show ?thesis using swept_nodes [OF s, of i] assms(2,3) by (auto simp: swept_node_def)
  qed (use assms(2) in \<open>auto simp: wrote_def steady_def\<close>)
qed



text \<open>No node of a sample world has an id of the sample generator, which yields words of \<open>n\<close>.\<close>

lemma sample_ids_unused:
  assumes "world_ok w" and "list_all (\<lambda>e. \<exists>c cs. snd (snd (fst e)) = c # cs \<and> c \<noteq> CHR ''n'') (st_dirs (w_store w))"
  shows "ids_unused sample_env w pid"
  unfolding ids_unused_def
proof
  fix k
  show "tab w pid (e_new_id sample_env k) = None"
  proof (cases "tab w pid (e_new_id sample_env k)")
    case (Some n)
    then obtain h f where f: "record_at (w_store w) pid h (e_new_id sample_env k) = Some f"
      using view_Some_iff [of "w_store w"] assms(1) by (auto simp: tab_def world_ok_def)
    from record_at_dir [OF this] obtain e where e: "e \<in> set (st_dirs (w_store w))" "fst e = (pid, h, e_new_id sample_env k)" by blast
    with assms(2) obtain c cs where "replicate k (CHR ''n'') = c # cs" "c \<noteq> CHR ''n''"
      by (fastforce simp: list_all_iff sample_env_def)
    then show ?thesis by (cases k) simp_all
  qed simp
qed

lemma busy_world_unused: "ids_unused sample_env busy_world pid"
  by (rule sample_ids_unused [OF busy_world_ok])
    (simp add: busy_world_def sample_store_def)


section \<open>Starting, Git operations and reviews\<close>

text \<open>
  C22: starting a node. A request answered with a node stored one fresh, well-formed, queued agent of this
  device, in a lane of the project or the lane of the finished node it continues, and changed no other
  record; every other request changed no record at all.
\<close>

theorem start_node_exact:
  assumes "world_ok w" and "get_project w pid = Some p" and "ids_unused env w pid" and "start_node env pid a w = (t, res)"
  shows "host_same w t \<and> (case res of
      Inr (Some m) \<Rightarrow> started w pid p a m \<and> tab t = tab_put m (tab w)
    | _ \<Rightarrow> tab t = tab w)"
proof -
  have "wp (start_node env pid a)
    (\<lambda>r t. host_same w t \<and> (case r of Some m \<Rightarrow> started w pid p a m \<and> tab t = tab_put m (tab w) | None \<Rightarrow> tab t = tab w))
    (\<lambda>_ t. host_same w t \<and> tab t = tab w) w"
    by (rule wp_start_node [OF assms(1-3)]) (auto simp: steady_def wrote_def)
  then show ?thesis using assms(4) by (auto simp: wp_def split: sum.splits option.splits)
qed

definition sample_start :: start_args where
  "sample_start = \<lparr>sa_prompt = ''go on'', sa_resume_from = None, sa_extra_principles = JNull, sa_extra_skills = JNull,
     sa_agent_op_kind = None, sa_model_preset_id = None, sa_category = Regular, sa_subtype = None, sa_brief = None,
     sa_parent_node_id = None, sa_planspace_id = Some ''main'', sa_scheduled_deps = []\<rparr>"

theorem start_node_exact_witness:
  "\<exists>p m. snd (start_node sample_env ''p'' sample_start busy_world) = Inr (Some m) \<and>
    started busy_world ''p'' p sample_start m \<and>
    tab (fst (start_node sample_env ''p'' sample_start busy_world)) = tab_put m (tab busy_world)"
proof -
  have "get_project busy_world ''p'' \<noteq> None" by code_simp
  then obtain p where p: "get_project busy_world ''p'' = Some p" by blast
  have "succeeds (snd (start_node sample_env ''p'' sample_start busy_world))" by code_simp
  then obtain k where k: "snd (start_node sample_env ''p'' sample_start busy_world) = Inr (Some k)"
    by (rule succeedsE)
  from start_node_exact [OF busy_world_ok p busy_world_unused prod.collapse [symmetric], of sample_start] k
  show ?thesis by auto
qed

text \<open>
  C23: Git operations. A commit or pull is queued as one fresh operation node of its kind, in a project of
  this device that is neither temporary nor remote, and nothing else changes; a request that raises, an
  unknown operation included, changes no record.
\<close>

theorem spawn_git_op_exact:
  assumes "world_ok w" and "get_project w pid = Some p" and "ids_unused env w pid"
    and "spawn_git_op env pid kind message w = (t, res)"
  shows "host_same w t \<and> res \<noteq> Inr None \<and> (case res of
      Inr (Some m) \<Rightarrow> kind \<in> {''commit'', ''pull''} \<and> \<not> p_temporary p \<and> p_persistence_mode p \<noteq> Remote \<and>
        new_queued w pid m \<and> n_kind m = Op \<and> n_op_kind m = Some kind \<and> tab t = tab_put m (tab w)
    | _ \<Rightarrow> tab t = tab w)"
proof -
  have "wp (spawn_git_op env pid kind message)
    (\<lambda>r t. host_same w t \<and> (case r of Some m \<Rightarrow> kind \<in> {''commit'', ''pull''} \<and> \<not> p_temporary p \<and>
        p_persistence_mode p \<noteq> Remote \<and> new_queued w pid m \<and> n_kind m = Op \<and> n_op_kind m = Some kind \<and>
        tab t = tab_put m (tab w) | None \<Rightarrow> False))
    (\<lambda>_ t. host_same w t \<and> tab t = tab w) w"
    by (rule wp_spawn_git_op [OF assms(1-3)]) (auto simp: steady_def wrote_def)
  then show ?thesis using assms(4) by (auto simp: wp_def split: sum.splits option.splits)
qed

theorem spawn_git_op_exact_witness:
  "\<exists>m. snd (spawn_git_op sample_env ''p'' ''pull'' [] busy_world) = Inr (Some m) \<and> n_op_kind m = Some ''pull'' \<and>
    tab (fst (spawn_git_op sample_env ''p'' ''pull'' [] busy_world)) = tab_put m (tab busy_world) \<and>
    tab (fst (spawn_git_op sample_env ''p'' ''push'' [] busy_world)) = tab busy_world"
proof -
  have "get_project busy_world ''p'' \<noteq> None" by code_simp
  then obtain p where p: "get_project busy_world ''p'' = Some p" by blast
  have "succeeds (snd (spawn_git_op sample_env ''p'' ''pull'' [] busy_world))" by code_simp
  then obtain k where k: "snd (spawn_git_op sample_env ''p'' ''pull'' [] busy_world) = Inr (Some k)"
    by (rule succeedsE)
  note spec = spawn_git_op_exact [OF busy_world_ok p busy_world_unused prod.collapse [symmetric]]
  have "tab (fst (spawn_git_op sample_env ''p'' ''push'' [] busy_world)) = tab busy_world"
    using spec [of "''push''" "[]"] by (auto split: sum.splits option.splits)
  with spec [of "''pull''" "[]"] k show ?thesis by auto
qed

definition one_review :: "world \<Rightarrow> pystr \<Rightarrow> bool" where
  "one_review w pid \<longleftrightarrow> (\<forall>i j. i \<in> reviews (tab w) pid \<longrightarrow> j \<in> reviews (tab w) pid \<longrightarrow> i = j)"

lemma reviews_put:
  assumes "reviews (tab w) pid = {}" and "n_project_id m = pid" and "review_in_progress m"
  shows "reviews (tab_put m (tab w)) pid = {n_id m}"
  using assms by (auto simp: reviews_def split: if_splits)


lemma no_reviews:
  assumes "world_ok w"
    and "list_all (\<lambda>e. case d_node (snd e) of Some (Readable n) \<Rightarrow> \<not> review_in_progress n | _ \<Rightarrow> True) (st_dirs (w_store w))"
  shows "reviews (tab w) pid = {}"
proof -
  have "\<not> review_in_progress n" if n: "tab w pid i = Some n" for i n
  proof -
    obtain h m where m: "record_at (w_store w) pid h i = Some (Readable m)" "n = m\<lparr>n_owner_host_id := h\<rparr>"
      using n view_Some_iff [of "w_store w"] assms(1) by (auto simp: tab_def world_ok_def)
    from record_at_dir [OF m(1)] obtain e where "e \<in> set (st_dirs (w_store w))" "d_node (snd e) = Some (Readable m)"
      by blast
    with assms(2) m(2) show ?thesis by (fastforce simp: list_all_iff review_in_progress_def)
  qed
  then show ?thesis by (auto simp: reviews_def)
qed


end
