(* ===== verification/Archive_Safety.thy ===== *)
theory Archive_Safety
  imports Lifecycle_Results
begin

text \<open>
  Archiving: what the guards leave of the runtimes, the write of a project record, the exact answer of
  \<open>archive_project\<close> and the refusal of every operation in an archived project.
\<close>

section \<open>What the guards leave\<close>

text \<open>A guard may renew the root of a temporary project; the rest of every runtime stays.\<close>

definition unrooted :: "runtime \<Rightarrow> runtime" where
  "unrooted rt = rt\<lparr>rt_project := (rt_project rt)\<lparr>p_root_path := []\<rparr>\<rparr>"

definition rooted :: "world \<Rightarrow> world \<Rightarrow> bool" where
  "rooted w t \<longleftrightarrow> steady w t \<and> (\<forall>i. map_option unrooted (runtime_of t i) = map_option unrooted (runtime_of w i)) \<and>
     w_now t = w_now w"

lemma rooted_refl: "world_ok w \<Longrightarrow> rooted w w"
  by (simp add: rooted_def steady_refl)

lemma rooted_frame: "rooted w t \<Longrightarrow> world_ok u \<Longrightarrow> frame u = frame t \<Longrightarrow> tab u = tab t \<Longrightarrow> rooted w u"
  using steady_frame [of w t u] frame_eqD [of u t] by (simp add: rooted_def runtime_of_def)

lemma unrooted_root [simp]: "unrooted (rt\<lparr>rt_project := (rt_project rt)\<lparr>p_root_path := r\<rparr>\<rparr>) = unrooted rt"
  by (simp add: unrooted_def)

lemma keeps_of_wp_rooted:
  assumes "\<And>t. rooted w t \<Longrightarrow> wp m (\<lambda>_. rooted w) (\<lambda>_. rooted w) t"
  shows "keeps (rooted w) m"
  using assms by (auto simp: keeps_def intro: wp_fst)

lemma rooted_listing [keeps_intros]: "keeps (rooted w) (listing p [])"
proof (rule keeps_of_wp_rooted)
  fix t assume t: "rooted w t"
  then have "world_ok t" unfolding rooted_def using steadyD(1) by blast
  then show "wp (listing p []) (\<lambda>_. rooted w) (\<lambda>_. rooted w) t"
    by (rule nodes.wp_listing) (blast intro: rooted_frame [OF t])
qed

lemma rooted_upd [simp]:
  "rooted w (t\<lparr>w_ids := k\<rparr>) = rooted w t" "rooted w (t\<lparr>w_events := e\<rparr>) = rooted w t"
  "rooted w (t\<lparr>w_store := (w_store t)\<lparr>st_local := l\<rparr>\<rparr>) = rooted w t"
  "rooted w (t\<lparr>w_runtimes := AList.map_entry p (\<lambda>rt. rt\<lparr>rt_project := (rt_project rt)\<lparr>p_root_path := r\<rparr>\<rparr>) (w_runtimes t)\<rparr>) =
     rooted w t"
  by (simp_all add: rooted_def runtime_of_def map_of_map_entry_eq option.map_comp comp_def) metis

lemma rooted_writable [keeps_intros]: "keeps (rooted w) (on_store assert_writable)"
  by (rule keepsI) (simp add: on_store_apply assert_writable_def split: option.split)

lemma rooted_write_local [keeps_intros]: "keeps (rooted w) (on_store (writing (\<lambda>s. s\<lparr>st_local := f s\<rparr>)))"
  by (rule keepsI) (simp add: on_store_apply)

lemma rooted_set_root [keeps_intros]:
  "keeps (rooted w) (set_runtime p (\<lambda>rt. rt\<lparr>rt_project := (rt_project rt)\<lparr>p_root_path := r\<rparr>\<rparr>))"
  unfolding set_runtime_def by (rule keeps_writing) simp

lemma rooted_require_native [keeps_intros]: "keeps (rooted w) (require_native env p)"
proof -
  have "keeps (rooted w) (writing (\<lambda>w. w\<lparr>w_ids := k\<rparr>))" for k by (rule keeps_writing) simp
  then have "keeps (rooted w) (prepare_temporary_workspace env pr)" for pr
    unfolding prepare_temporary_workspace_def by (intro keeps_intros) simp_all
  then show ?thesis unfolding require_native_def by (intro keeps_intros)
qed

lemma rooted_require_unarchived [keeps_intros]: "keeps (rooted w) (require_unarchived env p)"
  unfolding require_unarchived_def by (intro keeps_intros)

lemma wp_conj: "wp m Q E s \<Longrightarrow> keeps I m \<Longrightarrow> I s \<Longrightarrow> wp m (\<lambda>x t. Q x t \<and> I t) (\<lambda>e t. E e t \<and> I t) s"
  using keepsD [of I m s] by (auto simp: wp_def split: prod.splits sum.splits)

section \<open>Archiving\<close>

definition archived_in :: "world \<Rightarrow> pystr \<Rightarrow> int option \<Rightarrow> bool" where
  "archived_in w pid at \<longleftrightarrow> (\<exists>p q. get_project w pid = Some p \<and> p_archived_at p = at \<and>
     map_of (st_projects (w_store w)) pid = Some q \<and> p_archived_at q = at)"

definition loaded_project :: "world \<Rightarrow> pystr \<Rightarrow> project \<Rightarrow> bool" where
  "loaded_project w pid p \<longleftrightarrow> get_project w pid = Some p \<and> p_id p = pid \<and> project_ok (w_store w) p \<and>
     strip (p_model_preset_id p) = p_model_preset_id p"

lemma wp_update_project:
  assumes t: "world_ok t" and p: "project_ok (w_store t) p" "strip (p_model_preset_id p) = p_model_preset_id p"
    and q: "\<And>u. steady t u \<Longrightarrow> w_runtimes u = w_runtimes t \<Longrightarrow>
      map_of (st_projects (w_store u)) (p_id p) = Some (p\<lparr>p_root_path := [], p_node_positions := []\<rparr>) \<Longrightarrow> Q () u"
    and err: "\<And>e. \<not> may_write t \<Longrightarrow> E e t"
  shows "wp (on_store (update_project p)) Q E t"
proof (cases "may_write t")
  case False
  then have "\<exists>e. on_store (update_project p) t = (t, Inl e)"
    by (auto simp: on_store_apply update_project_def assert_writable_def bind_def may_write_def writable_def split: option.splits)
  then show ?thesis using err [OF False] by (auto intro: wp_raises)
next
  case True
  let ?s = "w_store t"
  let ?q = "p\<lparr>p_root_path := [], p_node_positions := []\<rparr>"
  let ?s1 = "if is_bound_here ?s (p_id p) \<and> p_persistence_mode p \<noteq> Remote
       then ?s\<lparr>st_local := AList.update (p_id p) (p_root_path p) (st_local ?s)\<rparr> else ?s"
  let ?s2 = "?s1\<lparr>st_projects := AList.update (p_id p) ?q (st_projects ?s1)\<rparr>"
  let ?s3 = "?s2\<lparr>st_commits := st_commits ?s2 @ [''update project '' @ quoted (if p_name p = [] then p_id p else p_name p)]\<rparr>"
  have cat: "catalog_issue ?s (Some (p_model_preset_id p)) = None" using p by (simp add: project_ok_def)
  have run: "on_store (update_project p) t = (t\<lparr>w_store := ?s3\<rparr>, Inr ())"
    using True cat
    by (simp add: on_store_apply update_project_def assert_writable_def bind_def andthen_def writing_def
        bind_model_catalog_apply schedule_commit_def may_write_def writable_def Let_def)
  have dirs: "st_dirs ?s3 = st_dirs ?s" "st_machine ?s3 = st_machine ?s" "st_read_only ?s3 = st_read_only ?s"
    "st_config ?s3 = st_config ?s" "st_owner_index ?s3 = st_owner_index ?s" by simp_all
  have projects: "st_projects ?s3 = AList.update (p_id p) ?q (st_projects ?s)" by simp
  have "project_ok ?s ?q" using p(1) by (simp add: project_ok_def)
  then have "\<forall>r \<in> set (AList.update (p_id p) ?q (st_projects ?s)). project_ok ?s (snd r)"
    using t set_update_subset by (fastforce simp: world_ok_def store_ok_def)
  then have "store_ok ?s3"
    using t unfolding world_ok_def store_ok_def projects dirs record_at_dirs [OF dirs(1)] config_cong [OF dirs(4)] by blast
  then have "steady t (t\<lparr>w_store := ?s3\<rparr>)"
    using view_dirs [OF dirs(1)] config_cong(2) [OF dirs(4)] dirs
    by (simp add: steady_def host_same_def world_ok_def tab_def machine_def may_write_def known_def writable_def)
  then have "Q () (t\<lparr>w_store := ?s3\<rparr>)" by (rule q) simp_all
  with run show ?thesis by (rule wp_returns)
qed


lemma wp_require_native_rooted:
  assumes w: "world_ok w" and p: "get_project w pid = Some p"
    and q: "\<And>u r. rooted w u \<Longrightarrow> may_write w \<Longrightarrow> Q (p\<lparr>p_root_path := r\<rparr>) u" and err: "\<And>e u. rooted w u \<Longrightarrow> E e u"
  shows "wp (require_native env pid) Q E w"
proof -
  have "wp (require_native env pid) (\<lambda>x _. may_write w \<and> (\<exists>r. x = p\<lparr>p_root_path := r\<rparr>)) (\<lambda>_ _. True) w"
    by (rule wp_require_native [OF w p]) auto
  from wp_conj [OF this rooted_require_native rooted_refl [OF w]] show ?thesis
    by (rule wp_mono) (use q err in auto)
qed

lemma wp_listing_rooted:
  assumes t: "rooted w t" and q: "\<And>ns u. rooted w u \<Longrightarrow> (\<And>n. n \<in> set ns \<longleftrightarrow> tab w p (n_id n) = Some n) \<Longrightarrow> Q ns u"
  shows "wp (listing p []) Q E t"
proof -
  have "wp (listing p []) (\<lambda>ns _. \<forall>n. n \<in> set ns \<longleftrightarrow> tab w p (n_id n) = Some n) (\<lambda>_ _. False) t"
    by (rule wp_listing_steady [of w]) (use t in \<open>simp_all add: rooted_def\<close>)
  from wp_conj [OF this rooted_listing t] show ?thesis by (rule wp_mono) (use q in auto)
qed

lemma steady_project_ok: "steady w u \<Longrightarrow> project_ok (w_store u) p = project_ok (w_store w) p"
proof -
  assume u: "steady w u"
  let ?n = "(default_node [] [] 0)\<lparr>n_model_preset_id := Some (strip (p_model_preset_id p))\<rparr>"
  have "known u ?n = known w ?n" using u by (simp add: steady_def host_same_def)
  then show ?thesis by (simp add: project_ok_def known_def preset_known_def)
qed

definition archive_busy :: "runtime \<Rightarrow> node \<Rightarrow> bool" where
  "archive_busy rt n \<longleftrightarrow> n_id n \<in> set (keys (rt_tasks rt)) \<or> n_state n \<noteq> Virtual \<and> \<not> terminal (n_state n)"

lemma wp_archive_blockers:
  assumes t: "rooted w t"
    and q: "\<And>u bs. rooted w u \<Longrightarrow> (\<And>i. i \<in> set bs \<longleftrightarrow> (\<exists>n. tab w pid i = Some n \<and> (lane = None \<or> n_planspace_id n = lane) \<and>
      archive_busy rt n)) \<Longrightarrow> Q bs u" and w: "world_ok w"
  shows "wp (archive_blockers pid rt lane) Q E t"
  unfolding archive_blockers_def
proof (rule wp_bindI, rule wp_listing_rooted [OF t], unfold wp_simps(1))
  fix ns u assume u: "rooted w u" and ns: "\<And>n. n \<in> set ns \<longleftrightarrow> tab w pid (n_id n) = Some n"
  let ?busy = "\<lambda>n. (lane = None \<or> n_planspace_id n = lane) \<and>
       (n_id n \<in> set (keys (rt_tasks rt)) \<or> n_state n \<noteq> Virtual \<and> \<not> terminal (n_state n))"
  have "i \<in> set (map n_id (filter ?busy ns)) \<longleftrightarrow> (\<exists>n. tab w pid i = Some n \<and>
      (lane = None \<or> n_planspace_id n = lane) \<and> archive_busy rt n)" for i
  proof
    assume "i \<in> set (map n_id (filter ?busy ns))"
    then show "\<exists>n. tab w pid i = Some n \<and> (lane = None \<or> n_planspace_id n = lane) \<and> archive_busy rt n"
      using ns by (auto simp: archive_busy_def)
  next
    assume "\<exists>n. tab w pid i = Some n \<and> (lane = None \<or> n_planspace_id n = lane) \<and> archive_busy rt n"
    then obtain n where n: "tab w pid i = Some n" "?busy n" by (auto simp: archive_busy_def)
    then have "n_id n = i" "n \<in> set ns" using nodes.tab_ids [OF w n(1)] ns [of n] by auto
    with n(2) show "i \<in> set (map n_id (filter ?busy ns))" by force
  qed
  then show "Q (map n_id (filter ?busy ns)) u" by (rule q [OF u])
qed

text \<open>The project is archived at \<open>at\<close> in memory and on disk, and the records are those of \<open>w\<close>.\<close>

abbreviation archiving :: "world \<Rightarrow> pystr \<Rightarrow> int option \<Rightarrow> world \<Rightarrow> bool" where
  "archiving w pid at u \<equiv> steady w u \<and> archived_in u pid at"

lemma wp_archiving:
  assumes t: "archiving w pid at t" and q: "\<And>u x. archiving w pid at u \<Longrightarrow> Q x u"
  shows "wp (on_store (schedule_commit msg)) Q E t" "wp (notify i ev) Q E t"
    "(\<And>u ns. archiving w pid at u \<Longrightarrow> P ns u) \<Longrightarrow> wp (listing i []) P E t"
proof -
  let ?s = "(w_store t)\<lparr>st_commits := st_commits (w_store t) @ [msg]\<rparr>"
  have dirs: "st_dirs ?s = st_dirs (w_store t)" "st_config ?s = st_config (w_store t)" by simp_all
  have "store_ok ?s = store_ok (w_store t)"
    unfolding store_ok_def record_at_dirs [OF dirs(1)] config_cong [OF dirs(2)] by simp
  then have "steady t (t\<lparr>w_store := ?s\<rparr>)"
    using view_dirs [OF dirs(1)] config_cong(2) [OF dirs(2)] t
    by (simp add: steady_def host_same_def world_ok_def tab_def machine_def may_write_def known_def writable_def)
  then have "steady w (t\<lparr>w_store := ?s\<rparr>)" using t steady_trans by blast
  moreover have "archived_in (t\<lparr>w_store := ?s\<rparr>) pid at = archived_in t pid at"
    by (simp add: archived_in_def get_project_def runtime_of_def)
  moreover have "on_store (schedule_commit msg) t = (t\<lparr>w_store := ?s\<rparr>, Inr ())"
    by (simp add: on_store_apply schedule_commit_def)
  ultimately have "archiving w pid at (t\<lparr>w_store := ?s\<rparr>)" "on_store (schedule_commit msg) t = (t\<lparr>w_store := ?s\<rparr>, Inr ())"
    using t by simp_all
  then show "wp (on_store (schedule_commit msg)) Q E t" by - (erule wp_returns, rule q)
  show "wp (notify i ev) Q E t"
    using t unfolding notify_def wp_simps by (intro q) (simp add: archived_in_def get_project_def runtime_of_def)
  show "wp (listing i []) P E t" if p: "\<And>u ns. archiving w pid at u \<Longrightarrow> P ns u"
  proof (rule nodes.wp_listing [of t])
    show "world_ok t" using t steadyD(1) by blast
    fix ns u assume u: "world_ok u" "tab u = tab t" "frame u = frame t"
    have "st_projects (w_store u) = st_projects (w_store t)" using arg_cong [OF frame_eqD(1) [OF u(3)], of st_projects]
      by (simp add: rest_def)
    then have "archived_in u pid at" using t frame_eqD(2) [OF u(3)]
      unfolding archived_in_def get_project_def runtime_of_def by simp
    moreover have "steady w u" using t steady_frame u by blast
    ultimately show "P ns u" using p by blast
  qed
qed

lemma wp_announce_removed:
  assumes "archiving w pid at t" and "\<And>u. archiving w pid at u \<Longrightarrow> Q () u"
  shows "wp (for_each ns (\<lambda>n. notify pid (WorkspaceRemoved n))) Q E t"
  by (rule wp_for_each [where I = "archiving w pid at"]) (use assms in \<open>blast intro: wp_archiving(2)\<close>)+

lemma wp_archive_project:
  assumes w: "world_ok w" and lp: "loaded_project w pid p" and rt: "runtime_of w pid = Some rt"
    and old: "\<And>u r. rooted w u \<Longrightarrow> p_archived_at p \<noteq> None \<Longrightarrow> Q (Some (p\<lparr>p_root_path := r\<rparr>), []) u"
    and busy: "\<And>u bs. rooted w u \<Longrightarrow> p_archived_at p = None \<Longrightarrow> bs \<noteq> [] \<Longrightarrow>
      (\<And>i. i \<in> set bs \<longleftrightarrow> (\<exists>n. tab w pid i = Some n \<and> archive_busy rt n)) \<Longrightarrow> Q (None, bs) u"
    and new: "\<And>u r. archiving w pid (Some (w_now w)) u \<Longrightarrow> p_archived_at p = None \<Longrightarrow>
      (\<And>i n. tab w pid i = Some n \<Longrightarrow> \<not> archive_busy rt n) \<Longrightarrow>
      Q (Some (p\<lparr>p_root_path := r, p_archived_at := Some (w_now w)\<rparr>), []) u"
    and err: "\<And>e u. rooted w u \<Longrightarrow> E e u"
  shows "wp (archive_project env refreshing pid) Q E w"
proof -
  have p: "get_project w pid = Some p" "p_id p = pid" "rt_project rt = p" using lp rt
    by (auto simp: loaded_project_def get_project_def)
  have finish: "wp (bind (on_store (schedule_commit msg)) (\<lambda>_.
             bind (listing pid []) (\<lambda>nodes.
             bind (for_each nodes (\<lambda>n. notify pid (WorkspaceRemoved n))) (\<lambda>_. ret res)))) Q E u"
    if u: "archiving w pid at u" and res: "\<And>v. archiving w pid at v \<Longrightarrow> Q res v" for u msg at res
    by (rule wp_bindI, rule wp_archiving(1) [OF u], rule wp_bindI, erule wp_archiving(3), assumption,
        rule wp_bindI, erule wp_announce_removed, unfold wp_simps(1), erule res)
  have stored: "wp (bind (set_archived_at pid (Some (w_now u))) (\<lambda>_.
             bind (on_store (update_project (p\<lparr>p_root_path := r, p_archived_at := Some (w_now u)\<rparr>))) (\<lambda>_.
             bind (on_store (schedule_commit msg)) (\<lambda>_.
             bind (listing pid []) (\<lambda>nodes.
             bind (for_each nodes (\<lambda>n. notify pid (WorkspaceRemoved n))) (\<lambda>_. ret res)))))) Q E u"
    if u: "rooted w u" and m: "may_write w" and res: "\<And>v. archiving w pid (Some (w_now w)) v \<Longrightarrow> Q res v" for u r msg res
  proof -
    have now: "w_now u = w_now w" and st: "steady w u" using u by (simp_all add: rooted_def)
    let ?t = "u\<lparr>w_runtimes := AList.map_entry pid
        (\<lambda>rt. rt\<lparr>rt_project := (rt_project rt)\<lparr>p_archived_at := Some (w_now u)\<rparr>\<rparr>) (w_runtimes u)\<rparr>"
    let ?p = "p\<lparr>p_root_path := r, p_archived_at := Some (w_now u)\<rparr>"
    have "map_option unrooted (runtime_of u pid) = map_option unrooted (runtime_of w pid)" using u unfolding rooted_def by blast
    then obtain rt' where rt': "runtime_of u pid = Some rt'" using rt by auto
    then have gp: "get_project ?t pid = Some ((rt_project rt')\<lparr>p_archived_at := Some (w_now u)\<rparr>)"
      by (simp add: get_project_def runtime_of_def map_of_map_entry_eq)
    have "project_ok (w_store u) p" using lp steady_project_ok [OF st] by (simp add: loaded_project_def)
    then have pok: "project_ok (w_store ?t) ?p" "strip (p_model_preset_id ?p) = p_model_preset_id ?p"
      using lp by (simp_all add: loaded_project_def project_ok_def)
    have "wp (on_store (update_project ?p)) (\<lambda>_. wp (bind (on_store (schedule_commit msg)) (\<lambda>_.
             bind (listing pid []) (\<lambda>nodes.
             bind (for_each nodes (\<lambda>n. notify pid (WorkspaceRemoved n))) (\<lambda>_. ret res)))) Q E) E ?t"
    proof (rule wp_update_project [OF _ pok])
      show "world_ok ?t" using st by (simp add: steadyD)
      fix v assume v: "steady ?t v" "w_runtimes v = w_runtimes ?t"
        "map_of (st_projects (w_store v)) (p_id ?p) = Some (?p\<lparr>p_root_path := [], p_node_positions := []\<rparr>)"
      have "archived_in v pid (Some (w_now w))"
      proof -
        have "get_project v pid = Some ((rt_project rt')\<lparr>p_archived_at := Some (w_now u)\<rparr>)"
          using v(2) gp by (simp add: get_project_def runtime_of_def)
        moreover have "map_of (st_projects (w_store v)) pid = Some (?p\<lparr>p_root_path := [], p_node_positions := []\<rparr>)"
          using v(3) p(2) by simp
        moreover have "p_archived_at ((rt_project rt')\<lparr>p_archived_at := Some (w_now u)\<rparr>) = Some (w_now w)"
          "p_archived_at (?p\<lparr>p_root_path := [], p_node_positions := []\<rparr>) = Some (w_now w)"
          using now by simp_all
        ultimately show ?thesis unfolding archived_in_def by blast
      qed
      moreover have "steady w ?t" using st by simp
      ultimately have "archiving w pid (Some (w_now w)) v" using v(1) steady_trans by blast
      then show "wp (bind (on_store (schedule_commit msg)) (\<lambda>_.
             bind (listing pid []) (\<lambda>nodes.
             bind (for_each nodes (\<lambda>n. notify pid (WorkspaceRemoved n))) (\<lambda>_. ret res)))) Q E v"
        by (rule finish [OF _ res])
    next
      fix e assume "\<not> may_write ?t"
      then have "\<not> may_write u" by (simp add: may_write_def)
      then show "E e ?t" using steadyD(6) [OF st] m by simp
    qed
    then show ?thesis unfolding set_archived_at_def set_runtime_def
      by - (rule wp_bindI, unfold wp_simps(4), rule wp_bindI)
  qed
  have scan: "wp (archive_blockers pid rt None) (\<lambda>bs. wp (if bs \<noteq> [] then ret (None, bs)
           else bind (reading w_now) (\<lambda>now.
             bind (set_archived_at pid (Some now)) (\<lambda>_.
             bind (on_store (update_project (p\<lparr>p_root_path := r, p_archived_at := Some now\<rparr>))) (\<lambda>_.
             bind (on_store (schedule_commit msg)) (\<lambda>_.
             bind (listing pid []) (\<lambda>nodes.
             bind (for_each nodes (\<lambda>n. notify pid (WorkspaceRemoved n))) (\<lambda>_.
             ret (Some (p\<lparr>p_root_path := r, p_archived_at := Some now\<rparr>), [])))))))) Q E) E u"
    if u: "rooted w u" and m: "may_write w" and pa: "p_archived_at p = None" for u r msg
  proof (rule wp_archive_blockers [OF u _ w], rule wp_ifI)
    fix v bs assume v: "rooted w v" and bs: "\<And>i. i \<in> set bs \<longleftrightarrow> (\<exists>n. tab w pid i = Some n \<and>
      ((None :: pystr option) = None \<or> n_planspace_id n = None) \<and> archive_busy rt n)"
    then have bs: "i \<in> set bs \<longleftrightarrow> (\<exists>n. tab w pid i = Some n \<and> archive_busy rt n)" for i by simp
    {
      assume "bs \<noteq> []"
      then show "wp (ret (None, bs)) Q E v" using busy [OF v pa _ bs] by simp
    next
      assume "\<not> bs \<noteq> []"
      then have idle: "\<not> archive_busy rt n" if "tab w pid i = Some n" for i n using bs [of i] that by auto
      show "wp (bind (reading w_now) (\<lambda>now.
             bind (set_archived_at pid (Some now)) (\<lambda>_.
             bind (on_store (update_project (p\<lparr>p_root_path := r, p_archived_at := Some now\<rparr>))) (\<lambda>_.
             bind (on_store (schedule_commit msg)) (\<lambda>_.
             bind (listing pid []) (\<lambda>nodes.
             bind (for_each nodes (\<lambda>n. notify pid (WorkspaceRemoved n))) (\<lambda>_.
             ret (Some (p\<lparr>p_root_path := r, p_archived_at := Some now\<rparr>), [])))))))) Q E v"
        unfolding wp_simps(6) [of "reading _"] wp_simps(3)
        by (rule stored [OF v m]) (use new [OF _ pa idle] v in \<open>simp add: rooted_def\<close>)
    }
  qed
  show ?thesis
    unfolding archive_project_def
    by (rule wp_bindI, unfold wp_simps(3) rt option.case, rule wp_bindI, rule wp_require_native_rooted [OF w p(1) _ err],
        rule wp_ifI, unfold wp_simps(1), rule old, assumption, simp, rule wp_bindI, unfold wp_simps(5), rule conjI [THEN if_bool_eq_conj [THEN iffD2]])
      (use err scan in simp_all)
qed

text \<open>
  C25: archiving a project. It answers with exactly the nodes that are mid-flight or have a task and
  archives nothing when there are any; otherwise the project is archived, in memory and on disk, at the
  current time. A project that is archived already is returned as it is, and a request that raises leaves
  every archive mark as it was. No node changes in any case.
\<close>

theorem archive_project_exact:
  assumes "world_ok w" and "loaded_project w pid p" and "runtime_of w pid = Some rt"
    and "archive_project env refreshing pid w = (t, res)"
  shows "tab t = tab w \<and> (case res of
      Inr (None, bs) \<Rightarrow> rooted w t \<and> bs \<noteq> [] \<and> (\<forall>i. i \<in> set bs \<longleftrightarrow> (\<exists>n. tab w pid i = Some n \<and> archive_busy rt n))
    | Inr (Some q, bs) \<Rightarrow> bs = [] \<and> (if p_archived_at p \<noteq> None then p_archived_at q = p_archived_at p \<and> rooted w t
        else p_archived_at q = Some (w_now w) \<and> archived_in t pid (Some (w_now w)) \<and>
          (\<forall>i n. tab w pid i = Some n \<longrightarrow> \<not> archive_busy rt n))
    | Inl e \<Rightarrow> rooted w t)"
proof -
  have st: "tab u = tab w" if "rooted w u" for u using that by (simp add: rooted_def steadyD)
  have "wp (archive_project env refreshing pid)
    (\<lambda>(q, bs) t. tab t = tab w \<and> (case q of
        None \<Rightarrow> rooted w t \<and> bs \<noteq> [] \<and> (\<forall>i. i \<in> set bs \<longleftrightarrow> (\<exists>n. tab w pid i = Some n \<and> archive_busy rt n))
      | Some q \<Rightarrow> bs = [] \<and> (if p_archived_at p \<noteq> None then p_archived_at q = p_archived_at p \<and> rooted w t
        else p_archived_at q = Some (w_now w) \<and> archived_in t pid (Some (w_now w)) \<and>
          (\<forall>i n. tab w pid i = Some n \<longrightarrow> \<not> archive_busy rt n))))
    (\<lambda>_ t. tab t = tab w \<and> rooted w t) w"
  proof (rule wp_archive_project [OF assms(1-3)], goal_cases)
    case (3 u r)
    then show ?case by (simp add: steadyD)
  qed (simp_all add: st)
  then show ?thesis using assms(4) by (auto simp: wp_def split: sum.splits option.splits)
qed

lemma failed_world_loaded: "loaded_project failed_world ''p'' sample_project" "runtime_of failed_world ''p'' = Some idle_runtime"
  unfolding loaded_project_def project_ok_def by code_simp+

theorem archive_project_exact_witness:
  "archived_in (fst (archive_project sample_env False ''p'' failed_world)) ''p'' (Some 100) \<and>
   tab (fst (archive_project sample_env False ''p'' failed_world)) = tab failed_world"
proof -
  have "case snd (archive_project sample_env False ''p'' failed_world) of Inr (Some q, _) \<Rightarrow> True | _ \<Rightarrow> False" by code_simp
  then obtain q bs where "snd (archive_project sample_env False ''p'' failed_world) = Inr (Some q, bs)"
    by (auto split: sum.splits option.splits)
  moreover have "p_archived_at sample_project = None" "w_now failed_world = 100" by code_simp+
  ultimately show ?thesis
    using archive_project_exact [OF failed_world_ok failed_world_loaded prod.collapse [symmetric], of sample_env False] by simp
qed

section \<open>An archived project refuses\<close>

definition refuses :: "'a reg \<Rightarrow> world \<Rightarrow> bool" where
  "refuses m w \<longleftrightarrow> (\<exists>t e. m w = (t, Inl e) \<and> host_same w t \<and> tab t = tab w)"

lemma bind_assoc: "bind (bind m f) g = bind m (\<lambda>x. bind (f x) g)"
  by (rule ext) (simp add: bind_def split: prod.split sum.split)

lemma refuses_wp: "wp m (\<lambda>_ _. False) (\<lambda>_. steady w) w \<Longrightarrow> refuses m w"
  by (auto simp: refuses_def wp_def steady_def split: prod.splits sum.splits)

lemma refuses_guarded:
  assumes "world_ok w" and "runtime_of w pid = Some rt" and "p_archived_at (rt_project rt) \<noteq> None"
  shows "refuses (bind (reading (\<lambda>w. runtime_of w pid)) (\<lambda>r. case r of
      None \<Rightarrow> a | Some rt \<Rightarrow> bind (require_unarchived env pid) (f rt))) w"
    "refuses (bind (reading (\<lambda>w. runtime_of w pid)) (\<lambda>r. case r of
      None \<Rightarrow> a | Some rt \<Rightarrow> bind (require_execution_project env pid) (f rt))) w"
    "refuses (bind (reading (\<lambda>w. runtime_of w pid)) (\<lambda>r. case r of
      None \<Rightarrow> a | Some rt \<Rightarrow> bind (require_git_project env pid) (f rt))) w"
    "refuses (bind (reading (\<lambda>w. runtime_of w pid)) (\<lambda>r. case r of
      None \<Rightarrow> a | Some rt \<Rightarrow> bind (assert_unarchived pid) (g rt))) w"
proof -
  have p: "get_project w pid = Some (rt_project rt)" using assms(2) by (simp add: get_project_def)
  have "wp (require_unarchived env pid) (\<lambda>_ _. False) (\<lambda>_. steady w) w"
    by (rule wp_require_unarchived [OF assms(1) p]) (use assms(3) in auto)
  moreover have "wp (require_execution_project env pid) (\<lambda>_ _. False) (\<lambda>_. steady w) w"
    by (rule wp_require_execution [OF assms(1) p]) (use assms(3) in auto)
  moreover have "wp (require_git_project env pid) (\<lambda>_ _. False) (\<lambda>_. steady w) w"
    by (rule wp_require_git [OF assms(1) p]) (use assms(3) in auto)
  moreover have "wp (assert_unarchived pid) (\<lambda>_ _. False) (\<lambda>_. steady w) w"
    using p assms(3) steady_refl [OF assms(1)] by (simp add: assert_unarchived_def)
  moreover have "wp (bind (reading (\<lambda>w. runtime_of w pid)) (\<lambda>r. case r of
      None \<Rightarrow> a | Some rt \<Rightarrow> bind m (h rt))) (\<lambda>_ _. False) (\<lambda>_. steady w) w"
    if "wp m (\<lambda>_ _. False) (\<lambda>_. steady w) w" for m :: "'x reg" and a :: "'y reg" and h
    unfolding wp_simps(6) [of "reading _"] wp_simps(3) assms(2) option.case
    by (rule wp_bindI, rule wp_mono [OF that]) simp_all
  ultimately show "refuses (bind (reading (\<lambda>w. runtime_of w pid)) (\<lambda>r. case r of
      None \<Rightarrow> a | Some rt \<Rightarrow> bind (require_unarchived env pid) (f rt))) w"
    "refuses (bind (reading (\<lambda>w. runtime_of w pid)) (\<lambda>r. case r of
      None \<Rightarrow> a | Some rt \<Rightarrow> bind (require_execution_project env pid) (f rt))) w"
    "refuses (bind (reading (\<lambda>w. runtime_of w pid)) (\<lambda>r. case r of
      None \<Rightarrow> a | Some rt \<Rightarrow> bind (require_git_project env pid) (f rt))) w"
    "refuses (bind (reading (\<lambda>w. runtime_of w pid)) (\<lambda>r. case r of
      None \<Rightarrow> a | Some rt \<Rightarrow> bind (assert_unarchived pid) (g rt))) w"
    by (blast intro: refuses_wp)+
qed

text \<open>
  C27: an archived project refuses. Creating, editing, deleting, rerunning, promoting, dequeuing and
  starting nodes, Git operations, reviews, interrupts, archiving a direction and reading the nodes all
  raise in an archived project and change no record.
\<close>

theorem archived_refuses:
  assumes "world_ok w" and "runtime_of w pid = Some rt" and "p_archived_at (rt_project rt) \<noteq> None"
  shows "refuses (create_virtual env pid a) w \<and> refuses (update_virtual env pid i b) w \<and>
    refuses (delete_virtual env pid i) w \<and> refuses (rerun_node env pid i) w \<and>
    refuses (promote_virtual_result env pid i) w \<and> refuses (dequeue_node env pid i) w \<and>
    refuses (start_node env pid c) w \<and> refuses (spawn_git_op env pid kind msg) w \<and>
    refuses (spawn_code_review env pid lane) w \<and> refuses (interrupt env pid i) w \<and>
    refuses (set_planspace_archive env busy pid l on) w \<and> refuses (list_visible_nodes pid) w \<and>
    refuses (get_node pid i) w \<and> refuses (replay_node_events dump pid i k) w"
  unfolding create_virtual_def update_virtual_def delete_virtual_def rerun_node_def promote_virtual_result_def
    dequeue_node_def start_node_def spawn_git_op_def spawn_code_review_def interrupt_def set_planspace_archive_def
    list_visible_nodes_def get_node_def replay_node_events_def spawn_review_before_def bind_assoc
  by (intro conjI refuses_guarded [OF assms])

definition archived_world :: world where
  "archived_world = failed_world\<lparr>w_runtimes := [(''p'', idle_runtime\<lparr>rt_project := sample_project\<lparr>p_archived_at := Some 9\<rparr>\<rparr>)]\<rparr>"

theorem archived_refuses_witness:
  "refuses (rerun_node sample_env ''p'' ''a'') archived_world"
proof -
  have w: "world_ok archived_world" by (rule world_okI) code_simp
  have rt: "runtime_of archived_world ''p'' = Some (idle_runtime\<lparr>rt_project := sample_project\<lparr>p_archived_at := Some 9\<rparr>\<rparr>)"
    by code_simp
  from archived_refuses [OF w rt] show ?thesis by simp
qed

end
