(* ===== verification/Maintenance.thy ===== *)
theory Maintenance
  imports Archive_Safety
begin

text \<open>
  Self-update and storage sync: the registry's operations interleave with the four operations that raise
  and lower the two flags. What matters of an operation is that it starts tasks only through
  \<open>_launch_node\<close>; the locale states this once for any predicate on worlds that an operation could break
  only by starting a task.
\<close>

section \<open>Predicates that only a launch could break\<close>

definition shrinks :: "(runtime \<Rightarrow> runtime) \<Rightarrow> bool" where
  "shrinks f \<longleftrightarrow> (\<forall>rt. set (keys (rt_tasks (f rt))) \<subseteq> set (keys (rt_tasks rt)) \<and>
     set (keys (rt_runners (f rt))) \<subseteq> set (keys (rt_runners rt)))"

named_theorems shrink_intros

lemma keeps_more_cases [keeps_intros]:
  "(xs = [] \<Longrightarrow> keeps I m) \<Longrightarrow> (\<And>y ys. xs = y # ys \<Longrightarrow> keeps I (g y ys)) \<Longrightarrow>
     keeps I (case xs of [] \<Rightarrow> m | y # ys \<Rightarrow> g y ys)"
  "(a = Unset \<Longrightarrow> keeps I m') \<Longrightarrow> (\<And>v. a = Given v \<Longrightarrow> keeps I (h v)) \<Longrightarrow>
     keeps I (case a of Unset \<Rightarrow> m' | Given v \<Rightarrow> h v)"
  by (cases xs, simp, simp, cases a, simp_all)

lemma shrinks_simps [simp, shrink_intros]:
  "shrinks (\<lambda>rt. rt\<lparr>rt_priority := g rt\<rparr>)" "shrinks (\<lambda>rt. rt\<lparr>rt_project := h rt\<rparr>)"
  by (simp_all add: shrinks_def)

lemma shrinks_remove [simp, shrink_intros]: "shrinks (remove_runner nid)"
  by (auto simp: shrinks_def remove_runner_def delete_keys)

lemma set_map_entry: "x \<in> set (AList.map_entry k f al) \<Longrightarrow> x \<in> set al \<or> (\<exists>v. (k, v) \<in> set al \<and> x = (k, f v))"
  by (induction al) (auto split: if_splits)

section \<open>Operations as steps\<close>

text \<open>
  One step is one registry call run to its end (the registry runs on the event loop, and no modelled
  operation but \<open>spawn_code_review\<close> awaits in between; its two halves are steps of their own), or a
  runner task that ends.
\<close>

inductive acts :: "env \<Rightarrow> world \<Rightarrow> world \<Rightarrow> bool" for env where
  Act_Create: "acts env w (fst (create_virtual env p a w))"
| Act_Update: "acts env w (fst (update_virtual env p i b w))"
| Act_Delete: "acts env w (fst (delete_virtual env p i w))"
| Act_Rerun: "acts env w (fst (rerun_node env p i w))"
| Act_Promote: "acts env w (fst (promote_virtual_result env p i w))"
| Act_Sweep: "acts env w (fst (auto_promote_eligible_virtuals env p w))"
| Act_Dequeue: "acts env w (fst (dequeue_node env p i w))"
| Act_Start: "acts env w (fst (start_node env p c w))"
| Act_Git: "acts env w (fst (spawn_git_op env p k msg w))"
| Act_Review_Before: "acts env w (fst (spawn_review_before env p w))"
| Act_Review_After: "acts env w (fst (spawn_review_after env pr p lo w))"
| Act_Interrupt: "acts env w (fst (interrupt env p i w))"
| Act_Archive: "acts env w (fst (archive_project env on p w))"
| Act_Unarchive: "acts env w (fst (unarchive_project env p w))"
| Act_Lane_Archive: "acts env w (fst (set_planspace_archive env busy p l on w))"
| Act_Repair: "acts env w (fst (repair_stale_nodes p w))"
| Act_Schedule: "acts env w (fst (schedule_queued p w))"
| Act_Task_Ends: "acts env w (w\<lparr>w_runtimes := AList.map_entry p
    (\<lambda>rt. rt\<lparr>rt_tasks := AList.map_entry i (\<lambda>_. True) (rt_tasks rt)\<rparr>) (w_runtimes w)\<rparr>)"
| Act_Done: "acts env w (fst (on_runner_done env p i e w))"

text \<open>The flags, raised and lowered between the other operations.\<close>

inductive maintenance :: "env \<Rightarrow> world \<Rightarrow> world \<Rightarrow> bool" for env where
  M_Act: "acts env w t \<Longrightarrow> maintenance env w t"
| M_Prepare_Update: "maintenance env w (fst (prepare_self_update w))"
| M_Cancel_Update: "maintenance env w (fst (cancel_self_update w))"
| M_Prepare_Sync: "maintenance env w (fst (prepare_storage_sync w))"
| M_Finish_Sync: "maintenance env w (fst (finish_storage_sync w))"

locale launch_frame =
  fixes I :: "world \<Rightarrow> bool"
  assumes elsewhere: "I (w\<lparr>w_store := s\<rparr>) = I w" "I (w\<lparr>w_lanes := l\<rparr>) = I w" "I (w\<lparr>w_events := e\<rparr>) = I w"
      "I (w\<lparr>w_ids := k\<rparr>) = I w"
    and shrink: "I w \<Longrightarrow> shrinks f \<Longrightarrow> I (w\<lparr>w_runtimes := AList.map_entry pid f (w_runtimes w)\<rparr>)"
    and launch: "I w \<Longrightarrow> \<not> w_self_update w \<Longrightarrow> \<not> w_storage_sync w \<Longrightarrow>
      I (w\<lparr>w_runtimes := AList.map_entry pid f (w_runtimes w)\<rparr>)"
begin

lemma store: "keeps I (on_store m)"
  by (rule keepsI) (simp add: on_store_apply elsewhere)

lemma lanes: "keeps I (on_lanes_state m)"
  by (rule keepsI) (simp add: on_lanes_state_def zoom_def elsewhere split: prod.split)

lemma basic [keeps_intros]:
  "keeps I (load p i)" "keeps I (listing p ls)" "keeps I (save n)" "keeps I (insert_node n)" "keeps I (remove_node p i)"
  "keeps I (put_preview p i doc)" "keeps I (on_store m)" "keeps I (on_lanes_state m')"
  by (simp_all add: load_def listing_def save_def insert_node_def remove_node_def put_preview_def store lanes)

lemma notify [keeps_intros]: "keeps I (notify p ev)"
  unfolding notify_def by (rule keeps_writing) (simp add: elsewhere)

lemma fresh_id [keeps_intros]: "keeps I (fresh_id env)"
  unfolding fresh_id_def by (intro keeps_intros) (simp add: elsewhere)

lemma set_runtime [keeps_intros]: "shrinks f \<Longrightarrow> keeps I (set_runtime p f)"
  unfolding set_runtime_def by (rule keeps_writing) (rule shrink)

lemma launch_node [keeps_intros]: "keeps I (launch_node p n)"
proof (rule keepsI)
  fix w assume "I w"
  then show "I (fst (launch_node p n w))"
    using launch [of w p "start_runner n"] by (auto simp: launch_node_def bind_def andthen_def set_runtime_def split: option.split)
qed

lemma schedule [keeps_intros]: "keeps I (schedule_queued p)"
proof -
  have "keeps I (schedule_step p)"
    unfolding schedule_step_def still_priority_def launch_priority_def launch_oldest_def
    by (intro keeps_intros keeps_cases shrink_intros)
  then have "keeps I (schedule_loop k p)" for k by (induction k) (auto intro!: keeps_intros)
  then show ?thesis unfolding schedule_queued_def by (intro keeps_intros keeps_cases)
qed

lemma schedule_all [keeps_intros]: "keeps I schedule_all"
  unfolding schedule_all_def by (intro keeps_intros keeps_cases)

lemma guards [keeps_intros]:
  "keeps I (require_native env p)" "keeps I (require_unarchived env p)" "keeps I (require_git_project env p)"
  "keeps I (require_execution_project env p)" "keeps I (require_native_node n)" "keeps I (require_unarchived_lane pr l)"
  "keeps I (assert_unarchived p)"
proof -
  have "keeps I (writing (\<lambda>w. w\<lparr>w_ids := k\<rparr>))" for k by (rule keeps_writing) (simp add: elsewhere)
  then have "keeps I (prepare_temporary_workspace env pr)" for pr
    unfolding prepare_temporary_workspace_def by (intro keeps_intros shrink_intros) (simp_all add: elsewhere)
  then show nat: "keeps I (require_native env p)" for p unfolding require_native_def by (intro keeps_intros)
  show un: "keeps I (require_unarchived env p)" for p unfolding require_unarchived_def by (intro keeps_intros nat)
  show "keeps I (require_git_project env p)" unfolding require_git_project_def by (intro keeps_intros un)
  show "keeps I (require_execution_project env p)" unfolding require_execution_project_def by (intro keeps_intros un)
  show "keeps I (require_native_node n)" "keeps I (require_unarchived_lane pr l)" "keeps I (assert_unarchived p)"
    unfolding require_native_node_def require_unarchived_lane_def assert_unarchived_def by (intro keeps_intros)+
qed

lemma lane_args [keeps_intros]:
  "keeps I (require_project_lane pr lo)" "keeps I (resolve_virtual_create_lane pr lo)"
  "keeps I (collect_deps p i l ds xs)" "keeps I (normalize_virtual_scheduled_deps p i l dso)"
  "keeps I (normalize_virtual_parent p l lo)" "keeps I (normalize_virtual_resume_source p l lo b)"
  "keeps I (lane_nodes_with p l n)" "keeps I (reject_cycle p n)"
proof -
  show rl: "keeps I (require_project_lane pr lo)" unfolding require_project_lane_def by (intro keeps_intros)
  show "keeps I (resolve_virtual_create_lane pr lo)" unfolding resolve_virtual_create_lane_def by (intro keeps_intros rl)
  show cd: "keeps I (collect_deps p i l ds xs)" for ds xs
    by (induction xs arbitrary: ds) (auto intro!: keeps_intros)
  show "keeps I (normalize_virtual_scheduled_deps p i l dso)"
    unfolding normalize_virtual_scheduled_deps_def by (intro keeps_intros cd)
  show "keeps I (normalize_virtual_parent p l lo)" unfolding normalize_virtual_parent_def by (intro keeps_intros)
  show "keeps I (normalize_virtual_resume_source p l lo b)" unfolding normalize_virtual_resume_source_def by (intro keeps_intros)
  show ln: "keeps I (lane_nodes_with p l n)" for l unfolding lane_nodes_with_def by (intro keeps_intros)
  show "keeps I (reject_cycle p n)" unfolding reject_cycle_def by (intro keeps_intros ln)
qed

lemma previews [keeps_intros]:
  "keeps I (try_virtual_preview p n)" "keeps I (write_virtual_preview p n)" "keeps I (try_executed_preview p n a b c)"
  unfolding try_virtual_preview_def write_virtual_preview_def try_executed_preview_def by (intro keeps_intros keeps_cases)+

lemma promotion [keeps_intros]:
  "keeps I (promote_virtual_result env p i)" "keeps I (promote_virtual env p i)" "keeps I (auto_promote_eligible_virtuals env p)"
proof -
  have blockers: "keeps I (promotion_blockers p n)" for n unfolding promotion_blockers_def by (intro keeps_intros keeps_filter_prog)
  have inherit: "keeps I (inherit_resume env pr p n)" for pr n unfolding inherit_resume_def by (intro keeps_intros keeps_cases)
  have commit: "keeps I (commit_promotion p n)" for n unfolding commit_promotion_def by (intro keeps_intros keeps_cases)
  have checked: "keeps I (promote_checked env pr p n)" for pr n
    unfolding promote_checked_def by (intro keeps_intros keeps_cases blockers inherit commit)
  show result: "keeps I (promote_virtual_result env p i)" for i
    unfolding promote_virtual_result_def by (intro keeps_intros keeps_cases checked)
  show one: "keeps I (promote_virtual env p i)" for i unfolding promote_virtual_def by (intro keeps_intros keeps_cases result)
  have "keeps I (next_promotion_candidate p l)" for l
    unfolding next_promotion_candidate_def auto_eligible_def is_dep_auto_ready_def
    by (intro keeps_intros keeps_cases keeps_filter_prog keeps_all_prog)
  then have "keeps I (promote_lane k env p l)" for k l
    by (induction k) (auto intro!: keeps_intros one)
  then show "keeps I (auto_promote_eligible_virtuals env p)"
    unfolding auto_promote_eligible_virtuals_def by (intro keeps_intros keeps_cases)
qed

lemma dequeue [keeps_intros]: "keeps I (dequeue_node env p i)"
  unfolding dequeue_node_def dequeue_checked_def by (intro keeps_intros keeps_cases shrink_intros)

lemma sweep [keeps_intros]: "keeps I (sweep_if_auto env pr p b n)"
  unfolding sweep_if_auto_def by (intro keeps_intros)

lemma args [keeps_intros]: "keeps I (preset_arg s)" "keeps I (active_preset_arg t)" "keeps I (validated n)"
  unfolding preset_arg_def active_preset_arg_def validated_def by (intro keeps_intros keeps_cases)+

lemma create [keeps_intros]: "keeps I (create_virtual env p a)"
proof -
  have "keeps I (create_draft env pr p a)" for pr
    unfolding create_draft_def create_guards_def create_preset_def create_fields_def by (intro keeps_intros keeps_cases)
  moreover have "keeps I (create_checked p a n)" for n unfolding create_checked_def by (intro keeps_intros keeps_cases)
  ultimately show ?thesis unfolding create_virtual_def by (intro keeps_intros)
qed

lemma update [keeps_intros]: "keeps I (update_virtual env p i a)"
proof -
  have "keeps I (update_draft env pr p a n)" for pr n
    unfolding update_draft_def update_target_def update_preset_def by (intro keeps_intros keeps_cases)
  then show ?thesis unfolding update_virtual_def update_checked_def check_expected_mode_def by (intro keeps_intros keeps_cases)
qed

lemma delete [keeps_intros]: "keeps I (delete_virtual env p i)"
  unfolding delete_virtual_def delete_checked_def drop_dep_def by (intro keeps_intros keeps_cases shrink_intros)

lemma rerun [keeps_intros]: "keeps I (rerun_node env p i)"
  unfolding rerun_node_def by (intro keeps_intros keeps_cases)

lemma start [keeps_intros]: "keeps I (start_node env p c)"
proof -
  have "keeps I (start_draft env pr p c src)" for pr src
    unfolding start_draft_def start_preset_def by (intro keeps_intros keeps_cases)
  then have "keeps I (start_checked env pr p c src)" for pr src
    unfolding start_checked_def schedule_and_reload_def by (intro keeps_intros keeps_cases)
  then show ?thesis unfolding start_node_def by (intro keeps_intros keeps_cases)
qed

lemma enqueue [keeps_intros]: "keeps I (enqueue_first p n)" "keeps I (schedule_and_reload p n)"
  unfolding enqueue_first_def append_priority_def schedule_and_reload_def by (intro keeps_intros shrink_intros)+

lemma git [keeps_intros]: "keeps I (spawn_git_op env p k msg)" "keeps I (spawn_code_review env p lo)"
  "keeps I (spawn_op_commit env p n)"
  unfolding spawn_git_op_def spawn_code_review_def spawn_review_before_def spawn_review_after_def spawn_op_commit_def
  by (intro keeps_intros keeps_cases)+

lemma completion [keeps_intros]: "keeps I (on_runner_done env p i e)" "keeps I (repair_stale_nodes p)" "keeps I (interrupt env p i)"
proof -
  have "keeps I (settle_node p n e)" for n
    unfolding settle_node_def persist_unexpected_terminal_def by (intro keeps_intros keeps_cases)
  moreover have "keeps I (propagate_commit p n)" for n unfolding propagate_commit_def by (intro keeps_intros keeps_cases)
  moreover have "keeps I (after_done env p pr n)" for pr n
    unfolding after_done_def broadcast_git_status_def by (intro keeps_intros keeps_cases)
  ultimately show "keeps I (on_runner_done env p i e)"
    unfolding on_runner_done_def by (intro keeps_intros keeps_cases shrink_intros)
  show "keeps I (repair_stale_nodes p)" unfolding repair_stale_nodes_def repair_node_def by (intro keeps_intros keeps_cases)
  show "keeps I (interrupt env p i)" unfolding interrupt_def by (intro keeps_intros keeps_cases)
qed

lemma halves [keeps_intros]: "keeps I (spawn_review_before env p)" "keeps I (spawn_review_after env pr p lo)"
  unfolding spawn_review_before_def spawn_review_after_def by (intro keeps_intros keeps_cases)+

lemma archive [keeps_intros]: "keeps I (archive_project env b p)" "keeps I (unarchive_project env p)"
  "keeps I (set_planspace_archive env b p l on)"
  unfolding archive_project_def unarchive_project_def set_planspace_archive_def archive_blockers_def set_archived_at_def
    write_archive_mark_def
  by (intro keeps_intros keeps_cases shrink_intros)+

lemma acts: "acts env w t \<Longrightarrow> I w \<Longrightarrow> I t"
proof (erule acts.cases, goal_cases)
  case (18 w' p i)
  have "shrinks (\<lambda>rt. rt\<lparr>rt_tasks := AList.map_entry i (\<lambda>_. True) (rt_tasks rt)\<rparr>)"
    by (force simp: shrinks_def dest!: set_map_entry)
  then show ?case using 18 shrink by simp
qed (simp, rule keepsD, (intro keeps_intros)[1], assumption)+

lemma acts_many: "(acts env)\<^sup>*\<^sup>* w t \<Longrightarrow> I w \<Longrightarrow> I t"
  by (induction rule: rtranclp_induct) (auto intro: acts)

end

section \<open>The flags\<close>

definition maint_ok :: "world \<Rightarrow> bool" where
  "maint_ok w \<longleftrightarrow> \<not> (w_self_update w \<and> w_storage_sync w) \<and> (w_storage_sync w \<longrightarrow> idle_runtimes w)"

text \<open>A flag is up and no task has been started since \<open>w\<close>.\<close>

definition held :: "world \<Rightarrow> world \<Rightarrow> bool" where
  "held w t \<longleftrightarrow> (w_self_update t \<or> w_storage_sync t) \<and> (\<forall>p rt. runtime_of t p = Some rt \<longrightarrow>
     (\<exists>rt0. runtime_of w p = Some rt0 \<and> set (keys (rt_tasks rt)) \<subseteq> set (keys (rt_tasks rt0))))"

interpretation flags: launch_frame maint_ok
proof unfold_locales
  fix w f pid assume w: "maint_ok w" and f: "shrinks f"
  have empty: "rt_tasks (f rt) = [] \<and> rt_runners (f rt) = []" if "rt_tasks rt = []" "rt_runners rt = []" for rt
    using f that unfolding shrinks_def by (metis list.set(1) map_is_Nil_conv set_empty subset_empty)
  have "idle_runtimes (w\<lparr>w_runtimes := AList.map_entry pid f (w_runtimes w)\<rparr>)" if idle: "idle_runtimes w"
    unfolding idle_runtimes_def list_all_iff
  proof
    fix x assume "x \<in> set (w_runtimes (w\<lparr>w_runtimes := AList.map_entry pid f (w_runtimes w)\<rparr>))"
    then have "x \<in> set (w_runtimes w) \<or> (\<exists>v. (pid, v) \<in> set (w_runtimes w) \<and> x = (pid, f v))"
      using set_map_entry [of x pid f "w_runtimes w"] by simp
    then show "case x of (i, rt) \<Rightarrow> rt_tasks rt = [] \<and> rt_runners rt = []"
      using idle empty by (auto simp: idle_runtimes_def list_all_iff)
  qed
  then show "maint_ok (w\<lparr>w_runtimes := AList.map_entry pid f (w_runtimes w)\<rparr>)" using w by (simp add: maint_ok_def)
qed (simp_all add: maint_ok_def idle_runtimes_def)

interpretation waiting: launch_frame "held w" for w
proof unfold_locales
  fix t f pid assume t: "held w t" and f: "shrinks f"
  show "held w (t\<lparr>w_runtimes := AList.map_entry pid f (w_runtimes t)\<rparr>)"
    unfolding held_def
  proof (intro conjI allI impI)
    show "w_self_update (t\<lparr>w_runtimes := AList.map_entry pid f (w_runtimes t)\<rparr>) \<or>
        w_storage_sync (t\<lparr>w_runtimes := AList.map_entry pid f (w_runtimes t)\<rparr>)" using t by (simp add: held_def)
    fix p rt assume "runtime_of (t\<lparr>w_runtimes := AList.map_entry pid f (w_runtimes t)\<rparr>) p = Some rt"
    then obtain rt' where rt': "runtime_of t p = Some rt'" "rt = rt' \<or> rt = f rt'"
      by (auto simp: runtime_of_def map_of_map_entry_eq split: if_splits)
    then have "set (keys (rt_tasks rt)) \<subseteq> set (keys (rt_tasks rt'))" using f by (auto simp: shrinks_def)
    then show "\<exists>rt0. runtime_of w p = Some rt0 \<and> set (keys (rt_tasks rt)) \<subseteq> set (keys (rt_tasks rt0))"
      using t rt'(1) unfolding held_def by blast
  qed
qed (simp_all add: held_def runtime_of_def)

lemma prepare_steps:
  "fst (prepare_self_update w) = (if w_self_update w \<or> w_storage_sync w then w else w\<lparr>w_self_update := True\<rparr>)"
  "fst (prepare_storage_sync w) =
     (if w_self_update w \<or> w_storage_sync w \<or> \<not> idle_runtimes w then w else w\<lparr>w_storage_sync := True\<rparr>)"
  by (simp_all add: prepare_self_update_def prepare_storage_sync_def require_storage_idle_def bind_def andthen_def)

lemma maint_ok_flags [simp]:
  "maint_ok (w\<lparr>w_self_update := b\<rparr>) \<longleftrightarrow> \<not> (b \<and> w_storage_sync w) \<and> (w_storage_sync w \<longrightarrow> idle_runtimes w)"
  "maint_ok (w\<lparr>w_storage_sync := b\<rparr>) \<longleftrightarrow> \<not> (w_self_update w \<and> b) \<and> (b \<longrightarrow> idle_runtimes w)"
  by (simp_all add: maint_ok_def idle_runtimes_def)

lemma maintenance_keeps:
  assumes "maintenance env w t" and "maint_ok w"
  shows "maint_ok t"
  using assms
proof cases
  case M_Act
  then show ?thesis using flags.acts assms(2) by blast
next
  case M_Prepare_Update
  then show ?thesis using assms(2) by (simp add: prepare_steps maint_ok_def idle_runtimes_def)
next
  case M_Cancel_Update
  have "keeps maint_ok cancel_self_update"
    unfolding cancel_self_update_def
    by (intro keeps_intros flags.schedule_all) (simp, simp add: maint_ok_def)
  from keepsD [OF this assms(2)] show ?thesis using M_Cancel_Update by simp
next
  case M_Prepare_Sync
  then show ?thesis using assms(2) by (simp add: prepare_steps)
next
  case M_Finish_Sync
  have "keeps maint_ok finish_storage_sync"
    unfolding finish_storage_sync_def
    by (intro keeps_intros flags.schedule_all) simp
  from keepsD [OF this assms(2)] show ?thesis using M_Finish_Sync by simp
qed

text \<open>
  C26: the maintenance flags. However the registry's operations, completions and the four flag operations
  interleave, a self-update and a storage sync are never pending together, and while a storage sync is
  pending no project has a task or a runner.
\<close>

theorem maintenance_exclusive:
  assumes "maint_ok w" and "(maintenance env)\<^sup>*\<^sup>* w t"
  shows "maint_ok t"
  using assms(2,1) by (induction rule: rtranclp_induct) (auto intro: maintenance_keeps)

theorem maintenance_exclusive_witness:
  "maint_ok (fst (prepare_self_update (fst (prepare_storage_sync queue_world))))"
proof -
  have "maint_ok queue_world" by code_simp
  moreover have "(maintenance sample_env)\<^sup>*\<^sup>* queue_world (fst (prepare_self_update (fst (prepare_storage_sync queue_world))))"
    by (rule converse_rtranclp_into_rtranclp, rule M_Prepare_Sync, rule r_into_rtranclp, rule M_Prepare_Update)
  ultimately show ?thesis by (rule maintenance_exclusive)
qed

text \<open>
  While a flag is up no operation starts a task. Whatever sequence of operations and completions runs
  from a state with a pending self-update or storage sync, the flag stays up and every project's tasks are
  among those it had.
\<close>

theorem flags_stop_launches:
  assumes "w_self_update w \<or> w_storage_sync w" and "(acts env)\<^sup>*\<^sup>* w t"
  shows "held w t"
  using assms(2) by (rule waiting.acts_many) (use assms(1) in \<open>simp add: held_def\<close>)

theorem flags_stop_launches_witness:
  "held (fst (prepare_self_update queue_world)) (fst (schedule_queued ''p'' (fst (prepare_self_update queue_world))))"
proof -
  have "w_self_update (fst (prepare_self_update queue_world))" by code_simp
  moreover have "(acts sample_env)\<^sup>*\<^sup>* (fst (prepare_self_update queue_world))
      (fst (schedule_queued ''p'' (fst (prepare_self_update queue_world))))"
    by (intro r_into_rtranclp acts.intros)
  ultimately show ?thesis using flags_stop_launches by blast
qed

end
