(* ===== verification/Reap.thy ===== *)
theory Reap
  imports Virtual_Editing
begin

text \<open>
  The end of an agent's turn, from \<open>reap.py\<close> and the snapshot half of \<open>materialize.py\<close>: the lane's
  directory is compared with its snapshot from before the launch, every preview the agent wrote is
  parsed and judged, and the accepted virtual nodes are written to the store. A file is its digest and
  what reading it as UTF-8 gives; the return statements inside the loops are the left summand of a
  step's result, and the reasons appended to \<open>result\<close> are values.
\<close>

section \<open>Snapshots of a lane directory\<close>

datatype lane_text = NoRead | NotUtf8 | Text "json option"

type_synonym lane_tree = "(pystr, pystr \<times> lane_text) dict"
type_synonym snapshot = "(pystr, pystr) dict"

definition snapshot_lane :: "lane_tree \<Rightarrow> snapshot" where
  "snapshot_lane tree = map (\<lambda>(rel, digest, text). (rel, digest)) tree"

record lane_diff =
  created :: "pystr list"
  modified :: "pystr list"
  deleted :: "pystr list"

definition is_empty_diff :: "lane_diff \<Rightarrow> bool" where
  "is_empty_diff d = (created d = [] \<and> modified d = [] \<and> deleted d = [])"

definition diff_lane :: "snapshot \<Rightarrow> lane_tree \<Rightarrow> lane_diff" where
  "diff_lane pre tree = \<lparr>
     created = sort (map fst (filter (\<lambda>(rel, digest, text). map_of pre rel = None) tree)),
     modified = sort (map fst (filter (\<lambda>(rel, digest, text).
       (case map_of pre rel of None \<Rightarrow> False | Some prior \<Rightarrow> prior \<noteq> digest)) tree)),
     deleted = sort (filter (\<lambda>rel. rel \<notin> set (keys tree)) (keys pre))\<rparr>"

section \<open>Results\<close>

datatype reap_reason =
    TrackedDeleted "pystr list" | IgnoredWrite pystr | PreviewIssue pystr preview_issue | PreviewUnreadable pystr
  | OwnMissing | OwnVirtual pystr | OwnMismatch pystr mismatch
  | PresetByNonPlanner pystr | PresetOnNonAgent pystr | NewExecuted pystr | ExecutedRewrite pystr
  | RewriteOutsideLane pystr | RewrittenAsExecuted pystr | CategoryForbidden | NewVerifier pystr
  | NewPreset pystr | RewritePreset pystr | DepUnresolved pystr pystr | DepOutsideLane pystr pystr
  | ResumePreset pystr | CycleIntroduced

record reap_result =
  rr_own_ok :: bool
  rr_own :: "executed_preview option"
  rr_new :: "node list"
  rr_modified :: "node list"
  rr_reasons :: "reap_reason list"
  rr_fatal :: bool

definition empty_result :: reap_result where
  "empty_result = \<lparr>rr_own_ok = False, rr_own = None, rr_new = [], rr_modified = [], rr_reasons = [], rr_fatal = False\<rparr>"

definition reap_ok :: "reap_result \<Rightarrow> bool" where
  "reap_ok r = (rr_own_ok r \<and> \<not> rr_fatal r \<and> rr_reasons r = [])"

definition rejected :: "reap_reason list \<Rightarrow> reap_result \<Rightarrow> reap_result" where
  "rejected rs r = r\<lparr>rr_reasons := rr_reasons r @ rs, rr_fatal := True\<rparr>"

section \<open>Parsing what was written\<close>

text \<open>\<open>_PREVIEW_RE\<close>: the end marker also accepts a final newline.\<close>

definition preview_ident :: "pystr \<Rightarrow> pystr option" where
  "preview_ident rel =
     (if \<not> starts_with ''nodes/'' rel then None
      else let s = drop 6 rel; ident = takeWhile (\<lambda>c. c \<noteq> CHR ''/'') s in
        if ident \<noteq> [] \<and> dropWhile (\<lambda>c. c \<noteq> CHR ''/'') s \<in> {''/preview.json'', ''/preview.json'' @ [CHR 0x0A]}
        then Some ident else None)"

type_synonym parsed = "(pystr, preview \<times> pystr) dict"

definition read_preview :: "pystr \<Rightarrow> lane_text \<Rightarrow> exn + (reap_reason list + preview)" where
  "read_preview rel text = (case text of
     NoRead \<Rightarrow> Inr (Inl [PreviewUnreadable rel])
   | NotUtf8 \<Rightarrow> Inl (ValueError ''not utf-8'')
   | Text doc \<Rightarrow> (case parse_preview doc of
       Inl es \<Rightarrow> Inr (Inl (map (PreviewIssue rel) es)) | Inr p \<Rightarrow> Inr (Inr p)))"

definition text_at :: "lane_tree \<Rightarrow> pystr \<Rightarrow> lane_text" where
  "text_at tree rel = (case map_of tree rel of None \<Rightarrow> NoRead | Some (digest, text) \<Rightarrow> text)"

fun preview_paths :: "pystr list \<Rightarrow> reap_reason list \<times> (pystr \<times> pystr) list" where
  "preview_paths [] = ([], [])"
| "preview_paths (rel # rels) = (case preview_paths rels of (rs, ps) \<Rightarrow>
     (case preview_ident rel of Some ident \<Rightarrow> (rs, (rel, ident) # ps) | None \<Rightarrow> (IgnoredWrite rel # rs, ps)))"

fun parse_changed :: "lane_tree \<Rightarrow> (pystr \<times> pystr) list \<Rightarrow> reap_reason list \<Rightarrow> parsed \<Rightarrow>
    exn + reap_reason list \<times> parsed" where
  "parse_changed tree [] rs ps = Inr (rs, ps)"
| "parse_changed tree ((rel, ident) # paths) rs ps =
     (case read_preview rel (text_at tree rel) of
        Inl e \<Rightarrow> Inl e
      | Inr (Inl es) \<Rightarrow> parse_changed tree paths (rs @ es) ps
      | Inr (Inr p) \<Rightarrow> parse_changed tree paths rs (AList.update ident (p, rel) ps))"

definition own_preview :: "node \<Rightarrow> parsed \<Rightarrow> reap_reason list + executed_preview" where
  "own_preview n ps = (case map_of ps (n_id n) of
     None \<Rightarrow> Inl [OwnMissing]
   | Some (VirtualP v, rel) \<Rightarrow> Inl [OwnVirtual rel]
   | Some (ExecutedP x, rel) \<Rightarrow>
       (case validate_preview_for_node (ExecutedP x) n of [] \<Rightarrow> Inr x | es \<Rightarrow> Inl (map (OwnMismatch rel) es)))"

section \<open>Sorting the other previews\<close>

datatype entry = Skipped | NewVirtual pystr virtual_preview | Rewrite node virtual_preview pystr

definition sets_preset :: "virtual_preview \<Rightarrow> bool" where
  "sets_preset v = (''model_preset_id'' \<in> set (vp_fields_set v))"

definition preset_rights :: "node \<Rightarrow> preview \<Rightarrow> pystr \<Rightarrow> reap_reason option" where
  "preset_rights n p rel = (case p of
     ExecutedP x \<Rightarrow> None
   | VirtualP v \<Rightarrow>
       if sets_preset v \<and> n_category n \<noteq> Some Planning then Some (PresetByNonPlanner rel)
       else if vp_kind v \<noteq> Agent \<and> sets_preset v then Some (PresetOnNonAgent rel) else None)"

definition classify :: "node \<Rightarrow> node option \<Rightarrow> pystr \<Rightarrow> preview \<Rightarrow> pystr \<Rightarrow> reap_reason + entry" where
  "classify n existing ident p rel = (case existing of
     None \<Rightarrow> (case p of ExecutedP x \<Rightarrow> Inl (NewExecuted rel) | VirtualP v \<Rightarrow> Inr (NewVirtual ident v))
   | Some e \<Rightarrow>
       if n_state e \<noteq> Virtual then Inl (ExecutedRewrite rel)
       else if lane_of e \<noteq> lane_of n then Inl (RewriteOutsideLane rel)
       else (case p of ExecutedP x \<Rightarrow> Inl (RewrittenAsExecuted rel) | VirtualP v \<Rightarrow> Inr (Rewrite e v rel)))"

definition sort_entry :: "pystr \<Rightarrow> node \<Rightarrow> snapshot \<Rightarrow> pystr \<Rightarrow> preview \<Rightarrow> pystr \<Rightarrow> (reap_reason + entry) reg" where
  "sort_entry pid n pre ident p rel =
     (if ident = n_id n then ret (Inr Skipped)
      else bind (load pid ident) (\<lambda>existing.
        ret (if existing = None \<and> rel \<in> set (keys pre) then Inr Skipped
          else case preset_rights n p rel of Some r \<Rightarrow> Inl r | None \<Rightarrow> classify n existing ident p rel)))"

fun sort_entries :: "pystr \<Rightarrow> node \<Rightarrow> snapshot \<Rightarrow> parsed \<Rightarrow> (reap_reason + entry list) reg" where
  "sort_entries pid n pre [] = ret (Inr [])"
| "sort_entries pid n pre ((ident, p, rel) # ps) =
     bind (sort_entry pid n pre ident p rel) (\<lambda>r. case r of
       Inl reason \<Rightarrow> ret (Inl reason)
     | Inr e \<Rightarrow> bind (sort_entries pid n pre ps) (\<lambda>tl_r. case tl_r of
         Inl reason \<Rightarrow> ret (Inl reason) | Inr es \<Rightarrow> ret (Inr (e # es))))"

fun new_entries :: "entry list \<Rightarrow> (pystr \<times> virtual_preview) list" where
  "new_entries [] = []"
| "new_entries (NewVirtual slug v # es) = (slug, v) # new_entries es"
| "new_entries (e # es) = new_entries es"

fun rewrite_entries :: "entry list \<Rightarrow> (node \<times> virtual_preview \<times> pystr) list" where
  "rewrite_entries [] = []"
| "rewrite_entries (Rewrite e v rel # es) = (e, v, rel) # rewrite_entries es"
| "rewrite_entries (e # es) = rewrite_entries es"

section \<open>Drafts and rewrites\<close>

definition resolve_planner_preset :: "global_config \<Rightarrow> virtual_preview \<Rightarrow> pystr option \<Rightarrow> preset_issue + pystr option" where
  "resolve_planner_preset cfg v inherited =
     (if \<not> sets_preset v then Inr inherited
      else case vp_model_preset_id v of
        None \<Rightarrow> Inl PresetIdRequired
      | Some raw \<Rightarrow> (case normalize_model_preset_id cfg (Some raw) of
          Inl e \<Rightarrow> Inl e
        | Inr selected \<Rightarrow>
            if Some selected \<noteq> inherited
            then (case normalize_active_model_preset_id cfg (Some selected) of Inl e \<Rightarrow> Inl e | Inr q \<Rightarrow> Inr (Some q))
            else Inr (Some selected)))"

definition resolve_artifact :: "virtual_preview \<Rightarrow> artifact_mode \<Rightarrow> pystr \<Rightarrow> artifact_mode \<times> pystr" where
  "resolve_artifact v mode spec =
     (if ''artifact_mode'' \<notin> set (vp_fields_set v) then (mode, spec)
      else if vp_artifact_mode v = CustomArtifact then (vp_artifact_mode v, or_empty (vp_artifact_spec v))
      else (vp_artifact_mode v, []))"

definition planner_preset :: "virtual_preview \<Rightarrow> pystr option \<Rightarrow> (preset_issue + pystr option) reg" where
  "planner_preset v inherited = reading (\<lambda>w. resolve_planner_preset (st_config (w_store w)) v inherited)"

text \<open>\<open>virtual_preview_to_node\<close> stamps the node with the time and may raise a validation error.\<close>

definition preview_node :: "virtual_preview \<Rightarrow> pystr \<Rightarrow> pystr \<Rightarrow> pystr option \<Rightarrow> pystr option \<Rightarrow>
    artifact_mode \<times> pystr \<Rightarrow> node reg" where
  "preview_node v pid nid script preset art =
     reading_result (\<lambda>w. case virtual_preview_to_node v pid nid (w_now w) script preset (Some art) of
       Inl e \<Rightarrow> Inl (NodeRejected e) | Inr m \<Rightarrow> Inr m)"

definition draft_virtual :: "env \<Rightarrow> pystr \<Rightarrow> node \<Rightarrow> pystr \<Rightarrow> virtual_preview \<Rightarrow> (reap_reason + node) reg" where
  "draft_virtual env pid n slug v =
     (if vp_kind v = Verifier then ret (Inl (NewVerifier slug))
      else bind (fresh_id env) (\<lambda>canonical.
        bind (planner_preset v (n_model_preset_id n)) (\<lambda>preset. case preset of
          Inl e \<Rightarrow> ret (Inl (NewPreset slug))
        | Inr q \<Rightarrow> bind (preview_node v pid canonical None q (resolve_artifact v DefaultArtifact [])) (\<lambda>d.
            ret (Inr (d\<lparr>n_proposed_by := Some (''node:'' @ n_id n), n_planspace_id := Some (lane_of n)\<rparr>))))))"

type_synonym slugs = "(pystr, pystr) dict"
type_synonym drafts = "(pystr, node) dict"

fun draft_virtuals :: "env \<Rightarrow> pystr \<Rightarrow> node \<Rightarrow> (pystr \<times> virtual_preview) list \<Rightarrow> slugs \<Rightarrow> drafts \<Rightarrow>
    (reap_reason + slugs \<times> drafts) reg" where
  "draft_virtuals env pid n [] slugs drafts = ret (Inr (slugs, drafts))"
| "draft_virtuals env pid n ((slug, v) # entries) slugs drafts =
     bind (draft_virtual env pid n slug v) (\<lambda>r. case r of
       Inl reason \<Rightarrow> ret (Inl reason)
     | Inr d \<Rightarrow> draft_virtuals env pid n entries (AList.update slug (n_id d) slugs) (AList.update (n_id d) d drafts))"

text \<open>\<open>_rewrite_scheduled_deps\<close>: the resolved dependencies and the reasons, which are fatal.\<close>

fun rewrite_deps :: "slugs \<Rightarrow> pystr \<Rightarrow> pystr \<Rightarrow> pystr \<Rightarrow> pystr list \<Rightarrow> (reap_reason list \<times> pystr list) reg" where
  "rewrite_deps slugs pid lane label [] = ret ([], [])"
| "rewrite_deps slugs pid lane label (dep # deps) =
     bind (case map_of slugs dep of
        Some canonical \<Rightarrow> ret ([], [canonical])
      | None \<Rightarrow> bind (load pid dep) (\<lambda>node. ret (case node of
          None \<Rightarrow> ([DepUnresolved label dep], [])
        | Some d \<Rightarrow> if lane_of d \<noteq> lane then ([DepOutsideLane label dep], []) else ([], [dep])))) (\<lambda>(rs, ds).
     bind (rewrite_deps slugs pid lane label deps) (\<lambda>(rs', ds'). ret (rs @ rs', ds @ ds')))"

fun rewrite_drafts :: "slugs \<Rightarrow> pystr \<Rightarrow> pystr \<Rightarrow> node list \<Rightarrow> (reap_reason list \<times> node list) reg" where
  "rewrite_drafts slugs pid lane [] = ret ([], [])"
| "rewrite_drafts slugs pid lane (d # drafts) =
     bind (rewrite_deps slugs pid lane (n_id d) (n_scheduled_deps d)) (\<lambda>(rs, deps).
     bind (rewrite_drafts slugs pid lane drafts) (\<lambda>(rs', ds).
       ret (rs @ rs', d\<lparr>n_scheduled_deps := deps\<rparr> # ds)))"

text \<open>What a rewritten virtual keeps from the stored record, whatever the preview says.\<close>

definition keep_controlled :: "node \<Rightarrow> node \<Rightarrow> node" where
  "keep_controlled e u = u\<lparr>
     n_proposed_by := n_proposed_by e, n_created_at := n_created_at e, n_planspace_id := n_planspace_id e,
     n_resume_from_node_id := n_resume_from_node_id e,
     n_qa_mode := (if n_category u \<noteq> Some Review then n_qa_mode e else False),
     n_diff_review := (if n_category u \<noteq> Some Review then n_diff_review e else False)\<rparr>"

definition expected_preset :: "pystr \<Rightarrow> node \<Rightarrow> pystr option reg" where
  "expected_preset pid e = bind (load pid (or_empty (n_resume_from_node_id e))) (\<lambda>source.
     ret (case source of
       None \<Rightarrow> n_model_preset_id e
     | Some s \<Rightarrow> if truthy (n_model_preset_id s) then n_model_preset_id s else n_model_preset_id e))"

definition resume_agrees :: "pystr \<Rightarrow> node \<Rightarrow> node \<Rightarrow> bool reg" where
  "resume_agrees pid e u =
     (if truthy (n_resume_from_node_id e)
      then bind (expected_preset pid e) (\<lambda>q. ret (n_model_preset_id u = q)) else ret True)"

definition rewrite_virtual :: "pystr \<Rightarrow> slugs \<Rightarrow> pystr \<Rightarrow> node \<times> virtual_preview \<times> pystr \<Rightarrow>
    (reap_reason + reap_reason list \<times> node) reg" where
  "rewrite_virtual pid slugs lane entry = (case entry of (e, v, rel) \<Rightarrow>
     bind (planner_preset v (n_model_preset_id e)) (\<lambda>preset. case preset of
       Inl issue \<Rightarrow> ret (Inl (RewritePreset rel))
     | Inr q \<Rightarrow>
         bind (preview_node v pid (n_id e) (n_verify_script_ref e) q
           (resolve_artifact v (n_artifact_mode e) (n_artifact_spec e))) (\<lambda>updated.
         bind (resume_agrees pid e updated) (\<lambda>agrees.
         if \<not> agrees then ret (Inl (ResumePreset rel))
         else let u = keep_controlled e updated in
           bind (rewrite_deps slugs pid lane (n_id e) (n_scheduled_deps u)) (\<lambda>(rs, deps).
             ret (Inr (rs, u\<lparr>n_scheduled_deps := deps\<rparr>)))))))"

fun rewrite_virtuals :: "pystr \<Rightarrow> slugs \<Rightarrow> pystr \<Rightarrow> (node \<times> virtual_preview \<times> pystr) list \<Rightarrow> reap_reason list \<Rightarrow>
    (reap_reason list + reap_reason list \<times> node list) reg" where
  "rewrite_virtuals pid slugs lane [] seen = ret (Inr ([], []))"
| "rewrite_virtuals pid slugs lane (x # xs) seen =
     bind (rewrite_virtual pid slugs lane x) (\<lambda>r. case r of
       Inl reason \<Rightarrow> ret (Inl (seen @ [reason]))
     | Inr (rs, u) \<Rightarrow> bind (rewrite_virtuals pid slugs lane xs (seen @ rs)) (\<lambda>tl_r. case tl_r of
         Inl all \<Rightarrow> ret (Inl all) | Inr (rs', us) \<Rightarrow> ret (Inr (rs @ rs', u # us))))"

section \<open>Committing\<close>

definition graph_with :: "node list \<Rightarrow> dep_graph \<Rightarrow> dep_graph" where
  "graph_with ms g = fold (\<lambda>m. AList.update (n_id m) (n_scheduled_deps m)) ms g"

definition lane_cycle :: "pystr \<Rightarrow> pystr \<Rightarrow> node list \<Rightarrow> bool reg" where
  "lane_cycle pid lane ms = bind (listing pid []) (\<lambda>nodes.
     ret (has_cycle (graph_with ms
       (map (\<lambda>k. (n_id k, n_scheduled_deps k)) (filter (\<lambda>k. lane_of k = lane) nodes)))))"

fun each_node :: "(node \<Rightarrow> node reg) \<Rightarrow> node list \<Rightarrow> node list reg" where
  "each_node f [] = ret []"
| "each_node f (n # ns) = bind (f n) (\<lambda>m. bind (each_node f ns) (\<lambda>ms. ret (m # ms)))"

definition persist :: "reap_result \<Rightarrow> node list \<Rightarrow> node list \<Rightarrow> reap_result reg" where
  "persist res drafts updates =
     bind (each_node insert_node drafts) (\<lambda>new.
     bind (each_node save updates) (\<lambda>old.
       ret (res\<lparr>rr_new := new, rr_modified := old\<rparr>)))"

definition may_propose :: "node \<Rightarrow> bool" where
  "may_propose n = (n_category n = Some Planning \<or> n_category n = Some Review)"

definition commit_rewrites :: "pystr \<Rightarrow> node \<Rightarrow> reap_result \<Rightarrow> slugs \<Rightarrow> node list \<Rightarrow>
    (node \<times> virtual_preview \<times> pystr) list \<Rightarrow> reap_result reg" where
  "commit_rewrites pid n res slugs drafts rewrites =
     bind (rewrite_virtuals pid slugs (lane_of n) rewrites []) (\<lambda>r. case r of
       Inl reasons \<Rightarrow> ret (rejected reasons res)
     | Inr (reasons, updates) \<Rightarrow>
         if reasons \<noteq> [] then ret (rejected reasons res)
         else bind (lane_cycle pid (lane_of n) (drafts @ updates)) (\<lambda>cyclic.
           if cyclic then ret (rejected [CycleIntroduced] res) else persist res drafts updates))"

definition commit_entries :: "env \<Rightarrow> pystr \<Rightarrow> node \<Rightarrow> reap_result \<Rightarrow> entry list \<Rightarrow> reap_result reg" where
  "commit_entries env pid n res entries =
     (if (new_entries entries \<noteq> [] \<or> rewrite_entries entries \<noteq> []) \<and> \<not> may_propose n
      then ret (rejected [CategoryForbidden] res)
      else bind (draft_virtuals env pid n (new_entries entries) [] []) (\<lambda>r. case r of
        Inl reason \<Rightarrow> ret (rejected [reason] res)
      | Inr (slugs, drafts) \<Rightarrow>
          bind (rewrite_drafts slugs pid (lane_of n) (map snd drafts)) (\<lambda>(reasons, ds).
          if reasons \<noteq> [] then ret (rejected reasons res)
          else commit_rewrites pid n res slugs ds (rewrite_entries entries))))"

definition reap_changed :: "env \<Rightarrow> pystr \<Rightarrow> node \<Rightarrow> lane_tree \<Rightarrow> snapshot \<Rightarrow> lane_diff \<Rightarrow> reap_result reg" where
  "reap_changed env pid n tree pre diff = (case preview_paths (created diff @ modified diff) of (ignored, paths) \<Rightarrow>
     bind (result (parse_changed tree paths ignored [])) (\<lambda>(reasons, ps).
     case own_preview n ps of
       Inl own_issues \<Rightarrow> ret (empty_result\<lparr>rr_reasons := reasons @ own_issues\<rparr>)
     | Inr own \<Rightarrow>
         let res = empty_result\<lparr>rr_own_ok := True, rr_own := Some own, rr_reasons := reasons\<rparr> in
         bind (sort_entries pid n pre ps) (\<lambda>r. case r of
           Inl reason \<Rightarrow> ret (rejected [reason] res)
         | Inr entries \<Rightarrow> commit_entries env pid n res entries)))"

definition reap_lane :: "env \<Rightarrow> project \<Rightarrow> node \<Rightarrow> lane_tree \<Rightarrow> snapshot \<Rightarrow> reap_result reg" where
  "reap_lane env p n tree pre =
     (let diff = diff_lane pre tree in
      if deleted diff \<noteq> [] then ret (rejected [TrackedDeleted (deleted diff)] empty_result)
      else reap_changed env (p_id p) n tree pre diff)"

end
