(* ===== verification/Reap_Safety.thy ===== *)
theory Reap_Safety
  imports Reap Lifecycle_Results
begin

text \<open>
  The end of a turn is all or nothing. A reap that is fatal, that lacks a valid preview of the running
  node or that raises changes no record; one that succeeds adds and rewrites virtual nodes of the
  running node's lane only, keeps their controlled fields and the lane free of cycles.
\<close>

lemma wp_ret_fun [simp]: "wp (ret x) Q E = Q x"
  by (rule ext) simp

section \<open>Snapshots\<close>

lemma map_of_snapshot: "map_of (snapshot_lane tree) rel = map_option fst (map_of tree rel)"
  by (induction tree) (auto simp: snapshot_lane_def)

lemma keys_snapshot: "keys (snapshot_lane tree) = keys tree"
  by (induction tree) (auto simp: snapshot_lane_def)

section \<open>Parsed previews\<close>

text \<open>A preview that does not set the preset has none.\<close>

definition declared :: "virtual_preview \<Rightarrow> bool" where
  "declared v \<longleftrightarrow> sets_preset v \<or> vp_model_preset_id v = None"

definition declared_preview :: "preview \<Rightarrow> bool" where
  "declared_preview p = (case p of ExecutedP x \<Rightarrow> True | VirtualP v \<Rightarrow> declared v)"

lemma declared_check: "check_virtual p = Inr q \<Longrightarrow> declared p \<Longrightarrow> declared q"
  by (auto simp: check_virtual_def default_target_def declared_def sets_preset_def split: option.splits if_splits)

lemma defaulted_absent: "map_of obj f = None \<Longrightarrow> defaulted obj l f v d = Inr v"
  by (simp add: defaulted_def)

lemma decode_step:
  "(if c then Inl es else (case check_virtual p of Inl e \<Rightarrow> Inl (f e) | Inr q \<Rightarrow> Inr q)) = Inr r \<Longrightarrow>
     check_virtual p = Inr r"
  by (auto split: if_splits sum.splits)

lemma map_of_Some_key: "map_of d k = Some v \<Longrightarrow> k \<in> set (keys d)"
  by (drule map_of_SomeD) (simp add: rev_image_eqI)

lemma declared_fields:
  assumes "vp_model_preset_id p = value_or None (defaulted obj [] ''model_preset_id'' None d)"
    and "vp_fields_set p = filter (\<lambda>f. f \<in> set (keys obj)) virtual_fields"
  shows "declared p"
proof (cases "map_of obj ''model_preset_id''")
  case None
  then show ?thesis using assms(1) by (simp add: declared_def defaulted_absent)
next
  case (Some j)
  then have "''model_preset_id'' \<in> set (keys obj)" by (rule map_of_Some_key)
  then show ?thesis unfolding declared_def sets_preset_def assms(2) by (simp add: virtual_fields_def)
qed

lemma decode_virtual_declared: "decode_virtual obj = Inr q \<Longrightarrow> declared q"
  unfolding decode_virtual_def Let_def
  by (rule declared_check, rule decode_step, assumption, rule declared_fields,
    rule virtual_preview.select_convs(6), rule virtual_preview.select_convs(16))

lemma parse_declared: "parse_preview doc = Inr p \<Longrightarrow> declared_preview p"
  using decode_virtual_declared
  by (auto simp: parse_preview_def declared_preview_def split: option.splits json.splits if_splits sum.splits)

definition parsed_ok :: "parsed \<Rightarrow> bool" where
  "parsed_ok ps \<longleftrightarrow> distinct (keys ps) \<and> (\<forall>(ident, p, rel) \<in> set ps. declared_preview p)"

lemma set_AList_update: "x \<in> set (AList.update k v ps) \<Longrightarrow> x = (k, v) \<or> x \<in> set ps"
  by (induction ps) (auto split: if_splits)

lemma parse_changed_ok:
  "parse_changed tree paths rs ps = Inr (rs', ps') \<Longrightarrow> parsed_ok ps \<Longrightarrow> parsed_ok ps'"
proof (induction tree paths rs ps rule: parse_changed.induct)
  case (2 tree rel ident paths rs ps)
  have "declared_preview p" if "read_preview rel (text_at tree rel) = Inr (Inr p)" for p
    using that by (auto simp: read_preview_def parse_declared split: lane_text.splits sum.splits)
  then have "parsed_ok (AList.update ident (p, rel) ps)" if "read_preview rel (text_at tree rel) = Inr (Inr p)" for p
    using that 2(4) by (auto simp: parsed_ok_def distinct_update dest!: set_AList_update)
  with 2 show ?case by (auto split: sum.splits)
qed simp

section \<open>Sorting the previews\<close>

definition entry_ok :: "world \<Rightarrow> pystr \<Rightarrow> node \<Rightarrow> entry \<Rightarrow> bool" where
  "entry_ok w pid n e = (case e of
     Skipped \<Rightarrow> True
   | NewVirtual slug v \<Rightarrow> declared v
   | Rewrite x v rel \<Rightarrow> declared v \<and> tab w pid (n_id x) = Some x \<and> n_state x = Virtual \<and> lane_of x = lane_of n)"

definition rewrite_ids :: "entry list \<Rightarrow> pystr list" where
  "rewrite_ids es = map (\<lambda>(e, v, rel). n_id e) (rewrite_entries es)"

lemma wp_sort_entry:
  assumes t: "steady w t" and p: "declared_preview p"
    and no: "\<And>u r. steady w u \<Longrightarrow> Q (Inl r) u"
    and yes: "\<And>u e. steady w u \<Longrightarrow> entry_ok w pid n e \<Longrightarrow> set (rewrite_ids [e]) \<subseteq> {ident} \<Longrightarrow> Q (Inr e) u"
  shows "wp (sort_entry pid n pre ident p rel) Q E t"
proof (cases "ident = n_id n")
  case True
  then show ?thesis using yes [OF t, of Skipped] by (simp add: sort_entry_def entry_ok_def rewrite_ids_def)
next
  case False
  have skip: "steady w u \<Longrightarrow> Q (Inr Skipped) u" for u using yes [of u Skipped] by (simp add: entry_ok_def rewrite_ids_def)
  have ids: "tab w pid ident = Some e \<Longrightarrow> n_id e = ident" for e
    using nodes.tab_ids [OF steadyD(1) [OF t], of pid ident e] by (simp add: steadyD(2) [OF t])
  have found: "Q (classify n (tab w pid ident) ident p rel) u" if u: "steady w u" for u
  proof (cases p)
    case (ExecutedP x)
    then show ?thesis using no [OF u] by (simp add: classify_def split: option.split)
  next
    case (VirtualP v)
    then show ?thesis
      using no [OF u] yes [OF u, of "NewVirtual ident v"] ids p
        yes [OF u, of "Rewrite e v rel" for e]
      by (auto simp: classify_def entry_ok_def rewrite_ids_def declared_preview_def split: option.split)
  qed
  have "wp (load pid ident) (\<lambda>existing. Q
        (if existing = None \<and> rel \<in> set (keys pre) then Inr Skipped
          else case preset_rights n p rel of Some r \<Rightarrow> Inl r | None \<Rightarrow> classify n existing ident p rel)) E t"
    by (rule wp_load_steady [OF t]) (use skip no found in \<open>auto split: option.split\<close>)
  with False show ?thesis unfolding sort_entry_def wp_if wp_simps by simp
qed

lemma rewrite_ids_Cons: "rewrite_ids (e # es) = rewrite_ids [e] @ rewrite_ids es"
  by (cases e) (simp_all add: rewrite_ids_def)

lemma wp_sort_entries:
  assumes "steady w t" and "parsed_ok ps" and no: "\<And>u r. steady w u \<Longrightarrow> Q (Inl r) u"
    and yes: "\<And>u es. steady w u \<Longrightarrow> list_all (entry_ok w pid n) es \<Longrightarrow> distinct (rewrite_ids es) \<Longrightarrow>
      set (rewrite_ids es) \<subseteq> set (keys ps) \<Longrightarrow> Q (Inr es) u"
  shows "wp (sort_entries pid n pre ps) Q E t"
  using assms
proof (induction ps arbitrary: t Q)
  case Nil
  show ?case unfolding sort_entries.simps wp_simps
    by (rule Nil.prems(4) [OF Nil.prems(1)]) (simp_all add: rewrite_ids_def)
next
  case (Cons x ps)
  obtain ident p rel where x: "x = (ident, p, rel)" by (cases x)
  have dp: "declared_preview p" and ok: "parsed_ok ps" and new: "ident \<notin> set (keys ps)"
    using Cons.prems(2) unfolding x parsed_ok_def by auto
  show ?case unfolding x sort_entries.simps
  proof (rule wp_bindI, rule wp_sort_entry [OF Cons.prems(1) dp])
    fix u e assume u: "steady w u" and e: "entry_ok w pid n e" "set (rewrite_ids [e]) \<subseteq> {ident}"
    have d: "distinct (rewrite_ids [e])" by (cases e) (simp_all add: rewrite_ids_def)
    have "wp (sort_entries pid n pre ps) (\<lambda>tl_r. Q (case tl_r of Inl reason \<Rightarrow> Inl reason | Inr es \<Rightarrow> Inr (e # es))) E u"
    proof (rule Cons.IH [OF u ok])
      fix v es assume v: "steady w v" and es: "list_all (entry_ok w pid n) es" "distinct (rewrite_ids es)"
        "set (rewrite_ids es) \<subseteq> set (keys ps)"
      have "distinct (rewrite_ids (e # es))" "set (rewrite_ids (e # es)) \<subseteq> set (keys (x # ps))"
        unfolding rewrite_ids_Cons [of e es] using d e(2) es(2,3) new x by auto
      with v e(1) es(1) show "Q (case Inr es of Inl reason \<Rightarrow> Inl reason | Inr es \<Rightarrow> Inr (e # es)) v"
        using Cons.prems(4) by simp
    qed (use Cons.prems(3) in simp)
    then show "wp (case Inr e of Inl reason \<Rightarrow> ret (Inl reason)
       | Inr e \<Rightarrow> bind (sort_entries pid n pre ps) (\<lambda>tl_r. case tl_r of
           Inl reason \<Rightarrow> ret (Inl reason) | Inr es \<Rightarrow> ret (Inr (e # es)))) Q E u"
      by (auto elim!: wp_mono split: sum.splits)
  qed (use Cons.prems(3) in simp)
qed

section \<open>Drafts and rewrites\<close>

lemma catalog_issue_strip: "catalog_issue s q = None \<Longrightarrow> catalog_issue s (map_option strip q) = None"
  by (cases q) (simp_all add: catalog_issue_def normalize_model_preset_id_def Let_def split: sum.splits if_splits)

definition preset_fine :: "world \<Rightarrow> pystr option \<Rightarrow> bool" where
  "preset_fine w q \<longleftrightarrow> catalog_issue (w_store w) q = None"

lemma known_iff: "known w n \<longleftrightarrow> preset_fine w (n_model_preset_id n)"
  by (simp add: known_def preset_known_def preset_fine_def)

lemma preset_fine_steady:
  assumes "steady w t"
  shows "preset_fine t q = preset_fine w q"
  using steadyD(5) [OF assms] known_iff [of t "undefined\<lparr>n_model_preset_id := q\<rparr>"]
    known_iff [of w "undefined\<lparr>n_model_preset_id := q\<rparr>"] by simp

lemma normalized_fine:
  "normalize_model_preset_id (st_config (w_store w)) raw = Inr p \<Longrightarrow> preset_fine w (Some p)"
proof -
  assume "normalize_model_preset_id (st_config (w_store w)) raw = Inr p"
  then have a: "p = strip (or_empty raw) \<and> p \<noteq> [] \<and> p \<in> set (map mp_id (c_model_presets (st_config (w_store w))))"
    by (rule iffD1 [OF normalize_Inr])
  note p = a [THEN conjunct1] a [THEN conjunct2, THEN conjunct1] a [THEN conjunct2, THEN conjunct2]
  have "strip p = p" unfolding p(1) by simp
  then have "normalize_model_preset_id (st_config (w_store w)) (Some p) = Inr p" using p(2,3) by (simp only: normalize_Inr or_empty_simps simp_thms)
  then show ?thesis by (simp add: preset_fine_def catalog_issue_def)
qed

lemma resolved_fine:
  assumes "resolve_planner_preset (st_config (w_store w)) v inherited = Inr q" and "preset_fine w inherited"
  shows "preset_fine w q"
proof -
  have active: "normalize_active_model_preset_id cfg raw = Inr p \<Longrightarrow> normalize_model_preset_id cfg raw = Inr p" for cfg raw p
    by (auto simp: normalize_active_model_preset_id_def split: sum.splits option.splits if_splits)
  from assms show ?thesis
    by (auto simp: resolve_planner_preset_def intro: normalized_fine active split: if_splits option.splits sum.splits)
qed

text \<open>The node a virtual preview gives.\<close>

definition preview_form :: "virtual_preview \<Rightarrow> pystr \<Rightarrow> pystr \<Rightarrow> pystr option \<Rightarrow> node \<Rightarrow> bool" where
  "preview_form v pid nid script m \<longleftrightarrow> node_wf m \<and> n_id m = nid \<and> n_project_id m = pid \<and> n_kind m = vp_kind v \<and>
     n_kind m \<noteq> Op \<and> n_state m = Virtual \<and> n_agent_op_kind m = None \<and> n_verify_script_ref m = script \<and>
     n_rev m = 0 \<and> n_scheduled_deps m = vp_scheduled_deps v"

lemma preview_formI:
  assumes "virtual_preview_to_node v pid nid now script preset art = Inr m"
  shows "preview_form v pid nid script m"
    and "preset_fine w (if preset = None then vp_model_preset_id v else preset) \<Longrightarrow> preset_fine w (n_model_preset_id m)"
proof -
  note c = assms [unfolded virtual_preview_to_node_def]
  have wf: "node_wf m" by (rule check_result_wf [OF c])
  have k: "n_kind m = vp_kind v" using check_frame(3) [OF c] by simp
  have cat: "n_category m \<noteq> None" using c k by (auto simp: check_invariants_Inr)
  have "n_kind m \<noteq> Op" using wf cat by (auto simp: node_wf_def)
  moreover have "n_agent_op_kind m = None \<and> n_verify_script_ref m = script"
    using c by (auto simp: check_invariants_Inr default_node_def)
  moreover have "n_rev m = 0" using check_frame(13) [OF c] by (simp add: default_node_def)
  ultimately show "preview_form v pid nid script m"
    using wf k check_frame(1,2,4,8) [OF c] by (simp add: preview_form_def default_node_def)
  have "n_model_preset_id m = map_option strip (if preset = None then vp_model_preset_id v else preset) \<or>
      n_model_preset_id m = (if preset = None then vp_model_preset_id v else preset)"
    using c by (auto simp: check_invariants_Inr split: option.split if_splits)
  then show "preset_fine w (if preset = None then vp_model_preset_id v else preset) \<Longrightarrow> preset_fine w (n_model_preset_id m)"
    using catalog_issue_strip by (auto simp: preset_fine_def)
qed

lemma wp_planner_preset:
  assumes t: "steady w t" and "preset_fine w inherited"
    and "\<And>e. Q (Inl e) t" and "\<And>q. preset_fine w q \<Longrightarrow> (sets_preset v \<longrightarrow> q \<noteq> None) \<Longrightarrow> Q (Inr q) t"
  shows "wp (planner_preset v inherited) Q E t"
proof -
  have "Q (resolve_planner_preset (st_config (w_store t)) v inherited) t"
  proof (cases "resolve_planner_preset (st_config (w_store t)) v inherited")
    case (Inr q)
    have "preset_fine w q" using resolved_fine [OF Inr] assms(2) preset_fine_steady [OF t] by simp
    moreover have "sets_preset v \<longrightarrow> q \<noteq> None"
      using Inr by (auto simp: resolve_planner_preset_def split: if_splits option.splits sum.splits)
    ultimately show ?thesis unfolding Inr by (rule assms(4))
  qed (simp add: assms(3))
  then show ?thesis by (simp add: planner_preset_def)
qed

lemma wp_preview_node:
  assumes "declared v" and "preset_fine w q" and "sets_preset v \<longrightarrow> q \<noteq> None"
    and "\<And>m. preview_form v pid nid script m \<Longrightarrow> preset_fine w (n_model_preset_id m) \<Longrightarrow> Q m t" and "\<And>e. E e t"
  shows "wp (preview_node v pid nid script q art) Q E t"
proof -
  have none: "preset_fine w None" by (simp add: preset_fine_def catalog_issue_def)
  have fine: "preset_fine w (if q = None then vp_model_preset_id v else q)"
    using assms(1-3) none by (auto simp: declared_def)
  show ?thesis
    using assms(4) [OF preview_formI(1) preview_formI(2) [OF _ fine]] assms(5)
    by (auto simp: preview_node_def wp_result split: sum.split)
qed

definition drafted :: "world \<Rightarrow> pystr \<Rightarrow> node \<Rightarrow> node \<Rightarrow> bool" where
  "drafted w pid n d \<longleftrightarrow> tab w pid (n_id d) = None \<and> n_project_id d = pid \<and> n_kind d = Agent \<and> n_state d = Virtual \<and>
     node_wf d \<and> preset_fine w (n_model_preset_id d) \<and> lane_of d = lane_of n \<and>
     n_proposed_by d = Some (''node:'' @ n_id n) \<and> n_agent_op_kind d = None"

lemma drafted_deps: "drafted w pid n d \<Longrightarrow> drafted w pid n (d\<lparr>n_scheduled_deps := deps\<rparr>)"
  by (auto simp: drafted_def node_wf_def agent_wf_def artifact_ok_def
      split: artifact_mode.splits option.splits category.splits)

definition drafts_ok :: "world \<Rightarrow> pystr \<Rightarrow> node \<Rightarrow> slugs \<Rightarrow> drafts \<Rightarrow> bool" where
  "drafts_ok w pid n slugs drafts \<longleftrightarrow> distinct (keys drafts) \<and>
     (\<forall>(c, d) \<in> set drafts. n_id d = c \<and> drafted w pid n d) \<and> (\<forall>(s, c) \<in> set slugs. c \<in> set (keys drafts))"

lemma drafts_ok_add:
  assumes "drafts_ok w pid n slugs drafts" and "drafted w pid n d"
  shows "drafts_ok w pid n (AList.update slug (n_id d) slugs) (AList.update (n_id d) d drafts)"
proof -
  have k: "set (keys (AList.update (n_id d) d drafts)) = insert (n_id d) (set (keys drafts))"
    unfolding update_keys by auto
  show ?thesis
    using assms unfolding drafts_ok_def k by (auto simp: distinct_update dest!: set_AList_update)
qed

lemma wp_draft_virtual:
  assumes t: "steady w t" and unused: "ids_unused env w pid" and v: "declared v" and "known w n"
    and no: "\<And>u r. steady w u \<Longrightarrow> Q (Inl r) u" and yes: "\<And>u d. steady w u \<Longrightarrow> drafted w pid n d \<Longrightarrow> Q (Inr d) u"
    and err: "\<And>e u. steady w u \<Longrightarrow> E e u"
  shows "wp (draft_virtual env pid n slug v) Q E t"
proof (cases "vp_kind v = Verifier")
  case True
  then show ?thesis using no [OF t] by (simp add: draft_virtual_def)
next
  case False
  have kn: "preset_fine w (n_model_preset_id n)" using assms(4) by (simp add: known_iff)
  have node: "wp (preview_node v pid i None q art)
      (\<lambda>d. Q (Inr (d\<lparr>n_proposed_by := Some (''node:'' @ n_id n), n_planspace_id := Some (lane_of n)\<rparr>))) E u"
    if u: "steady w u" and i: "tab w pid i = None" and q: "preset_fine w q" "sets_preset v \<longrightarrow> q \<noteq> None" for u i q art
  proof (rule wp_preview_node [OF v q])
    fix m assume "preview_form v pid i None m" "preset_fine w (n_model_preset_id m)"
    then show "Q (Inr (m\<lparr>n_proposed_by := Some (''node:'' @ n_id n), n_planspace_id := Some (lane_of n)\<rparr>)) u"
      by (intro yes [OF u]) (use False i in \<open>auto simp: drafted_def preview_form_def
        intro: node_kind.exhaust [of "vp_kind v"]\<close>)
  qed (rule err [OF u])
  show ?thesis
    unfolding draft_virtual_def if_not_P [OF False]
  proof (rule wp_bindI, rule wp_fresh_id [OF t unused], rule wp_bindI, rule wp_planner_preset [OF _ kn], assumption)
    fix u i q assume "steady w u" "tab w pid i = None" "preset_fine w q" "sets_preset v \<longrightarrow> q \<noteq> None"
    from node [OF this] show "wp (case Inr q of Inl e \<Rightarrow> ret (Inl (NewPreset slug))
        | Inr q \<Rightarrow> bind (preview_node v pid i None q (resolve_artifact v DefaultArtifact [])) (\<lambda>d.
            ret (Inr (d\<lparr>n_proposed_by := Some (''node:'' @ n_id n), n_planspace_id := Some (lane_of n)\<rparr>)))) Q E u"
      by simp
  qed (use no in simp)
qed

lemma wp_draft_virtuals:
  assumes "steady w t" and "ids_unused env w pid" and "list_all (\<lambda>(slug, v). declared v) vs" and "known w n"
    and "drafts_ok w pid n slugs drafts"
    and no: "\<And>u r. steady w u \<Longrightarrow> Q (Inl r) u"
    and yes: "\<And>u s d. steady w u \<Longrightarrow> drafts_ok w pid n s d \<Longrightarrow> (vs = [] \<Longrightarrow> d = drafts) \<Longrightarrow> Q (Inr (s, d)) u"
    and err: "\<And>e u. steady w u \<Longrightarrow> E e u"
  shows "wp (draft_virtuals env pid n vs slugs drafts) Q E t"
  using assms
proof (induction vs arbitrary: t slugs drafts)
  case Nil
  show ?case unfolding draft_virtuals.simps wp_simps using Nil.prems(1,5,7) by blast
next
  case (Cons x vs)
  obtain slug v where x: "x = (slug, v)" by (cases x)
  have v: "declared v" "list_all (\<lambda>(slug, v). declared v) vs" using Cons.prems(3) x by simp_all
  show ?case unfolding x draft_virtuals.simps
  proof (rule wp_bindI, rule wp_draft_virtual [OF Cons.prems(1,2) v(1) Cons.prems(4)])
    fix u d assume u: "steady w u" and d: "drafted w pid n d"
    have "wp (draft_virtuals env pid n vs (AList.update slug (n_id d) slugs) (AList.update (n_id d) d drafts)) Q E u"
      by (rule Cons.IH [OF u Cons.prems(2) v(2) Cons.prems(4) drafts_ok_add [OF Cons.prems(5) d]])
        (use Cons.prems(6-8) in auto)
    then show "wp (case Inr d of Inl reason \<Rightarrow> ret (Inl reason)
        | Inr d \<Rightarrow> draft_virtuals env pid n vs (AList.update slug (n_id d) slugs) (AList.update (n_id d) d drafts)) Q E u"
      by simp
  qed (use Cons.prems(6,8) in simp_all)
qed

text \<open>Dependencies that resolve: to a new virtual or to a node of the lane.\<close>

definition resolved :: "world \<Rightarrow> pystr \<Rightarrow> pystr \<Rightarrow> slugs \<Rightarrow> pystr list \<Rightarrow> bool" where
  "resolved w pid lane slugs deps \<longleftrightarrow> (\<forall>d \<in> set deps. d \<in> snd ` set slugs \<or> in_lane (tab w) pid lane d)"

lemma wp_rewrite_deps:
  assumes "steady w t"
    and "\<And>u rs ds. steady w u \<Longrightarrow> (rs = [] \<Longrightarrow> resolved w pid lane slugs ds) \<Longrightarrow> Q (rs, ds) u"
  shows "wp (rewrite_deps slugs pid lane label deps) Q E t"
  using assms
proof (induction deps arbitrary: t Q)
  case Nil
  show ?case unfolding rewrite_deps.simps wp_simps
    by (rule Nil.prems(2) [OF Nil.prems(1)]) (simp add: resolved_def)
next
  case (Cons dep deps)
  have tail: "wp (bind (rewrite_deps slugs pid lane label deps) (\<lambda>(rs', ds'). ret (rs @ rs', ds @ ds'))) Q E u"
    if u: "steady w u" and r: "rs = [] \<Longrightarrow> resolved w pid lane slugs ds" for u rs ds
  proof (rule wp_bindI, rule Cons.IH [OF u])
    fix x and rs' :: "reap_reason list" and ds' assume x: "steady w x" and r': "rs' = [] \<Longrightarrow> resolved w pid lane slugs ds'"
    have "Q (rs @ rs', ds @ ds') x"
      by (rule Cons.prems(2) [OF x]) (use r r' in \<open>auto simp: resolved_def\<close>)
    then show "wp (case (rs', ds') of (rs', ds') \<Rightarrow> ret (rs @ rs', ds @ ds')) Q E x" by simp
  qed
  show ?case unfolding rewrite_deps.simps
  proof (rule wp_bindI, cases "map_of slugs dep")
    case (Some c)
    then have "c \<in> snd ` set slugs" by (force dest: map_of_SomeD)
    then show "wp (case map_of slugs dep of Some canonical \<Rightarrow> ret ([], [canonical])
      | None \<Rightarrow> bind (load pid dep) (\<lambda>node. ret (case node of
          None \<Rightarrow> ([DepUnresolved label dep], [])
        | Some d \<Rightarrow> if lane_of d \<noteq> lane then ([DepOutsideLane label dep], []) else ([], [dep]))))
      (\<lambda>x. wp (case x of (rs, ds) \<Rightarrow> bind (rewrite_deps slugs pid lane label deps)
         (\<lambda>(rs', ds'). ret (rs @ rs', ds @ ds'))) Q E) E t"
      using tail [OF Cons.prems(1), of "[]" "[c]"] Some by (simp add: resolved_def)
  next
    case None
    show "wp (case map_of slugs dep of Some canonical \<Rightarrow> ret ([], [canonical])
      | None \<Rightarrow> bind (load pid dep) (\<lambda>node. ret (case node of
          None \<Rightarrow> ([DepUnresolved label dep], [])
        | Some d \<Rightarrow> if lane_of d \<noteq> lane then ([DepOutsideLane label dep], []) else ([], [dep]))))
      (\<lambda>x. wp (case x of (rs, ds) \<Rightarrow> bind (rewrite_deps slugs pid lane label deps)
         (\<lambda>(rs', ds'). ret (rs @ rs', ds @ ds'))) Q E) E t"
      unfolding None option.case
    proof (rule wp_bindI, rule wp_load_steady [OF Cons.prems(1)])
      fix u assume u: "steady w u"
      show "wp (ret (case tab w pid dep of
          None \<Rightarrow> ([DepUnresolved label dep], [])
        | Some d \<Rightarrow> if lane_of d \<noteq> lane then ([DepOutsideLane label dep], []) else ([], [dep])))
        (\<lambda>x. wp (case x of (rs, ds) \<Rightarrow> bind (rewrite_deps slugs pid lane label deps)
           (\<lambda>(rs', ds'). ret (rs @ rs', ds @ ds'))) Q E) E u"
        using tail [OF u, of "[DepUnresolved label dep]" "[]"] tail [OF u, of "[DepOutsideLane label dep]" "[]"]
          tail [OF u, of "[]" "[dep]"]
        by (cases "tab w pid dep") (simp_all add: resolved_def in_lane_def)
    qed
  qed
qed

definition redrafted :: "world \<Rightarrow> pystr \<Rightarrow> pystr \<Rightarrow> slugs \<Rightarrow> node list \<Rightarrow> node list \<Rightarrow> bool" where
  "redrafted w pid lane slugs ds ds' \<longleftrightarrow>
     list_all2 (\<lambda>d d'. \<exists>deps. d' = d\<lparr>n_scheduled_deps := deps\<rparr> \<and> resolved w pid lane slugs deps) ds ds'"

lemma wp_rewrite_drafts:
  assumes "steady w t"
    and "\<And>u rs ds'. steady w u \<Longrightarrow> (rs = [] \<Longrightarrow> redrafted w pid lane slugs ds ds') \<Longrightarrow> Q (rs, ds') u"
  shows "wp (rewrite_drafts slugs pid lane ds) Q E t"
  using assms
proof (induction ds arbitrary: t Q)
  case Nil
  show ?case unfolding rewrite_drafts.simps wp_simps
    by (rule Nil.prems(2) [OF Nil.prems(1)]) (simp add: redrafted_def)
next
  case (Cons d ds)
  show ?case unfolding rewrite_drafts.simps
  proof (rule wp_bindI, rule wp_rewrite_deps [OF Cons.prems(1)])
    fix u and rs :: "reap_reason list" and deps assume u: "steady w u" and r: "rs = [] \<Longrightarrow> resolved w pid lane slugs deps"
    have "wp (rewrite_drafts slugs pid lane ds) (\<lambda>(rs', ds'). Q (rs @ rs', d\<lparr>n_scheduled_deps := deps\<rparr> # ds')) E u"
    proof (rule Cons.IH [OF u])
      fix x and rs' :: "reap_reason list" and ds'
      assume x: "steady w x" and r': "rs' = [] \<Longrightarrow> redrafted w pid lane slugs ds ds'"
      have "Q (rs @ rs', d\<lparr>n_scheduled_deps := deps\<rparr> # ds') x"
        by (rule Cons.prems(2) [OF x]) (use r r' in \<open>auto simp: redrafted_def intro: exI [of _ deps]\<close>)
      then show "(case (rs', ds') of (rs', ds') \<Rightarrow> Q (rs @ rs', d\<lparr>n_scheduled_deps := deps\<rparr> # ds')) x" by simp
    qed
    then show "wp (case (rs, deps) of (rs, deps) \<Rightarrow> bind (rewrite_drafts slugs pid lane ds) (\<lambda>(rs', ds).
        ret (rs @ rs', d\<lparr>n_scheduled_deps := deps\<rparr> # ds))) Q E u"
      by (auto elim!: wp_mono)
  qed
qed

definition rewritten :: "world \<Rightarrow> pystr \<Rightarrow> node \<Rightarrow> node \<Rightarrow> bool" where
  "rewritten w pid e u \<longleftrightarrow> n_id u = n_id e \<and> n_project_id u = pid \<and> (n_kind e \<noteq> Op \<longrightarrow> n_kind u = n_kind e) \<and>
     n_state u = Virtual \<and> node_wf u \<and> preset_fine w (n_model_preset_id u) \<and> n_planspace_id u = n_planspace_id e \<and>
     n_created_at u = n_created_at e \<and> n_proposed_by u = n_proposed_by e \<and>
     n_resume_from_node_id u = n_resume_from_node_id e \<and> n_verify_script_ref u = n_verify_script_ref e"

lemma node_wf_controlled:
  assumes "node_wf m" "n_agent_op_kind m = None" "node_wf e" "n_kind e \<noteq> Op \<longrightarrow> n_kind m = n_kind e" "n_kind m \<noteq> Op"
  shows "node_wf ((keep_controlled e m)\<lparr>n_scheduled_deps := deps\<rparr>)"
proof (cases "n_kind m")
  case Agent
  with assms show ?thesis
    by (auto simp: node_wf_def agent_wf_def artifact_ok_def keep_controlled_def split: option.splits category.splits
        artifact_mode.splits)
next
  case Verifier
  then have "plain_fields e" using assms(3,4) by (cases "n_kind e") (simp_all add: node_wf_def)
  with Verifier assms(1) show ?thesis
    by (auto simp: node_wf_def plain_fields_def artifact_ok_def keep_controlled_def split: artifact_mode.splits)
qed (use assms in simp)

lemma script_kind:
  assumes "node_wf m" "node_wf e" "n_verify_script_ref m = n_verify_script_ref e" "n_kind m \<noteq> Op"
  shows "n_kind e \<noteq> Op \<longrightarrow> n_kind m = n_kind e"
  using assms by (cases "n_kind m"; cases "n_kind e") (auto simp: node_wf_def agent_wf_def)

lemma rewrittenI:
  assumes form: "preview_form v pid (n_id e) (n_verify_script_ref e) m" and "preset_fine w (n_model_preset_id m)"
    and e: "node_wf e"
  shows "rewritten w pid e ((keep_controlled e m)\<lparr>n_scheduled_deps := deps\<rparr>)"
proof -
  have f: "node_wf m" "n_agent_op_kind m = None" "n_kind m \<noteq> Op" "n_verify_script_ref m = n_verify_script_ref e"
    using form by (auto simp: preview_form_def)
  have k: "n_kind e \<noteq> Op \<longrightarrow> n_kind m = n_kind e" by (rule script_kind [OF f(1) e f(4) f(3)])
  from node_wf_controlled [OF f(1,2) e k f(3)] form assms(2) k show ?thesis
    by (simp add: rewritten_def preview_form_def keep_controlled_def)
qed

lemma keeps_resume_agrees: "keeps (steady w) (resume_agrees pid e u)"
  unfolding resume_agrees_def expected_preset_def by (intro keeps_intros)

lemma wp_rewrite_virtual:
  assumes t: "steady w t" and e: "tab w pid (n_id e) = Some e" and v: "declared v"
    and no: "\<And>u r. steady w u \<Longrightarrow> Q (Inl r) u"
    and yes: "\<And>u m rs. steady w u \<Longrightarrow> rewritten w pid e m \<Longrightarrow>
      (rs = [] \<Longrightarrow> resolved w pid lane slugs (n_scheduled_deps m)) \<Longrightarrow> Q (Inr (rs, m)) u"
    and err: "\<And>e u. steady w u \<Longrightarrow> E e u"
  shows "wp (rewrite_virtual pid slugs lane (e, v, rel)) Q E t"
proof -
  have tb: "node_wf e" "preset_fine w (n_model_preset_id e)"
    using nodes.tab_ids [OF steadyD(1) [OF t], of pid "n_id e" e] e steadyD(2,5) [OF t] known_iff [of w e] by simp_all
  have last: "wp (rewrite_deps slugs pid lane (n_id e) (n_scheduled_deps (keep_controlled e m)))
      (\<lambda>(rs, deps). Q (Inr (rs, (keep_controlled e m)\<lparr>n_scheduled_deps := deps\<rparr>))) E u"
    if u: "steady w u" and m: "preview_form v pid (n_id e) (n_verify_script_ref e) m" "preset_fine w (n_model_preset_id m)" for u m
  proof (rule wp_rewrite_deps [OF u])
    fix x and rs :: "reap_reason list" and deps assume x: "steady w x" and r: "rs = [] \<Longrightarrow> resolved w pid lane slugs deps"
    have "Q (Inr (rs, (keep_controlled e m)\<lparr>n_scheduled_deps := deps\<rparr>)) x"
      by (rule yes [OF x rewrittenI [OF m tb(1)]]) (use r in simp)
    then show "(case (rs, deps) of (rs, deps) \<Rightarrow> Q (Inr (rs, (keep_controlled e m)\<lparr>n_scheduled_deps := deps\<rparr>))) x" by simp
  qed
  have resume: "wp (bind (resume_agrees pid e m) (\<lambda>agrees.
         if \<not> agrees then ret (Inl (ResumePreset rel))
         else let u = keep_controlled e m in
           bind (rewrite_deps slugs pid lane (n_id e) (n_scheduled_deps u)) (\<lambda>(rs, deps).
             ret (Inr (rs, u\<lparr>n_scheduled_deps := deps\<rparr>))))) Q E u"
    if u: "steady w u" and m: "preview_form v pid (n_id e) (n_verify_script_ref e) m" "preset_fine w (n_model_preset_id m)" for u m
  proof (rule wp_bind_keeps [OF keeps_resume_agrees u _ err])
    fix agrees x assume x: "steady w x"
    show "wp (if \<not> agrees then ret (Inl (ResumePreset rel))
         else let u = keep_controlled e m in
           bind (rewrite_deps slugs pid lane (n_id e) (n_scheduled_deps u)) (\<lambda>(rs, deps).
             ret (Inr (rs, u\<lparr>n_scheduled_deps := deps\<rparr>)))) Q E x"
      using no [OF x] last [OF x m] by (auto simp: Let_def elim!: wp_mono)
  qed
  show ?thesis unfolding rewrite_virtual_def prod.case
  proof (rule wp_bindI, rule wp_planner_preset [OF t tb(2)])
    fix q assume q: "preset_fine w q" "sets_preset v \<longrightarrow> q \<noteq> None"
    have "wp (preview_node v pid (n_id e) (n_verify_script_ref e) q (resolve_artifact v (n_artifact_mode e) (n_artifact_spec e)))
        (\<lambda>updated. wp (bind (resume_agrees pid e updated) (\<lambda>agrees.
         if \<not> agrees then ret (Inl (ResumePreset rel))
         else let u = keep_controlled e updated in
           bind (rewrite_deps slugs pid lane (n_id e) (n_scheduled_deps u)) (\<lambda>(rs, deps).
             ret (Inr (rs, u\<lparr>n_scheduled_deps := deps\<rparr>))))) Q E) E t"
      by (rule wp_preview_node [OF v q]) (use resume [OF t] err [OF t] in auto)
    then show "wp (case Inr q of Inl issue \<Rightarrow> ret (Inl (RewritePreset rel))
     | Inr q \<Rightarrow>
         bind (preview_node v pid (n_id e) (n_verify_script_ref e) q
           (resolve_artifact v (n_artifact_mode e) (n_artifact_spec e))) (\<lambda>updated.
         bind (resume_agrees pid e updated) (\<lambda>agrees.
         if \<not> agrees then ret (Inl (ResumePreset rel))
         else let u = keep_controlled e updated in
           bind (rewrite_deps slugs pid lane (n_id e) (n_scheduled_deps u)) (\<lambda>(rs, deps).
             ret (Inr (rs, u\<lparr>n_scheduled_deps := deps\<rparr>)))))) Q E t"
      by (simp only: sum.case wp_simps(6) [of "preview_node v _ _ _ _ _"])
  qed (use no [OF t] in simp)
qed

definition rewritten_all :: "world \<Rightarrow> pystr \<Rightarrow> (node \<times> virtual_preview \<times> pystr) list \<Rightarrow> node list \<Rightarrow> bool" where
  "rewritten_all w pid xs us \<longleftrightarrow> list_all2 (\<lambda>(e, v, rel) u. tab w pid (n_id e) = Some e \<and> rewritten w pid e u) xs us"

lemma wp_rewrite_virtuals:
  assumes "steady w t" and "list_all (\<lambda>(e, v, rel). tab w pid (n_id e) = Some e \<and> declared v) xs"
    and no: "\<And>u r. steady w u \<Longrightarrow> Q (Inl r) u"
    and yes: "\<And>u rs us. steady w u \<Longrightarrow> rewritten_all w pid xs us \<Longrightarrow>
      (rs = [] \<Longrightarrow> list_all (\<lambda>m. resolved w pid lane slugs (n_scheduled_deps m)) us) \<Longrightarrow> Q (Inr (rs, us)) u"
    and err: "\<And>e u. steady w u \<Longrightarrow> E e u"
  shows "wp (rewrite_virtuals pid slugs lane xs seen) Q E t"
  using assms
proof (induction xs arbitrary: t seen Q)
  case Nil
  show ?case unfolding rewrite_virtuals.simps wp_simps
    by (rule Nil.prems(4) [OF Nil.prems(1)]) (simp_all add: rewritten_all_def)
next
  case (Cons x xs)
  obtain e v rel where x: "x = (e, v, rel)" by (cases x)
  have e: "tab w pid (n_id e) = Some e" "declared v" and xs: "list_all (\<lambda>(e, v, rel). tab w pid (n_id e) = Some e \<and> declared v) xs"
    using Cons.prems(2) by (simp_all add: x)
  show ?case unfolding rewrite_virtuals.simps x
  proof (rule wp_bindI, rule wp_rewrite_virtual [OF Cons.prems(1) e])
    fix u m and rs :: "reap_reason list" assume u: "steady w u" and m: "rewritten w pid e m"
      and r: "rs = [] \<Longrightarrow> resolved w pid lane slugs (n_scheduled_deps m)"
    have "wp (rewrite_virtuals pid slugs lane xs (seen @ rs))
        (\<lambda>t. Q (case t of Inl rs' \<Rightarrow> Inl rs' | Inr (rs', us) \<Rightarrow> Inr (rs @ rs', m # us))) E u"
    proof (rule Cons.IH [OF u xs])
      fix y and rs' :: "reap_reason list" and us
      assume y: "steady w y" and us: "rewritten_all w pid xs us"
        and r': "rs' = [] \<Longrightarrow> list_all (\<lambda>m. resolved w pid lane slugs (n_scheduled_deps m)) us"
      have "Q (Inr (rs @ rs', m # us)) y"
        by (rule Cons.prems(4) [OF y]) (use us m e r r' in \<open>simp_all add: rewritten_all_def x\<close>)
      then show "Q (case Inr (rs', us) of Inl rs' \<Rightarrow> Inl rs' | Inr (rs', us) \<Rightarrow> Inr (rs @ rs', m # us)) y" by simp
    qed (use Cons.prems(3,5) in simp_all)
    then show "wp (case Inr (rs, m) of Inl reason \<Rightarrow> ret (Inl (seen @ [reason]))
     | Inr (rs, u) \<Rightarrow> bind (rewrite_virtuals pid slugs lane xs (seen @ rs)) (\<lambda>tl_r. case tl_r of
         Inl all \<Rightarrow> ret (Inl all) | Inr (rs', us) \<Rightarrow> ret (Inr (rs @ rs', u # us)))) Q E u"
      by (auto elim!: wp_mono split: sum.splits prod.splits)
  qed (use Cons.prems(3,5) in simp_all)
qed

section \<open>Writing several records\<close>

definition puts :: "node list \<Rightarrow> table \<Rightarrow> table" where
  "puts ms tb = fold tab_put ms tb"

lemma puts_simps [simp]: "puts [] tb = tb" "puts (m # ms) tb = puts ms (tab_put m tb)"
  "puts (ms @ ms') tb = puts ms' (puts ms tb)"
  by (simp_all add: puts_def)

lemma puts_other: "\<forall>m \<in> set ms. n_project_id m = p \<longrightarrow> n_id m \<noteq> i \<Longrightarrow> puts ms tb p i = tb p i"
  by (induction ms arbitrary: tb) auto

lemma distinct_ids_Cons: "distinct (map n_id (d # ds)) \<Longrightarrow> \<forall>y \<in> set ds. n_id y \<noteq> n_id d"
  by (auto simp: image_iff)

lemma puts_hit:
  "distinct (map n_id ms) \<Longrightarrow> m \<in> set ms \<Longrightarrow> \<forall>m \<in> set ms. n_project_id m = p \<Longrightarrow> puts ms tb p (n_id m) = Some m"
proof (induction ms arbitrary: tb)
  case (Cons x ms)
  show ?case
  proof (cases "m = x")
    case True
    have "\<forall>y \<in> set ms. n_project_id y = p \<longrightarrow> n_id y \<noteq> n_id x" using distinct_ids_Cons [OF Cons.prems(1)] by blast
    then have "puts ms (tab_put x tb) p (n_id x) = tab_put x tb p (n_id x)" by (rule puts_other)
    then show ?thesis using True Cons.prems(3) by simp
  next
    case False
    then show ?thesis using Cons.IH [of "tab_put x tb"] Cons.prems by (simp del: tab_simps)
  qed
qed simp

definition put_all :: "world \<Rightarrow> node list \<Rightarrow> world \<Rightarrow> bool" where
  "put_all w ms t \<longleftrightarrow> host_same w t \<and> tab t = puts ms (tab w)"

definition stamped :: "world \<Rightarrow> node \<Rightarrow> node" where
  "stamped w d = d\<lparr>n_origin_machine_id := (if n_origin_machine_id d = [] then machine w else n_origin_machine_id d),
     n_owner_host_id := machine w\<rparr>"

definition saved :: "world \<Rightarrow> node \<Rightarrow> node" where
  "saved w u = (case tab w (n_project_id u) (n_id u) of None \<Rightarrow> u
     | Some e \<Rightarrow> u\<lparr>n_rev := max (n_rev u) (n_rev e) + 1\<rparr>)"

definition homed :: "world \<Rightarrow> node \<Rightarrow> node" where
  "homed w m = m\<lparr>n_owner_host_id := machine w\<rparr>"

lemma stamped_fields [simp]:
  "n_id (stamped w d) = n_id d" "n_project_id (stamped w d) = n_project_id d" "n_kind (stamped w d) = n_kind d"
  "n_state (stamped w d) = n_state d" "node_wf (stamped w d) = node_wf d" "n_planspace_id (stamped w d) = n_planspace_id d"
  "n_scheduled_deps (stamped w d) = n_scheduled_deps d" "n_owner_host_id (stamped w d) = machine w"
  "n_proposed_by (stamped w d) = n_proposed_by d"
  by (simp_all add: stamped_def)

lemma saved_fields [simp]:
  "n_id (saved w u) = n_id u" "n_project_id (saved w u) = n_project_id u" "n_kind (saved w u) = n_kind u"
  "n_state (saved w u) = n_state u" "node_wf (saved w u) = node_wf u" "n_planspace_id (saved w u) = n_planspace_id u"
  "n_scheduled_deps (saved w u) = n_scheduled_deps u" "n_proposed_by (saved w u) = n_proposed_by u"
  "n_created_at (saved w u) = n_created_at u" "n_resume_from_node_id (saved w u) = n_resume_from_node_id u"
  "n_verify_script_ref (saved w u) = n_verify_script_ref u"
  by (simp_all add: saved_def split: option.split)

lemma homed_fields [simp]:
  "n_id (homed w u) = n_id u" "n_project_id (homed w u) = n_project_id u"
  "n_planspace_id (homed w u) = n_planspace_id u" "n_scheduled_deps (homed w u) = n_scheduled_deps u"
  "n_owner_host_id (homed w u) = machine w"
  by (simp_all add: homed_def)

text \<open>The owner in the caller's object is not written; the stored record has the partition it is in.\<close>

lemma dumped_owner [simp]: "dumped (n\<lparr>n_owner_host_id := h\<rparr>) = dumped n"
  by (simp add: dumped_def)

lemma save_owner:
  assumes "save (n\<lparr>n_owner_host_id := h\<rparr>) s = (t, Inr m)"
  shows "save n s = (t, Inr (m\<lparr>n_owner_host_id := n_owner_host_id n\<rparr>))"
proof -
  have w: "write_node_json p (k\<lparr>n_owner_host_id := h\<rparr>) st = write_node_json p k st" for p k st
    by (simp add: write_node_json_def)
  have u: "n\<lparr>n_owner_host_id := h, n_rev := r\<rparr> = (n\<lparr>n_rev := r\<rparr>)\<lparr>n_owner_host_id := h\<rparr>" for r by simp
  show ?thesis
    using assms unfolding save_def on_store_apply update_node_def bind_apply andthen_def
    by (auto simp: bind_apply u w split: prod.splits sum.splits)
qed

lemma wp_save_any_owner:
  assumes t: "world_ok t" "may_write t" and n: "node_wf n" "known t n"
    and e: "tab t (n_project_id n) (n_id n) = Some e" "n_owner_host_id e = machine t"
    and q: "\<And>u. world_ok u \<Longrightarrow> frame u = frame t \<Longrightarrow>
      tab u = tab_put (n\<lparr>n_rev := max (n_rev n) (n_rev e) + 1, n_owner_host_id := machine t\<rparr>) (tab t) \<Longrightarrow>
      Q (n\<lparr>n_rev := max (n_rev n) (n_rev e) + 1\<rparr>) u"
  shows "wp (save n) Q E t"
proof -
  let ?n = "n\<lparr>n_owner_host_id := machine t\<rparr>"
  have "known t ?n" using n(2) by (simp add: known_iff)
  then obtain u m where u: "save ?n t = (u, Inr m)" "world_ok u" "frame u = frame t" "tab u = tab_put m (tab t)"
    "m = ?n\<lparr>n_rev := max (n_rev ?n) (n_rev e) + 1\<rparr>"
    using nodes.update_law [of t ?n e] t n e by auto
  have sv: "save n t = (u, Inr (n\<lparr>n_rev := max (n_rev n) (n_rev e) + 1\<rparr>))"
    using save_owner [OF u(1)] u(5) by simp
  have sw: "?n\<lparr>n_rev := max (n_rev ?n) (n_rev e) + 1\<rparr> =
      n\<lparr>n_rev := max (n_rev n) (n_rev e) + 1, n_owner_host_id := machine t\<rparr>" by (cases n) simp
  have "Q (n\<lparr>n_rev := max (n_rev n) (n_rev e) + 1\<rparr>) u" by (rule q [OF u(2,3)]) (simp only: u(4,5) sw)
  with sv show ?thesis by (simp only: wp_def prod.case sum.case)
qed

lemma put_allD:
  "put_all w ms t \<Longrightarrow> world_ok t" "put_all w ms t \<Longrightarrow> machine t = machine w" "put_all w ms t \<Longrightarrow> may_write t = may_write w"
  "put_all w ms t \<Longrightarrow> known t = known w" "put_all w ms t \<Longrightarrow> tab t = puts ms (tab w)"
  by (simp_all add: put_all_def host_same_def)

lemma put_all_add:
  "put_all w ms t \<Longrightarrow> world_ok u \<Longrightarrow> frame u = frame t \<Longrightarrow> tab u = tab_put m (tab t) \<Longrightarrow> put_all w (ms @ [m]) u"
  using frame_host_same [of u t] host_same_trans [of w t u] by (simp add: put_all_def)

lemma wp_insert_all:
  assumes "put_all w ms t" and "may_write w"
    and "\<forall>d \<in> set ds. node_wf d \<and> known w d \<and> puts ms (tab w) (n_project_id d) (n_id d) = None"
    and "distinct (map n_id ds)"
    and "\<And>u. put_all w (ms @ map (stamped w) ds) u \<Longrightarrow> Q (map (stamped w) ds) u"
  shows "wp (each_node insert_node ds) Q E t"
  using assms
proof (induction ds arbitrary: t ms Q)
  case Nil
  show ?case unfolding each_node.simps wp_simps using Nil.prems(5) [of t] Nil.prems(1) by simp
next
  case (Cons d ds)
  have d: "node_wf d" "known t d" "tab t (n_project_id d) (n_id d) = None" "may_write t"
    using Cons.prems(2,3) put_allD(3-5) [OF Cons.prems(1)] by simp_all
  obtain u m where u: "insert_node d t = (u, Inr m)" "world_ok u" "frame u = frame t" "tab u = tab_put m (tab t)" "m = stamped w d"
    using nodes.create_law [OF put_allD(1) [OF Cons.prems(1)] d(4,1,2,3)] put_allD(2) [OF Cons.prems(1)]
    by (auto simp: stamped_def)
  have u2: "put_all w (ms @ [stamped w d]) u" using put_all_add [OF Cons.prems(1) u(2-4)] u(5) by simp
  have ne: "\<forall>y \<in> set ds. n_id y \<noteq> n_id d" by (rule distinct_ids_Cons [OF Cons.prems(4)])
  have "wp (each_node insert_node ds) (\<lambda>ns. Q (stamped w d # ns)) E u"
    by (rule Cons.IH [OF u2 Cons.prems(2)]) (use Cons.prems(3-5) ne in auto)
  then have "wp (bind (each_node insert_node ds) (\<lambda>ms. ret (m # ms))) Q E u" using u(5) by simp
  then show ?case unfolding each_node.simps by (simp only: wp_def bind_apply u(1) prod.case sum.case)
qed

lemma wp_save_all:
  assumes "put_all w ms t" and "may_write w"
    and "\<forall>m \<in> set us. node_wf m \<and> known w m \<and> (\<exists>e. tab w (n_project_id m) (n_id m) = Some e \<and> n_owner_host_id e = machine w \<and>
      puts ms (tab w) (n_project_id m) (n_id m) = Some e)"
    and "distinct (map n_id us)"
    and "\<And>u. put_all w (ms @ map (homed w \<circ> saved w) us) u \<Longrightarrow> Q (map (saved w) us) u"
  shows "wp (each_node save us) Q E t"
  using assms
proof (induction us arbitrary: t ms Q)
  case Nil
  show ?case unfolding each_node.simps wp_simps using Nil.prems(5) [of t] Nil.prems(1) by simp
next
  case (Cons m us)
  obtain e where e: "tab w (n_project_id m) (n_id m) = Some e" "n_owner_host_id e = machine w"
    "puts ms (tab w) (n_project_id m) (n_id m) = Some e" "node_wf m" "known w m" using Cons.prems(3) by auto
  note T = put_allD [OF Cons.prems(1)]
  have rev: "saved w m = m\<lparr>n_rev := max (n_rev m) (n_rev e) + 1\<rparr>" using e(1) by (simp add: saved_def)
  show ?case unfolding each_node.simps
  proof (rule wp_bindI, rule wp_save_any_owner [OF T(1) _ e(4), of e])
    fix u assume u: "world_ok u" "frame u = frame t"
      "tab u = tab_put (m\<lparr>n_rev := max (n_rev m) (n_rev e) + 1, n_owner_host_id := machine t\<rparr>) (tab t)"
    have u2: "put_all w (ms @ [homed w (saved w m)]) u"
      by (rule put_all_add [OF Cons.prems(1) u(1,2)]) (use u(3) T(2) rev in \<open>simp add: homed_def\<close>)
    have ne: "\<forall>y \<in> set us. n_id y \<noteq> n_id m" by (rule distinct_ids_Cons [OF Cons.prems(4)])
    have "wp (each_node save us) (\<lambda>ns. Q (saved w m # ns)) E u"
      by (rule Cons.IH [OF u2 Cons.prems(2)]) (use Cons.prems(3-5) ne in auto)
    then show "wp (bind (each_node save us) (\<lambda>ms. ret (m\<lparr>n_rev := max (n_rev m) (n_rev e) + 1\<rparr> # ms))) Q E u"
      using rev by simp
  qed (use e T Cons.prems(2) in simp_all)
qed

section \<open>The cycle check\<close>

lemma graph_with_entries:
  assumes "\<forall>m \<in> set ms. n_project_id (f m) = pid \<and> lane_of (f m) = lane \<and> n_id (f m) = n_id m \<and>
      n_scheduled_deps (f m) = n_scheduled_deps m"
    and "\<And>x ds. map_of g x = Some ds \<longleftrightarrow> (\<exists>k. tb pid x = Some k \<and> lane_of k = lane \<and> n_scheduled_deps k = ds)"
  shows "map_of (graph_with ms g) x = Some ds \<longleftrightarrow>
    (\<exists>k. puts (map f ms) tb pid x = Some k \<and> lane_of k = lane \<and> n_scheduled_deps k = ds)"
  using assms
proof (induction ms arbitrary: g tb)
  case Nil
  then show ?case by (simp add: graph_with_def)
next
  case (Cons m ms)
  have "map_of (graph_with ms (AList.update (n_id m) (n_scheduled_deps m) g)) x = Some ds \<longleftrightarrow>
      (\<exists>k. puts (map f ms) (tab_put (f m) tb) pid x = Some k \<and> lane_of k = lane \<and> n_scheduled_deps k = ds)"
    by (rule Cons.IH) (use Cons.prems in auto)
  then show ?case by (simp add: graph_with_def)
qed

lemma graph_with_rel:
  assumes "\<And>x ds. map_of g x = Some ds \<longleftrightarrow> (\<exists>k. tb pid x = Some k \<and> lane_of k = lane \<and> n_scheduled_deps k = ds)"
  shows "dep_rel g = lane_rel tb pid lane"
proof -
  have "d \<in> set (deps_of g x) \<longleftrightarrow> (\<exists>ds. map_of g x = Some ds \<and> d \<in> set ds)" for x d
    by (cases "map_of g x") (simp_all add: deps_of_def)
  then show ?thesis unfolding dep_rel_def lane_rel_def assms by blast
qed

lemma wp_lane_cycle:
  assumes t: "steady w t"
    and ms: "\<forall>m \<in> set ms. n_project_id (f m) = pid \<and> lane_of (f m) = lane \<and> n_id (f m) = n_id m \<and>
      n_scheduled_deps (f m) = n_scheduled_deps m"
    and "\<And>u. steady w u \<Longrightarrow> Q True u"
    and "\<And>u. steady w u \<Longrightarrow> acyclic (lane_rel (puts (map f ms) (tab w)) pid lane) \<Longrightarrow> Q False u"
  shows "wp (lane_cycle pid lane ms) Q E t"
  unfolding lane_cycle_def
proof (rule wp_bindI, rule wp_listing_steady [OF t], unfold wp_simps(1))
  fix ns u assume u: "steady w u" and ns: "distinct (map n_id ns)" "\<And>n. n \<in> set ns \<longleftrightarrow> tab w pid (n_id n) = Some n"
  have ids: "tab w pid i = Some k \<Longrightarrow> n_id k = i" for i k
    using nodes.tab_ids [OF steadyD(1) [OF t]] by (simp add: steadyD(2) [OF t])
  let ?fs = "filter (\<lambda>k. lane_of k = lane) ns"
  let ?g = "map (\<lambda>k. (n_id k, n_scheduled_deps k)) ?fs"
  have dist: "distinct (keys ?g)" using ns(1) by (simp add: comp_def distinct_map_filter)
  have g: "map_of ?g x = Some ds \<longleftrightarrow> (\<exists>k. tab w pid x = Some k \<and> lane_of k = lane \<and> n_scheduled_deps k = ds)" for x ds
    unfolding map_of_eq_Some_iff [OF dist] using ns(2) ids by (auto simp: image_iff)
  have "dep_rel (graph_with ms ?g) = lane_rel (puts (map f ms) (tab w)) pid lane"
    by (rule graph_with_rel, rule graph_with_entries [where tb = "tab w" and f = f and g = ?g, OF ms g])
  then have "\<not> has_cycle (graph_with ms ?g) \<longleftrightarrow> acyclic (lane_rel (puts (map f ms) (tab w)) pid lane)"
    by (simp add: no_cycle_acyclic)
  then show "Q (has_cycle (graph_with ms ?g)) u" using assms(3,4) [OF u] by (cases "has_cycle (graph_with ms ?g)") auto
qed

lemma lanes_acyclic_puts:
  assumes "\<forall>m \<in> set ms. lane_of m = lane" and "lanes_acyclic tb pid" and "acyclic (lane_rel (puts ms tb) pid lane)"
  shows "lanes_acyclic (puts ms tb) pid"
proof -
  have "lane_rel (puts ms tb) pid l \<subseteq> lane_rel tb pid l" if "l \<noteq> lane" for l
    using assms(1)
  proof (induction ms arbitrary: tb)
    case (Cons m ms)
    then show ?case using lane_rel_other_lane [of l m tb pid] that by (simp, blast)
  qed simp
  then show ?thesis using assms(2,3) acyclic_subset unfolding lanes_acyclic_def by metis
qed

section \<open>The whole reap\<close>

definition reap_new :: "world \<Rightarrow> pystr \<Rightarrow> node \<Rightarrow> node \<Rightarrow> bool" where
  "reap_new w pid n m \<longleftrightarrow> tab w pid (n_id m) = None \<and> n_project_id m = pid \<and> n_kind m = Agent \<and> n_state m = Virtual \<and>
     node_wf m \<and> lane_of m = lane_of n \<and> n_owner_host_id m = machine w \<and> n_proposed_by m = Some (''node:'' @ n_id n)"

definition reap_rewritten :: "world \<Rightarrow> pystr \<Rightarrow> node \<Rightarrow> node \<Rightarrow> bool" where
  "reap_rewritten w pid n m \<longleftrightarrow> (\<exists>e. tab w pid (n_id m) = Some e \<and> n_state e = Virtual \<and> lane_of e = lane_of n \<and>
     n_project_id m = pid \<and> n_state m = Virtual \<and> node_wf m \<and> (n_kind e \<noteq> Op \<longrightarrow> n_kind m = n_kind e) \<and>
     n_planspace_id m = n_planspace_id e \<and> n_created_at m = n_created_at e \<and> n_proposed_by m = n_proposed_by e \<and>
     n_resume_from_node_id m = n_resume_from_node_id e \<and> n_verify_script_ref m = n_verify_script_ref e \<and>
     n_rev e < n_rev m)"

definition reaped :: "world \<Rightarrow> pystr \<Rightarrow> node \<Rightarrow> reap_result \<Rightarrow> world \<Rightarrow> bool" where
  "reaped w pid n r t \<longleftrightarrow>
     put_all w (rr_new r @ map (homed w) (rr_modified r)) t \<and> lanes_acyclic (tab t) pid \<and>
     (rr_new r @ rr_modified r \<noteq> [] \<longrightarrow> rr_own_ok r \<and> \<not> rr_fatal r \<and> may_propose n) \<and>
     (\<forall>m \<in> set (rr_new r). reap_new w pid n m) \<and> (\<forall>m \<in> set (rr_modified r). reap_rewritten w pid n m) \<and>
     (\<forall>m \<in> set (rr_new r @ rr_modified r). list_all (in_lane (tab t) pid (lane_of n)) (n_scheduled_deps m))"

lemma reaped_nothing:
  assumes "steady w t" and "lanes_acyclic (tab w) pid" and "rr_new r = []" "rr_modified r = []"
  shows "reaped w pid n r t"
  using assms by (simp add: reaped_def put_all_def steady_def)

lemma in_lane_puts:
  assumes "\<forall>m \<in> set ms. lane_of m = lane \<and> n_project_id m = pid" and "in_lane tb pid lane d \<or> d \<in> n_id ` set ms"
  shows "in_lane (puts ms tb) pid lane d"
  using assms
proof (induction ms arbitrary: tb)
  case (Cons m ms)
  have "in_lane (tab_put m tb) pid lane d \<or> d \<in> n_id ` set ms" using Cons.prems by (auto simp: in_lane_def)
  with Cons show ?case by simp
qed simp

text \<open>What the phases before the first write have established.\<close>

definition proposal :: "world \<Rightarrow> pystr \<Rightarrow> node \<Rightarrow> node list \<Rightarrow> node list \<Rightarrow> bool" where
  "proposal w pid n ds us \<longleftrightarrow> distinct (map n_id ds) \<and> distinct (map n_id us) \<and>
     (\<forall>d \<in> set ds. drafted w pid n d) \<and>
     (\<forall>u \<in> set us. \<exists>e. tab w pid (n_id e) = Some e \<and> n_state e = Virtual \<and> lane_of e = lane_of n \<and> rewritten w pid e u) \<and>
     (\<forall>m \<in> set (ds @ us). \<forall>d \<in> set (n_scheduled_deps m). in_lane (tab w) pid (lane_of n) d \<or> d \<in> n_id ` set ds) \<and>
     (ds @ us \<noteq> [] \<longrightarrow> may_propose n)"

lemma proposal_rewrite:
  assumes "proposal w pid n ds us" and "u \<in> set us"
  obtains e where "tab w pid (n_id e) = Some e" "n_state e = Virtual" "lane_of e = lane_of n" "rewritten w pid e u"
proof -
  have "\<forall>u \<in> set us. \<exists>e. tab w pid (n_id e) = Some e \<and> n_state e = Virtual \<and> lane_of e = lane_of n \<and> rewritten w pid e u"
    using assms(1) unfolding proposal_def by (elim conjE)
  from bspec [OF this assms(2)] that show thesis by blast
qed

definition final :: "world \<Rightarrow> node list \<Rightarrow> node list \<Rightarrow> node list" where
  "final w ds us = map (stamped w) ds @ map (homed w \<circ> saved w) us"

lemma proposal_lanes:
  assumes "proposal w pid n ds us"
  shows "\<forall>m \<in> set (final w ds us). lane_of m = lane_of n \<and> n_project_id m = pid"
proof -
  have "lane_of u = lane_of n \<and> n_project_id u = pid" if u: "u \<in> set us" for u
    by (rule proposal_rewrite [OF assms u]) (simp add: rewritten_def)
  then show ?thesis using assms by (auto simp: proposal_def drafted_def final_def)
qed

lemma proposal_reaped:
  assumes p: "proposal w pid n ds us" and t: "put_all w (final w ds us) t" and ac: "lanes_acyclic (tab t) pid"
    and r: "rr_own_ok r" "\<not> rr_fatal r"
  shows "reaped w pid n (r\<lparr>rr_new := map (stamped w) ds, rr_modified := map (saved w) us\<rparr>) t"
proof -
  have new: "reap_new w pid n (stamped w d)" if "d \<in> set ds" for d
    using p that by (auto simp: proposal_def drafted_def reap_new_def)
  have old: "reap_rewritten w pid n (saved w u)" if u: "u \<in> set us" for u
  proof -
    obtain e where e: "tab w pid (n_id e) = Some e" "n_state e = Virtual" "lane_of e = lane_of n" "rewritten w pid e u"
      by (rule proposal_rewrite [OF p u])
    then have "saved w u = u\<lparr>n_rev := max (n_rev u) (n_rev e) + 1\<rparr>" by (simp add: saved_def rewritten_def)
    with e show ?thesis by (auto simp: reap_rewritten_def rewritten_def)
  qed
  have ids: "n_id ` set ds \<subseteq> n_id ` set (final w ds us)" by (auto simp: final_def image_Un image_image)
  have dep: "in_lane (tab t) pid (lane_of n) d" if "m \<in> set (ds @ us)" "d \<in> set (n_scheduled_deps m)" for m d
  proof -
    have "in_lane (tab w) pid (lane_of n) d \<or> d \<in> n_id ` set ds" using p that unfolding proposal_def by blast
    with ids have "in_lane (tab w) pid (lane_of n) d \<or> d \<in> n_id ` set (final w ds us)" by blast
    then show ?thesis unfolding put_allD(5) [OF t] by (rule in_lane_puts [OF proposal_lanes [OF p]])
  qed
  then have deps: "\<forall>m \<in> set ds. list_all (in_lane (tab t) pid (lane_of n)) (n_scheduled_deps m)"
    "\<forall>m \<in> set us. list_all (in_lane (tab t) pid (lane_of n)) (n_scheduled_deps m)"
    unfolding list_all_iff set_append by blast+
  have may: "ds @ us \<noteq> [] \<longrightarrow> may_propose n" using p by (simp add: proposal_def)
  show ?thesis
    using t ac r new old deps may by (auto simp: reaped_def final_def comp_def)
qed

lemma wp_persist:
  assumes t: "steady w t" and p: "proposal w pid n ds us"
    and native: "\<forall>i e. tab w pid i = Some e \<longrightarrow> lane_of e = lane_of n \<longrightarrow> n_owner_host_id e = machine w"
    and ac: "lanes_acyclic (puts (final w ds us) (tab w)) pid" and r: "rr_own_ok r" "\<not> rr_fatal r"
    and q: "\<And>u r. reaped w pid n r u \<Longrightarrow> Q r u" and err: "\<And>e u. steady w u \<Longrightarrow> E e u"
  shows "wp (persist r ds us) Q E t"
proof (cases "may_write w")
  case True
  have t0: "put_all w [] t" using t by (simp add: put_all_def steady_def)
  have us: "\<exists>e. tab w pid (n_id u) = Some e \<and> n_owner_host_id e = machine w \<and> node_wf u \<and> preset_fine w (n_model_preset_id u) \<and>
      n_project_id u = pid" if u: "u \<in> set us" for u
  proof -
    obtain e where e: "tab w pid (n_id e) = Some e" "lane_of e = lane_of n" "rewritten w pid e u"
      by (rule proposal_rewrite [OF p u])
    have "n_owner_host_id e = machine w" using native e(1,2) by blast
    with e(1,3) show ?thesis unfolding rewritten_def by metis
  qed
  have ds: "drafted w pid n d" if "d \<in> set ds" for d using p that by (simp add: proposal_def)
  have apart: "puts (map (stamped w) ds) (tab w) pid i = tab w pid i" if "tab w pid i \<noteq> None" for i
    by (rule puts_other) (use ds that in \<open>auto simp: drafted_def\<close>)
  show ?thesis unfolding persist_def
  proof (rule wp_bindI, rule wp_insert_all [OF t0 True])
    fix v assume v: "put_all w ([] @ map (stamped w) ds) v"
    show "wp (bind (each_node save us) (\<lambda>old. ret (r\<lparr>rr_new := map (stamped w) ds, rr_modified := old\<rparr>))) Q E v"
    proof (rule wp_bindI, rule wp_save_all [OF v True])
      fix x assume "put_all w (([] @ map (stamped w) ds) @ map (homed w \<circ> saved w) us) x"
      then have x: "put_all w (final w ds us) x" by (simp add: final_def)
      have "lanes_acyclic (tab x) pid" using ac unfolding put_allD(5) [OF x] .
      from q [OF proposal_reaped [OF p x this r]]
      show "wp (ret (r\<lparr>rr_new := map (stamped w) ds, rr_modified := map (saved w) us\<rparr>)) Q E x" by simp
    next
      show "\<forall>m \<in> set us. node_wf m \<and> known w m \<and> (\<exists>e. tab w (n_project_id m) (n_id m) = Some e \<and>
          n_owner_host_id e = machine w \<and> puts ([] @ map (stamped w) ds) (tab w) (n_project_id m) (n_id m) = Some e)"
        using us apart by (fastforce simp: known_iff)
    qed (use p in \<open>simp add: proposal_def\<close>)
  qed (use p ds in \<open>auto simp: proposal_def drafted_def known_iff\<close>)
next
  case False
  then have ro: "\<not> may_write t" using steadyD(6) [OF t] by simp
  show ?thesis
  proof (cases "ds @ us")
    case Nil
    then have "reaped w pid n (r\<lparr>rr_new := [], rr_modified := []\<rparr>) t"
      using ac by (intro reaped_nothing [OF t]) (simp_all add: final_def)
    moreover have "persist r [] [] = ret (r\<lparr>rr_new := [], rr_modified := []\<rparr>)" by (simp add: persist_def fun_eq_iff)
    ultimately show ?thesis using Nil q by (simp only: append_is_Nil_conv wp_simps)
  next
    case (Cons m ms)
    have "\<exists>e. persist r ds us t = (t, Inl e)"
    proof (cases ds)
      case Nil
      then obtain u us' where "us = u # us'" using Cons by (cases us) auto
      moreover obtain e where "save u t = (t, Inl e)" using nodes.refusal [OF ro, of u] by blast
      ultimately show ?thesis using Nil by (simp add: persist_def bind_apply)
    next
      case (Cons d ds')
      moreover obtain e where "insert_node d t = (t, Inl e)" using nodes.refusal [OF ro, of d] by blast
      ultimately show ?thesis by (simp add: persist_def bind_apply)
    qed
    then show ?thesis using err [OF t] by (auto intro: wp_raises)
  qed
qed

definition native_lane :: "world \<Rightarrow> pystr \<Rightarrow> node \<Rightarrow> bool" where
  "native_lane w pid n \<longleftrightarrow> (\<forall>i e. tab w pid i = Some e \<longrightarrow> lane_of e = lane_of n \<longrightarrow> n_owner_host_id e = machine w)"

definition rewrite_ok :: "world \<Rightarrow> pystr \<Rightarrow> node \<Rightarrow> node \<times> virtual_preview \<times> pystr \<Rightarrow> bool" where
  "rewrite_ok w pid n x = (case x of (e, v, rel) \<Rightarrow> declared v \<and> tab w pid (n_id e) = Some e \<and> n_state e = Virtual \<and> lane_of e = lane_of n)"

lemma entries_ok:
  "list_all (entry_ok w pid n) es \<Longrightarrow> list_all (\<lambda>(slug, v). declared v) (new_entries es)"
  "list_all (entry_ok w pid n) es \<Longrightarrow> list_all (rewrite_ok w pid n) (rewrite_entries es)"
proof (induction es)
  case (Cons e es)
  { case 1 with Cons show ?case by (cases e) (simp_all add: entry_ok_def) }
  { case 2 with Cons show ?case by (cases e) (simp_all add: entry_ok_def rewrite_ok_def) }
qed simp_all

lemma rewritten_all_facts:
  assumes "rewritten_all w pid xs us" and "list_all (rewrite_ok w pid n) xs"
  shows "map n_id us = map (\<lambda>(e, v, rel). n_id e) xs"
    and "\<forall>u \<in> set us. \<exists>e. tab w pid (n_id e) = Some e \<and> n_state e = Virtual \<and> lane_of e = lane_of n \<and> rewritten w pid e u"
    and "us = [] \<longleftrightarrow> xs = []"
proof -
  have a: "list_all2 (\<lambda>(e, v, rel) u. tab w pid (n_id e) = Some e \<and> rewritten w pid e u) xs us"
    using assms(1) by (simp add: rewritten_all_def)
  from a assms(2) show "map n_id us = map (\<lambda>(e, v, rel). n_id e) xs"
    by (induction rule: list_all2_induct) (auto simp: rewritten_def)
  from a assms(2) show "\<forall>u \<in> set us. \<exists>e. tab w pid (n_id e) = Some e \<and> n_state e = Virtual \<and> lane_of e = lane_of n \<and> rewritten w pid e u"
    by (induction rule: list_all2_induct) (auto simp: rewrite_ok_def)
  from a show "us = [] \<longleftrightarrow> xs = []" by (cases xs) (auto simp: list_all2_Cons1)
qed

lemma wp_commit_rewrites:
  assumes t: "steady w t" and native: "native_lane w pid n" and ac: "lanes_acyclic (tab w) pid"
    and ds: "distinct (map n_id ds)" "\<forall>d \<in> set ds. drafted w pid n d \<and> resolved w pid (lane_of n) slugs (n_scheduled_deps d)"
    and slugs: "snd ` set slugs \<subseteq> n_id ` set ds"
    and xs: "list_all (rewrite_ok w pid n) xs" "distinct (map (\<lambda>(e, v, rel). n_id e) xs)"
    and may: "ds \<noteq> [] \<or> xs \<noteq> [] \<longrightarrow> may_propose n"
    and r: "rr_own_ok r" "\<not> rr_fatal r" "rr_new r = []" "rr_modified r = []"
    and q: "\<And>u r. reaped w pid n r u \<Longrightarrow> Q r u" and err: "\<And>e u. steady w u \<Longrightarrow> E e u"
  shows "wp (commit_rewrites pid n r slugs ds xs) Q E t"
proof -
  have no: "Q (rejected rs r) u" if u: "steady w u" for rs u
    by (rule q, rule reaped_nothing [OF u ac]) (simp_all add: rejected_def r)
  have xs': "list_all (\<lambda>(e, v, rel). tab w pid (n_id e) = Some e \<and> declared v) xs"
    using xs(1) by (rule list.pred_mono_strong) (auto simp: rewrite_ok_def)
  show ?thesis unfolding commit_rewrites_def
  proof (rule wp_bindI, rule wp_rewrite_virtuals [OF t xs'])
    fix u and rs :: "reap_reason list" and us assume u: "steady w u" and us: "rewritten_all w pid xs us"
      and res: "rs = [] \<Longrightarrow> list_all (\<lambda>m. resolved w pid (lane_of n) slugs (n_scheduled_deps m)) us"
    note facts = rewritten_all_facts [OF us xs(1)]
    have commit: "wp (bind (lane_cycle pid (lane_of n) (ds @ us)) (\<lambda>cyclic.
           if cyclic then ret (rejected [CycleIntroduced] r) else persist r ds us)) Q E u" if rs: "rs = []"
    proof -
      have p: "proposal w pid n ds us"
        unfolding proposal_def
      proof (intro conjI)
        show "\<forall>m \<in> set (ds @ us). \<forall>d \<in> set (n_scheduled_deps m). in_lane (tab w) pid (lane_of n) d \<or> d \<in> n_id ` set ds"
          using ds(2) res [OF rs] slugs unfolding resolved_def list_all_iff set_append by blast
      qed (use ds facts xs(2) may in auto)
      let ?f = "\<lambda>m. if tab w pid (n_id m) = None then stamped w m else homed w (saved w m)"
      have "map ?f ds = map (stamped w) ds" using ds(2) by (simp add: drafted_def)
      moreover have "map ?f us = map (homed w \<circ> saved w) us"
        using facts(2) by (auto simp: rewritten_def)
      ultimately have fin: "map ?f (ds @ us) = final w ds us" by (simp add: final_def)
      have fm: "\<forall>m \<in> set (ds @ us). n_project_id (?f m) = pid \<and> lane_of (?f m) = lane_of n \<and> n_id (?f m) = n_id m \<and>
          n_scheduled_deps (?f m) = n_scheduled_deps m"
      proof
        fix m assume "m \<in> set (ds @ us)"
        then have "?f m \<in> set (final w ds us)" unfolding fin [symmetric] set_map by (rule imageI)
        then show "n_project_id (?f m) = pid \<and> lane_of (?f m) = lane_of n \<and> n_id (?f m) = n_id m \<and>
            n_scheduled_deps (?f m) = n_scheduled_deps m"
          using proposal_lanes [OF p] by auto
      qed
      show ?thesis
      proof (rule wp_bindI, rule wp_lane_cycle [OF u fm])
        fix v assume v: "steady w v" and acyc: "acyclic (lane_rel (puts (map ?f (ds @ us)) (tab w)) pid (lane_of n))"
        have "lanes_acyclic (puts (final w ds us) (tab w)) pid"
          by (rule lanes_acyclic_puts [OF _ ac acyc [unfolded fin]]) (use proposal_lanes [OF p] in blast)
        then have "wp (persist r ds us) Q E v"
          by (rule wp_persist [OF v p native [unfolded native_lane_def] _ r(1,2) q err])
        then show "wp (if False then ret (rejected [CycleIntroduced] r) else persist r ds us) Q E v" by simp
      qed (use no in simp)
    qed
    show "wp (case Inr (rs, us) of Inl reasons \<Rightarrow> ret (rejected reasons r)
     | Inr (reasons, updates) \<Rightarrow>
         if reasons \<noteq> [] then ret (rejected reasons r)
         else bind (lane_cycle pid (lane_of n) (ds @ updates)) (\<lambda>cyclic.
           if cyclic then ret (rejected [CycleIntroduced] r) else persist r ds updates)) Q E u"
      using commit no [OF u] by (cases "rs = []") simp_all
  qed (use no err in simp_all)
qed

lemma wp_commit_entries:
  assumes t: "steady w t" and unused: "ids_unused env w pid" and kn: "known w n"
    and native: "native_lane w pid n" and ac: "lanes_acyclic (tab w) pid"
    and es: "list_all (entry_ok w pid n) es" "distinct (rewrite_ids es)"
    and r: "rr_own_ok r" "\<not> rr_fatal r" "rr_new r = []" "rr_modified r = []"
    and q: "\<And>u r. reaped w pid n r u \<Longrightarrow> Q r u" and err: "\<And>e u. steady w u \<Longrightarrow> E e u"
  shows "wp (commit_entries env pid n r es) Q E t"
proof -
  have no: "Q (rejected rs r) u" if u: "steady w u" for rs u
    by (rule q, rule reaped_nothing [OF u ac]) (simp_all add: rejected_def r)
  have start: "drafts_ok w pid n [] []" by (simp add: drafts_ok_def)
  have body: "wp (bind (draft_virtuals env pid n (new_entries es) [] []) (\<lambda>r'. case r' of
        Inl reason \<Rightarrow> ret (rejected [reason] r)
      | Inr (slugs, drafts) \<Rightarrow>
          bind (rewrite_drafts slugs pid (lane_of n) (map snd drafts)) (\<lambda>(reasons, ds).
          if reasons \<noteq> [] then ret (rejected reasons r)
          else commit_rewrites pid n r slugs ds (rewrite_entries es)))) Q E t"
    if may: "new_entries es \<noteq> [] \<or> rewrite_entries es \<noteq> [] \<longrightarrow> may_propose n"
  proof (rule wp_bindI, rule wp_draft_virtuals [OF t unused entries_ok(1) [OF es(1)] kn start])
    fix u slugs drafts assume u: "steady w u" and d: "drafts_ok w pid n slugs drafts"
      and none: "new_entries es = [] \<Longrightarrow> drafts = []"
    have ids: "map n_id (map snd drafts) = keys drafts" using d by (auto simp: drafts_ok_def)
    have "wp (rewrite_drafts slugs pid (lane_of n) (map snd drafts)) (\<lambda>(reasons, ds).
          wp (if reasons \<noteq> [] then ret (rejected reasons r)
          else commit_rewrites pid n r slugs ds (rewrite_entries es)) Q E) E u"
    proof (rule wp_rewrite_drafts [OF u])
      fix v and rs :: "reap_reason list" and ds assume v: "steady w v"
        and redo: "rs = [] \<Longrightarrow> redrafted w pid (lane_of n) slugs (map snd drafts) ds"
      have "wp (commit_rewrites pid n r slugs ds (rewrite_entries es)) Q E v" if rs: "rs = []"
      proof (rule wp_commit_rewrites [OF v native ac])
        have a: "list_all2 (\<lambda>d d'. \<exists>deps. d' = d\<lparr>n_scheduled_deps := deps\<rparr> \<and>
            resolved w pid (lane_of n) slugs deps) (map snd drafts) ds"
          using redo [OF rs] by (simp add: redrafted_def)
        have "\<forall>d \<in> set (map snd drafts). drafted w pid n d" using d by (auto simp: drafts_ok_def)
        with a show "\<forall>d \<in> set ds. drafted w pid n d \<and> resolved w pid (lane_of n) slugs (n_scheduled_deps d)"
          by (induction rule: list_all2_induct) (auto simp: drafted_deps)
        have m: "map n_id ds = map n_id (map snd drafts)"
          using a by (induction rule: list_all2_induct) auto
        then have "n_id ` set ds = set (keys drafts)" using ids by (metis list.set_map)
        then show "snd ` set slugs \<subseteq> n_id ` set ds" using d by (auto simp: drafts_ok_def)
        have "distinct (keys drafts)" using d by (simp add: drafts_ok_def)
        then show "distinct (map n_id ds)" unfolding m ids .
        show "ds \<noteq> [] \<or> rewrite_entries es \<noteq> [] \<longrightarrow> may_propose n" using may none a by auto
      qed (use es(2) entries_ok(2) [OF es(1)] q err r in \<open>simp_all add: rewrite_ids_def\<close>)
      then show "(case (rs, ds) of (reasons, ds) \<Rightarrow> wp (if reasons \<noteq> [] then ret (rejected reasons r)
          else commit_rewrites pid n r slugs ds (rewrite_entries es)) Q E) v"
        using no [OF v] by simp
    qed
    then show "wp (case Inr (slugs, drafts) of
        Inl reason \<Rightarrow> ret (rejected [reason] r)
      | Inr (slugs, drafts) \<Rightarrow>
          bind (rewrite_drafts slugs pid (lane_of n) (map snd drafts)) (\<lambda>(reasons, ds).
          if reasons \<noteq> [] then ret (rejected reasons r)
          else commit_rewrites pid n r slugs ds (rewrite_entries es))) Q E u"
      by (auto elim!: wp_mono)
  qed (use no err in simp_all)
  show ?thesis unfolding commit_entries_def using body no [OF t] by auto
qed

lemma wp_reap_lane:
  assumes w: "world_ok w" and unused: "ids_unused env w (p_id p)" and kn: "known w n"
    and native: "native_lane w (p_id p) n" and ac: "lanes_acyclic (tab w) (p_id p)"
    and q: "\<And>u r. reaped w (p_id p) n r u \<Longrightarrow> Q r u" and err: "\<And>e u. steady w u \<Longrightarrow> E e u"
  shows "wp (reap_lane env p n tree pre) Q E w"
proof -
  let ?diff = "diff_lane pre tree"
  have no: "Q r u" if "steady w u" "rr_new r = []" "rr_modified r = []" for r u
    by (rule q, rule reaped_nothing [OF that(1) ac that(2,3)])
  have st: "steady w w" by (rule steady_refl [OF w])
  obtain ignored paths where pp: "preview_paths (created ?diff @ modified ?diff) = (ignored, paths)" by fastforce
  have "wp (reap_changed env (p_id p) n tree pre ?diff) Q E w"
    unfolding reap_changed_def pp prod.case
  proof (rule wp_bindI, rule wp_resultI)
    fix x assume "parse_changed tree paths ignored [] = Inr x"
    then obtain rs ps where x: "x = (rs, ps)" "parse_changed tree paths ignored [] = Inr (rs, ps)" by (cases x) auto
    have ps: "parsed_ok ps" by (rule parse_changed_ok [OF x(2)]) (simp add: parsed_ok_def)
    have own: "wp (let res = empty_result\<lparr>rr_own_ok := True, rr_own := Some own, rr_reasons := rs\<rparr> in
         bind (sort_entries (p_id p) n pre ps) (\<lambda>r. case r of
           Inl reason \<Rightarrow> ret (rejected [reason] res)
         | Inr entries \<Rightarrow> commit_entries env (p_id p) n res entries)) Q E w" for own
      unfolding wp_let
    proof (rule wp_bindI, rule wp_sort_entries [OF st ps])
      fix u es assume u: "steady w u" and es: "list_all (entry_ok w (p_id p) n) es" "distinct (rewrite_ids es)"
      have "wp (commit_entries env (p_id p) n (empty_result\<lparr>rr_own_ok := True, rr_own := Some own, rr_reasons := rs\<rparr>) es) Q E u"
        by (rule wp_commit_entries [OF u unused kn native ac es]) (simp_all add: empty_result_def q err)
      then show "wp (case Inr es of
           Inl reason \<Rightarrow> ret (rejected [reason] (empty_result\<lparr>rr_own_ok := True, rr_own := Some own, rr_reasons := rs\<rparr>))
         | Inr entries \<Rightarrow> commit_entries env (p_id p) n
             (empty_result\<lparr>rr_own_ok := True, rr_own := Some own, rr_reasons := rs\<rparr>) entries) Q E u" by simp
    qed (use no in \<open>simp add: rejected_def empty_result_def\<close>)
    show "wp (case x of (reasons, ps) \<Rightarrow> (case own_preview n ps of
       Inl own_issues \<Rightarrow> ret (empty_result\<lparr>rr_reasons := reasons @ own_issues\<rparr>)
     | Inr own \<Rightarrow>
         let res = empty_result\<lparr>rr_own_ok := True, rr_own := Some own, rr_reasons := reasons\<rparr> in
         bind (sort_entries (p_id p) n pre ps) (\<lambda>r. case r of
           Inl reason \<Rightarrow> ret (rejected [reason] res)
         | Inr entries \<Rightarrow> commit_entries env (p_id p) n res entries))) Q E w"
      unfolding x(1) prod.case using own no [OF st] by (cases "own_preview n ps") (simp_all add: empty_result_def)
  qed (rule err [OF st])
  then show ?thesis unfolding reap_lane_def Let_def using no [OF st] by (simp add: rejected_def empty_result_def)
qed

text \<open>
  What a rewrite does not keep: the record made from the preview has no template instance, parent,
  operation kind or extra principles and skills, whatever the stored virtual had.
\<close>

lemma rewrite_detaches:
  assumes "virtual_preview_to_node v pid nid now script preset art = Inr m"
  shows "n_template_instance_id (keep_controlled e m) = None \<and> n_parent_node_id (keep_controlled e m) = None \<and>
    n_agent_op_kind (keep_controlled e m) = None \<and> n_pending_extra_principles (keep_controlled e m) = [] \<and>
    n_pending_extra_skills (keep_controlled e m) = []"
  using assms
  by (auto simp: virtual_preview_to_node_def check_invariants_Inr keep_controlled_def agent_defaults_def default_node_def)

section \<open>Properties\<close>

text \<open>
  the diff of a lane directory against an earlier snapshot. A file is created, modified or deleted
  exactly when it is new, has another digest, or is gone; each list is sorted; and the diff is empty
  exactly when the directory has the files of the snapshot with the same digests.
\<close>

theorem diff_lane_exact:
  assumes "distinct (keys after)"
  shows "set (created (diff_lane (snapshot_lane before) after)) = dom (map_of after) - dom (map_of before) \<and>
    set (modified (diff_lane (snapshot_lane before) after)) = {rel \<in> dom (map_of after) \<inter> dom (map_of before).
      fst (the (map_of after rel)) \<noteq> fst (the (map_of before rel))} \<and>
    set (deleted (diff_lane (snapshot_lane before) after)) = dom (map_of before) - dom (map_of after) \<and>
    sorted (created (diff_lane (snapshot_lane before) after)) \<and>
    sorted (modified (diff_lane (snapshot_lane before) after)) \<and>
    sorted (deleted (diff_lane (snapshot_lane before) after)) \<and>
    (is_empty_diff (diff_lane (snapshot_lane before) after) \<longleftrightarrow>
      map_option fst \<circ> map_of before = map_option fst \<circ> map_of after)"
proof -
  let ?d = "diff_lane (snapshot_lane before) after"
  have mem: "(rel, x) \<in> set after \<longleftrightarrow> map_of after rel = Some x" for rel x
    using map_of_eq_Some_iff [OF assms] by simp
  have keys: "set (keys d) = dom (map_of d)" for d :: "(pystr, 'c) dict" by (simp add: dom_map_of_conv_image_fst)
  have c: "set (created ?d) = dom (map_of after) - dom (map_of before)"
  proof (rule set_eqI)
    fix rel show "rel \<in> set (created ?d) \<longleftrightarrow> rel \<in> dom (map_of after) - dom (map_of before)"
      by (cases "map_of after rel") (auto simp: diff_lane_def map_of_snapshot mem image_iff)
  qed
  have m: "set (modified ?d) = {rel \<in> dom (map_of after) \<inter> dom (map_of before).
      fst (the (map_of after rel)) \<noteq> fst (the (map_of before rel))}"
  proof (rule set_eqI)
    fix rel show "rel \<in> set (modified ?d) \<longleftrightarrow> rel \<in> {rel \<in> dom (map_of after) \<inter> dom (map_of before).
        fst (the (map_of after rel)) \<noteq> fst (the (map_of before rel))}"
      by (cases "map_of after rel"; cases "map_of before rel") (auto simp: diff_lane_def map_of_snapshot mem image_iff split: option.splits)
  qed
  have r: "set (deleted ?d) = dom (map_of before) - dom (map_of after)"
    unfolding diff_lane_def lane_diff.simps set_sort set_filter keys_snapshot keys by blast
  have "is_empty_diff ?d \<longleftrightarrow> set (created ?d) = {} \<and> set (modified ?d) = {} \<and> set (deleted ?d) = {}"
    by (simp add: is_empty_diff_def)
  also have "\<dots> \<longleftrightarrow> (\<forall>rel. map_option fst (map_of before rel) = map_option fst (map_of after rel))"
    unfolding c m r
  proof
    assume l: "dom (map_of after) - dom (map_of before) = {} \<and> {rel \<in> dom (map_of after) \<inter> dom (map_of before).
        fst (the (map_of after rel)) \<noteq> fst (the (map_of before rel))} = {} \<and> dom (map_of before) - dom (map_of after) = {}"
    show "\<forall>rel. map_option fst (map_of before rel) = map_option fst (map_of after rel)"
    proof
      fix rel show "map_option fst (map_of before rel) = map_option fst (map_of after rel)"
        using l by (cases "map_of before rel"; cases "map_of after rel") auto
    qed
  next
    assume a: "\<forall>rel. map_option fst (map_of before rel) = map_option fst (map_of after rel)"
    have n: "map_of before rel = None \<longleftrightarrow> map_of after rel = None" for rel using a by (metis option.map_disc_iff)
    then have "dom (map_of before) = dom (map_of after)" by (auto simp: dom_def)
    moreover have "fst (the (map_of after rel)) = fst (the (map_of before rel))" if "rel \<in> dom (map_of after)" for rel
      using a [rule_format, of rel] n [of rel] that by (cases "map_of before rel") auto
    ultimately show "dom (map_of after) - dom (map_of before) = {} \<and> {rel \<in> dom (map_of after) \<inter> dom (map_of before).
        fst (the (map_of after rel)) \<noteq> fst (the (map_of before rel))} = {} \<and> dom (map_of before) - dom (map_of after) = {}"
      by blast
  qed
  finally have "is_empty_diff ?d \<longleftrightarrow> map_option fst \<circ> map_of before = map_option fst \<circ> map_of after"
    by (simp add: fun_eq_iff)
  moreover have "sorted (created ?d)" "sorted (modified ?d)" "sorted (deleted ?d)" by (simp_all add: diff_lane_def)
  ultimately show ?thesis using c m r by blast
qed

definition sample_tree :: lane_tree where
  "sample_tree = [(''nodes/d/preview.json'', ''2'', Text (Some (JObj [(''id'', JStr ''d''), (''category'', JStr ''regular''),
      (''state'', JStr ''virtual''), (''lane'', JStr ''main''), (''proposed_by'', JStr ''x''), (''motivation'', JStr ''m''),
      (''prompt_draft'', JStr ''again''), (''scheduled_deps'', JList [JStr ''c'', JStr ''new''])]))),
    (''nodes/r/preview.json'', ''3'', Text (Some (JObj [(''id'', JStr ''r''), (''kind'', JStr ''agent''),
      (''category'', JStr ''planning''), (''state'', JStr ''done''), (''ran_at'', JStr ''now''), (''lane'', JStr ''main''),
      (''motivation'', JStr ''m''), (''summary'', JStr ''s''), (''next_implications'', JStr ''i'')]))),
    (''nodes/new/preview.json'', ''4'', Text (Some (JObj [(''id'', JStr ''new''), (''category'', JStr ''regular''),
      (''state'', JStr ''virtual''), (''lane'', JStr ''main''), (''proposed_by'', JStr ''x''), (''motivation'', JStr ''m''),
      (''prompt_draft'', JStr ''begin''), (''scheduled_deps'', JList [JStr ''a''])])))]"

definition sample_pre :: lane_tree where
  "sample_pre = [(''nodes/d/preview.json'', ''1'', NotUtf8)]"

theorem diff_lane_exact_witness:
  "set (deleted (diff_lane (snapshot_lane sample_pre) sample_tree)) = {} \<and>
   \<not> is_empty_diff (diff_lane (snapshot_lane sample_pre) sample_tree)"
proof -
  have d: "distinct (keys sample_tree)" by (simp add: sample_tree_def)
  have "(map_option fst \<circ> map_of sample_pre) ''nodes/r/preview.json'' \<noteq>
      (map_option fst \<circ> map_of sample_tree) ''nodes/r/preview.json''"
    by (simp add: sample_pre_def sample_tree_def)
  then have ne: "map_option fst \<circ> map_of sample_pre \<noteq> map_option fst \<circ> map_of sample_tree" by metis
  have "dom (map_of sample_pre) - dom (map_of sample_tree) = {}" by (simp add: sample_pre_def sample_tree_def)
  with ne diff_lane_exact [OF d, of sample_pre] show ?thesis by simp
qed

text \<open>
  C10: the reap of a turn is all or nothing. A reap that raises changes no record. One that returns has
  written exactly the new and modified virtuals of its result: it did so only for a valid preview of
  a planning or review node, without a fatal reason; the new nodes have unused ids and are well-formed
  virtual agents of this device in the running node's lane, marked as proposed by it; a modified node was
  a virtual of that lane and keeps its kind, lane, author, creation time, continuation source and
  verify script under a larger revision; every dependency resolves in the lane; and no lane
  of the project has a cycle.
\<close>

theorem reap_all_or_nothing:
  assumes "world_ok w" and "ids_unused env w (p_id p)" and "known w n" and "native_lane w (p_id p) n"
    and "lanes_acyclic (tab w) (p_id p)" and "reap_lane env p n tree pre w = (t, res)"
  shows "case res of Inl e \<Rightarrow> steady w t | Inr r \<Rightarrow> reaped w (p_id p) n r t"
proof -
  have "wp (reap_lane env p n tree pre) (reaped w (p_id p) n) (\<lambda>_. steady w) w"
    by (rule wp_reap_lane [OF assms(1-5)])
  then show ?thesis using assms(6) by (simp add: wp_def split: sum.splits)
qed

definition sample_planner :: node where
  "sample_planner = (sample_agent ''r'' Running)\<lparr>n_category := Some Planning\<rparr>"

lemma auto_world_native: "native_lane auto_world ''p'' n"
  unfolding native_lane_def
proof (intro allI impI)
  fix i e assume e: "tab auto_world ''p'' i = Some e"
  then obtain h f where f: "record_at (w_store auto_world) ''p'' h i = Some f" "n_owner_host_id e = h"
    using view_Some_iff [of "w_store auto_world"] auto_world_ok by (auto simp: tab_def world_ok_def)
  from record_at_dir [OF f(1)] obtain d where "d \<in> set (st_dirs (w_store auto_world))" "fst d = (''p'', h, i)" by blast
  then have "h = ''here''" by (auto simp: auto_world_def)
  then show "n_owner_host_id e = machine auto_world"
    using f(2) by (simp add: machine_def auto_world_def sample_store_def)
qed

theorem reap_all_or_nothing_witness:
  "\<exists>t r. reap_lane sample_env sample_project sample_planner sample_tree (snapshot_lane sample_pre) auto_world = (t, Inr r) \<and>
    length (rr_new r) = 1 \<and> map n_id (rr_modified r) = [''d''] \<and> reaped auto_world ''p'' sample_planner r t"
proof -
  let ?run = "reap_lane sample_env sample_project sample_planner sample_tree (snapshot_lane sample_pre) auto_world"
  have "case snd ?run of Inl e \<Rightarrow> False | Inr r \<Rightarrow> length (rr_new r) = 1 \<and> map n_id (rr_modified r) = [''d'']" by code_simp
  then obtain r where r: "?run = (fst ?run, Inr r)" "length (rr_new r) = 1 \<and> map n_id (rr_modified r) = [''d'']"
    by (cases ?run) (auto split: sum.splits)
  have pid: "p_id sample_project = ''p''" by code_simp
  have "ids_unused sample_env auto_world ''p''"
    by (rule sample_ids_unused [OF auto_world_ok]) (simp add: auto_world_def)
  moreover have "known auto_world sample_planner" by code_simp
  moreover have "lanes_acyclic (tab auto_world) ''p''" using auto_world_graph by (simp add: graph_ok_def)
  ultimately have "reaped auto_world ''p'' sample_planner r (fst ?run)"
    using reap_all_or_nothing [OF auto_world_ok _ _ _ _ r(1)] auto_world_native by (simp add: pid)
  then show ?thesis
    by (intro exI [of _ "fst ?run"] exI [of _ r] conjI r(1) r(2) [THEN conjunct1] r(2) [THEN conjunct2])
qed

end
