(* ===== verification/Web_Auth.thy ===== *)
theory Web_Auth
  imports Prelude
begin

text \<open>
  The passcode guard of \<open>webauth.py\<close>. A session token is what \<open>secrets.token_urlsafe\<close> returns, an
  argument of the login; \<open>secrets.compare_digest\<close> on strings raises a type error unless both are ASCII.
  Of the characters of the model \<^verbatim>\<open>\d\<close> matches the ten decimal digits.
  Each method runs under the guard's lock, so a run is a sequence of whole calls.
\<close>

section \<open>The guard\<close>

definition max_failures :: nat where
  "max_failures = 10"

record guard =
  passcode :: pystr
  sessions :: "pystr list"
  failures :: nat
  locked :: bool

datatype auth_error = PasscodeLocked | NotAscii | BadPasscode

definition is_ascii :: "pystr \<Rightarrow> bool" where
  "is_ascii s = list_all (\<lambda>c. of_char c < (128 :: nat)) s"

definition is_digit :: "char \<Rightarrow> bool" where
  "is_digit c = (48 \<le> (of_char c :: nat) \<and> (of_char c :: nat) \<le> 57)"

definition new_guard :: "pystr \<Rightarrow> auth_error + guard" where
  "new_guard code = (if length code = 4 \<and> list_all is_digit code
     then Inr \<lparr>passcode = code, sessions = [], failures = 0, locked = False\<rparr> else Inl BadPasscode)"

definition compare_digest :: "pystr \<Rightarrow> pystr \<Rightarrow> auth_error + bool" where
  "compare_digest a b = (if is_ascii a \<and> is_ascii b then Inr (a = b) else Inl NotAscii)"

definition login :: "pystr \<Rightarrow> pystr \<Rightarrow> guard \<Rightarrow> guard \<times> (auth_error + pystr option \<times> nat)" where
  "login token candidate g =
     (if locked g then (g, Inl PasscodeLocked)
      else case compare_digest candidate (passcode g) of
        Inl e \<Rightarrow> (g, Inl e)
      | Inr True \<Rightarrow> (g\<lparr>failures := 0, sessions := List.insert token (sessions g)\<rparr>, Inr (Some token, max_failures))
      | Inr False \<Rightarrow>
          let n = failures g + 1 in
          (g\<lparr>failures := n, locked := (locked g \<or> n \<ge> max_failures)\<rparr>, Inr (None, max_failures - n)))"

fun find_session :: "pystr \<Rightarrow> pystr list \<Rightarrow> auth_error + pystr option" where
  "find_session candidate [] = Inr None"
| "find_session candidate (t # ts) = (case compare_digest candidate t of
     Inl e \<Rightarrow> Inl e | Inr True \<Rightarrow> Inr (Some t) | Inr False \<Rightarrow> find_session candidate ts)"

definition has_session :: "pystr option \<Rightarrow> guard \<Rightarrow> auth_error + bool" where
  "has_session candidate g =
     (if \<not> truthy candidate then Inr False
      else case find_session (or_empty candidate) (sessions g) of Inl e \<Rightarrow> Inl e | Inr t \<Rightarrow> Inr (t \<noteq> None))"

definition logout :: "pystr option \<Rightarrow> guard \<Rightarrow> guard \<times> (auth_error + unit)" where
  "logout candidate g =
     (if \<not> truthy candidate then (g, Inr ())
      else case find_session (or_empty candidate) (sessions g) of
        Inl e \<Rightarrow> (g, Inl e)
      | Inr None \<Rightarrow> (g, Inr ())
      | Inr (Some t) \<Rightarrow> (g\<lparr>sessions := remove1 t (sessions g)\<rparr>, Inr ()))"

definition is_passcode_exempt :: "pystr \<Rightarrow> bool" where
  "is_passcode_exempt path =
     (path \<in> {''/'', ''/favicon.svg'', ''/health'', ''/auth/state'', ''/auth/login'', ''/auth/logout''} \<or>
      starts_with ''/assets/'' path \<or> starts_with ''/hook/'' path)"

section \<open>Runs\<close>

datatype auth_call = Login pystr pystr | Logout "pystr option"

fun call :: "auth_call \<Rightarrow> guard \<Rightarrow> guard \<times> (auth_error + pystr option \<times> nat) list" where
  "call (Login token candidate) g = (case login token candidate g of (g', r) \<Rightarrow> (g', [r]))"
| "call (Logout candidate) g = (fst (logout candidate g), [])"

fun calls :: "auth_call list \<Rightarrow> guard \<Rightarrow> guard \<times> (auth_error + pystr option \<times> nat) list" where
  "calls [] g = (g, [])"
| "calls (c # cs) g = (case call c g of (g', rs) \<Rightarrow> case calls cs g' of (g'', rs') \<Rightarrow> (g'', rs @ rs'))"

definition rejections :: "(auth_error + pystr option \<times> nat) list \<Rightarrow> nat" where
  "rejections rs = length (filter (\<lambda>r. case r of Inr (None, left) \<Rightarrow> True | _ \<Rightarrow> False) rs)"

definition issued :: "(auth_error + pystr option \<times> nat) list \<Rightarrow> pystr set" where
  "issued rs = {t. \<exists>left. Inr (Some t, left) \<in> set rs}"

definition guesses :: "auth_call \<Rightarrow> pystr \<Rightarrow> bool" where
  "guesses c code = (case c of Login token candidate \<Rightarrow> candidate = code | Logout x \<Rightarrow> False)"

definition guard_ok :: "guard \<Rightarrow> bool" where
  "guard_ok g \<longleftrightarrow> failures g \<le> max_failures \<and> locked g = (failures g = max_failures) \<and> is_ascii (passcode g) \<and>
     distinct (sessions g)"

lemma digits_ascii: "list_all is_digit s \<Longrightarrow> is_ascii s"
  by (auto simp: is_ascii_def is_digit_def list_all_iff)

lemma new_guard_ok: "new_guard code = Inr g \<Longrightarrow> guard_ok g \<and> passcode g = code \<and> sessions g = [] \<and> failures g = 0"
  by (auto simp: new_guard_def guard_ok_def max_failures_def digits_ascii split: if_splits)

lemma find_session_in: "find_session c ts = Inr (Some t) \<Longrightarrow> t \<in> set ts \<and> t = c"
  by (induction c ts rule: find_session.induct) (auto simp: compare_digest_def split: sum.splits bool.splits if_splits)

lemma call_ok:
  assumes "guard_ok g" and "call c g = (g', rs)"
  shows "guard_ok g' \<and> passcode g' = passcode g \<and> set (sessions g') \<subseteq> set (sessions g) \<union> issued rs \<and>
    (\<not> guesses c (passcode g) \<longrightarrow> failures g' = failures g + rejections rs \<and> issued rs = {}) \<and>
    (locked g \<longrightarrow> locked g' \<and> rejections rs = 0 \<and> issued rs = {})"
proof (cases c)
  case (Login token candidate)
  with assms show ?thesis
    by (cases "locked g"; cases "is_ascii candidate"; cases "candidate = passcode g")
      (auto simp: login_def compare_digest_def guard_ok_def max_failures_def rejections_def issued_def guesses_def Let_def
        split: if_splits prod.splits)
next
  case (Logout candidate)
  with assms show ?thesis
    by (auto simp: logout_def guard_ok_def rejections_def issued_def guesses_def
        split: if_splits sum.splits option.splits dest: notin_set_remove1 in_set_remove1)
qed

lemma rejections_append [simp]: "rejections (rs @ rs') = rejections rs + rejections rs'"
  by (simp add: rejections_def)

lemma issued_append [simp]: "issued (rs @ rs') = issued rs \<union> issued rs'"
  by (auto simp: issued_def)

lemma calls_ok:
  "guard_ok g \<Longrightarrow> calls cs g = (g', rs) \<Longrightarrow>
     guard_ok g' \<and> passcode g' = passcode g \<and> set (sessions g') \<subseteq> set (sessions g) \<union> issued rs \<and>
     ((\<forall>c \<in> set cs. \<not> guesses c (passcode g)) \<longrightarrow> failures g' = failures g + rejections rs \<and> issued rs = {}) \<and>
     (locked g \<longrightarrow> locked g' \<and> rejections rs = 0 \<and> issued rs = {})"
proof (induction cs arbitrary: g rs)
  case Nil
  then show ?case by (simp add: rejections_def issued_def)
next
  case (Cons c cs)
  obtain h rs1 rs2 where h: "call c g = (h, rs1)" "calls cs h = (g', rs2)" "rs = rs1 @ rs2"
    using Cons.prems(2) by (auto split: prod.splits)
  note one = call_ok [OF Cons.prems(1) h(1)]
  note more = Cons.IH [OF _ h(2)]
  show ?case using one more h(3) by auto
qed

section \<open>Properties\<close>

text \<open>
  C40: guessing the passcode is bounded. Whatever logins and logouts a fresh guard receives, it has at
  most ten failures and is locked exactly at ten; every open session was issued by a successful login;
  a run in which nobody knows the passcode is answered at most ten times, issues no session, and once the
  guard is locked further logins only raise.
\<close>

theorem guesses_bounded:
  assumes "new_guard code = Inr g" and "calls cs g = (g', rs)"
  shows "failures g' \<le> max_failures \<and> locked g' = (failures g' = max_failures) \<and> set (sessions g') \<subseteq> issued rs \<and>
    ((\<forall>c \<in> set cs. \<not> guesses c code) \<longrightarrow>
       rejections rs \<le> max_failures \<and> issued rs = {} \<and> sessions g' = [] \<and> locked g' = (rejections rs = max_failures)) \<and>
    (\<forall>token candidate. locked g' \<longrightarrow> login token candidate g' = (g', Inl PasscodeLocked))"
proof -
  have g: "guard_ok g" "passcode g = code" "sessions g = []" "failures g = 0" using new_guard_ok [OF assms(1)] by simp_all
  from calls_ok [OF g(1) assms(2)] g show ?thesis by (auto simp: guard_ok_def login_def)
qed

theorem guesses_bounded_witness:
  "locked (fst (calls (replicate 12 (Login ''t'' ''0000'')) \<lparr>passcode = ''1234'', sessions = [], failures = 0, locked = False\<rparr>)) \<and>
   sessions (fst (calls (replicate 12 (Login ''t'' ''0000'')) \<lparr>passcode = ''1234'', sessions = [], failures = 0, locked = False\<rparr>)) = []"
proof -
  let ?g = "\<lparr>passcode = ''1234'', sessions = [], failures = 0, locked = False\<rparr>"
  let ?cs = "replicate 12 (Login ''t'' ''0000'')"
  have g: "new_guard ''1234'' = Inr ?g" by code_simp
  have r: "rejections (snd (calls ?cs ?g)) = max_failures" by code_simp
  have n: "\<forall>c \<in> set ?cs. \<not> guesses c ''1234''" by (simp add: guesses_def)
  have *: "calls ?cs ?g = (fst (calls ?cs ?g), snd (calls ?cs ?g))" by (rule prod.collapse [symmetric])
  note guesses_bounded [OF g *]
  then have "sessions (fst (calls ?cs ?g)) = [] \<and> locked (fst (calls ?cs ?g)) = (rejections (snd (calls ?cs ?g)) = max_failures)"
    using n by blast
  with r show ?thesis by blast
qed

end
