(* ===== verification/Artifacts.thy ===== *)
theory Artifacts
  imports Domain
begin

text \<open>
  Publication of a node's declared output files, \<open>artifacts.py\<close>. What the file system answers for a
  declared name is a value \<open>source_file\<close>: whether the path and its directory resolve, whether it lies
  in the node's output directory, whether it is a regular file, its size and time (or the error of
  \<open>stat\<close>), and the size, time and digest of the copy (or the error of copying, of looking at the
  copy or of reading it). The two may differ, because an agent can still write the file while it is
  copied. The published copies are the list of files of the node's durable directory; the
  text of the messages is a datatype.
\<close>

section \<open>Names\<close>

definition max_artifacts_per_node :: nat where "max_artifacts_per_node = 16"
definition max_artifact_bytes :: nat where "max_artifact_bytes = 2 * 1024 * 1024"
definition max_artifacts_total_bytes :: nat where "max_artifacts_total_bytes = 8 * 1024 * 1024"

text \<open>
  \<open>pathlib\<close>'s \<open>name\<close> and \<open>suffix\<close> of a string without a separator: a suffix begins at the last dot,
  which is neither the first nor the last character of the name.
\<close>

definition path_name :: "pystr \<Rightarrow> pystr" where
  "path_name s = (if s = ''.'' then [] else s)"

definition path_suffix :: "pystr \<Rightarrow> pystr" where
  "path_suffix s = (let n = path_name s; ext = rev (takeWhile (\<lambda>c. c \<noteq> CHR ''.'') (rev n)) in
     if CHR ''.'' \<notin> set n \<or> length ext + 1 = length n \<or> ext = [] then [] else CHR ''.'' # ext)"

definition allowed_artifact_suffixes :: "pystr list" where
  "allowed_artifact_suffixes = [''.md'', ''.json'', ''.html'', ''.svg'']"

datatype drop_reason =
    OverCount | NotBare | BadSuffix | DoesNotExist | ResolvesOutside | NotRegular
  | CannotStat pystr | OverCap | OverBudget | CannotCopy pystr

definition invalid_name_reason :: "pystr \<Rightarrow> drop_reason option" where
  "invalid_name_reason s =
     (if s = [] \<or> s \<in> {''.'', ''..''} \<or> CHR ''/'' \<in> set s \<or> CHR 0x5C \<in> set s \<or> CHR 0x00 \<in> set s then Some NotBare
      else if path_name s \<noteq> s then Some NotBare
      else if path_suffix s \<notin> set allowed_artifact_suffixes then Some BadSuffix
      else None)"

fun required_suffix :: "artifact_mode \<Rightarrow> pystr option" where
  "required_suffix DefaultArtifact = None"
| "required_suffix Markdown = Some ''.md''"
| "required_suffix Html = Some ''.html''"
| "required_suffix Svg = Some ''.svg''"
| "required_suffix CustomArtifact = None"

definition artifact_name_matches_mode :: "artifact_mode \<Rightarrow> pystr \<Rightarrow> bool" where
  "artifact_name_matches_mode m s = (case required_suffix m of None \<Rightarrow> True | Some suffix \<Rightarrow> path_suffix s = suffix)"

section \<open>Publication\<close>

fun reason_text :: "drop_reason \<Rightarrow> pystr" where
  "reason_text OverCount = ''exceeds 16 artifact limit''"
| "reason_text NotBare = ''must be a bare filename''"
| "reason_text BadSuffix = ''suffix must be .md, .json, .html, or .svg''"
| "reason_text DoesNotExist = ''file does not exist''"
| "reason_text ResolvesOutside = ''resolves outside the node outputs directory''"
| "reason_text NotRegular = ''not a regular file''"
| "reason_text (CannotStat e) = ''cannot stat file: '' @ e"
| "reason_text OverCap = ''exceeds 2 MiB cap''"
| "reason_text OverBudget = ''exceeds 8 MiB node budget''"
| "reason_text (CannotCopy e) = ''cannot copy file: '' @ e"

record source_file =
  src_resolves :: bool
  src_inside :: bool
  src_regular :: bool
  src_stat :: "pystr + nat \<times> int"
  src_copy :: "pystr + nat \<times> int \<times> (pystr + pystr)"

definition dropped :: "pystr \<Rightarrow> drop_reason \<Rightarrow> nat \<Rightarrow> int \<Rightarrow> artifact_ref" where
  "dropped s r sz mtime = \<lparr>art_name = s, art_bytes = int sz, art_mtime = mtime, art_sha256 = [],
     art_status = Dropped, art_reason = Some (reason_text r)\<rparr>"

definition published :: "pystr \<Rightarrow> nat \<Rightarrow> int \<Rightarrow> pystr \<Rightarrow> artifact_ref" where
  "published s sz mtime digest = \<lparr>art_name = s, art_bytes = int sz, art_mtime = mtime, art_sha256 = digest,
     art_status = Published, art_reason = None\<rparr>"

definition over_limits :: "nat \<Rightarrow> nat \<Rightarrow> drop_reason option" where
  "over_limits acc sz =
     (if sz > max_artifact_bytes then Some OverCap
      else if acc + sz > max_artifacts_total_bytes then Some OverBudget else None)"

definition copy_artifact :: "pystr \<Rightarrow> nat \<Rightarrow> source_file \<Rightarrow> artifact_ref" where
  "copy_artifact s acc f =
     (case src_copy f of
        Inl e \<Rightarrow> dropped s (CannotCopy e) 0 0
      | Inr (sz, mtime, digest) \<Rightarrow>
          (case over_limits acc sz of
             Some r \<Rightarrow> dropped s r sz mtime
           | None \<Rightarrow> (case digest of
               Inl e \<Rightarrow> dropped s (CannotCopy e) 0 0
             | Inr d \<Rightarrow> published s sz mtime d)))"

definition publish_one :: "(pystr \<Rightarrow> source_file) \<Rightarrow> nat \<Rightarrow> nat \<Rightarrow> pystr \<Rightarrow> artifact_ref" where
  "publish_one files index acc s =
     (if index \<ge> max_artifacts_per_node then dropped s OverCount 0 0
      else case invalid_name_reason s of
        Some r \<Rightarrow> dropped s r 0 0
      | None \<Rightarrow>
          let f = files s in
          if \<not> src_resolves f then dropped s DoesNotExist 0 0
          else if \<not> src_inside f then dropped s ResolvesOutside 0 0
          else if \<not> src_regular f then dropped s NotRegular 0 0
          else case src_stat f of
            Inl e \<Rightarrow> dropped s (CannotStat e) 0 0
          | Inr (sz, mtime) \<Rightarrow>
              (case over_limits acc sz of
                 Some r \<Rightarrow> dropped s r sz mtime
               | None \<Rightarrow> copy_artifact s acc f))"

definition is_published :: "artifact_ref \<Rightarrow> bool" where
  "is_published r = (art_status r = Published)"

text \<open>The loop over the declarations: the index, the names seen and the bytes published so far.\<close>

fun publish_loop ::
  "(pystr \<Rightarrow> source_file) \<Rightarrow> nat \<Rightarrow> pystr list \<Rightarrow> nat \<Rightarrow> pystr list \<Rightarrow> artifact_ref list" where
  "publish_loop files index seen acc [] = []"
| "publish_loop files index seen acc (s # ss) =
     (if s \<in> set seen then publish_loop files (index + 1) seen acc ss
      else let r = publish_one files index acc s in
        r # publish_loop files (index + 1) (s # seen) (if is_published r then acc + nat (art_bytes r) else acc) ss)"

text \<open>
  The whole function: the node's artifacts are replaced by the references, its durable directory
  by the copies of exactly the published ones.
\<close>

definition publish_artifacts ::
  "(pystr \<Rightarrow> source_file) \<Rightarrow> node \<Rightarrow> pystr list \<Rightarrow> node \<times> (pystr \<times> nat \<times> pystr) list \<times> artifact_ref list" where
  "publish_artifacts files n declared =
     (let refs = publish_loop files 0 [] 0 declared in
      (n\<lparr>n_artifacts := refs\<rparr>,
       map (\<lambda>r. (art_name r, nat (art_bytes r), art_sha256 r)) (filter is_published refs),
       refs))"

definition clear_published_artifacts ::
  "(pystr \<Rightarrow> source_file) \<Rightarrow> node \<Rightarrow> node \<times> (pystr \<times> nat \<times> pystr) list" where
  "clear_published_artifacts files n = (case publish_artifacts files n [] of (n', stored, refs) \<Rightarrow> (n', stored))"

section \<open>The requirement of a mode\<close>

definition dropped_detail :: "artifact_ref \<Rightarrow> pystr" where
  "dropped_detail r = art_name r @ '': '' @ (if truthy (art_reason r) then or_empty (art_reason r) else ''invalid artifact'')"

fun join_with :: "pystr \<Rightarrow> pystr list \<Rightarrow> pystr" where
  "join_with sep [] = []"
| "join_with sep [s] = s"
| "join_with sep (s # t # ss) = s @ sep @ join_with sep (t # ss)"

definition artifact_requirement_issue :: "artifact_mode \<Rightarrow> artifact_ref list \<Rightarrow> pystr option" where
  "artifact_requirement_issue m refs =
     (if m = DefaultArtifact then None
      else if list_ex (\<lambda>r. artifact_name_matches_mode m (art_name r)) (filter is_published refs) then None
      else
        let expected = (case required_suffix m of
              None \<Rightarrow> ''at least one published artifact''
            | Some suffix \<Rightarrow> ''at least one published '' @ suffix @ '' artifact'');
          drops = map dropped_detail (filter (\<lambda>r. art_status r = Dropped) refs);
          detail = (if drops = [] then [] else '' Dropped declarations: '' @ join_with ''; '' drops @ ''.'')
        in Some (''artifact_mode='' @ artifact_mode_value m @ '' requires '' @ expected @
             ''; add the bare filename to preview.artifacts and ensure the file exists in the node outputs directory.'' @
             detail))"

section \<open>Facts about one declaration\<close>

lemma over_limits_None:
  "over_limits acc sz = None \<longleftrightarrow> sz \<le> max_artifact_bytes \<and> acc + sz \<le> max_artifacts_total_bytes"
  by (auto simp: over_limits_def)

lemma art_name_publish_one [simp]: "art_name (publish_one files i acc s) = s"
  by (auto simp: publish_one_def copy_artifact_def dropped_def published_def Let_def split: option.splits sum.splits)

lemma publish_one_published:
  assumes "is_published (publish_one files i acc s)"
  shows "i < max_artifacts_per_node \<and> invalid_name_reason s = None \<and>
    src_resolves (files s) \<and> src_inside (files s) \<and> src_regular (files s) \<and>
    (\<exists>sz mtime d. src_copy (files s) = Inr (sz, mtime, Inr d) \<and> publish_one files i acc s = published s sz mtime d \<and>
       sz \<le> max_artifact_bytes \<and> acc + sz \<le> max_artifacts_total_bytes)"
  using assms
  by (auto simp: publish_one_def copy_artifact_def dropped_def is_published_def Let_def over_limits_None
      split: option.splits sum.splits if_splits)

lemma publish_one_dropped:
  "\<not> is_published (publish_one files i acc s) \<Longrightarrow>
     \<exists>r sz mtime. publish_one files i acc s = dropped s r sz mtime"
  by (auto simp: publish_one_def copy_artifact_def published_def is_published_def Let_def
      split: option.splits sum.splits if_splits)

section \<open>The loop\<close>

definition bytes_of :: "artifact_ref list \<Rightarrow> nat" where
  "bytes_of rs = sum_list (map (nat \<circ> art_bytes) (filter is_published rs))"

lemma remdups_snoc: "remdups (xs @ [a]) = filter (\<lambda>x. x \<noteq> a) (remdups xs) @ [a]"
  by (induction xs) auto

lemma loop_names:
  "map art_name (publish_loop files i seen acc ss) = filter (\<lambda>s. s \<notin> set seen) (rev (remdups (rev ss)))"
proof (induction ss arbitrary: i seen acc)
  case (Cons s ss)
  define xs where "xs = rev (remdups (rev ss))"
  have new: "filter (\<lambda>x. x \<notin> set (s # seen)) xs = filter (\<lambda>x. x \<notin> set seen) (filter (\<lambda>x. x \<noteq> s) xs)"
    by (simp only: filter_filter) (rule filter_cong, auto)
  have old: "filter (\<lambda>x. x \<notin> set seen) xs = filter (\<lambda>x. x \<notin> set seen) (filter (\<lambda>x. x \<noteq> s) xs)" if "s \<in> set seen"
    unfolding filter_filter using that by (intro filter_cong) auto
  have firsts: "rev (remdups (rev (s # ss))) = s # filter (\<lambda>x. x \<noteq> s) xs"
    by (simp add: xs_def remdups_snoc rev_filter)
  show ?case
  proof (cases "s \<in> set seen")
    case True
    then have "map art_name (publish_loop files i seen acc (s # ss)) = filter (\<lambda>x. x \<notin> set seen) xs"
      by (simp only: publish_loop.simps if_True Cons.IH xs_def)
    then show ?thesis unfolding firsts using True old by simp
  next
    case False
    then have "map art_name (publish_loop files i seen acc (s # ss)) = s # filter (\<lambda>x. x \<notin> set (s # seen)) xs"
      by (simp only: publish_loop.simps if_False Let_def list.map art_name_publish_one Cons.IH xs_def)
    then show ?thesis unfolding firsts new using False by simp
  qed
qed simp

lemma loop_count: "length (filter is_published (publish_loop files i seen acc ss)) \<le> max_artifacts_per_node - i"
proof (induction ss arbitrary: i seen acc)
  case Nil
  show ?case by simp
next
  case (Cons s ss)
  have step: "length (filter is_published (publish_loop files (i + 1) seen' acc' ss)) \<le> max_artifacts_per_node - (i + 1)"
    for seen' acc' by (rule Cons.IH)
  have more: "length (filter is_published (publish_loop files (i + 1) seen' acc' ss)) \<le> max_artifacts_per_node - i"
    for seen' acc' using step [of seen' acc'] by linarith
  have one: "is_published (publish_one files i acc s) \<Longrightarrow>
      Suc (length (filter is_published (publish_loop files (i + 1) seen' acc' ss))) \<le> max_artifacts_per_node - i"
    for seen' acc' using step [of seen' acc'] publish_one_published [of files i acc s] by linarith
  show ?case using more one by (simp add: Let_def)
qed

lemma loop_total:
  "acc \<le> max_artifacts_total_bytes \<Longrightarrow> acc + bytes_of (publish_loop files i seen acc ss) \<le> max_artifacts_total_bytes"
proof (induction ss arbitrary: i seen acc)
  case (Cons s ss)
  show ?case
  proof (cases "\<not> s \<in> set seen \<and> is_published (publish_one files i acc s)")
    case True
    then show ?thesis using publish_one_published [of files i acc s] Cons.IH [of "acc + nat (art_bytes (publish_one files i acc s))"]
      by (auto simp: Let_def bytes_of_def published_def add.assoc)
  qed (use Cons in \<open>auto simp: Let_def bytes_of_def\<close>)
qed (simp add: bytes_of_def)

lemma loop_each:
  "r \<in> set (publish_loop files i seen acc ss) \<Longrightarrow> \<exists>i acc. r = publish_one files i acc (art_name r)"
proof (induction ss arbitrary: i seen acc)
  case (Cons s ss)
  have "r = publish_one files i acc s \<or> (\<exists>seen' acc'. r \<in> set (publish_loop files (i + 1) seen' acc' ss))"
    using Cons.prems by (auto simp: Let_def split: if_splits)
  then show ?case
  proof
    assume "r = publish_one files i acc s"
    then have "r = publish_one files i acc (art_name r)" by simp
    then show ?thesis by blast
  qed (use Cons.IH in blast)
qed simp

section \<open>Properties\<close>

lemmas publish_eval = publish_artifacts_def publish_one_def copy_artifact_def over_limits_def invalid_name_reason_def
  path_name_def path_suffix_def allowed_artifact_suffixes_def max_artifacts_per_node_def max_artifact_bytes_def
  max_artifacts_total_bytes_def published_def dropped_def is_published_def

text \<open>
  C39: whatever an agent declares and whatever its files are, publishing records one reference per
  distinct declared name, in the order of first declaration; at most sixteen are published, none larger
  than two MiB and together at most eight; each published one is a bare file name with an allowed suffix
  that resolved to a regular file of the node's own directory, with the size and digest of the copy; the
  others carry a reason; and the durable directory holds exactly the published files.
\<close>

theorem publish_bounded:
  assumes "publish_artifacts files n declared = (n', stored, refs)"
  shows "n' = n\<lparr>n_artifacts := refs\<rparr> \<and> map art_name refs = rev (remdups (rev declared)) \<and>
    length stored \<le> max_artifacts_per_node \<and> sum_list (map (fst \<circ> snd) stored) \<le> max_artifacts_total_bytes \<and>
    stored = map (\<lambda>r. (art_name r, nat (art_bytes r), art_sha256 r)) (filter is_published refs) \<and>
    (\<forall>(s, sz, digest) \<in> set stored. sz \<le> max_artifact_bytes \<and> invalid_name_reason s = None \<and>
       src_resolves (files s) \<and> src_inside (files s) \<and> src_regular (files s) \<and>
       (\<exists>mtime. src_copy (files s) = Inr (sz, mtime, Inr digest))) \<and>
    (\<forall>r \<in> set refs. \<not> is_published r \<longrightarrow> truthy (art_reason r) \<and> art_sha256 r = [])"
proof -
  have refs: "refs = publish_loop files 0 [] 0 declared" and n': "n' = n\<lparr>n_artifacts := refs\<rparr>"
    and stored: "stored = map (\<lambda>r. (art_name r, nat (art_bytes r), art_sha256 r)) (filter is_published refs)"
    using assms unfolding publish_artifacts_def Let_def by blast+
  have names: "map art_name refs = rev (remdups (rev declared))"
    by (simp add: refs loop_names)
  have count: "length stored \<le> max_artifacts_per_node"
    using loop_count [of files 0 "[]" 0 declared] by (simp add: stored refs)
  have tot: "sum_list (map (fst \<circ> snd) stored) \<le> max_artifacts_total_bytes"
    using loop_total [of 0 files 0 "[]" declared] by (simp add: stored refs bytes_of_def comp_def)
  have each: "\<forall>(s, sz, digest) \<in> set stored. sz \<le> max_artifact_bytes \<and> invalid_name_reason s = None \<and>
       src_resolves (files s) \<and> src_inside (files s) \<and> src_regular (files s) \<and>
       (\<exists>mtime. src_copy (files s) = Inr (sz, mtime, Inr digest))"
  proof (clarsimp simp: stored)
    fix r assume r: "r \<in> set refs" "is_published r"
    obtain i acc where "r = publish_one files i acc (art_name r)" using loop_each r(1) refs by blast
    with publish_one_published [of files i acc "art_name r"] r(2)
    obtain sz mtime d where "r = published (art_name r) sz mtime d" "src_copy (files (art_name r)) = Inr (sz, mtime, Inr d)"
      "sz \<le> max_artifact_bytes" and *: "invalid_name_reason (art_name r) = None"
      "src_resolves (files (art_name r))" "src_inside (files (art_name r))" "src_regular (files (art_name r))"
      by auto
    moreover from this(1) have "nat (art_bytes r) = sz" "art_sha256 r = d"
      by (metis (no_types, lifting) artifact_ref.select_convs nat_int published_def)+
    ultimately show "nat (art_bytes r) \<le> max_artifact_bytes \<and> invalid_name_reason (art_name r) = None \<and>
        src_resolves (files (art_name r)) \<and> src_inside (files (art_name r)) \<and> src_regular (files (art_name r)) \<and>
        (\<exists>mtime. src_copy (files (art_name r)) = Inr (nat (art_bytes r), mtime, Inr (art_sha256 r)))"
      by blast
  qed
  have drops: "\<forall>r \<in> set refs. \<not> is_published r \<longrightarrow> truthy (art_reason r) \<and> art_sha256 r = []"
  proof (intro ballI impI)
    fix r assume r: "r \<in> set refs" "\<not> is_published r"
    obtain i acc where "r = publish_one files i acc (art_name r)" using loop_each r(1) refs by blast
    with publish_one_dropped [of files i acc "art_name r"] r(2)
    obtain why sz mtime where "r = dropped (art_name r) why sz mtime" by metis
    then have "art_reason r = Some (reason_text why)" "art_sha256 r = []"
      by (metis (no_types, lifting) artifact_ref.select_convs dropped_def)+
    then show "truthy (art_reason r) \<and> art_sha256 r = []" by (cases why) simp_all
  qed
  show ?thesis using n' names count tot stored each drops by blast
qed

theorem publish_bounded_witness:
  "sum_list (map (fst \<circ> snd) [(''a.md'', 5 :: nat, ''d'')]) \<le> max_artifacts_total_bytes"
proof -
  let ?f = "\<lambda>s. \<lparr>src_resolves = True, src_inside = True, src_regular = True, src_stat = Inr (4, 0),
     src_copy = Inr (5, 0, Inr ''d'')\<rparr>"
  have "publish_artifacts ?f (default_node ''p'' ''n'' 0) [''a.md'', ''../b'', ''a.md''] =
      ((default_node ''p'' ''n'' 0)\<lparr>n_artifacts := [published ''a.md'' 5 0 ''d'', dropped ''../b'' NotBare 0 0]\<rparr>,
       [(''a.md'', 5, ''d'')], [published ''a.md'' 5 0 ''d'', dropped ''../b'' NotBare 0 0])"
    by (simp add: publish_eval Let_def)
  from publish_bounded [OF this] show ?thesis by blast
qed

text \<open>
  A requirement is met exactly when some published reference matches the mode.
\<close>

lemma requirement_met:
  "artifact_requirement_issue m refs = None \<longleftrightarrow>
     m = DefaultArtifact \<or> (\<exists>r \<in> set refs. is_published r \<and> artifact_name_matches_mode m (art_name r))"
  by (auto simp: artifact_requirement_issue_def Let_def list_ex_iff)

text \<open>
  The limit of sixteen counts declarations, repeated ones included: a seventeenth declaration is refused
  although only two distinct names were declared.
\<close>

lemma loop_skips: "s \<in> set seen \<Longrightarrow> publish_loop files i seen acc (replicate k s @ ss) = publish_loop files (i + k) seen acc ss"
  by (induction k arbitrary: i) simp_all

lemma limit_counts_repeats:
  "\<exists>r. publish_loop files 0 [] 0 (''a.md'' # replicate 15 ''a.md'' @ [''b.md'']) = [r, dropped ''b.md'' OverCount 0 0]"
  by (simp only: publish_loop.simps loop_skips list.set_intros Let_def) (simp add: loop_skips Let_def publish_one_def max_artifacts_per_node_def)

end
