(* ===== verification/Runner.thy ===== *)
theory Runner
  imports Reap Artifacts
begin

text \<open>
  The runner of an agent node, \<open>runner.py\<close>: state transitions, the transcript, the events of a provider's
  stream, retries after a rate limit, the reap of the lane with its preview repairs, and the end of a
  node. The fields of \<open>NodeRunner\<close> are the record \<open>run\<close>, the project is an argument. What surrounds the
  runner is the record \<open>outside\<close>: the provider's streams by their number, the lane's files and the output
  files after a number of streams, what the rest of the process does to the registry's state while the
  runner waits, and whether a wait is cancelled. Texts of messages are values of \<open>why\<close> and \<open>failure\<close>,
  which \<open>su_wording\<close> and, for the framework's own previews, \<open>su_text\<close> put into words where they are stored.
\<close>

section \<open>Events\<close>

record activity =
  act_kind :: pystr
  act_status :: pystr
  act_id :: pystr
  act_name :: pystr
  act_summary :: pystr
  act_parameters :: "pystr option"
  act_command :: "pystr option"
  act_result :: "pystr option"
  act_payload :: "json option"

datatype wire = TextDelta pystr | UsageEvent token_usage | ActivityEvent activity | OtherWire json

record provider_event =
  pe_kind :: pystr
  pe_event :: "wire option"
  pe_session_id :: "pystr option"
  pe_turn_id :: "pystr option"
  pe_error :: "pystr option"
  pe_final_state :: "pystr option"
  pe_report :: "json option"
  pe_settings :: "(pystr, json) dict option"
  pe_resets_at :: "int option"
  pe_observed_at :: "int option"

section \<open>Failures\<close>

datatype stop = Raised exn | IOFailure pystr | Cancel

datatype why =
    NoLane | OwnIssues "preview_issue list" | OwnUnreadable | OwnIsVirtual | OwnMismatches "mismatch list"
  | PublishFailed pystr | ArtifactsMissing pystr | ReapRaised stop | ReapRejected "reap_reason list"
  | NoOwnReturned | NotPersisted pystr

datatype failure =
    ProviderError "pystr option" | UnknownFinalState "pystr option" | NoTerminalEvent
  | RateLimited "pystr option" bool | BindingMissing | Unexpected stop | NoProse
  | LibraryRejected pystr | ReviewUnsupported | ReviewTargetMissing
  | RepairEnded node_state | RepairAbandoned why | RepairCancelled | ReapFatal why | OpFailed pystr

datatype emission =
    SentStarted node | SentUpdated node | SentDone node | SentError failure | SentWire wire
  | SentWait nat nat "int option" "int option" | SentRepair nat why | SentProseRequest

datatype framework_text = StubSummary | StubImplications | ColdMotivation | ColdImplications | ColdNoText

section \<open>State\<close>

record run =
  r_world :: world
  r_node :: node
  r_seq :: nat
  r_sent :: "(nat \<times> emission) list"
  r_changes :: "(node_state \<times> node_state) list"
  r_lane :: bool
  r_pre :: snapshot
  r_cold_text :: pystr
  r_diff_artifact :: "pystr option"
  r_stored :: "(pystr \<times> nat \<times> pystr) list"
  r_prose :: "pystr option"
  r_streams :: nat
  r_waits :: "nat list"

type_synonym 'a turn = "(stop, run, 'a) prog"

datatype stream_end = Exhausted | StreamFails stop

record outside =
  su_events :: "nat \<Rightarrow> provider_event list"
  su_ending :: "nat \<Rightarrow> stream_end"
  su_meanwhile :: "run \<Rightarrow> world"
  su_cancel_wait :: "nat \<Rightarrow> bool"
  su_tree :: "nat \<Rightarrow> lane_tree"
  su_files :: "nat \<Rightarrow> pystr + (pystr \<Rightarrow> source_file)"
  su_outputs :: "nat \<Rightarrow> pystr list"
  su_prose :: "stop + json"
  su_library :: "bool \<Rightarrow> nat \<Rightarrow> json \<times> pystr option"
  su_diff :: "pystr option"
  su_head :: "nat \<Rightarrow> pystr option"
  su_dump :: "emission \<Rightarrow> json"
  su_wording :: "failure \<Rightarrow> pystr"
  su_text :: "framework_text \<Rightarrow> pystr"
  su_env :: env

definition on_world :: "'a reg \<Rightarrow> 'a turn" where
  "on_world m = (\<lambda>r. case m (r_world r) of (w, res) \<Rightarrow>
     (r\<lparr>r_world := w\<rparr>, case res of Inl e \<Rightarrow> Inl (Raised e) | Inr x \<Rightarrow> Inr x))"

text \<open>\<open>except Exception\<close>: everything but a cancellation.\<close>

definition except_exception :: "'a turn \<Rightarrow> (stop \<Rightarrow> 'a turn) \<Rightarrow> 'a turn" where
  "except_exception m h = catching m (\<lambda>e. if e = Cancel then raise Cancel else h e)"

definition except_cancelled :: "'a turn \<Rightarrow> 'a turn \<Rightarrow> 'a turn" where
  "except_cancelled m h = catching m (\<lambda>e. if e = Cancel then h else raise e)"

definition on_node :: "(node \<Rightarrow> node) \<Rightarrow> unit turn" where
  "on_node f = writing (\<lambda>r. r\<lparr>r_node := f (r_node r)\<rparr>)"

text \<open>While the runner awaits something, the other tasks of the process run.\<close>

definition meanwhile :: "outside \<Rightarrow> unit turn" where
  "meanwhile su = writing (\<lambda>r. r\<lparr>r_world := su_meanwhile su r\<rparr>)"

section \<open>Transcript and transitions\<close>

text \<open>Neither a failing store nor a failing subscriber stops an emission.\<close>

definition emit :: "outside \<Rightarrow> project \<Rightarrow> emission \<Rightarrow> unit turn" where
  "emit su p ev =
     bind (writing (\<lambda>r. r\<lparr>r_seq := r_seq r + 1\<rparr>)) (\<lambda>_.
     bind (reading (\<lambda>r. (r_seq r, n_id (r_node r)))) (\<lambda>(seq, nid).
     bind (except_exception (on_world (on_store (append_event (p_id p) nid seq (su_dump su ev)))) (\<lambda>_. ret ())) (\<lambda>_.
     writing (\<lambda>r. r\<lparr>r_sent := r_sent r @ [(seq, ev)]\<rparr>))))"

definition emit_node :: "outside \<Rightarrow> project \<Rightarrow> (node \<Rightarrow> emission) \<Rightarrow> unit turn" where
  "emit_node su p ev = bind (reading r_node) (\<lambda>n. emit su p (ev n))"

text \<open>\<open>self.store.update_node(self.node)\<close>: the node object takes the new revision.\<close>

definition update_self :: "unit turn" where
  "update_self = bind (reading r_node) (\<lambda>n. bind (on_world (save n)) (\<lambda>m. on_node (\<lambda>_. m)))"

definition stamp_state :: "node_state \<Rightarrow> bool \<Rightarrow> bool \<Rightarrow> int \<Rightarrow> node \<Rightarrow> node" where
  "stamp_state s started finished now n = n\<lparr>n_state := s,
     n_started_at := (if started \<and> n_started_at n = None then Some now else n_started_at n),
     n_finished_at := (if finished then Some now else n_finished_at n)\<rparr>"

definition activity_at :: "node \<Rightarrow> int" where
  "activity_at n = fold max (case n_started_at n of None \<Rightarrow> [] | Some t \<Rightarrow> [t])
     (case n_finished_at n of None \<Rightarrow> n_created_at n | Some t \<Rightarrow> max t (n_created_at n))"

definition transition :: "project \<Rightarrow> node_state \<Rightarrow> bool \<Rightarrow> bool \<Rightarrow> unit turn" where
  "transition p s started finished =
     bind (reading (\<lambda>r. (n_state (r_node r), w_now (r_world r)))) (\<lambda>(prev, now).
     bind (on_node (stamp_state s started finished now)) (\<lambda>_.
     bind update_self (\<lambda>_.
     bind (if started \<or> finished
       then bind (reading (\<lambda>r. activity_at (r_node r))) (\<lambda>at.
         except_exception (on_world (on_store (record_project_activity (p_id p) at))) (\<lambda>_. ret ()))
       else ret ()) (\<lambda>_.
     if s \<noteq> prev then writing (\<lambda>r. r\<lparr>r_changes := r_changes r @ [(prev, s)]\<rparr>) else ret ()))))"

section \<open>Provider events\<close>

definition is_cold_start :: "node \<Rightarrow> bool" where
  "is_cold_start n = (n_kind n = Agent \<and> n_agent_op_kind n = Some cold_start)"

definition is_human_interact_review :: "node \<Rightarrow> bool" where
  "is_human_interact_review n = (n_kind n = Agent \<and> n_category n = Some Review \<and> n_subtype n = Some HumanInteractReview)"

definition tail_text :: "pystr \<Rightarrow> nat \<Rightarrow> pystr" where
  "tail_text s limit = (if length s \<le> limit then s else drop (length s - limit) s)"

definition cold_start_summary_limit :: nat where
  "cold_start_summary_limit = 4000"

definition record_usage :: "token_usage \<Rightarrow> unit turn" where
  "record_usage u = bind (on_node (\<lambda>n. n\<lparr>n_usage := Some u\<rparr>)) (\<lambda>_. update_self)"

text \<open>\<open>str.lower\<close> on the characters of the model, and \<open>a in b\<close>.\<close>

definition lower_char :: "char \<Rightarrow> char" where
  "lower_char c = (let k = (of_char c :: nat) in
     if 65 \<le> k \<and> k \<le> 90 \<or> 192 \<le> k \<and> k \<le> 222 \<and> k \<noteq> 215 then char_of (k + 32) else c)"

definition lower :: "pystr \<Rightarrow> pystr" where
  "lower s = map lower_char s"

definition slashes :: "pystr \<Rightarrow> pystr" where
  "slashes s = map (\<lambda>c. if c = CHR 0x5C then CHR ''/'' else c) s"

fun contains :: "pystr \<Rightarrow> pystr \<Rightarrow> bool" where
  "contains p [] = (p = [])"
| "contains p (c # s) = (starts_with p (c # s) \<or> contains p s)"

definition ends_with :: "pystr \<Rightarrow> pystr \<Rightarrow> bool" where
  "ends_with p s = starts_with (rev p) (rev s)"

text \<open>
  \<open>_record_skill_use\<close>. The payload is what \<open>json.loads\<close> makes of the summary, \<open>None\<close> when it
  raises. The entries of the audit hold strings.
\<close>

definition field_text :: "(pystr, json) dict \<Rightarrow> pystr \<Rightarrow> pystr" where
  "field_text item k = (case map_of item k of Some (JStr s) \<Rightarrow> s | _ \<Rightarrow> [])"

fun first_truthy :: "json option list \<Rightarrow> json" where
  "first_truthy [] = JNull"
| "first_truthy (Some j # js) = (if json_truthy j \<or> js = [] then j else first_truthy js)"
| "first_truthy (None # js) = first_truthy js"

definition named_skill :: "activity \<Rightarrow> pystr" where
  "named_skill a =
     (if lower (act_name a) \<noteq> ''skill'' then []
      else case act_payload a of
        Some (JObj kvs) \<Rightarrow>
          (case first_truthy [map_of kvs ''skill'', map_of kvs ''name'', map_of kvs ''command''] of
             JStr s \<Rightarrow> lower (strip s) | _ \<Rightarrow> [])
      | _ \<Rightarrow> [])"

definition activity_text :: "activity \<Rightarrow> pystr" where
  "activity_text a = slashes (lower (join_with [CHR 0x0A] (filter (\<lambda>s. s \<noteq> [])
     [act_summary a, or_empty (act_parameters a), or_empty (act_command a), or_empty (act_result a)])))"

definition skill_matches :: "pystr \<Rightarrow> pystr \<Rightarrow> (pystr, json) dict \<Rightarrow> bool" where
  "skill_matches named lowered item =
     (let slug = lower (field_text item ''slug''); nm = lower (field_text item ''name'');
          materialized = field_text item ''materialized_path'';
          skill_md = (if materialized = [] then [] else slashes (lower (materialized @ ''/SKILL.md''))) in
      (named \<noteq> [] \<and> (named \<in> {slug, nm, ''skills.'' @ slug} \<or> ends_with ('':'' @ slug) named)) \<or>
      (skill_md \<noteq> [] \<and> contains skill_md lowered) \<or>
      (slug \<noteq> [] \<and> contains (''/skills/'' @ slug @ ''/skill.md'') lowered))"

definition already_used :: "(pystr, json) dict \<Rightarrow> bool" where
  "already_used item = (case map_of item ''used'' of None \<Rightarrow> False | Some j \<Rightarrow> json_truthy j)"

definition use_item :: "activity \<Rightarrow> int \<Rightarrow> json \<Rightarrow> json \<times> bool" where
  "use_item a now j = (case j of
     JObj item \<Rightarrow>
       if \<not> already_used item \<and> skill_matches (named_skill a) (activity_text a) item
       then (JObj (AList.update ''used_at'' (JInt now) (AList.update ''used'' (JBool True) item)), True)
       else (j, False)
   | _ \<Rightarrow> (j, False))"

definition record_skill_use :: "activity \<Rightarrow> bool turn" where
  "record_skill_use a =
     bind (reading (\<lambda>r. (map_of (n_settings_snapshot (r_node r)) ''skill_audit'', w_now (r_world r)))) (\<lambda>(audit, now).
     case audit of
       Some (JList items) \<Rightarrow>
         let out = map (use_item a now) items in
         if list_ex snd out
         then bind (on_node (\<lambda>n. n\<lparr>n_settings_snapshot :=
             AList.update ''skill_audit'' (JList (map fst out)) (n_settings_snapshot n)\<rparr>)) (\<lambda>_.
           bind update_self (\<lambda>_. ret True))
         else ret False
     | _ \<Rightarrow> ret False)"

definition observed_settings :: "pystr list" where
  "observed_settings = [''observed_codex_home'', ''observed_model_provider'', ''observed_remote_executor_version'',
     ''observed_environment_id'']"

definition allowed_settings :: "(pystr, json) dict \<Rightarrow> (pystr, json) dict" where
  "allowed_settings d = filter (\<lambda>(k, v). k \<in> set observed_settings \<and> (case v of JStr s \<Rightarrow> s \<noteq> [] | _ \<Rightarrow> False)) d"

definition handle_wire :: "outside \<Rightarrow> project \<Rightarrow> wire \<Rightarrow> unit turn" where
  "handle_wire su p e =
     bind (case e of
         UsageEvent u \<Rightarrow> record_usage u
       | TextDelta t \<Rightarrow> writing (\<lambda>r. if is_cold_start (r_node r)
           then r\<lparr>r_cold_text := tail_text (r_cold_text r @ t) cold_start_summary_limit\<rparr> else r)
       | _ \<Rightarrow> ret ()) (\<lambda>_.
     bind (case e of ActivityEvent a \<Rightarrow> record_skill_use a | _ \<Rightarrow> ret False) (\<lambda>skill_used.
     bind (emit su p (SentWire e)) (\<lambda>_.
     if (case e of UsageEvent u \<Rightarrow> True | _ \<Rightarrow> skill_used) then emit_node su p SentUpdated else ret ())))"

definition save_and_tell :: "outside \<Rightarrow> project \<Rightarrow> (node \<Rightarrow> node) \<Rightarrow> unit turn" where
  "save_and_tell su p f = bind (on_node f) (\<lambda>_. bind update_self (\<lambda>_. emit_node su p SentUpdated))"

definition handle_provider_event :: "outside \<Rightarrow> project \<Rightarrow> provider_event \<Rightarrow> unit turn" where
  "handle_provider_event su p ev =
     (if pe_kind ev = ''event'' \<and> pe_event ev \<noteq> None then handle_wire su p (the (pe_event ev))
      else if pe_kind ev = ''session'' \<and> truthy (pe_session_id ev)
        then save_and_tell su p (\<lambda>n. n\<lparr>n_provider_session_id := pe_session_id ev\<rparr>)
      else if pe_kind ev = ''turn'' \<and> truthy (pe_turn_id ev)
        then save_and_tell su p (\<lambda>n. n\<lparr>n_provider_turn_id := pe_turn_id ev\<rparr>)
      else if pe_kind ev = ''settings'' \<and> pe_settings ev \<noteq> None
        then (case allowed_settings (the (pe_settings ev)) of
            [] \<Rightarrow> ret ()
          | allowed \<Rightarrow> save_and_tell su p (\<lambda>n. n\<lparr>n_settings_snapshot := dict_updates (n_settings_snapshot n) allowed\<rparr>))
      else if pe_kind ev = ''error'' \<and> truthy (pe_error ev) then emit su p (SentError (ProviderError (pe_error ev)))
      else ret ())"

section \<open>A provider turn\<close>

definition state_from_provider :: "pystr option \<Rightarrow> node_state option" where
  "state_from_provider v = (if v = Some ''cancelled'' then Some Cancelled else if v = Some ''error'' then Some Error
     else if v = Some ''done'' then Some Done else None)"

definition retry_delays :: "nat list" where
  "retry_delays = [60, 60, 300]"

datatype terminal = NoTerminal | DoneSeen "pystr option" | ErrorSeen "pystr option" | RateLimitSeen provider_event

definition terminal_of :: "provider_event \<Rightarrow> terminal option" where
  "terminal_of ev = (if pe_kind ev = ''done'' then Some (DoneSeen (pe_final_state ev))
     else if pe_kind ev = ''error'' then Some (ErrorSeen (pe_error ev))
     else if pe_kind ev = ''rate_limit'' then Some (RateLimitSeen ev) else None)"

text \<open>\<open>async for ev in stream\<close>: up to the first terminal event, an exception, or the end.\<close>

fun consume :: "outside \<Rightarrow> project \<Rightarrow> provider_event list \<Rightarrow> stream_end \<Rightarrow> terminal turn" where
  "consume su p [] ending = bind (meanwhile su) (\<lambda>_. case ending of Exhausted \<Rightarrow> ret NoTerminal | StreamFails e \<Rightarrow> raise e)"
| "consume su p (ev # evs) ending =
     bind (meanwhile su) (\<lambda>_. bind (handle_provider_event su p ev) (\<lambda>_.
       case terminal_of ev of Some t \<Rightarrow> ret t | None \<Rightarrow> consume su p evs ending))"

definition open_stream :: "outside \<Rightarrow> project \<Rightarrow> terminal turn" where
  "open_stream su p =
     bind (reading r_streams) (\<lambda>k.
     bind (writing (\<lambda>r. r\<lparr>r_streams := k + 1\<rparr>)) (\<lambda>_.
     consume su p (su_events su k) (su_ending su k)))"

definition wait_for_rate_limit :: "outside \<Rightarrow> project \<Rightarrow> provider_event \<Rightarrow> nat \<Rightarrow> nat \<Rightarrow> unit turn" where
  "wait_for_rate_limit su p ev attempt delay =
     bind (transition p Waiting False False) (\<lambda>_.
     bind (emit_node su p SentUpdated) (\<lambda>_.
     bind (emit su p (SentWait attempt delay (pe_resets_at ev) (pe_observed_at ev))) (\<lambda>_.
     bind (reading (\<lambda>r. length (r_waits r))) (\<lambda>k.
     bind (writing (\<lambda>r. r\<lparr>r_waits := r_waits r @ [delay]\<rparr>)) (\<lambda>_.
     bind (meanwhile su) (\<lambda>_.
     if su_cancel_wait su k then raise Cancel
     else bind (transition p Running False False) (\<lambda>_. emit_node su p SentUpdated)))))))"

definition auto_retry :: "node \<Rightarrow> bool" where
  "auto_retry n = (case map_of (n_settings_snapshot n) ''codex_rate_limit_auto_retry'' of
     None \<Rightarrow> True | Some j \<Rightarrow> json_truthy j)"

definition fail_turn :: "outside \<Rightarrow> project \<Rightarrow> failure \<Rightarrow> (node_state \<times> failure option) turn" where
  "fail_turn su p f = bind (emit su p (SentError f)) (\<lambda>_. ret (Error, Some f))"

text \<open>After a stream; \<open>again\<close> waits and starts the next attempt, when one is left.\<close>

definition after_stream :: "outside \<Rightarrow> project \<Rightarrow> terminal \<Rightarrow>
    (provider_event \<Rightarrow> (node_state \<times> failure option) turn) option \<Rightarrow> (node_state \<times> failure option) turn" where
  "after_stream su p t again = (case t of
     DoneSeen v \<Rightarrow>
       if v \<noteq> None \<and> state_from_provider v = None then fail_turn su p (UnknownFinalState v)
       else ret (case state_from_provider v of None \<Rightarrow> Done | Some s \<Rightarrow> s, None)
   | ErrorSeen e \<Rightarrow>
       bind (if e = None then emit su p (SentError (ProviderError None)) else ret ()) (\<lambda>_.
         ret (Error, Some (ProviderError e)))
   | RateLimitSeen ev \<Rightarrow>
       bind (reading (\<lambda>r. auto_retry (r_node r))) (\<lambda>enabled.
         case again of
           Some f \<Rightarrow> if enabled then f ev else fail_turn su p (RateLimited (pe_error ev) enabled)
         | None \<Rightarrow> fail_turn su p (RateLimited (pe_error ev) enabled))
   | NoTerminal \<Rightarrow> fail_turn su p NoTerminalEvent)"

text \<open>The \<open>while True\<close> loop: \<open>delays\<close> are the waits that are left after \<open>attempt\<close> retries.\<close>

definition missing_binding :: "world \<Rightarrow> project \<Rightarrow> model_preset option \<Rightarrow> bool" where
  "missing_binding w p m = (p_persistence_mode p = Remote \<and> map_option mp_provider m = Some Codex \<and>
     map_of (w_remote w) (p_id p) = None)"

fun turn_loop :: "outside \<Rightarrow> project \<Rightarrow> model_preset option \<Rightarrow> nat \<Rightarrow> nat list \<Rightarrow> (node_state \<times> failure option) turn" where
  "turn_loop su p m attempt [] =
     bind (reading (\<lambda>r. missing_binding (r_world r) p m)) (\<lambda>missing.
     if missing then ret (Error, Some BindingMissing)
     else bind (open_stream su p) (\<lambda>t. after_stream su p t None))"
| "turn_loop su p m attempt (d # ds) =
     bind (reading (\<lambda>r. missing_binding (r_world r) p m)) (\<lambda>missing.
     if missing then ret (Error, Some BindingMissing)
     else bind (open_stream su p) (\<lambda>t. after_stream su p t (Some (\<lambda>ev.
       bind (wait_for_rate_limit su p ev (attempt + 1) d) (\<lambda>_. turn_loop su p m (attempt + 1) ds)))))"

definition preset_of_run :: "run \<Rightarrow> stop + model_preset option" where
  "preset_of_run r = (case get_model_preset (st_config (w_store (r_world r))) (n_model_preset_id (r_node r)) of
     Inl e \<Rightarrow> Inl (Raised (PresetRejected e)) | Inr m \<Rightarrow> Inr m)"

definition run_provider_turn :: "outside \<Rightarrow> project \<Rightarrow> (node_state \<times> failure option) turn" where
  "run_provider_turn su p = bind (reading_result preset_of_run) (\<lambda>m. turn_loop su p m 0 retry_delays)"

end
