(* ===== verification/Agent_Run.thy ===== *)
theory Agent_Run
  imports Runner
begin

text \<open>
  The end of an agent node, \<open>runner.py\<close>: publishing the outputs, the reap of the lane under repair turns,
  the previews the framework writes, and the part of \<open>_run_agent\<close> from the first transition on.
  What comes before it (the context bundle, the skills, the lane's files, the launch instructions) prepares
  the provider's input; here it is only whether it raised.
\<close>

section \<open>Previews the framework writes\<close>

definition publish :: "outside \<Rightarrow> pystr list \<Rightarrow> artifact_ref list turn" where
  "publish su declared =
     bind (reading (\<lambda>r. (su_files su (r_streams r), r_node r))) (\<lambda>(files, n). case files of
       Inl e \<Rightarrow> raise (IOFailure e)
     | Inr fs \<Rightarrow> (case publish_artifacts fs n declared of (n', stored, refs) \<Rightarrow>
         bind (writing (\<lambda>r. r\<lparr>r_node := n', r_stored := stored\<rparr>)) (\<lambda>_. ret refs)))"

definition declared_artifacts :: "pystr option \<Rightarrow> pystr list \<Rightarrow> pystr list" where
  "declared_artifacts diff names =
     (if truthy diff \<and> or_empty diff \<notin> set names then names @ [or_empty diff] else names)"

definition agent_artifact_refs :: "pystr option \<Rightarrow> pystr list \<Rightarrow> artifact_ref list \<Rightarrow> artifact_ref list" where
  "agent_artifact_refs diff declared refs = filter (\<lambda>r. art_name r \<in> set declared \<and> Some (art_name r) \<noteq> diff) refs"

definition published_names :: "node \<Rightarrow> pystr list" where
  "published_names n = map art_name (filter is_published (n_artifacts n))"

definition preview_state :: "node_state \<Rightarrow> node_state" where
  "preview_state s = (if s \<in> {Done, Error, Cancelled} then s else Error)"

definition persist_executed_preview ::
  "project \<Rightarrow> node_state \<Rightarrow> pystr \<Rightarrow> pystr \<Rightarrow> pystr \<Rightarrow> pystr list \<Rightarrow> unit turn" where
  "persist_executed_preview p final motivation summary implications artifacts =
     bind (reading (\<lambda>r. (w_now (r_world r), (r_node r)\<lparr>n_state := preview_state final\<rparr>))) (\<lambda>(now, n).
     case render_executed_preview now n motivation summary implications artifacts of
       Inl e \<Rightarrow> ret ()
     | Inr doc \<Rightarrow> except_exception (on_world (put_preview (p_id p) (n_id n) doc)) (\<lambda>_. ret ()))"

definition motivation_of :: "node \<Rightarrow> pystr" where
  "motivation_of n = (if n_prompt n = [] then ''(no motivation recorded)'' else take 200 (n_prompt n))"

definition write_stub_preview :: "outside \<Rightarrow> project \<Rightarrow> node_state \<Rightarrow> failure option \<Rightarrow> unit turn" where
  "write_stub_preview su p final reason =
     bind (reading (\<lambda>r. declared_artifacts (r_diff_artifact r) [])) (\<lambda>declared.
     bind (publish su declared) (\<lambda>_.
     bind (reading r_node) (\<lambda>n.
     persist_executed_preview p final (motivation_of n)
       (case reason of None \<Rightarrow> su_text su StubSummary
        | Some f \<Rightarrow> if su_wording su f = [] then su_text su StubSummary else su_wording su f)
       (su_text su StubImplications) (published_names n))))"

definition write_cold_start_preview :: "outside \<Rightarrow> project \<Rightarrow> node_state \<Rightarrow> failure option \<Rightarrow> unit turn" where
  "write_cold_start_preview su p final reason =
     (if final \<noteq> Done then write_stub_preview su p final reason
      else
        bind (reading (\<lambda>r. tail_text (strip (r_cold_text r)) cold_start_summary_limit)) (\<lambda>text_tail.
        let summary = (if text_tail = [] then su_text su ColdNoText else text_tail) in
        bind (on_node (\<lambda>n. n\<lparr>n_summary := Some summary\<rparr>)) (\<lambda>_.
        bind (reading (\<lambda>r. declared_artifacts (r_diff_artifact r)
          (filter (\<lambda>s. path_suffix s \<in> set allowed_artifact_suffixes) (su_outputs su (r_streams r))))) (\<lambda>declared.
        bind (publish su declared) (\<lambda>_.
        bind (reading r_node) (\<lambda>n.
        persist_executed_preview p final (su_text su ColdMotivation) summary (su_text su ColdImplications) (published_names n)))))))"

section \<open>The node's own preview\<close>

definition own_path :: "node \<Rightarrow> pystr" where
  "own_path n = ''nodes/'' @ n_id n @ ''/preview.json''"

text \<open>Reading and judging it: the reason, or the document and the preview. Bad UTF-8 raises.\<close>

definition read_own :: "outside \<Rightarrow> (why + json \<times> executed_preview) turn" where
  "read_own su = bind (reading (\<lambda>r. (text_at (su_tree su (r_streams r)) (own_path (r_node r)), r_node r))) (\<lambda>(text, n).
     case text of
       NoRead \<Rightarrow> ret (Inl OwnUnreadable)
     | NotUtf8 \<Rightarrow> raise (Raised (ValueError ''not utf-8''))
     | Text doc \<Rightarrow> (case parse_preview doc of
         Inl es \<Rightarrow> ret (Inl (OwnIssues es))
       | Inr (VirtualP v) \<Rightarrow> ret (Inl OwnIsVirtual)
       | Inr (ExecutedP x) \<Rightarrow> (case validate_preview_for_node (ExecutedP x) n of
           [] \<Rightarrow> ret (Inr (the doc, x))
         | ms \<Rightarrow> ret (Inl (OwnMismatches ms)))))"

text \<open>\<open>except OSError\<close> around the publication.\<close>

definition try_publish :: "outside \<Rightarrow> pystr list \<Rightarrow> (why + artifact_ref list) turn" where
  "try_publish su declared = catching (bind (publish su declared) (\<lambda>refs. ret (Inr refs)))
     (\<lambda>e. case e of IOFailure m \<Rightarrow> ret (Inl (PublishFailed m)) | _ \<Rightarrow> raise e)"

definition publish_own :: "outside \<Rightarrow> executed_preview \<Rightarrow> why option turn" where
  "publish_own su x =
     bind (reading (\<lambda>r. (r_diff_artifact r, n_artifact_mode (r_node r)))) (\<lambda>(diff, m).
     bind (try_publish su (declared_artifacts diff (xp_artifacts x))) (\<lambda>refs. case refs of
       Inl reason \<Rightarrow> ret (Some reason)
     | Inr rs \<Rightarrow> ret (map_option ArtifactsMissing
         (artifact_requirement_issue m (agent_artifact_refs diff (xp_artifacts x) rs)))))"

definition persist_own :: "project \<Rightarrow> json \<Rightarrow> unit turn" where
  "persist_own p doc = bind (reading (n_id \<circ> r_node)) (\<lambda>nid. on_world (put_preview (p_id p) nid doc))"

definition run_reap :: "outside \<Rightarrow> project \<Rightarrow> (stop + reap_result) turn" where
  "run_reap su p =
     bind (reading (\<lambda>r. (su_tree su (r_streams r), r_node r, r_pre r))) (\<lambda>(tree, n, pre).
     except_exception (bind (on_world (reap_lane (su_env su) p n tree pre)) (\<lambda>res. ret (Inr res))) (\<lambda>e. ret (Inl e)))"

text \<open>\<open>_try_reap_and_persist\<close>: the reason it failed, or nothing.\<close>

definition commit_reap :: "project \<Rightarrow> json \<Rightarrow> stop + reap_result \<Rightarrow> why option turn" where
  "commit_reap p doc res = (case res of
     Inl e \<Rightarrow> ret (Some (ReapRaised e))
   | Inr r \<Rightarrow>
       if rr_fatal r \<or> \<not> rr_own_ok r then ret (Some (ReapRejected (rr_reasons r)))
       else if rr_own r = None then ret (Some NoOwnReturned)
       else bind (persist_own p doc) (\<lambda>_.
         bind (for_each (rr_new r @ rr_modified r) (\<lambda>v. bind (on_world (save v)) (\<lambda>_. ret ()))) (\<lambda>_. ret None)))"

definition try_reap_and_persist :: "outside \<Rightarrow> project \<Rightarrow> why option turn" where
  "try_reap_and_persist su p =
     bind (reading r_lane) (\<lambda>lane.
     if \<not> lane then ret (Some NoLane)
     else bind (read_own su) (\<lambda>own. case own of
         Inl reason \<Rightarrow> ret (Some reason)
       | Inr (doc, x) \<Rightarrow> bind (publish_own su x) (\<lambda>issue. case issue of
           Some reason \<Rightarrow> ret (Some reason)
         | None \<Rightarrow> bind (run_reap su p) (\<lambda>res. commit_reap p doc res))))"

definition try_persist_unlaned_preview :: "outside \<Rightarrow> project \<Rightarrow> why option turn" where
  "try_persist_unlaned_preview su p =
     bind (read_own su) (\<lambda>own. case own of
       Inl reason \<Rightarrow> ret (Some reason)
     | Inr (doc, x) \<Rightarrow> bind (publish_own su x) (\<lambda>issue. case issue of
         Some reason \<Rightarrow> ret (Some reason)
       | None \<Rightarrow> bind (persist_own p doc) (\<lambda>_. ret None)))"

section \<open>Repairs\<close>

definition preview_repair_retries :: nat where
  "preview_repair_retries = 3"

definition append_error :: "outside \<Rightarrow> failure \<Rightarrow> unit turn" where
  "append_error su f = on_node (\<lambda>n. n\<lparr>n_error :=
     Some ((if truthy (n_error n) then or_empty (n_error n) @ [CHR 0x0A] else []) @ su_wording su f)\<rparr>)"

text \<open>After a repair turn; \<open>again\<close> is the next attempt.\<close>

definition after_repair :: "outside \<Rightarrow> project \<Rightarrow> (why \<Rightarrow> node_state turn) \<Rightarrow> node_state \<Rightarrow> failure option \<Rightarrow> node_state turn" where
  "after_repair su p again state err = (case err of
     Some f \<Rightarrow>
       bind (on_node (\<lambda>n. n\<lparr>n_error := Some (su_wording su f)\<rparr>)) (\<lambda>_.
       bind (write_stub_preview su p Error (Some f)) (\<lambda>_. ret Error))
   | None \<Rightarrow>
       if state \<noteq> Done
       then bind (write_stub_preview su p state (Some (RepairEnded state))) (\<lambda>_. ret state)
       else bind (try_reap_and_persist su p) (\<lambda>issue. case issue of None \<Rightarrow> ret Done | Some w \<Rightarrow> again w))"

text \<open>The loop: \<open>left\<close> attempts remain, the last reap failed for \<open>reason\<close>.\<close>

fun repair_loop :: "outside \<Rightarrow> project \<Rightarrow> nat \<Rightarrow> why \<Rightarrow> node_state turn" where
  "repair_loop su p 0 reason =
     bind (append_error su (RepairAbandoned reason)) (\<lambda>_.
     bind (write_stub_preview su p Error (Some (RepairAbandoned reason))) (\<lambda>_. ret Error))"
| "repair_loop su p (Suc left) reason =
     bind (emit su p (SentRepair (preview_repair_retries - left) reason)) (\<lambda>_.
     bind (run_provider_turn su p) (\<lambda>(state, err). after_repair su p (\<lambda>w. repair_loop su p left w) state err))"

definition reap_with_preview_repairs :: "outside \<Rightarrow> project \<Rightarrow> node_state turn" where
  "reap_with_preview_repairs su p =
     bind (try_reap_and_persist su p) (\<lambda>issue. case issue of
       None \<Rightarrow> ret Done | Some reason \<Rightarrow> repair_loop su p preview_repair_retries reason)"

definition reap_and_finalize :: "outside \<Rightarrow> project \<Rightarrow> node_state \<Rightarrow> failure option \<Rightarrow> node_state turn" where
  "reap_and_finalize su p final reason =
     (if final \<noteq> Done then bind (write_stub_preview su p final reason) (\<lambda>_. ret final)
      else bind (reading r_lane) (\<lambda>lane.
        if \<not> lane
        then bind (try_persist_unlaned_preview su p) (\<lambda>issue.
          bind (if issue \<noteq> None then write_stub_preview su p final None else ret ()) (\<lambda>_. ret final))
        else bind (try_reap_and_persist su p) (\<lambda>issue. case issue of
            None \<Rightarrow> ret final
          | Some w \<Rightarrow>
              bind (append_error su (ReapFatal w)) (\<lambda>_.
              bind (write_stub_preview su p Error (Some (ReapFatal w))) (\<lambda>_. ret Error)))))"

section \<open>Running an agent\<close>

definition human_review_prose :: "json \<Rightarrow> pystr" where
  "human_review_prose response = (case response of
     JObj kvs \<Rightarrow> (case map_of kvs ''response'' of
       Some (JObj nested) \<Rightarrow> (case map_of nested ''prose'' of Some (JStr s) \<Rightarrow> s | _ \<Rightarrow> [])
     | _ \<Rightarrow> [])
   | _ \<Rightarrow> [])"

definition request_human_review_prose :: "outside \<Rightarrow> project \<Rightarrow> pystr turn" where
  "request_human_review_prose su p =
     bind (emit su p SentProseRequest) (\<lambda>_.
     bind (meanwhile su) (\<lambda>_. case su_prose su of
       Inl e \<Rightarrow> raise e | Inr response \<Rightarrow> ret (strip (human_review_prose response))))"

definition take_pre_snapshot :: "outside \<Rightarrow> unit turn" where
  "take_pre_snapshot su = writing (\<lambda>r. r\<lparr>r_pre := (if r_lane r then snapshot_lane (su_tree su (r_streams r)) else [])\<rparr>)"

definition validate_library :: "outside \<Rightarrow> bool \<Rightarrow> unit turn" where
  "validate_library su provenance =
     bind (reading (\<lambda>r. su_library su provenance (r_streams r))) (\<lambda>(audit, issue).
     bind (on_node (\<lambda>n. n\<lparr>n_settings_snapshot := AList.update ''library_audit'' audit (n_settings_snapshot n)\<rparr>)) (\<lambda>_.
     bind update_self (\<lambda>_. case issue of None \<Rightarrow> ret () | Some m \<Rightarrow> raise (Raised (ValueError m)))))"

definition library_failure :: "stop \<Rightarrow> failure" where
  "library_failure e = (case e of Raised (ValueError m) \<Rightarrow> LibraryRejected m | _ \<Rightarrow> Unexpected e)"

type_synonym outcome = "node_state \<times> failure option \<times> bool"

definition provider_phase :: "outside \<Rightarrow> project \<Rightarrow> bool \<Rightarrow> outcome turn" where
  "provider_phase su p human =
     bind (take_pre_snapshot su) (\<lambda>_.
     bind (if human then bind (transition p Running False False) (\<lambda>_. emit_node su p SentUpdated) else ret ()) (\<lambda>_.
     bind (run_provider_turn su p) (\<lambda>(final, err).
     bind (reading (\<lambda>r. n_agent_op_kind (r_node r))) (\<lambda>op.
     if final = Done \<and> op = Some ''library_edit''
     then except_exception (bind (validate_library su False) (\<lambda>_. ret (final, err, True)))
       (\<lambda>e. bind (emit su p (SentError (library_failure e))) (\<lambda>_. ret (Error, Some (library_failure e), False)))
     else ret (final, err, False)))))"

definition agent_phase :: "outside \<Rightarrow> project \<Rightarrow> bool \<Rightarrow> outcome turn" where
  "agent_phase su p human =
     (if human
      then bind (request_human_review_prose su p) (\<lambda>prose.
        if blank prose then ret (Cancelled, Some NoProse, False)
        else bind (writing (\<lambda>r. r\<lparr>r_prose := Some prose\<rparr>)) (\<lambda>_. provider_phase su p human))
      else provider_phase su p human)"

definition guarded_phase :: "outside \<Rightarrow> project \<Rightarrow> bool \<Rightarrow> outcome turn" where
  "guarded_phase su p human =
     except_exception (except_cancelled (agent_phase su p human) (ret (Cancelled, None, False)))
       (\<lambda>e. bind (emit su p (SentError (Unexpected e))) (\<lambda>_. ret (Error, Some (Unexpected e), False)))"

definition note_end :: "outside \<Rightarrow> failure option \<Rightarrow> unit turn" where
  "note_end su err = writing (\<lambda>r. r\<lparr>
     r_node := (r_node r)\<lparr>n_error := (case err of None \<Rightarrow> n_error (r_node r) | Some f \<Rightarrow> Some (su_wording su f)),
       n_commit_after := su_head su (r_streams r)\<rparr>,
     r_diff_artifact := su_diff su\<rparr>)"

definition settle_previews :: "outside \<Rightarrow> project \<Rightarrow> bool \<Rightarrow> node_state \<Rightarrow> failure option \<Rightarrow> node_state turn" where
  "settle_previews su p cold final err =
     (if cold then bind (write_cold_start_preview su p final err) (\<lambda>_. ret final)
      else bind (reading r_lane) (\<lambda>lane.
        if final = Done \<and> lane
        then except_cancelled (reap_with_preview_repairs su p)
          (bind (write_stub_preview su p Cancelled (Some RepairCancelled)) (\<lambda>_. ret Cancelled))
        else reap_and_finalize su p final err))"

definition recheck_library :: "outside \<Rightarrow> project \<Rightarrow> bool \<Rightarrow> node_state \<Rightarrow> node_state turn" where
  "recheck_library su p checked final =
     (if checked \<and> final = Done
      then except_exception (bind (validate_library su True) (\<lambda>_. ret final))
        (\<lambda>e. bind (on_node (\<lambda>n. n\<lparr>n_error := Some (su_wording su (library_failure e))\<rparr>)) (\<lambda>_.
          bind (write_stub_preview su p Error (Some (library_failure e))) (\<lambda>_.
          bind (emit su p (SentError (library_failure e))) (\<lambda>_. ret Error))))
      else ret final)"

definition agent_end :: "outside \<Rightarrow> project \<Rightarrow> bool \<Rightarrow> outcome \<Rightarrow> unit turn" where
  "agent_end su p cold out = (case out of (final, err, checked) \<Rightarrow>
     bind (note_end su err) (\<lambda>_.
     bind (settle_previews su p cold final err) (\<lambda>settled.
     bind (recheck_library su p checked settled) (\<lambda>s.
     bind (transition p s False True) (\<lambda>_.
     bind (emit_node su p SentUpdated) (\<lambda>_. emit_node su p SentDone))))))"

definition agent_body :: "outside \<Rightarrow> project \<Rightarrow> stop option \<Rightarrow> unit turn" where
  "agent_body su p launch = (case launch of
     Some e \<Rightarrow> raise e
   | None \<Rightarrow> bind (reading (\<lambda>r. (is_human_interact_review (r_node r), is_cold_start (r_node r)))) (\<lambda>(human, cold).
       bind (transition p (if human then AwaitingHumanInput else Running) True False) (\<lambda>_.
       bind (emit_node su p SentStarted) (\<lambda>_.
       bind (emit_node su p SentUpdated) (\<lambda>_.
       bind (guarded_phase su p human) (\<lambda>out. agent_end su p cold out))))))"

text \<open>The handlers of the outer \<open>try\<close>.\<close>

definition agent_failed :: "outside \<Rightarrow> project \<Rightarrow> stop \<Rightarrow> unit turn" where
  "agent_failed su p e =
     bind (note_end su (Some (Unexpected e))) (\<lambda>_.
     bind (write_stub_preview su p Error (Some (Unexpected e))) (\<lambda>_.
     bind (transition p Error True True) (\<lambda>_.
     bind (emit_node su p SentStarted) (\<lambda>_.
     bind (emit su p (SentError (Unexpected e))) (\<lambda>_.
     bind (emit_node su p SentUpdated) (\<lambda>_. emit_node su p SentDone))))))"

definition run_agent :: "outside \<Rightarrow> project \<Rightarrow> stop option \<Rightarrow> unit turn" where
  "run_agent su p launch = except_exception (agent_body su p launch) (agent_failed su p)"

end
