(* ===== verification/Op_Run.thy ===== *)
theory Op_Run
  imports Agent_Run
begin

text \<open>
  The runners of nodes that do not go through the reap, \<open>runner.py\<close>: Git operations, verifier scripts and native
  code reviews. What Git, the script's process and the review provider do are the records \<open>op_outside\<close>,
  \<open>verify_outside\<close> and \<open>review_outside\<close>, beside the record \<open>outside\<close> of the agent runner; every answer
  may also be an exception or a cancellation. A program's output is its decoded text.
\<close>

section \<open>Decimal numerals\<close>

fun decimal :: "nat \<Rightarrow> pystr" where
  "decimal n = (if n < 10 then [char_of (48 + n)] else decimal (n div 10) @ [char_of (48 + n mod 10)])"

definition signed_decimal :: "int \<Rightarrow> pystr" where
  "signed_decimal i = (if i < 0 then CHR ''-'' # decimal (nat (- i)) else decimal (nat i))"

section \<open>Git operations\<close>

record op_outside =
  oo_before :: "pystr option"
  oo_after :: "pystr option"
  oo_commit :: "pystr \<Rightarrow> stop + pystr option \<times> pystr option"
  oo_unpushed :: "bool \<Rightarrow> stop + pystr list option"
  oo_pull :: "stop + pystr option \<times> pystr option"
  oo_implications :: pystr

text \<open>The runner's state with the aliases that the store keeps for the project on this host.\<close>

record op_state =
  os_run :: run
  os_aliases :: "(pystr, pystr) dict"

type_synonym 'a op_prog = "(stop, op_state, 'a) prog"

definition on_turn :: "'a turn \<Rightarrow> 'a op_prog" where
  "on_turn m = zoom os_run (\<lambda>r s. s\<lparr>os_run := r\<rparr>) m"

definition asking :: "outside \<Rightarrow> stop + 'a \<Rightarrow> 'a turn" where
  "asking su answer = bind (meanwhile su) (\<lambda>_. result answer)"

definition write_git_aliases :: "project \<Rightarrow> (pystr, pystr) dict \<Rightarrow> unit op_prog" where
  "write_git_aliases p aliases =
     bind (on_turn (on_world (on_store assert_writable))) (\<lambda>_.
     bind (writing (\<lambda>s. s\<lparr>os_aliases := aliases\<rparr>)) (\<lambda>_.
     on_turn (on_world (on_store (schedule_commit (''update git aliases for project '' @ p_id p))))))"

definition op_message :: "node \<Rightarrow> pystr" where
  "op_message n = (if blank (n_prompt n)
     then ''miniclaw:node:'' @ (if truthy (n_parent_node_id n) then or_empty (n_parent_node_id n) else n_id n)
     else strip (n_prompt n))"

definition no_temporary :: "project \<Rightarrow> unit turn" where
  "no_temporary p = (if p_temporary p then raise (Raised (ValueError ''temporary project'')) else ret ())"

type_synonym verdict = "node_state \<times> failure option"

definition run_commit :: "outside \<Rightarrow> op_outside \<Rightarrow> project \<Rightarrow> verdict turn" where
  "run_commit su oo p =
     bind (no_temporary p) (\<lambda>_.
     bind (reading (\<lambda>r. op_message (r_node r))) (\<lambda>message.
     bind (asking su (oo_commit oo message)) (\<lambda>(new_head, err). case err of
       Some m \<Rightarrow> ret (Error, Some (OpFailed m))
     | None \<Rightarrow> (case new_head of
         None \<Rightarrow> bind (on_node (\<lambda>n. n\<lparr>n_summary := Some ''no changes to commit'', n_commit_after := n_commit_before n\<rparr>))
           (\<lambda>_. ret (Done, None))
       | Some h \<Rightarrow> bind (on_node (\<lambda>n. n\<lparr>n_summary := Some (''commit '' @ take 8 h), n_commit_after := Some h\<rparr>))
           (\<lambda>_. ret (Done, None))))))"

definition record_aliases :: "project \<Rightarrow> pystr list option \<Rightarrow> pystr list option \<Rightarrow> unit op_prog" where
  "record_aliases p old_local new_local = (case (old_local, new_local) of
     (Some olds, Some news) \<Rightarrow>
       if length olds = length news \<and> olds \<noteq> []
       then bind (reading os_aliases) (\<lambda>known_aliases.
         write_git_aliases p (dict_updates known_aliases (dict_updates [] (zip olds news))))
       else ret ()
   | _ \<Rightarrow> ret ())"

definition pulled_summary :: "pystr option \<Rightarrow> pystr" where
  "pulled_summary head = (if truthy head then ''rebased to '' @ take 8 (or_empty head) else ''already up to date'')"

definition run_pull :: "outside \<Rightarrow> op_outside \<Rightarrow> project \<Rightarrow> verdict op_prog" where
  "run_pull su oo p =
     bind (on_turn (no_temporary p)) (\<lambda>_.
     bind (on_turn (asking su (oo_unpushed oo True))) (\<lambda>old_local.
     bind (on_turn (asking su (oo_pull oo))) (\<lambda>(new_head, err). case err of
       Some m \<Rightarrow> ret (Error, Some (OpFailed m))
     | None \<Rightarrow>
         bind (on_turn (asking su (oo_unpushed oo False))) (\<lambda>new_local.
         bind (record_aliases p old_local new_local) (\<lambda>_.
         bind (on_turn (on_node (\<lambda>n. n\<lparr>n_summary := Some (pulled_summary new_head), n_commit_after := new_head\<rparr>))) (\<lambda>_.
         ret (Done, None)))))))"

definition op_work :: "outside \<Rightarrow> op_outside \<Rightarrow> project \<Rightarrow> verdict op_prog" where
  "op_work su oo p =
     bind (reading (\<lambda>s. n_op_kind (r_node (os_run s)))) (\<lambda>kind.
     if kind = Some ''commit'' then on_turn (run_commit su oo p)
     else if kind = Some ''pull'' then run_pull su oo p
     else ret (Error, Some (OpFailed (''unknown op_kind: '' @ or_empty kind))))"

text \<open>\<open>except CancelledError\<close> and \<open>except Exception\<close> around the work of a node.\<close>

definition guarding :: "((stop, 's, verdict) prog) \<Rightarrow> (failure \<Rightarrow> (stop, 's, unit) prog) \<Rightarrow> (stop, 's, verdict) prog" where
  "guarding work tell = catching work (\<lambda>e. if e = Cancel then ret (Cancelled, None)
     else bind (tell (Unexpected e)) (\<lambda>_. ret (Error, Some (Unexpected e))))"

definition begin_run :: "outside \<Rightarrow> project \<Rightarrow> unit turn" where
  "begin_run su p =
     bind (transition p Running True False) (\<lambda>_.
     bind (emit_node su p SentStarted) (\<lambda>_. emit_node su p SentUpdated))"

definition finish_run :: "outside \<Rightarrow> project \<Rightarrow> node_state \<Rightarrow> unit turn" where
  "finish_run su p s =
     bind (transition p s False True) (\<lambda>_.
     bind (emit_node su p SentUpdated) (\<lambda>_. emit_node su p SentDone))"

definition note_failure :: "outside \<Rightarrow> failure option \<Rightarrow> unit turn" where
  "note_failure su err = on_node (\<lambda>n. n\<lparr>n_error := (case err of None \<Rightarrow> n_error n | Some f \<Rightarrow> Some (su_wording su f))\<rparr>)"

definition write_op_preview :: "op_outside \<Rightarrow> project \<Rightarrow> node_state \<Rightarrow> unit turn" where
  "write_op_preview oo p final =
     bind (reading r_node) (\<lambda>n.
     persist_executed_preview p final
       (''Auto-commit op for parent '' @ (if truthy (n_parent_node_id n) then or_empty (n_parent_node_id n) else ''unknown''))
       (if truthy (n_summary n) then or_empty (n_summary n) else if truthy (n_error n) then or_empty (n_error n) else ''op completed'')
       (oo_implications oo) [])"

definition op_end :: "outside \<Rightarrow> op_outside \<Rightarrow> project \<Rightarrow> verdict \<Rightarrow> unit turn" where
  "op_end su oo p v = (case v of (final, err) \<Rightarrow>
     bind (note_failure su err) (\<lambda>_.
     bind (on_node (\<lambda>n. if n_commit_after n = None then n\<lparr>n_commit_after := oo_after oo\<rparr> else n)) (\<lambda>_.
     bind (write_op_preview oo p final) (\<lambda>_. finish_run su p final))))"

definition run_op :: "outside \<Rightarrow> op_outside \<Rightarrow> project \<Rightarrow> stop option \<Rightarrow> unit op_prog" where
  "run_op su oo p launch =
     bind (on_turn (on_node (\<lambda>n. n\<lparr>n_commit_before := oo_before oo\<rparr>))) (\<lambda>_.
     bind (case launch of Some e \<Rightarrow> raise e | None \<Rightarrow> ret ()) (\<lambda>_.
     bind (on_turn (begin_run su p)) (\<lambda>_.
     bind (guarding (op_work su oo p) (\<lambda>f. on_turn (emit su p (SentError f)))) (\<lambda>v.
     on_turn (op_end su oo p v)))))"

section \<open>Verifiers\<close>

text \<open>
  How a script's process ends: with its exit code, after the minute it has, or with an exception before or
  after that minute. The path of a script is written the way \<open>Path\<close> prints it.
\<close>

datatype script_end = Exited int pystr pystr | TimedOut pystr pystr | ScriptFails bool stop

record verify_outside =
  vo_before :: "pystr option"
  vo_after :: "pystr option"
  vo_exists :: "pystr \<Rightarrow> bool"
  vo_script :: "pystr \<Rightarrow> stop + pystr"
  vo_needs_local :: "pystr \<Rightarrow> bool"
  vo_start :: "bool \<Rightarrow> stop option"
  vo_end :: "bool \<Rightarrow> script_end"

record script_run =
  sr_exit :: "int option"
  sr_timed_out :: bool
  sr_stdout :: pystr
  sr_stderr :: pystr

definition no_script_run :: script_run where
  "no_script_run = \<lparr>sr_exit = None, sr_timed_out = False, sr_stdout = [], sr_stderr = []\<rparr>"

definition script_activity :: "pystr \<Rightarrow> pystr \<Rightarrow> pystr \<Rightarrow> pystr \<Rightarrow> pystr option \<Rightarrow> wire" where
  "script_activity ident name status summary out = ActivityEvent \<lparr>act_kind = ''tool'', act_status = status, act_id = ident,
     act_name = name, act_summary = summary, act_parameters = None, act_command = None, act_result = out, act_payload = None\<rparr>"

definition launch_script :: "verify_outside \<Rightarrow> project \<Rightarrow> pystr \<Rightarrow> bool turn" where
  "launch_script vo p script =
     bind (result (vo_script vo script)) (\<lambda>body.
     let remote = (p_persistence_mode p = Remote \<and> \<not> vo_needs_local vo body) in
     bind (reading (\<lambda>r. map_of (w_remote (r_world r)) (p_id p))) (\<lambda>binding.
     if remote \<and> (binding = None \<or> p_remote p = None) then raise (Raised (ValueError ''remote access missing''))
     else case vo_start vo remote of Some e \<Rightarrow> raise e | None \<Rightarrow> ret remote))"

text \<open>What the handlers leave of a run that was interrupted is kept in the state.\<close>

record verify_state =
  vs_run :: run
  vs_script :: script_run

type_synonym 'a verify_prog = "(stop, verify_state, 'a) prog"

definition on_verifier :: "'a turn \<Rightarrow> 'a verify_prog" where
  "on_verifier m = zoom vs_run (\<lambda>r s. s\<lparr>vs_run := r\<rparr>) m"

definition keep_script :: "script_run \<Rightarrow> unit verify_prog" where
  "keep_script sr = writing (\<lambda>s. s\<lparr>vs_script := sr\<rparr>)"

definition collect_script :: "outside \<Rightarrow> verify_outside \<Rightarrow> bool \<Rightarrow> script_run verify_prog" where
  "collect_script su vo remote = bind (on_verifier (meanwhile su)) (\<lambda>_. case vo_end vo remote of
     ScriptFails late e \<Rightarrow> bind (keep_script (no_script_run\<lparr>sr_timed_out := late\<rparr>)) (\<lambda>_. raise e)
   | Exited code out err \<Rightarrow> ret \<lparr>sr_exit = Some code, sr_timed_out = False, sr_stdout = out, sr_stderr = err\<rparr>
   | TimedOut out err \<Rightarrow> ret \<lparr>sr_exit = Some 124, sr_timed_out = True, sr_stdout = out, sr_stderr = err\<rparr>)"

definition show_output :: "outside \<Rightarrow> project \<Rightarrow> pystr \<Rightarrow> pystr \<Rightarrow> unit turn" where
  "show_output su p stream body =
     (if body = [] then ret ()
      else bind (reading (n_id \<circ> r_node)) (\<lambda>i. emit su p (SentWire (script_activity (''verifier:'' @ i @ '':'' @ stream)
        (''verifier '' @ stream) ''progress'' (tail_text body 240) (Some body)))))"

definition exit_text :: "int option \<Rightarrow> pystr" where
  "exit_text code = (case code of None \<Rightarrow> ''unknown'' | Some c \<Rightarrow> signed_decimal c)"

definition script_failed :: "script_run \<Rightarrow> bool" where
  "script_failed sr = (sr_timed_out sr \<or> sr_exit sr \<noteq> Some 0)"

definition script_failure :: "script_run \<Rightarrow> failure" where
  "script_failure sr = (let body = tail_text (if sr_stderr sr \<noteq> [] then sr_stderr sr else sr_stdout sr) 2048 in
     OpFailed (if body \<noteq> [] then body else if sr_timed_out sr then ''verifier timed out''
       else ''verifier exited '' @ exit_text (sr_exit sr)))"

definition judge_script :: "outside \<Rightarrow> project \<Rightarrow> script_run \<Rightarrow> verdict turn" where
  "judge_script su p sr =
     bind (show_output su p ''stdout'' (sr_stdout sr)) (\<lambda>_.
     bind (show_output su p ''stderr'' (sr_stderr sr)) (\<lambda>_.
     bind (if script_failed sr then emit su p (SentError (script_failure sr)) else ret ()) (\<lambda>_.
     bind (reading (n_id \<circ> r_node)) (\<lambda>i.
     bind (emit su p (SentWire (script_activity (''verifier:'' @ i) ''verifier''
       (if script_failed sr then ''failed'' else ''finish'')
       (if script_failed sr then ''verify failed: exit '' @ exit_text (sr_exit sr) else ''verify passed'')
       (Some (join_with [CHR 0x0A] (filter (\<lambda>s. s \<noteq> []) [sr_stdout sr, sr_stderr sr])))))) (\<lambda>_.
     ret (if script_failed sr then (Error, Some (script_failure sr)) else (Done, None)))))))"

definition verify_work :: "outside \<Rightarrow> verify_outside \<Rightarrow> project \<Rightarrow> verdict verify_prog" where
  "verify_work su vo p =
     bind (reading (\<lambda>s. (or_empty (n_verify_script_ref (r_node (vs_run s))), n_id (r_node (vs_run s))))) (\<lambda>(script, i).
     if script = [] then raise (Raised (ValueError ''missing verify_script_ref''))
     else if \<not> vo_exists vo script then raise (Raised (ValueError (''verify script not found: '' @ script)))
     else
       bind (on_verifier (emit su p (SentWire (script_activity (''verifier:'' @ i) ''verifier'' ''start'' script None)))) (\<lambda>_.
       bind (on_verifier (launch_script vo p script)) (\<lambda>remote.
       bind (collect_script su vo remote) (\<lambda>sr.
       bind (keep_script sr) (\<lambda>_. on_verifier (judge_script su p sr))))))"

definition write_verifier_preview :: "project \<Rightarrow> node_state \<Rightarrow> script_run \<Rightarrow> unit turn" where
  "write_verifier_preview p final sr =
     bind (reading r_node) (\<lambda>n.
     let body = tail_text (if sr_stderr sr \<noteq> [] then sr_stderr sr else if sr_stdout sr \<noteq> [] then sr_stdout sr
           else or_empty (n_error n)) 2048;
         full = (if sr_timed_out sr then (if body = [] then [] else body @ [CHR 0x0A]) @ ''timed out'' else body) in
     persist_executed_preview p final
       (case n_brief n of None \<Rightarrow> ''programmatic verifier'' | Some b \<Rightarrow> check_what b)
       (if final = Done then ''verify passed'' else if final = Cancelled then ''verify cancelled''
        else ''verify failed: exit '' @ exit_text (sr_exit sr))
       (if final = Done then [] else if final = Cancelled then ''verifier cancelled before a verdict'' else full) [])"

definition verify_end :: "outside \<Rightarrow> verify_outside \<Rightarrow> project \<Rightarrow> script_run \<Rightarrow> verdict \<Rightarrow> unit turn" where
  "verify_end su vo p sr v = (case v of (final, err) \<Rightarrow>
     bind (note_failure su err) (\<lambda>_.
     bind (on_node (\<lambda>n. n\<lparr>n_commit_after := vo_after vo\<rparr>)) (\<lambda>_.
     bind (write_verifier_preview p final sr) (\<lambda>_. finish_run su p final))))"

definition run_verifier :: "outside \<Rightarrow> verify_outside \<Rightarrow> project \<Rightarrow> stop option \<Rightarrow> unit verify_prog" where
  "run_verifier su vo p launch =
     bind (on_verifier (on_node (\<lambda>n. n\<lparr>n_commit_before := vo_before vo\<rparr>))) (\<lambda>_.
     bind (case launch of Some e \<Rightarrow> raise e | None \<Rightarrow> ret ()) (\<lambda>_.
     bind (on_verifier (begin_run su p)) (\<lambda>_.
     bind (guarding (verify_work su vo p) (\<lambda>f. on_verifier (emit su p (SentError f)))) (\<lambda>v.
     bind (reading vs_script) (\<lambda>sr. on_verifier (verify_end su vo p sr v))))))"

section \<open>Code reviews\<close>

text \<open>A finding of the provider; its confidence, a float that is only copied into the published file, is left out.\<close>

record finding =
  fd_title :: pystr
  fd_body :: pystr
  fd_file :: "pystr option"
  fd_line_start :: "int option"
  fd_line_end :: "int option"
  fd_priority :: "pystr option"

record review_report =
  rp_markdown :: pystr
  rp_findings :: "finding list option"
  rp_verdict :: "pystr option"
  rp_explanation :: "pystr option"

record review_snapshot =
  rs_head :: "pystr option"
  rs_dirty :: "pystr list"
  rs_patch :: pystr
  rs_digest :: pystr

text \<open>
  The warnings, the texts of the two previews and \<open>ro_report\<close>, which reads the report a provider's event
  carries, are given; so are the two looks at the working tree and whether the report's files could be written.
\<close>

record review_outside =
  ro_before :: "pystr option"
  ro_after :: "pystr option"
  ro_prepare :: "stop option"
  ro_tree :: "bool \<Rightarrow> stop + review_snapshot"
  ro_patch_written :: "stop option"
  ro_supported :: bool
  ro_report :: "json \<Rightarrow> review_report"
  ro_files_written :: "stop option"
  ro_stale :: pystr
  ro_focus :: pystr
  ro_clean :: pystr

definition raising :: "stop option \<Rightarrow> unit turn" where
  "raising e = (case e of None \<Rightarrow> ret () | Some x \<Rightarrow> raise x)"

text \<open>The provider's stream: as in a turn, but the report is kept and no failure is announced.\<close>

fun review_consume :: "outside \<Rightarrow> review_outside \<Rightarrow> project \<Rightarrow> provider_event list \<Rightarrow> stream_end \<Rightarrow>
    review_report option \<Rightarrow> (terminal \<times> review_report option) turn" where
  "review_consume su ro p [] ending report =
     bind (meanwhile su) (\<lambda>_. case ending of Exhausted \<Rightarrow> ret (NoTerminal, report) | StreamFails e \<Rightarrow> raise e)"
| "review_consume su ro p (ev # evs) ending report =
     bind (meanwhile su) (\<lambda>_. bind (handle_provider_event su p ev) (\<lambda>_.
       let report' = (if pe_kind ev = ''review'' \<and> pe_report ev \<noteq> None then Some (ro_report ro (the (pe_report ev))) else report) in
       case terminal_of ev of Some t \<Rightarrow> ret (t, report') | None \<Rightarrow> review_consume su ro p evs ending report'))"

type_synonym review_answer = "node_state \<times> failure option \<times> review_report option"

definition after_review_stream :: "terminal \<times> review_report option \<Rightarrow> (provider_event \<Rightarrow> review_answer turn) option \<Rightarrow> review_answer turn" where
  "after_review_stream out again = (case out of (t, report) \<Rightarrow> (case t of
     DoneSeen v \<Rightarrow>
       if v \<noteq> None \<and> state_from_provider v = None then ret (Error, Some (UnknownFinalState v), report)
       else ret (case state_from_provider v of None \<Rightarrow> Done | Some s \<Rightarrow> s, None, report)
   | ErrorSeen e \<Rightarrow> ret (Error, Some (ProviderError e), report)
   | RateLimitSeen ev \<Rightarrow>
       bind (reading (\<lambda>r. auto_retry (r_node r))) (\<lambda>enabled.
         case again of
           Some f \<Rightarrow> if enabled then f ev else ret (Error, Some (RateLimited (pe_error ev) enabled), report)
         | None \<Rightarrow> ret (Error, Some (RateLimited (pe_error ev) enabled), report))
   | NoTerminal \<Rightarrow> ret (Error, Some NoTerminalEvent, report)))"

definition open_review :: "outside \<Rightarrow> review_outside \<Rightarrow> project \<Rightarrow> (terminal \<times> review_report option) turn" where
  "open_review su ro p =
     bind (reading r_streams) (\<lambda>k.
     bind (writing (\<lambda>r. r\<lparr>r_streams := k + 1\<rparr>)) (\<lambda>_.
     review_consume su ro p (su_events su k) (su_ending su k) None))"

fun review_loop :: "outside \<Rightarrow> review_outside \<Rightarrow> project \<Rightarrow> nat \<Rightarrow> nat list \<Rightarrow> review_answer turn" where
  "review_loop su ro p attempt [] = bind (open_review su ro p) (\<lambda>out. after_review_stream out None)"
| "review_loop su ro p attempt (d # ds) = bind (open_review su ro p) (\<lambda>out. after_review_stream out (Some (\<lambda>ev.
     bind (wait_for_rate_limit su p ev (attempt + 1) d) (\<lambda>_. review_loop su ro p (attempt + 1) ds))))"

definition run_native_review :: "outside \<Rightarrow> review_outside \<Rightarrow> project \<Rightarrow> review_answer turn" where
  "run_native_review su ro p =
     bind (reading_result preset_of_run) (\<lambda>_.
     bind (reading (\<lambda>r. n_review_target (r_node r))) (\<lambda>target.
     if target = None then ret (Error, Some ReviewTargetMissing, None)
     else if \<not> ro_supported ro then ret (Error, Some ReviewUnsupported, None)
     else review_loop su ro p 0 retry_delays))"

definition blank_line :: pystr where
  "blank_line = [CHR 0x0A, CHR 0x0A]"

definition strip_colons :: "pystr \<Rightarrow> pystr" where
  "strip_colons s = rev (dropWhile (\<lambda>c. c = CHR '':'') (rev s))"

fun first_paragraph :: "pystr \<Rightarrow> pystr" where
  "first_paragraph [] = []"
| "first_paragraph (c # s) = (if starts_with blank_line (c # s) then [] else c # first_paragraph s)"

definition review_summary :: "review_report \<Rightarrow> pystr" where
  "review_summary r =
     (if truthy (rp_verdict r)
      then take 1000 (strip_colons (strip (or_empty (rp_verdict r) @ '': '' @ strip (or_empty (rp_explanation r)))))
      else let body = strip (rp_markdown r) in
        if body = [] then ''native code review completed'' else take 1000 (strip (first_paragraph body)))"

definition finding_line :: "finding \<Rightarrow> pystr" where
  "finding_line f = (let file = or_empty (fd_file f);
       location = (case fd_line_start f of Some n \<Rightarrow> if file \<noteq> [] then file @ '':'' @ signed_decimal n else file | None \<Rightarrow> file) in
     if location \<noteq> [] then fd_title f @ '' ('' @ location @ '')'' else fd_title f)"

definition review_implications :: "review_report \<Rightarrow> pystr" where
  "review_implications r = (case rp_findings r of
     Some (f # fs) \<Rightarrow> join_with [CHR 0x0A] (map finding_line (take 8 (f # fs)))
   | _ \<Rightarrow> ''See code-review-report.md for the native review findings.'')"

definition review_focus_warning :: "review_outside \<Rightarrow> project \<Rightarrow> run \<Rightarrow> stop + pystr option" where
  "review_focus_warning ro p r =
     (let n = r_node r; focus = strip (case n_brief n of Some b \<Rightarrow> check_what b | None \<Rightarrow> n_prompt n) in
      if focus = [] \<or> p_persistence_mode p = Remote then Inr None
      else case preset_of_run r of
        Inl e \<Rightarrow> Inl e
      | Inr m \<Rightarrow> Inr (if map_option mp_provider m = Some Codex then Some (ro_focus ro) else None))"

definition publish_review_report :: "outside \<Rightarrow> review_outside \<Rightarrow> review_report \<Rightarrow> pystr list turn" where
  "publish_review_report su ro report =
     bind (raising (ro_files_written ro)) (\<lambda>_.
     bind (publish su (''code-review-report.md'' # (if rp_findings report = None then [] else [''code-review-findings.json'']))) (\<lambda>_.
     reading (published_names \<circ> r_node)))"

text \<open>What the handlers and the end of a review still need when it stops half-way.\<close>

record review_state =
  vr_run :: run
  vr_error :: "failure option"
  vr_head :: "pystr option"
  vr_report :: "review_report option"
  vr_artifacts :: "pystr list"
  vr_stale :: bool
  vr_warning :: "pystr option"
  vr_summary :: "pystr option"

type_synonym 'a review_prog = "(stop, review_state, 'a) prog"

definition on_review :: "'a turn \<Rightarrow> 'a review_prog" where
  "on_review m = zoom vr_run (\<lambda>r s. s\<lparr>vr_run := r\<rparr>) m"

definition with_warning :: "pystr option \<Rightarrow> pystr \<Rightarrow> pystr" where
  "with_warning w s = (if truthy w then or_empty w @ blank_line @ s else s)"

definition warned_report :: "pystr option \<Rightarrow> review_report \<Rightarrow> review_report" where
  "warned_report w r = (if truthy w then r\<lparr>rp_markdown := or_empty w @ blank_line @ lstrip (rp_markdown r)\<rparr> else r)"

definition keep_report :: "outside \<Rightarrow> review_outside \<Rightarrow> project \<Rightarrow> review_snapshot \<Rightarrow> review_report \<Rightarrow> unit review_prog" where
  "keep_report su ro p snapshot report =
     bind (writing (\<lambda>s. s\<lparr>vr_report := Some report\<rparr>)) (\<lambda>_.
     bind (on_review (reading_result (review_focus_warning ro p))) (\<lambda>warning.
     bind (writing (\<lambda>s. s\<lparr>vr_warning := warning, vr_summary := Some (review_summary report),
       vr_report := Some (warned_report warning report)\<rparr>)) (\<lambda>_.
     bind (on_review (asking su (ro_tree ro True))) (\<lambda>current.
     bind (writing (\<lambda>s. s\<lparr>vr_stale := (current \<noteq> snapshot)\<rparr>)) (\<lambda>_.
     bind (on_review (publish_review_report su ro (warned_report warning report))) (\<lambda>names.
     writing (\<lambda>s. s\<lparr>vr_artifacts := names\<rparr>)))))))"

definition review_verdict :: "review_answer \<Rightarrow> verdict" where
  "review_verdict a = (case a of (final, err, report) \<Rightarrow>
     if final = Done \<and> report = None
     then (Error, Some (OpFailed ''native code review completed without a recognizable report'')) else (final, err))"

definition review_dirty :: "outside \<Rightarrow> review_outside \<Rightarrow> project \<Rightarrow> review_snapshot \<Rightarrow> verdict review_prog" where
  "review_dirty su ro p snapshot =
     bind (on_review (run_native_review su ro p)) (\<lambda>a.
     bind (writing (\<lambda>s. s\<lparr>vr_error := snd (review_verdict a)\<rparr>)) (\<lambda>_.
     bind (case snd (snd a) of None \<Rightarrow> ret () | Some rp \<Rightarrow> keep_report su ro p snapshot rp) (\<lambda>_.
     ret (review_verdict a))))"

definition review_work :: "outside \<Rightarrow> review_outside \<Rightarrow> project \<Rightarrow> verdict review_prog" where
  "review_work su ro p =
     bind (on_review (no_temporary p)) (\<lambda>_.
     bind (on_review (raising (ro_prepare ro))) (\<lambda>_.
     bind (on_review (asking su (ro_tree ro False))) (\<lambda>snapshot.
     bind (writing (\<lambda>s. s\<lparr>vr_head := rs_head snapshot\<rparr>)) (\<lambda>_.
     bind (on_review (raising (ro_patch_written ro))) (\<lambda>_.
     bind (on_review (begin_run su p)) (\<lambda>_.
     if rs_dirty snapshot = []
     then bind (on_review (on_node (\<lambda>n. n\<lparr>n_summary := Some (ro_clean ro)\<rparr>))) (\<lambda>_. ret (Done, None))
     else review_dirty su ro p snapshot))))))"

definition set_summary :: "pystr \<Rightarrow> unit turn" where
  "set_summary body = on_node (\<lambda>n. n\<lparr>n_summary := Some body\<rparr>)"

definition review_done_summary :: "review_outside \<Rightarrow> review_state \<Rightarrow> review_report \<Rightarrow> pystr" where
  "review_done_summary ro s report = with_warning (vr_warning s)
     ((if vr_stale s then ro_stale ro @ blank_line else []) @
      (if truthy (vr_summary s) then or_empty (vr_summary s) else review_summary report))"

definition review_motivation :: "review_state \<Rightarrow> node \<Rightarrow> pystr" where
  "review_motivation s n = (case n_brief n of
     Some b \<Rightarrow> if truthy (vr_warning s) then ''code review of uncommitted changes since '' @ take 7 (if truthy (vr_head s) then or_empty (vr_head s) else ''unknown'')
       else check_what b
   | None \<Rightarrow> ''code review of uncommitted changes since '' @ take 7 (if truthy (vr_head s) then or_empty (vr_head s) else ''unknown''))"

definition clean_summary :: "review_outside \<Rightarrow> node \<Rightarrow> pystr" where
  "clean_summary ro n = (if truthy (n_summary n) then or_empty (n_summary n) else ro_clean ro)"

definition done_review_preview :: "review_outside \<Rightarrow> project \<Rightarrow> review_state \<Rightarrow> unit turn" where
  "done_review_preview ro p s =
     bind (reading r_node) (\<lambda>n. case vr_report s of
       None \<Rightarrow> bind (set_summary (clean_summary ro n)) (\<lambda>_.
         persist_executed_preview p Done ''code review of uncommitted changes'' (clean_summary ro n)
           ''no uncommitted changes require review'' (vr_artifacts s))
     | Some report \<Rightarrow> bind (set_summary (review_done_summary ro s report)) (\<lambda>_.
         persist_executed_preview p Done (review_motivation s n) (review_done_summary ro s report)
           (review_implications report) (vr_artifacts s)))"

definition ended_review_summary :: "outside \<Rightarrow> review_state \<Rightarrow> node_state \<Rightarrow> failure option \<Rightarrow> pystr" where
  "ended_review_summary su s final err = with_warning (vr_warning s)
     (''review completed but the turn ended '' @ node_state_value final @ '': '' @
      (case err of Some f \<Rightarrow> su_wording su f | None \<Rightarrow> ''code review turn ended '' @ node_state_value final))"

definition review_previews :: "outside \<Rightarrow> review_outside \<Rightarrow> project \<Rightarrow> review_state \<Rightarrow> verdict \<Rightarrow> unit turn" where
  "review_previews su ro p s v = (case v of (final, err) \<Rightarrow>
     if final = Done then done_review_preview ro p s
     else if vr_artifacts s \<noteq> []
     then bind (set_summary (ended_review_summary su s final err)) (\<lambda>_.
       persist_executed_preview p final ''code review of uncommitted changes'' (ended_review_summary su s final err)
         (case vr_report s of Some r \<Rightarrow> review_implications r | None \<Rightarrow> ''review report is available in the published artifacts'')
         (vr_artifacts s))
     else write_stub_preview su p final (Some (case err of Some f \<Rightarrow> f | None \<Rightarrow> OpFailed ''code review cancelled'')))"

definition review_end :: "outside \<Rightarrow> review_outside \<Rightarrow> project \<Rightarrow> review_state \<Rightarrow> verdict \<Rightarrow> unit turn" where
  "review_end su ro p s v =
     bind (note_failure su (snd v)) (\<lambda>_.
     bind (on_node (\<lambda>n. n\<lparr>n_commit_after := ro_after ro\<rparr>)) (\<lambda>_.
     bind (review_previews su ro p s v) (\<lambda>_. finish_run su p (fst v))))"

definition run_code_review :: "outside \<Rightarrow> review_outside \<Rightarrow> project \<Rightarrow> unit review_prog" where
  "run_code_review su ro p =
     bind (on_review (on_node (\<lambda>n. n\<lparr>n_commit_before := ro_before ro\<rparr>))) (\<lambda>_.
     bind (guarding (review_work su ro p) (\<lambda>f. on_review (emit su p (SentError f)))) (\<lambda>v.
     bind (reading (\<lambda>s. s)) (\<lambda>s.
     on_review (review_end su ro p s (fst v, case snd v of Some f \<Rightarrow> Some f | None \<Rightarrow> vr_error s)))))"

section \<open>Any node\<close>

text \<open>A runner with more state of its own, as a step of the runner every kind shares.\<close>

definition hosting :: "(run \<Rightarrow> 's) \<Rightarrow> ('s \<Rightarrow> run) \<Rightarrow> (stop, 's, 'a) prog \<Rightarrow> 'a turn" where
  "hosting open_state run_of m = (\<lambda>r. case m (open_state r) of (s, res) \<Rightarrow> (run_of s, res))"

record surroundings =
  sd_agent :: outside
  sd_op :: op_outside
  sd_verify :: verify_outside
  sd_review :: review_outside
  sd_aliases :: "(pystr, pystr) dict"
  sd_workspace :: "stop option"
  sd_launch :: "stop option"

definition fail_workspace_preparation :: "outside \<Rightarrow> project \<Rightarrow> stop \<Rightarrow> unit turn" where
  "fail_workspace_preparation su p e =
     bind (note_failure su (Some (Unexpected e))) (\<lambda>_.
     bind (write_stub_preview su p Error (Some (Unexpected e))) (\<lambda>_.
     bind (transition p Error True True) (\<lambda>_.
     bind (emit_node su p SentStarted) (\<lambda>_.
     bind (emit su p (SentError (Unexpected e))) (\<lambda>_.
     bind (emit_node su p SentUpdated) (\<lambda>_. emit_node su p SentDone))))))"

definition fresh_review :: "run \<Rightarrow> review_state" where
  "fresh_review r = \<lparr>vr_run = r, vr_error = None, vr_head = None, vr_report = None, vr_artifacts = [], vr_stale = False, vr_warning = None,
     vr_summary = None\<rparr>"

definition run_kind :: "surroundings \<Rightarrow> project \<Rightarrow> unit turn" where
  "run_kind sd p =
     bind (reading r_node) (\<lambda>n.
     if n_kind n = Op
     then hosting (\<lambda>r. \<lparr>os_run = r, os_aliases = sd_aliases sd\<rparr>) os_run (run_op (sd_agent sd) (sd_op sd) p (sd_launch sd))
     else if n_kind n = Verifier
     then hosting (\<lambda>r. \<lparr>vs_run = r, vs_script = no_script_run\<rparr>) vs_run (run_verifier (sd_agent sd) (sd_verify sd) p (sd_launch sd))
     else if n_subtype n = Some CodeReview
     then hosting fresh_review vr_run (run_code_review (sd_agent sd) (sd_review sd) p)
     else run_agent (sd_agent sd) p (sd_launch sd))"

definition run_node :: "surroundings \<Rightarrow> project \<Rightarrow> unit turn" where
  "run_node sd p = (case sd_workspace sd of
     None \<Rightarrow> run_kind sd p
   | Some e \<Rightarrow> if e = Cancel then raise Cancel else fail_workspace_preparation (sd_agent sd) p e)"

end
