(* ===== verification/Run_Bounds.thy ===== *)
theory Run_Bounds
  imports Agent_Run Reap_Safety Maintenance
begin

text \<open>
  How much a runner may do: what an operation leaves alone in the runner's own fields, and the number of
  provider streams and waits of a turn and of the repairs of a preview.
\<close>

section \<open>Rules for the runner's steps\<close>

lemma wp_on_world [simp]:
  "wp (on_world m) Q E r =
     wp m (\<lambda>x w. Q x (r\<lparr>r_world := w\<rparr>)) (\<lambda>e w. E (Raised e) (r\<lparr>r_world := w\<rparr>)) (r_world r)"
  by (auto simp: wp_def on_world_def split: prod.splits sum.splits)

lemma keeps_on_world:
  assumes "\<And>r w. I r \<Longrightarrow> I (r\<lparr>r_world := w\<rparr>)"
  shows "keeps I (on_world m)"
  using assms by (auto simp: keeps_def on_world_def split: prod.splits sum.splits)

lemma wp_except_exception [simp]:
  "wp (except_exception m h) Q E r = wp m Q (\<lambda>e t. if e = Cancel then E Cancel t else wp (h e) Q E t) r"
  unfolding except_exception_def wp_simps by (intro arg_cong [of _ _ "\<lambda>F. wp m Q F r"] ext) simp

lemma wp_except_cancelled [simp]:
  "wp (except_cancelled m h) Q E r = wp m Q (\<lambda>e t. if e = Cancel then wp h Q E t else E e t) r"
  unfolding except_cancelled_def wp_simps by (intro arg_cong [of _ _ "\<lambda>F. wp m Q F r"] ext) simp

lemma keeps_excepts [keeps_intros]:
  "keeps I m \<Longrightarrow> (\<And>e. keeps I (h e)) \<Longrightarrow> keeps I (except_exception m h)"
  "keeps I m \<Longrightarrow> keeps I k \<Longrightarrow> keeps I (except_cancelled m k)"
  unfolding except_exception_def except_cancelled_def by (intro keeps_intros; assumption?)+

lemma keeps_wire [keeps_intros]:
  "(\<And>x. e = TextDelta x \<Longrightarrow> keeps I (f x)) \<Longrightarrow> (\<And>x. e = UsageEvent x \<Longrightarrow> keeps I (g x)) \<Longrightarrow>
   (\<And>x. e = ActivityEvent x \<Longrightarrow> keeps I (h x)) \<Longrightarrow> (\<And>x. e = OtherWire x \<Longrightarrow> keeps I (k x)) \<Longrightarrow>
     keeps I (case e of TextDelta x \<Rightarrow> f x | UsageEvent x \<Rightarrow> g x | ActivityEvent x \<Rightarrow> h x | OtherWire x \<Rightarrow> k x)"
  by (cases e) simp_all

lemma keeps_json_list [keeps_intros]:
  "(\<And>x. j = Some (JList x) \<Longrightarrow> keeps I (f x)) \<Longrightarrow> keeps I m \<Longrightarrow>
     keeps I (case j of Some (JList x) \<Rightarrow> f x | _ \<Rightarrow> m)"
  by (simp split: option.split json.split)

section \<open>What stays\<close>

text \<open>
  The identity and contract of the node, whether it retries after a rate limit, the lane flag, and the
  numbers of streams and waits.
\<close>

definition same_job :: "run \<Rightarrow> run \<Rightarrow> bool" where
  "same_job r t \<longleftrightarrow> r_lane t = r_lane r \<and> auto_retry (r_node t) = auto_retry (r_node r) \<and>
     n_id (r_node t) = n_id (r_node r) \<and> n_project_id (r_node t) = n_project_id (r_node r) \<and>
     n_kind (r_node t) = n_kind (r_node r) \<and> n_category (r_node t) = n_category (r_node r) \<and>
     n_subtype (r_node t) = n_subtype (r_node r) \<and> n_planspace_id (r_node t) = n_planspace_id (r_node r) \<and>
     n_agent_op_kind (r_node t) = n_agent_op_kind (r_node r) \<and> n_artifact_mode (r_node t) = n_artifact_mode (r_node r) \<and>
     n_model_preset_id (r_node t) = n_model_preset_id (r_node r)"

definition idle :: "run \<Rightarrow> run \<Rightarrow> bool" where
  "idle r t \<longleftrightarrow> same_job r t \<and> r_streams t = r_streams r \<and> r_waits t = r_waits r"

lemma idle_refl [simp]: "idle r r"
  by (simp add: idle_def same_job_def)

lemma idle_trans: "idle r t \<Longrightarrow> idle t u \<Longrightarrow> idle r u"
  by (simp add: idle_def same_job_def)

lemma idle_upd [simp]:
  "idle r (t\<lparr>r_world := w\<rparr>) = idle r t" "idle r (t\<lparr>r_seq := k\<rparr>) = idle r t" "idle r (t\<lparr>r_sent := s\<rparr>) = idle r t"
  "idle r (t\<lparr>r_changes := c\<rparr>) = idle r t" "idle r (t\<lparr>r_pre := pre\<rparr>) = idle r t"
  "idle r (t\<lparr>r_cold_text := x\<rparr>) = idle r t" "idle r (t\<lparr>r_prose := pr\<rparr>) = idle r t"
  "idle r (t\<lparr>r_stored := st\<rparr>) = idle r t" "idle r (t\<lparr>r_diff_artifact := d\<rparr>) = idle r t"
  by (simp_all add: idle_def same_job_def)

text \<open>Changes of the node that keep its job.\<close>

definition minor :: "(node \<Rightarrow> node) \<Rightarrow> bool" where
  "minor f \<longleftrightarrow> (\<forall>r t. idle r t \<longrightarrow> idle r (t\<lparr>r_node := f (r_node t)\<rparr>))"

lemma keeps_on_node [keeps_intros]: "minor f \<Longrightarrow> keeps (idle r) (on_node f)"
  unfolding on_node_def by (rule keeps_writing) (simp add: minor_def)

lemma minor_fields [simp]:
  "minor (\<lambda>n. n\<lparr>n_usage := u\<rparr>)" "minor (\<lambda>n. n\<lparr>n_provider_session_id := s\<rparr>)" "minor (\<lambda>n. n\<lparr>n_provider_turn_id := s\<rparr>)"
  "minor (\<lambda>n. n\<lparr>n_error := e n\<rparr>)" "minor (\<lambda>n. n\<lparr>n_summary := s\<rparr>)" "minor (stamp_state st b c now)"
  by (simp_all add: minor_def idle_def same_job_def auto_retry_def stamp_state_def)

lemma minor_setting [simp]:
  "k \<noteq> ''codex_rate_limit_auto_retry'' \<Longrightarrow> minor (\<lambda>n. n\<lparr>n_settings_snapshot := AList.update k v (n_settings_snapshot n)\<rparr>)"
  by (simp add: minor_def idle_def same_job_def auto_retry_def)

lemma minor_observed:
  assumes "allowed_settings d = a # as"
  shows "minor (\<lambda>n. n\<lparr>n_settings_snapshot := dict_updates (n_settings_snapshot n) (a # as)\<rparr>)"
proof -
  have "''codex_rate_limit_auto_retry'' \<notin> fst ` set (allowed_settings d)"
    by (auto simp: allowed_settings_def observed_settings_def)
  then have "map_of (rev (a # as)) ''codex_rate_limit_auto_retry'' = None"
    unfolding assms by (simp add: map_of_eq_None_iff image_Un)
  then show ?thesis
    by (simp add: minor_def idle_def same_job_def auto_retry_def map_of_dict_updates map_add_def del: dict_updates.simps)
qed

lemma idle_on_world [keeps_intros]: "keeps (idle r) (on_world m)"
  by (rule keeps_on_world) simp

lemma idle_update_self [keeps_intros]: "keeps (idle r) update_self"
proof (rule keepsI)
  fix t assume t: "idle r t"
  have "wp update_self (\<lambda>_. idle r) (\<lambda>_. idle r) t"
    using t by (auto simp: update_self_def on_node_def save_def on_store_def update_node_def wp_result Let_def
        assert_writable_def bind_model_catalog_def schedule_commit_def wp_def bind_def andthen_def zoom_def on_world_def
        idle_def same_job_def auto_retry_def split: option.splits)
  then show "idle r (fst (update_self t))" by (rule wp_fst)
qed

lemma idle_emit [keeps_intros]: "keeps (idle r) (emit su p ev)" "keeps (idle r) (emit_node su p f)"
  unfolding emit_def emit_node_def by (intro keeps_intros; simp)+

lemma idle_meanwhile [keeps_intros]: "keeps (idle r) (meanwhile su)"
  unfolding meanwhile_def by (rule keeps_writing) simp

lemma idle_transition [keeps_intros]: "keeps (idle r) (transition p s a b)"
  unfolding transition_def by (intro keeps_intros) simp_all

lemma idle_handle [keeps_intros]: "keeps (idle r) (handle_provider_event su p ev)"
proof -
  have "keeps (idle r) (save_and_tell su p f)" if "minor f" for f
    unfolding save_and_tell_def using that by (intro keeps_intros)
  moreover have "keeps (idle r) (handle_wire su p e)" for e
    unfolding handle_wire_def record_usage_def record_skill_use_def by (intro keeps_intros) simp_all
  ultimately show ?thesis
    unfolding handle_provider_event_def by (intro keeps_intros) (simp_all add: minor_observed keeps_intros)
qed

section \<open>One provider turn\<close>

text \<open>The first terminal event of the stream with number \<open>k\<close>.\<close>

fun first_terminal :: "provider_event list \<Rightarrow> terminal" where
  "first_terminal [] = NoTerminal"
| "first_terminal (ev # evs) = (case terminal_of ev of Some t \<Rightarrow> t | None \<Rightarrow> first_terminal evs)"

definition verdict :: "outside \<Rightarrow> nat \<Rightarrow> terminal" where
  "verdict su k = first_terminal (su_events su k)"

lemma wp_consume:
  assumes "idle r t" and "\<And>u. idle r u \<Longrightarrow> Q (first_terminal evs) u" and "\<And>e u. idle r u \<Longrightarrow> E e u"
  shows "wp (consume su p evs ending) Q E t"
  using assms
proof (induction evs arbitrary: t)
  case Nil
  have "idle r (t\<lparr>r_world := su_meanwhile su t\<rparr>)" using Nil.prems(1) by simp
  then show ?case using Nil.prems(2,3) by (cases ending) (simp_all add: meanwhile_def)
next
  case (Cons ev evs)
  have step: "wp (handle_provider_event su p ev) (\<lambda>_. idle r) (\<lambda>_. idle r) u" if "idle r u" for u
    using keepsD [OF idle_handle that, of su p ev] by (auto simp: wp_def split: prod.splits sum.splits)
  have "wp (handle_provider_event su p ev) (\<lambda>_. wp (case terminal_of ev of Some t \<Rightarrow> ret t | None \<Rightarrow> consume su p evs ending) Q E)
      E (t\<lparr>r_world := su_meanwhile su t\<rparr>)"
  proof (rule wp_mono [OF step])
    fix u assume u: "idle r u"
    show "wp (case terminal_of ev of Some t \<Rightarrow> ret t | None \<Rightarrow> consume su p evs ending) Q E u"
      using Cons.IH [OF u] Cons.prems(2,3) u by (cases "terminal_of ev") simp_all
  qed (use Cons.prems in simp_all)
  then show ?case by (simp add: meanwhile_def)
qed

definition started :: "run \<Rightarrow> run" where
  "started r = r\<lparr>r_streams := r_streams r + 1\<rparr>"

lemma wp_open_stream:
  assumes "idle r t" and "\<And>u. idle (started r) u \<Longrightarrow> Q (verdict su (r_streams r)) u" and "\<And>e u. idle (started r) u \<Longrightarrow> E e u"
  shows "wp (open_stream su p) Q E t"
proof -
  have k: "r_streams t = r_streams r" and t: "idle (started r) (t\<lparr>r_streams := r_streams r + 1\<rparr>)"
    using assms(1) by (simp_all add: idle_def same_job_def started_def)
  show ?thesis unfolding open_stream_def
    using wp_consume [OF t, of Q "su_events su (r_streams r)" E su p "su_ending su (r_streams r)"] assms(2,3) k
    by (simp add: verdict_def)
qed

text \<open>
  What a turn with the delays \<open>ds\<close> left has used: \<open>k\<close> waits, the first \<open>k\<close> delays, each after a stream,
  and at most one stream more. Without automatic retries there is no wait.
\<close>

definition spent :: "run \<Rightarrow> nat list \<Rightarrow> run \<Rightarrow> bool" where
  "spent r ds t \<longleftrightarrow> same_job r t \<and> (\<exists>k \<le> length ds. r_waits t = r_waits r @ take k ds \<and>
     r_streams r + k \<le> r_streams t \<and> r_streams t \<le> r_streams r + k + 1 \<and> (\<not> auto_retry (r_node r) \<longrightarrow> k = 0))"

definition answered :: "outside \<Rightarrow> run \<Rightarrow> node_state \<times> failure option \<Rightarrow> run \<Rightarrow> bool" where
  "answered su r out t \<longleftrightarrow> fst out \<in> {Done, Error, Cancelled} \<and> (snd out \<noteq> None \<longrightarrow> fst out = Error) \<and>
     (snd out = None \<longrightarrow> r_streams r < r_streams t \<and> (\<exists>v. verdict su (r_streams t - 1) = DoneSeen v \<and>
        fst out = (case state_from_provider v of None \<Rightarrow> Done | Some s \<Rightarrow> s)))"

lemma idle_spent: "idle r t \<Longrightarrow> spent r ds t" "idle (started r) t \<Longrightarrow> spent r ds t"
  by (auto simp: spent_def idle_def same_job_def started_def intro: exI [of _ 0])

lemma same_job_trans: "same_job r t \<Longrightarrow> same_job t u \<Longrightarrow> same_job r u"
  by (simp add: same_job_def)

lemma spent_again:
  assumes "same_job r t" "r_waits t = r_waits r @ [d]" "r_streams t = r_streams r + 1" "auto_retry (r_node r)" "spent t ds u"
  shows "spent r (d # ds) u"
proof -
  obtain k where k: "k \<le> length ds" "r_waits u = r_waits t @ take k ds" "r_streams t + k \<le> r_streams u"
    "r_streams u \<le> r_streams t + k + 1" and same: "same_job t u"
    using assms(5) by (auto simp: spent_def)
  have "same_job r u" using assms(1) same by (rule same_job_trans)
  with k assms(2-4) show ?thesis unfolding spent_def by (intro conjI exI [of _ "Suc k"]) simp_all
qed

lemma state_from_provider_range: "state_from_provider v = Some s \<Longrightarrow> s \<in> {Done, Error, Cancelled}"
  by (auto simp: state_from_provider_def split: if_splits)

lemma keeps_idle: "keeps (idle r) m \<Longrightarrow> idle r t \<Longrightarrow> (\<And>x u. idle r u \<Longrightarrow> Q x u) \<Longrightarrow> (\<And>e u. idle r u \<Longrightarrow> E e u) \<Longrightarrow> wp m Q E t"
  using keepsD [of "idle r" m t] by (auto simp: wp_def split: prod.splits sum.splits)

lemma wp_fail_turn:
  assumes "idle r t" and "\<And>u. idle r u \<Longrightarrow> Q (Error, Some f) u" and "\<And>e u. idle r u \<Longrightarrow> E e u"
  shows "wp (fail_turn su p f) Q E t"
  unfolding fail_turn_def wp_simps by (rule keeps_idle [OF idle_emit(1) assms(1)]) (use assms in simp_all)

lemma wp_after_stream:
  assumes t: "idle (started r) t"
    and q: "\<And>out u. idle (started r) u \<Longrightarrow> answered su r out u \<Longrightarrow> Q out u"
    and e: "\<And>x u. idle (started r) u \<Longrightarrow> E x u"
    and more: "\<And>f ev. again = Some f \<Longrightarrow> auto_retry (r_node r) \<Longrightarrow> wp (f ev) Q E t"
  shows "wp (after_stream su p (verdict su (r_streams r)) again) Q E t"
proof (cases "verdict su (r_streams r)")
  case NoTerminal
  show ?thesis unfolding NoTerminal after_stream_def terminal.case
    by (rule wp_fail_turn [OF t]) (auto intro: q e simp: answered_def)
next
  case (DoneSeen v)
  have fail: "wp (fail_turn su p (UnknownFinalState v)) Q E t"
    by (rule wp_fail_turn [OF t]) (auto intro: q e simp: answered_def)
  have "answered su r (case state_from_provider v of None \<Rightarrow> Done | Some s \<Rightarrow> s, None) t"
    using t DoneSeen state_from_provider_range [of v]
    by (auto simp: answered_def idle_def started_def split: option.splits)
  then have "Q (case state_from_provider v of None \<Rightarrow> Done | Some s \<Rightarrow> s, None) t" by (rule q [OF t])
  with fail show ?thesis by (simp add: DoneSeen after_stream_def)
next
  case (ErrorSeen m)
  have "wp (emit su p (SentError (ProviderError None))) (\<lambda>_. Q (Error, Some (ProviderError m))) E t"
    by (rule keeps_idle [OF idle_emit(1) t]) (auto intro: q e simp: answered_def)
  moreover have "Q (Error, Some (ProviderError m)) t" by (rule q [OF t]) (simp add: answered_def)
  ultimately show ?thesis unfolding ErrorSeen after_stream_def terminal.case wp_simps wp_if by auto
next
  case (RateLimitSeen ev)
  have auto: "auto_retry (r_node t) = auto_retry (r_node r)" using t by (simp add: idle_def same_job_def started_def)
  have fail: "wp (fail_turn su p (RateLimited (pe_error ev) b)) Q E t" for b
    by (rule wp_fail_turn [OF t]) (auto intro: q e simp: answered_def)
  show ?thesis using fail more by (cases again) (simp_all add: RateLimitSeen after_stream_def auto)
qed

lemma wp_wait:
  assumes t: "idle (started r) t"
    and q: "\<And>u. same_job r u \<Longrightarrow> r_waits u = r_waits r @ [d] \<Longrightarrow> r_streams u = r_streams r + 1 \<Longrightarrow> Q () u"
    and e: "\<And>x u. idle (started r) u \<or> same_job r u \<and> r_waits u = r_waits r @ [d] \<and> r_streams u = r_streams r + 1 \<Longrightarrow> E x u"
  shows "wp (wait_for_rate_limit su p ev attempt d) Q E t"
proof -
  define r1 where "r1 = (started r)\<lparr>r_waits := r_waits r @ [d]\<rparr>"
  have r1: "same_job r u \<and> r_waits u = r_waits r @ [d] \<and> r_streams u = r_streams r + 1" if "idle r1 u" for u
    using that by (simp add: r1_def started_def idle_def same_job_def)
  have fin: "wp (transition p Running False False) (\<lambda>_. wp (emit_node su p SentUpdated) Q E) E u" if "idle r1 u" for u
    by (rule keeps_idle [OF idle_transition that], rule keeps_idle [OF idle_emit(2)]) (use r1 q e in \<open>simp_all, blast+\<close>)
  have bump: "idle r1 (u\<lparr>r_waits := r_waits u @ [d], r_world := w\<rparr>)" if "idle (started r) u" for u w
    using that by (simp add: r1_def started_def idle_def same_job_def)
  show ?thesis unfolding wait_for_rate_limit_def wp_simps wp_if meanwhile_def
  proof (rule keeps_idle [OF idle_transition t], rule keeps_idle [OF idle_emit(2)], assumption,
      rule keeps_idle [OF idle_emit(1)], assumption)
    fix u assume u: "idle (started r) u"
    let ?v = "u\<lparr>r_waits := r_waits u @ [d], r_world := su_meanwhile su (u\<lparr>r_waits := r_waits u @ [d]\<rparr>)\<rparr>"
    have "idle r1 ?v" by (rule bump [OF u])
    then show "if su_cancel_wait su (length (r_waits u)) then E Cancel ?v
        else wp (transition p Running False False) (\<lambda>_. wp (emit_node su p SentUpdated) Q E) E ?v"
      using fin r1 e by simp
  qed (use e in blast)+
qed

lemma wp_turn_loop:
  "idle r t \<Longrightarrow> (\<And>out u. spent r ds u \<Longrightarrow> answered su r out u \<Longrightarrow> Q out u) \<Longrightarrow> (\<And>e u. spent r ds u \<Longrightarrow> E e u) \<Longrightarrow>
     wp (turn_loop su p m attempt ds) Q E t"
proof (induction ds arbitrary: r t attempt Q E)
  case Nil
  have "Q (Error, Some BindingMissing) t" by (rule Nil.prems(2)) (use Nil.prems(1) in \<open>simp_all add: idle_spent answered_def\<close>)
  moreover have "wp (open_stream su p) (\<lambda>x. wp (after_stream su p x None) Q E) E t"
  proof (rule wp_open_stream [OF Nil.prems(1)])
    fix u assume u: "idle (started r) u"
    show "wp (after_stream su p (verdict su (r_streams r)) None) Q E u"
      by (rule wp_after_stream [OF u]) (auto intro: Nil.prems idle_spent)
  qed (auto intro: Nil.prems idle_spent)
  ultimately show ?case by simp
next
  case (Cons d ds)
  have "Q (Error, Some BindingMissing) t" by (rule Cons.prems(2)) (use Cons.prems(1) in \<open>simp_all add: idle_spent answered_def\<close>)
  moreover have "wp (open_stream su p) (\<lambda>x. wp (after_stream su p x (Some (\<lambda>ev.
       bind (wait_for_rate_limit su p ev (attempt + 1) d) (\<lambda>_. turn_loop su p m (attempt + 1) ds)))) Q E) E t"
  proof (rule wp_open_stream [OF Cons.prems(1)])
    fix u assume u: "idle (started r) u"
    show "wp (after_stream su p (verdict su (r_streams r)) (Some (\<lambda>ev.
       bind (wait_for_rate_limit su p ev (attempt + 1) d) (\<lambda>_. turn_loop su p m (attempt + 1) ds)))) Q E u"
    proof (rule wp_after_stream [OF u])
      fix f ev assume "Some (\<lambda>ev. bind (wait_for_rate_limit su p ev (attempt + 1) d) (\<lambda>_. turn_loop su p m (attempt + 1) ds)) = Some f"
        and auto: "auto_retry (r_node r)"
      then have f: "f = (\<lambda>ev. bind (wait_for_rate_limit su p ev (attempt + 1) d) (\<lambda>_. turn_loop su p m (attempt + 1) ds))" by simp
      show "wp (f ev) Q E u" unfolding f wp_simps
      proof (rule wp_wait [OF u])
        fix v assume v: "same_job r v" "r_waits v = r_waits r @ [d]" "r_streams v = r_streams r + 1"
        show "wp (turn_loop su p m (attempt + 1) ds) Q E v"
        proof (rule Cons.IH [OF idle_refl])
          fix out z assume z: "spent v ds z" "answered su v out z"
          have "answered su r out z" using z(2) v(3) by (auto simp: answered_def)
          then show "Q out z" by (rule Cons.prems(2) [OF spent_again [OF v auto z(1)]])
        qed (use Cons.prems(3) spent_again [OF v auto] in blast)
      next
        fix x v assume "idle (started r) v \<or> same_job r v \<and> r_waits v = r_waits r @ [d] \<and> r_streams v = r_streams r + 1"
        then have "spent r (d # ds) v"
        proof
          assume v: "same_job r v \<and> r_waits v = r_waits r @ [d] \<and> r_streams v = r_streams r + 1"
          then show ?thesis using auto unfolding spent_def by (intro conjI exI [of _ 1]) simp_all
        qed (rule idle_spent(2))
        then show "E x v" by (rule Cons.prems(3))
      qed
    qed (auto intro: Cons.prems idle_spent)
  qed (auto intro: Cons.prems idle_spent)
  ultimately show ?case by simp
qed

lemma wp_run_provider_turn:
  assumes "idle r t" and "\<And>out u. spent r retry_delays u \<Longrightarrow> answered su r out u \<Longrightarrow> Q out u"
    and "\<And>e u. spent r retry_delays u \<Longrightarrow> E e u"
  shows "wp (run_provider_turn su p) Q E t"
proof -
  have "wp (turn_loop su p m 0 retry_delays) Q E t" for m by (rule wp_turn_loop [OF assms])
  then show ?thesis using assms(3) idle_spent(1) [OF assms(1)]
    by (auto simp: run_provider_turn_def wp_result split: sum.split)
qed

section \<open>Repairs\<close>

lemma keeps_why_sum [keeps_intros]:
  "(\<And>x. a = IOFailure x \<Longrightarrow> keeps I (f x)) \<Longrightarrow> (\<And>e. keeps I (raise e :: 'a turn)) \<Longrightarrow>
     keeps I (case a of IOFailure x \<Rightarrow> f x | _ \<Rightarrow> raise a)"
  by (cases a) simp_all

lemma keeps_three [keeps_intros]:
  "(\<And>a b c. x = (a, b, c) \<Longrightarrow> keeps I (f a b c)) \<Longrightarrow> keeps I (case x of (a, b, c) \<Rightarrow> f a b c)"
  by (cases x) simp_all

lemma keeps_lane_text [keeps_intros]:
  "keeps I m \<Longrightarrow> keeps I m' \<Longrightarrow> (\<And>d. x = Text d \<Longrightarrow> keeps I (f d)) \<Longrightarrow>
     keeps I (case x of NoRead \<Rightarrow> m | NotUtf8 \<Rightarrow> m' | Text d \<Rightarrow> f d)"
  by (cases x) simp_all

lemma keeps_preview [keeps_intros]:
  "(\<And>y. x = ExecutedP y \<Longrightarrow> keeps I (f y)) \<Longrightarrow> (\<And>v. x = VirtualP v \<Longrightarrow> keeps I (g v)) \<Longrightarrow>
     keeps I (case x of ExecutedP y \<Rightarrow> f y | VirtualP v \<Rightarrow> g v)"
  by (cases x) simp_all

lemma idle_publish [keeps_intros]: "keeps (idle r) (publish su ns)"
proof -
  have "keeps (idle r) (writing (\<lambda>t. t\<lparr>r_node := (r_node t)\<lparr>n_artifacts := refs\<rparr>, r_stored := st\<rparr>))" for refs st
    by (rule keeps_writing) (simp add: idle_def same_job_def auto_retry_def)
  have "idle r (fst (publish su ns t))" if t: "idle r t" for t
    using t by (auto simp: publish_def bind_def publish_artifacts_def Let_def idle_def same_job_def auto_retry_def split: sum.split)
  then show ?thesis by (rule keepsI)
qed

lemma idle_persist [keeps_intros]: "keeps (idle r) (persist_executed_preview p s m su ni ar)"
  unfolding persist_executed_preview_def by (intro keeps_intros)

lemma idle_stub [keeps_intros]: "keeps (idle r) (write_stub_preview su p s reason)"
  unfolding write_stub_preview_def by (intro keeps_intros)

lemma idle_read_own [keeps_intros]: "keeps (idle r) (read_own su)"
  unfolding read_own_def by (intro keeps_intros)

lemma idle_publish_own [keeps_intros]: "keeps (idle r) (publish_own su x)"
  unfolding publish_own_def try_publish_def by (intro keeps_intros)

lemma idle_commit_reap [keeps_intros]: "keeps (idle r) (commit_reap p doc res)"
  unfolding commit_reap_def persist_own_def by (intro keeps_intros)

lemma idle_try_reap [keeps_intros]: "keeps (idle r) (try_reap_and_persist su p)"
  unfolding try_reap_and_persist_def run_reap_def by (intro keeps_intros)

lemma idle_append_error [keeps_intros]: "keeps (idle r) (append_error su f)"
  unfolding append_error_def by (intro keeps_intros) simp

text \<open>
  A node's own preview is accepted: the store holds a document that parses as an executed preview of the
  node, and the published files it declares meet the node's artifact mode.
\<close>

definition stored_preview :: "world \<Rightarrow> pystr \<Rightarrow> pystr \<Rightarrow> json option" where
  "stored_preview w pid nid = d_preview (dir_at (w_store w) (node_path (w_store w) pid nid))"

definition fits :: "run \<Rightarrow> json \<Rightarrow> executed_preview \<Rightarrow> bool" where
  "fits t doc x \<longleftrightarrow> parse_preview (Some doc) = Inr (ExecutedP x) \<and> validate_preview_for_node (ExecutedP x) (r_node t) = [] \<and>
     artifact_requirement_issue (n_artifact_mode (r_node t))
       (agent_artifact_refs (r_diff_artifact t) (xp_artifacts x) (n_artifacts (r_node t))) = None"

definition accepted :: "project \<Rightarrow> run \<Rightarrow> bool" where
  "accepted p t \<longleftrightarrow> (\<exists>doc x. stored_preview (r_world t) (p_id p) (n_id (r_node t)) = Some doc \<and> fits t doc x)"

lemma fits_world [simp]: "fits (t\<lparr>r_world := w\<rparr>) doc x = fits t doc x"
  by (simp add: fits_def)

lemma wp_read_own:
  assumes "\<And>w. Q (Inl w) t"
    and "\<And>doc x. parse_preview (Some doc) = Inr (ExecutedP x) \<Longrightarrow> validate_preview_for_node (ExecutedP x) (r_node t) = [] \<Longrightarrow>
      Q (Inr (doc, x)) t"
    and "\<And>e. E e t"
  shows "wp (read_own su) Q E t"
proof -
  have "parse_preview None \<noteq> Inr y" for y by (simp add: parse_preview_def)
  then have "Q (Inr (the d, x)) t"
    if "parse_preview d = Inr (ExecutedP x)" "validate_preview_for_node (ExecutedP x) (r_node t) = []" for d x
    using that assms(2) by (cases d) auto
  then show ?thesis
    using assms(1,3) by (auto simp: read_own_def split: lane_text.split sum.split preview.split list.split option.splits)
qed

lemma wp_publish_own:
  assumes "idle r t" and p: "parse_preview (Some doc) = Inr (ExecutedP x)" "validate_preview_for_node (ExecutedP x) (r_node t) = []"
    and "\<And>w u. idle r u \<Longrightarrow> Q (Some w) u" and "\<And>u. idle r u \<Longrightarrow> fits u doc x \<Longrightarrow> Q None u" and "\<And>e u. idle r u \<Longrightarrow> E e u"
  shows "wp (publish_own su x) Q E t"
proof -
  have new: "idle r (t\<lparr>r_node := (r_node t)\<lparr>n_artifacts := refs\<rparr>, r_stored := st\<rparr>)" for refs st
    using assms(1) by (simp add: idle_def same_job_def auto_retry_def)
  have fit: "fits (t\<lparr>r_node := (r_node t)\<lparr>n_artifacts := refs\<rparr>, r_stored := st\<rparr>) doc x"
    if "artifact_requirement_issue (n_artifact_mode (r_node t)) (agent_artifact_refs (r_diff_artifact t) (xp_artifacts x) refs) = None"
    for refs st using that p by (simp add: fits_def validate_preview_for_node_def)
  have "Q (map_option ArtifactsMissing (artifact_requirement_issue (n_artifact_mode (r_node t))
      (agent_artifact_refs (r_diff_artifact t) (xp_artifacts x) refs))) (t\<lparr>r_node := (r_node t)\<lparr>n_artifacts := refs\<rparr>, r_stored := st\<rparr>)"
    for refs st
    by (cases "artifact_requirement_issue (n_artifact_mode (r_node t)) (agent_artifact_refs (r_diff_artifact t) (xp_artifacts x) refs)")
      (simp_all only: option.map assms(4) [OF new] assms(5) [OF new fit])
  then show ?thesis
    using assms(1,4,6)
    by (auto simp: publish_own_def try_publish_def publish_def publish_artifacts_def Let_def split: sum.split option.split)
qed

lemma stored_preview_put:
  "wp (put_preview pid nid doc) (\<lambda>_ u. stored_preview u pid nid = Some doc) (\<lambda>_ _. True) w"
  by (simp add: put_preview_def on_store_def write_node_preview_def assert_writable_def schedule_commit_def Let_def wp_def bind_def
      andthen_def zoom_def stored_preview_def put_dir_def dir_at_def node_path_def owner_mid_def split: option.split)

lemma stored_preview_save: "keeps (\<lambda>w. stored_preview w pid nid = c) (save v)"
proof (rule keepsI)
  fix w assume "stored_preview w pid nid = c"
  then show "stored_preview (fst (save v w)) pid nid = c"
    by (auto simp: save_def on_store_def update_node_def assert_writable_def bind_model_catalog_def schedule_commit_def bind_def
        andthen_def zoom_def stored_preview_def write_node_json_def put_dir_def dir_at_def node_path_def owner_mid_def Let_def
        split: option.splits)
qed

lemma wp_commit_reap:
  assumes "idle r t" and "fits t doc x" and "\<And>w u. idle r u \<Longrightarrow> Q (Some w) u"
    and "\<And>u. idle r u \<Longrightarrow> accepted p u \<Longrightarrow> Q None u" and "\<And>e u. idle r u \<Longrightarrow> E e u"
  shows "wp (commit_reap p doc res) Q E t"
proof -
  define J where "J u \<longleftrightarrow> idle r u \<and> accepted p u" for u
  have save: "keeps J (bind (on_world (save v)) (\<lambda>_. ret ()))" for v
  proof (rule keeps_bind)
    show "keeps J (on_world (save v))"
    proof (rule keepsI)
      fix u assume u: "J u"
      then obtain d y where d: "stored_preview (r_world u) (p_id p) (n_id (r_node u)) = Some d" "fits u d y" "idle r u"
        by (auto simp: J_def accepted_def)
      have "stored_preview (fst (save v (r_world u))) (p_id p) (n_id (r_node u)) = Some d"
        by (rule keepsD [OF stored_preview_save d(1)])
      with d show "J (fst (on_world (save v) u))"
        by (auto simp: J_def accepted_def on_world_def split: prod.split)
    qed
  qed simp
  have loop: "wp (bind (for_each vs (\<lambda>v. bind (on_world (save v)) (\<lambda>_. ret ()))) (\<lambda>_. ret None)) Q E u" if "J u" for u vs
  proof -
    have "keeps J (for_each vs (\<lambda>v. bind (on_world (save v)) (\<lambda>_. ret ())))" by (rule keeps_for_each) (rule save)
    from keepsD [OF this that] show ?thesis
      using assms(4,5) by (auto simp: wp_def bind_apply J_def split: prod.splits sum.splits)
  qed
  have "wp (persist_own p doc) (\<lambda>_. J) E t"
  proof -
    have "wp (put_preview (p_id p) (n_id (r_node t)) doc) (\<lambda>_ w. J (t\<lparr>r_world := w\<rparr>)) (\<lambda>e w. E (Raised e) (t\<lparr>r_world := w\<rparr>)) (r_world t)"
      by (rule wp_mono [OF stored_preview_put]) (use assms(1,2,5) in \<open>auto simp: J_def accepted_def\<close>)
    then show ?thesis by (simp add: persist_own_def)
  qed
  then have "wp (persist_own p doc) (\<lambda>_. wp (bind (for_each vs (\<lambda>v. bind (on_world (save v)) (\<lambda>_. ret ()))) (\<lambda>_. ret None)) Q E) E t"
    for vs by (rule wp_mono) (use loop in blast)+
  then show ?thesis using assms(1,3) by (cases res) (auto simp: commit_reap_def simp del: wp_simps(6) intro: wp_bindI)
qed

lemma wp_try_reap:
  assumes t: "idle r t" and w: "\<And>w u. idle r u \<Longrightarrow> Q (Some w) u"
    and n: "\<And>u. idle r u \<Longrightarrow> accepted p u \<Longrightarrow> Q None u" and e: "\<And>e u. idle r u \<Longrightarrow> E e u"
  shows "wp (try_reap_and_persist su p) Q E t"
proof -
  have reap: "wp (run_reap su p) (\<lambda>_ u. idle r u \<and> fits u doc x) (\<lambda>_. idle r) u" if "idle r u" "fits u doc x" for u doc x
    using that by (simp add: run_reap_def) (rule wpI, simp_all)
  have run: "wp (run_reap su p) (\<lambda>res. wp (commit_reap p doc res) Q E) E u" if "idle r u" "fits u doc x" for u doc x
  proof (rule wp_mono [OF reap [OF that]])
    fix res v assume "idle r v \<and> fits v doc x"
    then show "wp (commit_reap p doc res) Q E v" using wp_commit_reap [of r v doc x Q p E res] w n e by blast
  qed (rule e)
  have own: "wp (publish_own su x) (\<lambda>issue. wp (case issue of Some w \<Rightarrow> ret (Some w)
      | None \<Rightarrow> bind (run_reap su p) (\<lambda>res. commit_reap p doc res)) Q E) E t"
    if "parse_preview (Some doc) = Inr (ExecutedP x)" "validate_preview_for_node (ExecutedP x) (r_node t) = []" for doc x
    by (rule wp_publish_own [OF t that]) (simp_all add: w e run)
  have "wp (read_own su) (\<lambda>own. wp (case own of
         Inl reason \<Rightarrow> ret (Some reason)
       | Inr (doc, x) \<Rightarrow> bind (publish_own su x) (\<lambda>issue. case issue of
           Some reason \<Rightarrow> ret (Some reason)
         | None \<Rightarrow> bind (run_reap su p) (\<lambda>res. commit_reap p doc res))) Q E) E t"
    by (rule wp_read_own) (use w [OF t] e [OF t] own in simp_all)
  then show ?thesis using w [OF t] by (simp add: try_reap_and_persist_def)
qed

text \<open>What \<open>k\<close> provider turns may have used.\<close>

definition within :: "run \<Rightarrow> nat \<Rightarrow> run \<Rightarrow> bool" where
  "within r k t \<longleftrightarrow> same_job r t \<and> r_streams t \<le> r_streams r + 4 * k \<and> length (r_waits t) \<le> length (r_waits r) + 3 * k \<and>
     (\<not> auto_retry (r_node r) \<longrightarrow> r_streams t \<le> r_streams r + k \<and> r_waits t = r_waits r)"

lemma within_idle: "idle r t \<Longrightarrow> within r k t"
  by (auto simp: within_def idle_def)

lemma within_spent: "spent r retry_delays t \<Longrightarrow> within r 1 t"
  by (auto simp: within_def spent_def retry_delays_def)

lemma within_trans: "within r j t \<Longrightarrow> within t k u \<Longrightarrow> within r (j + k) u"
  by (auto simp: within_def same_job_def)

lemma within_mono: "within r j t \<Longrightarrow> j \<le> k \<Longrightarrow> within r k t"
  by (auto simp: within_def)

lemma wp_idle_step:
  assumes "keeps (idle t) m" and "within r k t" and "\<And>x u. within r k u \<Longrightarrow> Q x u" and "\<And>e u. within r k u \<Longrightarrow> E e u"
  shows "wp m Q E t"
proof (rule keeps_idle [OF assms(1) idle_refl])
  show "Q x u" if "idle t u" for x u using within_trans [OF assms(2) within_idle [OF that, of 0]] assms(3) by simp
  show "E x u" if "idle t u" for x u using within_trans [OF assms(2) within_idle [OF that, of 0]] assms(4) by simp
qed

lemma wp_stub_then:
  assumes "within r k t" and "\<And>u. within r k u \<Longrightarrow> Q s u" and "\<And>e u. within r k u \<Longrightarrow> E e u"
  shows "wp (bind (write_stub_preview su p st reason) (\<lambda>_. ret s)) Q E t"
  unfolding wp_simps by (rule wp_idle_step [OF idle_stub assms(1)]) (use assms in simp_all)

lemma wp_try_reap_within:
  assumes "within r k t" and "\<And>w u. within r k u \<Longrightarrow> Q (Some w) u" and "\<And>u. within r k u \<Longrightarrow> accepted p u \<Longrightarrow> Q None u"
    and "\<And>e u. within r k u \<Longrightarrow> E e u"
  shows "wp (try_reap_and_persist su p) Q E t"
proof (rule wp_try_reap [OF idle_refl])
  have w: "within r k u" if "idle t u" for u using within_trans [OF assms(1) within_idle [OF that, of 0]] by simp
  show "Q (Some y) u" if "idle t u" for y u by (rule assms(2) [OF w [OF that]])
  show "Q None u" if "idle t u" "accepted p u" for u by (rule assms(3) [OF w [OF that(1)] that(2)])
  show "E x u" if "idle t u" for x u by (rule assms(4) [OF w [OF that]])
qed

lemma wp_on_node_step:
  assumes "minor f" and "within r k t" and "\<And>u. within r k u \<Longrightarrow> wp m Q E u" and "\<And>e u. within r k u \<Longrightarrow> E e u"
  shows "wp (bind (on_node f) (\<lambda>_. m)) Q E t"
  by (rule wp_bindI, rule wp_idle_step [OF keeps_on_node [OF assms(1)] assms(2)]) (use assms in simp_all)

lemma wp_after_repair:
  assumes u: "within r k u" and range: "state \<in> {Done, Error, Cancelled}"
    and q: "\<And>s v. within r k v \<Longrightarrow> s \<in> {Error, Cancelled} \<or> s = Done \<and> accepted p v \<Longrightarrow> Q s v"
    and more: "\<And>w v. within r k v \<Longrightarrow> wp (again w) Q E v" and e: "\<And>x v. within r k v \<Longrightarrow> E x v"
  shows "wp (after_repair su p again state err) Q E u"
proof (cases err)
  case (Some f)
  show ?thesis unfolding Some after_repair_def option.case
    by (rule wp_on_node_step [OF _ u], simp, rule wp_stub_then, assumption) (use q e in simp_all)
next
  case None
  have stub: "wp (bind (write_stub_preview su p state (Some (RepairEnded state))) (\<lambda>_. ret state)) Q E u" if "state \<noteq> Done"
    by (rule wp_stub_then [OF u]) (use q e range that in simp_all)
  have "wp (bind (try_reap_and_persist su p) (\<lambda>issue. case issue of None \<Rightarrow> ret Done | Some w \<Rightarrow> again w)) Q E u"
    by (rule wp_bindI, rule wp_try_reap_within [OF u]) (use more q e in simp_all)
  with stub show ?thesis by (simp add: None after_repair_def)
qed

lemma wp_repair_loop:
  assumes "within r j t" and "\<And>s u. within r (j + left) u \<Longrightarrow> s \<in> {Error, Cancelled} \<or> s = Done \<and> accepted p u \<Longrightarrow> Q s u"
    and "\<And>x u. within r (j + left) u \<Longrightarrow> E x u"
  shows "wp (repair_loop su p left w) Q E t"
  using assms
proof (induction left arbitrary: t j w)
  case 0
  show ?case unfolding repair_loop.simps append_error_def
    by (rule wp_on_node_step [OF _ 0(1)], simp, rule wp_stub_then, assumption) (use 0(2,3) in simp_all)
next
  case (Suc left)
  have mono: "within r (j + Suc left) u" if "within r (Suc j) u" for u by (rule within_mono [OF that]) simp
  have turn: "wp (run_provider_turn su p) (\<lambda>x. wp (case x of (state, err) \<Rightarrow>
      after_repair su p (\<lambda>w. repair_loop su p left w) state err) Q E) E u" if u: "within r j u" for u
  proof (rule wp_run_provider_turn [OF idle_refl])
    fix out v assume v: "spent u retry_delays v" "answered su u out v"
    have v1: "within r (Suc j) v" using within_trans [OF u within_spent [OF v(1)]] by simp
    have "wp (after_repair su p (\<lambda>w. repair_loop su p left w) (fst out) (snd out)) Q E v"
    proof (rule wp_after_repair [OF v1])
      show "fst out \<in> {Done, Error, Cancelled}" using v(2) by (simp add: answered_def)
      show "wp (repair_loop su p left w) Q E z" if "within r (Suc j) z" for w z
        by (rule Suc.IH [OF that]) (use Suc.prems(2,3) in simp_all)
    qed (use Suc.prems(2,3) mono in blast)+
    then show "wp (case out of (state, err) \<Rightarrow> after_repair su p (\<lambda>w. repair_loop su p left w) state err) Q E v"
      by (simp add: prod.case_eq_if)
  next
    fix x v assume "spent u retry_delays v"
    then have "within r (Suc j) v" using within_trans [OF u within_spent] by simp
    then show "E x v" by (rule Suc.prems(3) [OF mono])
  qed
  show ?case unfolding repair_loop.simps
  proof (rule wp_bindI, rule wp_idle_step [OF idle_emit(1) Suc.prems(1)])
    show "wp (bind (run_provider_turn su p) (\<lambda>(state, err). after_repair su p (\<lambda>w. repair_loop su p left w) state err)) Q E u"
      if "within r j u" for u by (rule wp_bindI, rule turn [OF that])
    show "E x u" if "within r j u" for x u by (rule Suc.prems(3), rule within_mono [OF that]) simp
  qed
qed

lemma wp_reap_with_repairs:
  assumes t: "within r 0 t" and q: "\<And>s u. within r 3 u \<Longrightarrow> s \<in> {Error, Cancelled} \<or> s = Done \<and> accepted p u \<Longrightarrow> Q s u"
    and e: "\<And>x u. within r 3 u \<Longrightarrow> E x u"
  shows "wp (reap_with_preview_repairs su p) Q E t"
  unfolding reap_with_preview_repairs_def
proof (rule wp_bindI, rule wp_try_reap_within [OF t])
  fix w u assume u: "within r 0 u"
  show "wp (case Some w of None \<Rightarrow> ret Done | Some reason \<Rightarrow> repair_loop su p preview_repair_retries reason) Q E u"
    unfolding option.case
  proof (rule wp_repair_loop [OF u])
    have three: "0 + preview_repair_retries = 3" by (simp add: preview_repair_retries_def)
    show "Q s v" if "within r (0 + preview_repair_retries) v" "s \<in> {Error, Cancelled} \<or> s = Done \<and> accepted p v" for s v
      using that unfolding three by (rule q)
    show "E x v" if "within r (0 + preview_repair_retries) v" for x v
      using that unfolding three by (rule e)
  qed
next
  fix u assume u: "within r 0 u" "accepted p u"
  have "Q Done u" by (rule q [OF within_mono [OF u(1)]]) (simp_all add: u(2))
  then show "wp (case None of None \<Rightarrow> ret Done | Some reason \<Rightarrow> repair_loop su p preview_repair_retries reason) Q E u" by simp
next
  fix x u assume "within r 0 u"
  then have "within r 3 u" by (rule within_mono) simp
  then show "E x u" by (rule e)
qed

section \<open>A sample\<close>

definition blank_event :: "pystr \<Rightarrow> provider_event" where
  "blank_event kind = \<lparr>pe_kind = kind, pe_event = None, pe_session_id = None, pe_turn_id = None, pe_error = None,
     pe_final_state = None, pe_report = None, pe_settings = None, pe_resets_at = None, pe_observed_at = None\<rparr>"

text \<open>A first stream ends at a rate limit, the second one is done; the own preview is there after two streams.\<close>

definition sample_outside :: outside where
  "sample_outside = \<lparr>su_events = (\<lambda>k. [blank_event (if k = 0 then ''rate_limit'' else ''done'')]), su_ending = (\<lambda>_. Exhausted),
     su_meanwhile = r_world, su_cancel_wait = (\<lambda>_. False),
     su_tree = (\<lambda>k. if k < 2 then sample_pre else sample_tree),
     su_files = (\<lambda>_. Inr (\<lambda>_. \<lparr>src_resolves = False, src_inside = False, src_regular = False, src_stat = Inl [], src_copy = Inl []\<rparr>)),
     su_outputs = (\<lambda>_. []), su_prose = Inl Cancel, su_library = (\<lambda>_ _. (JNull, None)), su_diff = None, su_head = (\<lambda>_. None),
     su_dump = (\<lambda>_. JNull), su_wording = (\<lambda>_. ''failed''), su_text = (\<lambda>_. ''text''), su_env = sample_env\<rparr>"

definition sample_run :: run where
  "sample_run = \<lparr>r_world = auto_world, r_node = sample_planner, r_seq = 0, r_sent = [], r_changes = [], r_lane = True,
     r_pre = snapshot_lane sample_pre, r_cold_text = [], r_diff_artifact = None, r_stored = [], r_prose = None,
     r_streams = 0, r_waits = []\<rparr>"

section \<open>Properties\<close>

text \<open>
  C13: a provider turn is bounded. Whatever the provider's streams contain, however they end and whatever
  the rest of the process does meanwhile, a turn starts at most four streams and its waits are a prefix
  of one, one and five minutes, one after each stream but perhaps the last; with automatic retries off
  there is one stream at most and no wait. This holds when the turn raises too. A turn that returns
  answers done, error or cancelled, with an error only as an error, and without one exactly what the first
  terminal event of its last stream says.
\<close>

theorem turn_bounded:
  assumes "run_provider_turn su p r = (t, res)"
  shows "\<exists>k \<le> 3. r_waits t = r_waits r @ take k [60, 60, 300] \<and> r_streams r + k \<le> r_streams t \<and>
    r_streams t \<le> r_streams r + k + 1 \<and> (\<not> auto_retry (r_node r) \<longrightarrow> k = 0) \<and>
    (case res of Inl e \<Rightarrow> True | Inr (s, err) \<Rightarrow> s \<in> {Done, Error, Cancelled} \<and> (err \<noteq> None \<longrightarrow> s = Error) \<and>
       (err = None \<longrightarrow> r_streams r < r_streams t \<and> (\<exists>v. verdict su (r_streams t - 1) = DoneSeen v \<and>
          s = (case state_from_provider v of None \<Rightarrow> Done | Some s \<Rightarrow> s))))"
proof -
  have "wp (run_provider_turn su p) (\<lambda>out u. spent r retry_delays u \<and> answered su r out u) (\<lambda>_. spent r retry_delays) r"
    by (rule wp_run_provider_turn [OF idle_refl]) simp_all
  then have sp: "spent r retry_delays t" and ans: "case res of Inl e \<Rightarrow> True | Inr out \<Rightarrow> answered su r out t"
    using assms by (auto simp: wp_def split: sum.splits)
  have "length retry_delays = 3" by (simp add: retry_delays_def)
  with sp obtain k where k: "k \<le> 3" "r_waits t = r_waits r @ take k [60, 60, 300]" "r_streams r + k \<le> r_streams t"
    "r_streams t \<le> r_streams r + k + 1" "\<not> auto_retry (r_node r) \<longrightarrow> k = 0"
    unfolding spent_def retry_delays_def by metis
  show ?thesis by (rule exI [of _ k], intro conjI k) (use ans in \<open>auto simp: answered_def split: sum.splits\<close>)
qed

theorem turn_bounded_witness:
  "\<exists>t k. run_provider_turn sample_outside sample_project sample_run = (t, Inr (Done, None)) \<and>
    k \<le> 3 \<and> r_waits t = take k [60, 60, 300] \<and> r_streams t = 2 \<and> verdict sample_outside 1 = DoneSeen None"
proof -
  let ?x = "run_provider_turn sample_outside sample_project sample_run"
  have r: "snd ?x = Inr (Done, None)" "r_streams (fst ?x) = 2" by code_simp+
  have v: "verdict sample_outside 1 = DoneSeen None" by code_simp
  have w: "r_waits sample_run = []" by (simp add: sample_run_def)
  have x: "?x = (fst ?x, Inr (Done, None))" using r by (metis prod.collapse)
  from turn_bounded [OF x] obtain k where "k \<le> 3" "r_waits (fst ?x) = take k [60, 60, 300]" unfolding w by auto
  with x r v show ?thesis by metis
qed

text \<open>
  C12: a node is done only with a valid preview of its own. The reap with its repairs answers done only
  when the store holds, as the node's preview, a document that parses as an executed preview of this node and
  whose published artifacts meet the node's artifact mode; every other answer is error or cancelled. At
  most three repair turns run, so at most twelve streams and nine waits, three streams and none when
  automatic retries are off, and the node keeps its identity and contract, also when the reap raises.
\<close>

theorem repairs_sound:
  assumes "reap_with_preview_repairs su p r = (t, res)"
  shows "r_streams t \<le> r_streams r + 12 \<and> length (r_waits t) \<le> length (r_waits r) + 9 \<and> same_job r t \<and>
    (\<not> auto_retry (r_node r) \<longrightarrow> r_streams t \<le> r_streams r + 3 \<and> r_waits t = r_waits r) \<and>
    (\<forall>s. res = Inr s \<longrightarrow> s \<in> {Error, Cancelled} \<or> s = Done \<and>
       (\<exists>doc x. stored_preview (r_world t) (p_id p) (n_id (r_node t)) = Some doc \<and>
          parse_preview (Some doc) = Inr (ExecutedP x) \<and> validate_preview_for_node (ExecutedP x) (r_node t) = [] \<and>
          artifact_requirement_issue (n_artifact_mode (r_node t))
            (agent_artifact_refs (r_diff_artifact t) (xp_artifacts x) (n_artifacts (r_node t))) = None))"
proof -
  have "wp (reap_with_preview_repairs su p)
      (\<lambda>s u. within r 3 u \<and> (s \<in> {Error, Cancelled} \<or> s = Done \<and> accepted p u)) (\<lambda>_. within r 3) r"
    by (rule wp_reap_with_repairs [OF within_idle [OF idle_refl]]) simp_all
  then have "within r 3 t" and "\<forall>s. res = Inr s \<longrightarrow> s \<in> {Error, Cancelled} \<or> s = Done \<and> accepted p t"
    using assms by (auto simp: wp_def split: sum.splits)
  then show ?thesis by (auto simp: within_def accepted_def fits_def)
qed

text \<open>Another provider: every stream is done at once, and the preview is there after the first.\<close>

definition quick_outside :: outside where
  "quick_outside = sample_outside\<lparr>su_events := (\<lambda>_. [blank_event ''done'']),
     su_tree := (\<lambda>k. if k = 0 then sample_pre else sample_tree)\<rparr>"

theorem repairs_sound_witness:
  "\<exists>t. reap_with_preview_repairs quick_outside sample_project sample_run = (t, Inr Done) \<and>
    r_streams t = 1 \<and> same_job sample_run t \<and> accepted sample_project t"
proof -
  let ?x = "reap_with_preview_repairs quick_outside sample_project sample_run"
  have "case ?x of (t, res) \<Rightarrow> res = Inr Done \<and> r_streams t = 1" by code_simp
  then have r: "snd ?x = Inr Done" "r_streams (fst ?x) = 1" by (simp_all add: case_prod_beta)
  have x: "?x = (fst ?x, Inr Done)" using r by (metis prod.collapse)
  from repairs_sound [OF x] have "same_job sample_run (fst ?x)" "accepted sample_project (fst ?x)"
    by (auto simp: accepted_def fits_def)
  with x r show ?thesis by metis
qed

end
