(* ===== verification/Run_Settles.thy ===== *)
theory Run_Settles
  imports Run_Bounds
begin

text \<open>
  The end of an agent's run: whatever its provider does, the runner leaves the node terminal and stored,
  with a closed transcript. The store must be writable and know the node's preset, which no other
  part of the process changes while the runner waits.
\<close>

section \<open>The store stays usable\<close>

definition hosted :: "global_config \<Rightarrow> world \<Rightarrow> bool" where
  "hosted c w \<longleftrightarrow> st_read_only (w_store w) = None \<and> st_config (w_store w) = c"

definition store_hosted :: "global_config \<Rightarrow> store \<Rightarrow> bool" where
  "store_hosted c s \<longleftrightarrow> st_read_only s = None \<and> st_config s = c"

lemma hosted_on_store [keeps_intros]: "keeps (store_hosted c) m \<Longrightarrow> keeps (hosted c) (on_store m)"
  by (auto simp: keeps_def on_store_apply hosted_def store_hosted_def)

lemma store_hosted_writes [simp]:
  "store_hosted c (set_owner p i h s) = store_hosted c s" "store_hosted c (put_dir q d s) = store_hosted c s"
  "store_hosted c (write_node_json q n s) = store_hosted c s" "store_hosted c (s\<lparr>st_commits := x\<rparr>) = store_hosted c s"
  "store_hosted c (s\<lparr>st_last_activity := a\<rparr>) = store_hosted c s" "store_hosted c (s\<lparr>st_owner_index := o'\<rparr>) = store_hosted c s"
  by (simp_all add: store_hosted_def set_owner_def put_dir_def write_node_json_def)

lemma store_hosted_basics [keeps_intros]:
  "keeps (store_hosted c) assert_writable" "keeps (store_hosted c) (schedule_commit m)"
  "keeps (store_hosted c) (bind_model_catalog q)" "keeps (store_hosted c) (writing (\<lambda>s. s\<lparr>st_owner_index := f s\<rparr>))"
  by (simp_all add: keeps_def assert_writable_def schedule_commit_def bind_model_catalog_def split: option.split)

lemma keeps_matches [keeps_intros]:
  "keeps I m \<Longrightarrow> (\<And>h i f. xs = [(h, i, f)] \<Longrightarrow> keeps I (g h f)) \<Longrightarrow> keeps I m' \<Longrightarrow>
     keeps I (case xs of [] \<Rightarrow> m | [(h, i, f)] \<Rightarrow> g h f | _ \<Rightarrow> m')"
  by (cases xs; cases "tl xs") (auto split: prod.split)

lemma store_hosted_load [keeps_intros]: "keeps (store_hosted c) (load_node p i)"
  unfolding load_node_def by (intro keeps_intros keeps_writing) simp_all

lemma store_hosted_list [keeps_intros]: "keeps (store_hosted c) (list_nodes p lanes)"
  unfolding list_nodes_def load_project_def list_nodes_for_project_def by (intro keeps_intros keeps_writing) simp_all

lemma store_hosted_node_writes [keeps_intros]:
  "keeps (store_hosted c) (update_node n)" "keeps (store_hosted c) (create_node n)"
  "keeps (store_hosted c) (write_node_preview p i doc)" "keeps (store_hosted c) (append_event p i seq ev)"
  "keeps (store_hosted c) (record_project_activity p at)"
  unfolding update_node_def create_node_def write_node_preview_def append_event_def record_project_activity_def
  by (intro keeps_intros keeps_writing; simp add: Let_def split: option.split)+

lemma hosted_nodes [keeps_intros]:
  "keeps (hosted c) (load p i)" "keeps (hosted c) (listing p lanes)" "keeps (hosted c) (save n)"
  "keeps (hosted c) (insert_node n)" "keeps (hosted c) (put_preview p i doc)"
  unfolding load_def listing_def save_def insert_node_def put_preview_def by (intro keeps_intros)+

lemma hosted_fresh_id [keeps_intros]: "keeps (hosted c) (fresh_id env)"
  unfolding fresh_id_def by (intro keeps_intros keeps_writing) (simp add: hosted_def)

lemma hosted_sort_entries [keeps_intros]: "keeps (hosted c) (sort_entries p n pre ps)"
proof (induction ps)
  case (Cons e ps)
  obtain ident q rel where e: "e = (ident, q, rel)" by (cases e)
  show ?case unfolding e sort_entries.simps sort_entry_def by (intro keeps_intros Cons.IH)
qed (simp only: sort_entries.simps keeps_basic)

lemma hosted_drafts [keeps_intros]: "keeps (hosted c) (draft_virtuals env p n es slugs ds)"
proof (induction es arbitrary: slugs ds)
  case (Cons e es)
  obtain slug v where e: "e = (slug, v)" by (cases e)
  show ?case unfolding e draft_virtuals.simps draft_virtual_def planner_preset_def preview_node_def
    by (intro keeps_intros Cons.IH)
qed (simp only: draft_virtuals.simps keeps_basic)

lemma hosted_deps [keeps_intros]: "keeps (hosted c) (rewrite_deps slugs p lane label deps)"
  by (induction deps) (simp only: rewrite_deps.simps keeps_basic, simp only: rewrite_deps.simps, intro keeps_intros)

lemma hosted_rewrite_drafts [keeps_intros]: "keeps (hosted c) (rewrite_drafts slugs p lane ds)"
  by (induction ds) (simp only: rewrite_drafts.simps keeps_basic, simp only: rewrite_drafts.simps, intro keeps_intros)

lemma hosted_rewrite_virtuals [keeps_intros]: "keeps (hosted c) (rewrite_virtuals p slugs lane xs seen)"
proof (induction xs arbitrary: seen)
  case (Cons x xs)
  obtain e v rel where x: "x = (e, v, rel)" by (cases x)
  have "keeps (hosted c) (rewrite_virtual p slugs lane x)"
    unfolding x rewrite_virtual_def prod.case planner_preset_def preview_node_def resume_agrees_def expected_preset_def
    by (intro keeps_intros)
  then show ?case unfolding rewrite_virtuals.simps by (intro keeps_intros Cons.IH)
qed (simp only: rewrite_virtuals.simps keeps_basic)

lemma hosted_each [keeps_intros]:
  assumes "\<And>n. keeps (hosted c) (f n)"
  shows "keeps (hosted c) (each_node f ns)"
proof (induction ns)
  case (Cons n ns)
  show ?case unfolding each_node.simps by (intro keeps_intros assms Cons)
qed (simp only: each_node.simps keeps_basic)

lemma hosted_reap [keeps_intros]: "keeps (hosted c) (reap_lane env p n tree pre)"
  unfolding reap_lane_def reap_changed_def commit_entries_def commit_rewrites_def persist_def lane_cycle_def
  by (intro keeps_intros)

section \<open>The runner's node stays itself\<close>

type_synonym node_key = "pystr \<times> pystr \<times> pystr option"

definition node_key :: "node \<Rightarrow> node_key" where
  "node_key n = (n_id n, n_project_id n, n_model_preset_id n)"

definition alive :: "global_config \<Rightarrow> node_key \<Rightarrow> run \<Rightarrow> bool" where
  "alive c k r \<longleftrightarrow> hosted c (r_world r) \<and> node_key (r_node r) = k"

text \<open>What the runner relies on: the rest of the process changes neither the lock nor the configuration.\<close>

definition quiet_outside :: "outside \<Rightarrow> bool" where
  "quiet_outside su \<longleftrightarrow> (\<forall>r c. hosted c (r_world r) \<longrightarrow> hosted c (su_meanwhile su r))"

lemma alive_on_world [keeps_intros]: "keeps (hosted c) m \<Longrightarrow> keeps (alive c k) (on_world m)"
  by (auto simp: keeps_def alive_def on_world_def split: prod.split)

lemma alive_writing:
  "(\<And>r. node_key (r_node (f r)) = node_key (r_node r) \<and> r_world (f r) = r_world r) \<Longrightarrow> keeps (alive c k) (writing f)"
  by (rule keeps_writing) (simp add: alive_def)

lemma alive_meanwhile: "quiet_outside su \<Longrightarrow> keeps (alive c k) (meanwhile su)"
  unfolding meanwhile_def by (rule keeps_writing) (simp add: alive_def quiet_outside_def)

lemma alive_on_node [keeps_intros]: "(\<And>n. node_key (f n) = node_key n) \<Longrightarrow> keeps (alive c k) (on_node f)"
  unfolding on_node_def by (rule alive_writing) simp

lemma node_key_upd [simp]:
  "node_key (n\<lparr>n_usage := u\<rparr>) = node_key n" "node_key (n\<lparr>n_provider_session_id := s\<rparr>) = node_key n"
  "node_key (n\<lparr>n_provider_turn_id := s\<rparr>) = node_key n" "node_key (n\<lparr>n_error := e\<rparr>) = node_key n"
  "node_key (n\<lparr>n_summary := s\<rparr>) = node_key n" "node_key (stamp_state st b d now n) = node_key n"
  "node_key (n\<lparr>n_settings_snapshot := ss\<rparr>) = node_key n" "node_key (n\<lparr>n_artifacts := ar\<rparr>) = node_key n"
  "node_key (n\<lparr>n_rev := v\<rparr>) = node_key n" "node_key (n\<lparr>n_error := e, n_commit_after := h\<rparr>) = node_key n"
  by (simp_all add: node_key_def stamp_state_def)

text \<open>A write of the node: on a usable store that knows the preset it does not fail.\<close>

definition knows :: "global_config \<Rightarrow> node_key \<Rightarrow> bool" where
  "knows c k \<longleftrightarrow> (\<forall>s. st_config s = c \<longrightarrow> catalog_issue s (snd (snd k)) = None)"

definition recorded_node :: "run \<Rightarrow> bool" where
  "recorded_node r \<longleftrightarrow> (let s = w_store (r_world r); n = r_node r in
     d_node (dir_at s (node_path s (n_project_id n) (n_id n))) = Some (Readable (dumped n)))"

lemma wp_update_self:
  assumes "alive c k r" and "knows c k"
    and "\<And>w v. alive c k (r\<lparr>r_world := w, r_node := (r_node r)\<lparr>n_rev := v\<rparr>\<rparr>) \<Longrightarrow>
      recorded_node (r\<lparr>r_world := w, r_node := (r_node r)\<lparr>n_rev := v\<rparr>\<rparr>) \<Longrightarrow> w_now w = w_now (r_world r) \<Longrightarrow>
      (\<forall>p i. stored_preview w p i = stored_preview (r_world r) p i) \<Longrightarrow>
      Q () (r\<lparr>r_world := w, r_node := (r_node r)\<lparr>n_rev := v\<rparr>\<rparr>)"
  shows "wp update_self Q E r"
proof -
  let ?n = "r_node r" and ?s = "w_store (r_world r)"
  let ?q = "node_path ?s (n_project_id ?n) (n_id ?n)"
  let ?v = "max (n_rev ?n) (persisted_rev (d_node (dir_at ?s ?q))) + 1"
  let ?m = "?n\<lparr>n_rev := ?v\<rparr>"
  let ?t = "write_node_json ?q ?m ?s"
  let ?w = "(r_world r)\<lparr>w_store := ?t\<lparr>st_commits := st_commits ?t @ [''node '' @ n_id ?n @ '' '' @ node_state_value (n_state ?n)]\<rparr>\<rparr>"
  have ro: "st_read_only ?s = None" and cat: "catalog_issue ?s (n_model_preset_id ?n) = None"
    using assms(1,2) by (auto simp: alive_def hosted_def knows_def node_key_def)
  have run: "update_self r = (r\<lparr>r_world := ?w, r_node := ?m\<rparr>, Inr ())"
    using ro cat by (simp add: update_self_def on_node_def save_def on_store_def update_node_def assert_writable_def
        bind_model_catalog_def schedule_commit_def bind_def andthen_def zoom_def on_world_def Let_def)
  have "hosted c ?w" using assms(1) by (simp add: alive_def hosted_def write_node_json_def put_dir_def)
  then have "alive c k (r\<lparr>r_world := ?w, r_node := ?m\<rparr>)" using assms(1) by (simp add: alive_def node_key_def)
  moreover have "recorded_node (r\<lparr>r_world := ?w, r_node := ?m\<rparr>)"
    by (simp add: recorded_node_def Let_def write_node_json_def put_dir_def dir_at_def node_path_def owner_mid_def split: option.split)
  moreover have "stored_preview ?w p i = stored_preview (r_world r) p i" for p i
    by (auto simp: stored_preview_def write_node_json_def put_dir_def dir_at_def node_path_def owner_mid_def empty_dir_def
        split: option.split)
  ultimately show ?thesis using assms(3) run by (intro wp_returns) auto
qed

section \<open>Every step keeps the node alive\<close>

lemma alive_update_self [keeps_intros]: "keeps (alive c k) update_self"
proof (rule keepsI)
  fix t assume t: "alive c k t"
  have "wp update_self (\<lambda>_. alive c k) (\<lambda>_. alive c k) t"
    using t by (auto simp: update_self_def on_node_def save_def on_store_def update_node_def wp_result Let_def
        assert_writable_def bind_model_catalog_def schedule_commit_def wp_def bind_def andthen_def zoom_def on_world_def
        alive_def hosted_def node_key_def write_node_json_def put_dir_def split: option.splits)
  then show "alive c k (fst (update_self t))" by (rule wp_fst)
qed

lemma alive_emit [keeps_intros]: "keeps (alive c k) (emit su p ev)" "keeps (alive c k) (emit_node su p f)"
  unfolding emit_def emit_node_def by (intro keeps_intros alive_writing; simp)+

lemma alive_transition [keeps_intros]: "keeps (alive c k) (transition p s a b)"
  unfolding transition_def by (intro keeps_intros alive_writing) simp_all

lemma alive_handle [keeps_intros]: "keeps (alive c k) (handle_provider_event su p ev)"
proof -
  have "keeps (alive c k) (save_and_tell su p f)" if "\<And>n. node_key (f n) = node_key n" for f
    unfolding save_and_tell_def using that by (intro keeps_intros)
  moreover have "keeps (alive c k) (handle_wire su p e)" for e
    unfolding handle_wire_def record_usage_def record_skill_use_def by (intro keeps_intros alive_writing) simp_all
  ultimately show ?thesis unfolding handle_provider_event_def by (intro keeps_intros) simp_all
qed

lemma keeps_terminal [keeps_intros]:
  "keeps I m \<Longrightarrow> (\<And>v. x = DoneSeen v \<Longrightarrow> keeps I (f v)) \<Longrightarrow> (\<And>v. x = ErrorSeen v \<Longrightarrow> keeps I (g v)) \<Longrightarrow>
   (\<And>ev. x = RateLimitSeen ev \<Longrightarrow> keeps I (h ev)) \<Longrightarrow>
     keeps I (case x of NoTerminal \<Rightarrow> m | DoneSeen v \<Rightarrow> f v | ErrorSeen v \<Rightarrow> g v | RateLimitSeen ev \<Rightarrow> h ev)"
  "(x' = Exhausted \<Longrightarrow> keeps I m') \<Longrightarrow> (\<And>e. x' = StreamFails e \<Longrightarrow> keeps I (f' e)) \<Longrightarrow>
     keeps I (case x' of Exhausted \<Rightarrow> m' | StreamFails e \<Rightarrow> f' e)"
  by (cases x; simp) (cases x'; simp)

lemma alive_consume [keeps_intros]:
  assumes "quiet_outside su"
  shows "keeps (alive c k) (consume su p evs ending)"
proof (induction evs)
  case Nil
  show ?case unfolding consume.simps by (intro keeps_intros alive_meanwhile assms)
next
  case (Cons ev evs)
  show ?case unfolding consume.simps by (intro keeps_intros alive_meanwhile assms Cons)
qed

lemma alive_wait: "quiet_outside su \<Longrightarrow> keeps (alive c k) (wait_for_rate_limit su p ev attempt d)"
  unfolding wait_for_rate_limit_def by (intro keeps_intros alive_meanwhile alive_writing) simp_all

lemma alive_after_stream:
  assumes "\<And>f ev. again = Some f \<Longrightarrow> keeps (alive c k) (f ev)"
  shows "keeps (alive c k) (after_stream su p t again)"
  unfolding after_stream_def fail_turn_def by (intro keeps_intros assms)

lemma alive_turn [keeps_intros]:
  assumes "quiet_outside su"
  shows "keeps (alive c k) (run_provider_turn su p)"
proof -
  have stream: "keeps (alive c k) (open_stream su p)"
    unfolding open_stream_def by (intro keeps_intros alive_writing assms) simp
  have "keeps (alive c k) (turn_loop su p m attempt ds)" for m attempt ds
  proof (induction ds arbitrary: attempt)
    case Nil
    show ?case unfolding turn_loop.simps by (intro keeps_intros stream alive_after_stream) simp
  next
    case (Cons d ds)
    show ?case unfolding turn_loop.simps
      by (intro keeps_intros stream alive_after_stream) (auto intro!: keeps_intros alive_wait assms Cons)
  qed
  then show ?thesis unfolding run_provider_turn_def by (intro keeps_intros)
qed

lemma alive_publish [keeps_intros]: "keeps (alive c k) (publish su ns)"
proof (rule keepsI)
  fix t assume "alive c k t"
  then show "alive c k (fst (publish su ns t))"
    by (auto simp: publish_def bind_def publish_artifacts_def Let_def alive_def split: sum.split)
qed

lemma alive_persist [keeps_intros]: "keeps (alive c k) (persist_executed_preview p s m su ni ar)"
  unfolding persist_executed_preview_def by (intro keeps_intros)

lemma alive_stub [keeps_intros]: "keeps (alive c k) (write_stub_preview su p s reason)"
  unfolding write_stub_preview_def by (intro keeps_intros)

lemma alive_try_reap [keeps_intros]:
  "keeps (alive c k) (try_reap_and_persist su p)" "keeps (alive c k) (try_persist_unlaned_preview su p)"
  unfolding try_reap_and_persist_def try_persist_unlaned_preview_def read_own_def publish_own_def try_publish_def
    run_reap_def commit_reap_def persist_own_def
  by (intro keeps_intros)+

lemma alive_append_error [keeps_intros]: "keeps (alive c k) (append_error su f)"
  unfolding append_error_def by (intro keeps_intros) simp

lemma alive_repairs [keeps_intros]:
  assumes "quiet_outside su"
  shows "keeps (alive c k) (reap_with_preview_repairs su p)"
proof -
  have "keeps (alive c k) (repair_loop su p left w)" for left w
  proof (induction left arbitrary: w)
    case 0
    show ?case unfolding repair_loop.simps by (intro keeps_intros)
  next
    case (Suc left)
    show ?case unfolding repair_loop.simps after_repair_def by (intro keeps_intros assms Suc) simp
  qed
  then show ?thesis unfolding reap_with_preview_repairs_def by (intro keeps_intros)
qed

section \<open>Steps that do not fail\<close>

text \<open>
  What the last steps of a run carry along: the node is alive, an accepted preview stays accepted, and the
  lane flag and the node's record do not change unless the step says so.
\<close>

definition carried :: "global_config \<Rightarrow> node_key \<Rightarrow> project \<Rightarrow> run \<Rightarrow> run \<Rightarrow> bool" where
  "carried c k p r u \<longleftrightarrow> alive c k u \<and> r_lane u = r_lane r \<and> (accepted p r \<longrightarrow> accepted p u)"

lemma carried_refl: "alive c k r \<Longrightarrow> carried c k p r r"
  by (simp add: carried_def)

lemma carried_trans: "carried c k p r t \<Longrightarrow> carried c k p t u \<Longrightarrow> carried c k p r u"
  by (simp add: carried_def)

definition contract :: "node \<Rightarrow> pystr \<times> pystr \<times> node_kind \<times> category option \<times> review_subtype option \<times> artifact_mode \<times> artifact_ref list" where
  "contract n = (n_id n, lane_of n, n_kind n, n_category n, n_subtype n, n_artifact_mode n, n_artifacts n)"

lemma accepted_cong:
  assumes "contract (r_node u) = contract (r_node r)" and "r_diff_artifact u = r_diff_artifact r"
    and "\<forall>i. stored_preview (r_world u) (p_id p) i = stored_preview (r_world r) (p_id p) i"
  shows "accepted p u = accepted p r"
  using assms by (simp add: accepted_def fits_def validate_preview_for_node_def contract_def)

definition told :: "run \<Rightarrow> emission \<Rightarrow> run \<Rightarrow> bool" where
  "told r ev u \<longleftrightarrow> r_node u = r_node r \<and> (recorded_node r \<longrightarrow> recorded_node u) \<and> r_sent u \<noteq> [] \<and> last (r_sent u) = (r_seq u, ev)"

lemma wp_emit:
  assumes "alive c k r" and "\<And>u. carried c k p r u \<Longrightarrow> told r ev u \<Longrightarrow> Q () u"
  shows "wp (emit su p ev) Q E r"
proof -
  let ?s = "w_store (r_world r)"
  let ?q = "node_path ?s (p_id p) (n_id (r_node r))"
  let ?d = "dir_at ?s ?q"
  let ?t = "put_dir ?q (?d\<lparr>d_events := Some ((case d_events ?d of None \<Rightarrow> [] | Some es \<Rightarrow> es) @
         [\<lparr>el_version = JInt event_schema_version, el_seq = r_seq r + 1, el_event = su_dump su ev\<rparr>])\<rparr>) ?s"
  let ?w = "(r_world r)\<lparr>w_store := ?t\<lparr>st_commits := st_commits ?t @ [''update transcript for node '' @ n_id (r_node r)]\<rparr>\<rparr>"
  let ?u = "r\<lparr>r_seq := r_seq r + 1, r_world := ?w, r_sent := r_sent r @ [(r_seq r + 1, ev)]\<rparr>"
  have ro: "st_read_only ?s = None" using assms(1) by (simp add: alive_def hosted_def)
  have run: "emit su p ev r = (?u, Inr ())"
    using ro by (simp add: emit_def except_exception_def catching_def on_store_def append_event_def assert_writable_def
        schedule_commit_def bind_def andthen_def zoom_def on_world_def Let_def)
  have pre: "stored_preview ?w i j = stored_preview (r_world r) i j" for i j
    by (auto simp: stored_preview_def put_dir_def dir_at_def node_path_def owner_mid_def empty_dir_def split: option.split)
  have rec: "recorded_node r \<Longrightarrow> recorded_node ?u"
    by (auto simp: recorded_node_def Let_def put_dir_def dir_at_def node_path_def owner_mid_def empty_dir_def split: option.splits)
  have "alive c k ?u" using assms(1) by (simp add: alive_def hosted_def put_dir_def)
  moreover have "accepted p ?u = accepted p r"
  proof (rule accepted_cong)
    have "r_world ?u = ?w" by simp
    with pre show "\<forall>i. stored_preview (r_world ?u) (p_id p) i = stored_preview (r_world r) (p_id p) i" by metis
  qed simp_all
  ultimately have "carried c k p r ?u" by (simp add: carried_def)
  moreover have "told r ev ?u" using rec by (simp add: told_def)
  ultimately show ?thesis using assms(2) run by (intro wp_returns) auto
qed

lemma wp_emit_node:
  assumes "alive c k r" and "\<And>u. carried c k p r u \<Longrightarrow> told r (f (r_node r)) u \<Longrightarrow> Q () u"
  shows "wp (emit_node su p f) Q E r"
  unfolding emit_node_def wp_simps by (rule wp_emit [OF assms(1)]) (rule assms(2))

lemma wp_carried_node:
  assumes "alive c k r" and "node_key (f (r_node r)) = node_key (r_node r)" and "contract (f (r_node r)) = contract (r_node r)"
    and "\<And>u. carried c k p r u \<Longrightarrow> r_node u = f (r_node r) \<Longrightarrow> r_world u = r_world r \<Longrightarrow> Q () u"
  shows "wp (on_node f) Q E r"
proof -
  let ?u = "r\<lparr>r_node := f (r_node r)\<rparr>"
  have "accepted p ?u = accepted p r" by (rule accepted_cong) (simp_all add: assms(3))
  then have "carried c k p r ?u" using assms(1,2) by (simp add: carried_def alive_def)
  then show ?thesis using assms(4) by (simp add: on_node_def)
qed

lemma wp_save_self:
  assumes "alive c k r" and "knows c k"
    and "\<And>u. carried c k p r u \<Longrightarrow> recorded_node u \<Longrightarrow> r_node u = (r_node r)\<lparr>n_rev := n_rev (r_node u)\<rparr> \<Longrightarrow> Q () u"
  shows "wp update_self Q E r"
proof (rule wp_update_self [OF assms(1,2)])
  fix w v
  let ?u = "r\<lparr>r_world := w, r_node := (r_node r)\<lparr>n_rev := v\<rparr>\<rparr>"
  assume u: "alive c k ?u" "recorded_node ?u" "\<forall>p i. stored_preview w p i = stored_preview (r_world r) p i"
  have "accepted p ?u = accepted p r" by (rule accepted_cong) (simp_all add: contract_def u(3))
  with u show "Q () ?u" by (intro assms(3)) (simp_all add: carried_def)
qed

lemma activity_paths [simp]:
  "node_path (s\<lparr>st_last_activity := la\<rparr>) i j = node_path s i j" "dir_at (s\<lparr>st_last_activity := la\<rparr>) q = dir_at s q"
  by (simp_all add: node_path_def owner_mid_def dir_at_def split: option.split)

definition stood :: "node_state \<Rightarrow> bool \<Rightarrow> run \<Rightarrow> bool" where
  "stood s finished u \<longleftrightarrow> n_state (r_node u) = s \<and> (finished \<longrightarrow> n_finished_at (r_node u) \<noteq> None) \<and> recorded_node u"

lemma wp_transition:
  assumes r: "alive c k r" and kn: "knows c k" and q: "\<And>u. carried c k p r u \<Longrightarrow> stood s b u \<Longrightarrow> Q () u"
  shows "wp (transition p s a b) Q E r"
proof -
  let ?f = "stamp_state s a b (w_now (r_world r))"
  have f: "node_key (?f (r_node r)) = node_key (r_node r)" "contract (?f (r_node r)) = contract (r_node r)"
    by simp (simp add: stamp_state_def contract_def)
  have last: "wp (bind (if a \<or> b
       then bind (reading (\<lambda>r. activity_at (r_node r))) (\<lambda>at.
         except_exception (on_world (on_store (record_project_activity (p_id p) at))) (\<lambda>_. ret ()))
       else ret ()) (\<lambda>_.
     if s \<noteq> n_state (r_node r) then writing (\<lambda>u. u\<lparr>r_changes := r_changes u @ [(n_state (r_node r), s)]\<rparr>) else ret ())) Q E u"
    if u: "carried c k p r u" "stood s b u" for u
  proof -
    have upd: "Q () (u\<lparr>r_world := (r_world u)\<lparr>w_store := (w_store (r_world u))\<lparr>st_last_activity := la\<rparr>\<rparr>, r_changes := ch\<rparr>)" for la ch
    proof (rule q)
      let ?v = "u\<lparr>r_world := (r_world u)\<lparr>w_store := (w_store (r_world u))\<lparr>st_last_activity := la\<rparr>\<rparr>, r_changes := ch\<rparr>"
      have "accepted p ?v = accepted p u"
        by (rule accepted_cong) (simp_all add: stored_preview_def)
      then show "carried c k p r ?v" using u(1) by (simp add: carried_def alive_def hosted_def)
      show "stood s b ?v" using u(2) by (simp add: stood_def recorded_node_def Let_def)
    qed
    have same: "u\<lparr>r_world := (r_world u)\<lparr>w_store := (w_store (r_world u))\<lparr>st_last_activity := st_last_activity (w_store (r_world u))\<rparr>\<rparr>,
        r_changes := ch\<rparr> = u\<lparr>r_changes := ch\<rparr>" for ch by simp
    have chg: "u\<lparr>r_changes := r_changes u\<rparr> = u" by simp
    have upd0: "Q () (u\<lparr>r_changes := ch\<rparr>)" for ch
      using upd [where la = "st_last_activity (w_store (r_world u))" and ch = ch] unfolding same .
    have upd1: "Q () (u\<lparr>r_world := (r_world u)\<lparr>w_store := (w_store (r_world u))\<lparr>st_last_activity := la\<rparr>\<rparr>\<rparr>)" for la
      using upd [where la = la and ch = "r_changes u"] by simp
    have "Q () u" using upd0 [of "r_changes u"] by simp
    with upd upd0 upd1 show ?thesis
      by (auto simp: on_store_def record_project_activity_def split: option.split)
  qed
  show ?thesis unfolding transition_def wp_simps(6) wp_simps(3) prod.case
  proof (rule wp_carried_node [where f = "?f", OF r f])
    fix u assume u: "carried c k p r u" "r_node u = ?f (r_node r)" "r_world u = r_world r"
    have au: "alive c k u" using u(1) by (simp add: carried_def)
    show "wp update_self (\<lambda>_. wp (if a \<or> b
       then bind (reading (\<lambda>r. activity_at (r_node r))) (\<lambda>at.
         except_exception (on_world (on_store (record_project_activity (p_id p) at))) (\<lambda>_. ret ()))
       else ret ()) (\<lambda>_. wp (if s \<noteq> n_state (r_node r)
         then writing (\<lambda>u. u\<lparr>r_changes := r_changes u @ [(n_state (r_node r), s)]\<rparr>) else ret ()) Q E) E) E u"
    proof (rule wp_save_self [OF au kn])
      fix v assume v: "carried c k p u v" "recorded_node v" "r_node v = (r_node u)\<lparr>n_rev := n_rev (r_node v)\<rparr>"
      have "n_state (r_node v) = s" "b \<longrightarrow> n_finished_at (r_node v) \<noteq> None"
        by (subst v(3), simp add: u(2) stamp_state_def)+
      with v(2) have "stood s b v" by (simp add: stood_def)
      from last [OF carried_trans [OF u(1) v(1)] this]
      show "wp (if a \<or> b
       then bind (reading (\<lambda>r. activity_at (r_node r))) (\<lambda>at.
         except_exception (on_world (on_store (record_project_activity (p_id p) at))) (\<lambda>_. ret ()))
       else ret ()) (\<lambda>_. wp (if s \<noteq> n_state (r_node r)
         then writing (\<lambda>u. u\<lparr>r_changes := r_changes u @ [(n_state (r_node r), s)]\<rparr>) else ret ()) Q E) E v"
        unfolding wp_simps(6) .
    qed
  qed
qed

section \<open>Programs that return, and programs that no cancellation leaves\<close>

named_theorems return_intros
named_theorems uncancelled_intros

definition always_returns :: "global_config \<Rightarrow> node_key \<Rightarrow> 'a turn \<Rightarrow> bool" where
  "always_returns c k m \<longleftrightarrow> (\<forall>r. alive c k r \<longrightarrow> (\<exists>x. snd (m r) = Inr x))"

definition uncancelled :: "'a turn \<Rightarrow> bool" where
  "uncancelled m \<longleftrightarrow> (\<forall>r. snd (m r) \<noteq> Inl Cancel)"

lemma wp_always:
  assumes "always_returns c k m" and "keeps (alive c k) m" and "alive c k r" and "\<And>x u. alive c k u \<Longrightarrow> Q x u"
  shows "wp m Q E r"
proof -
  obtain x where "snd (m r) = Inr x" using assms(1,3) by (auto simp: always_returns_def)
  moreover have "alive c k (fst (m r))" by (rule keepsD [OF assms(2,3)])
  ultimately show ?thesis using assms(4) by (cases "m r") (auto simp: wp_def)
qed

lemma always_of_wp: "(\<And>r. alive c k r \<Longrightarrow> wp m (\<lambda>_ _. True) (\<lambda>_ _. False) r) \<Longrightarrow> always_returns c k m"
  unfolding always_returns_def wp_def by (metis (mono_tags, lifting) old.prod.case old.sum.exhaust old.sum.simps(5) prod.collapse)

lemma always_basic [return_intros]:
  "always_returns c k (ret x)" "always_returns c k (reading f)" "always_returns c k (writing g)"
  by (simp_all add: always_returns_def)

lemma always_bind [return_intros]:
  assumes "always_returns c k m" and "keeps (alive c k) m" and "\<And>x. always_returns c k (f x)"
  shows "always_returns c k (bind m f)"
proof (rule always_of_wp)
  fix r assume "alive c k r"
  then show "wp (bind m f) (\<lambda>_ _. True) (\<lambda>_ _. False) r"
  proof (rule wp_bindI [OF wp_always [OF assms(1,2)]])
    fix x u assume "alive c k u"
    then show "wp (f x) (\<lambda>_ _. True) (\<lambda>_ _. False) u"
      using assms(3) [of x] by (auto simp: always_returns_def wp_def split: prod.splits sum.splits)
  qed
qed

lemma always_cases [return_intros]:
  "(b \<Longrightarrow> always_returns c k m) \<Longrightarrow> (\<not> b \<Longrightarrow> always_returns c k m') \<Longrightarrow> always_returns c k (if b then m else m')"
  "(\<And>a b. x = (a, b) \<Longrightarrow> always_returns c k (f a b)) \<Longrightarrow> always_returns c k (case x of (a, b) \<Rightarrow> f a b)"
  "(\<And>a. always_returns c k (g a)) \<Longrightarrow> (\<And>b. always_returns c k (h b)) \<Longrightarrow>
     always_returns c k (case y of Inl a \<Rightarrow> g a | Inr b \<Rightarrow> h b)"
  by (simp, cases x, simp, cases y, simp_all)

lemma uncancelled_basic [uncancelled_intros]:
  "uncancelled (ret x)" "uncancelled (reading f)" "uncancelled (writing g)" "uncancelled (on_world m)"
  "e \<noteq> Cancel \<Longrightarrow> uncancelled (raise e)"
  by (auto simp: uncancelled_def on_world_def split: prod.split sum.split)

lemma uncancelled_bind [uncancelled_intros]:
  assumes "uncancelled m" and "\<And>x. uncancelled (f x)"
  shows "uncancelled (bind m f)"
  unfolding uncancelled_def
proof
  fix r
  obtain t res where m: "m r = (t, res)" by (cases "m r")
  show "snd (bind m f r) \<noteq> Inl Cancel"
    using assms(1) assms(2) m by (cases res) (auto simp: bind_def uncancelled_def, metis snd_conv)
qed

lemma uncancelled_catching [uncancelled_intros]:
  assumes "\<And>e. e \<noteq> Cancel \<Longrightarrow> uncancelled (h e)" and "uncancelled m"
  shows "uncancelled (catching m h)"
  unfolding uncancelled_def
proof
  fix r
  obtain t res where m: "m r = (t, res)" by (cases "m r")
  then have "res \<noteq> Inl Cancel" using assms(2) unfolding uncancelled_def by (metis snd_conv)
  then show "snd (catching m h r) \<noteq> Inl Cancel"
    using assms(1) m by (cases res) (auto simp: catching_def uncancelled_def)
qed

lemma uncancelled_excepts [uncancelled_intros]:
  "(\<And>e. uncancelled (h e)) \<Longrightarrow> uncancelled m \<Longrightarrow> uncancelled (except_exception m h)"
  unfolding except_exception_def by (rule uncancelled_catching) (auto simp: uncancelled_def)

lemma uncancelled_cases [uncancelled_intros]:
  "(b \<Longrightarrow> uncancelled m) \<Longrightarrow> (\<not> b \<Longrightarrow> uncancelled m') \<Longrightarrow> uncancelled (if b then m else m')"
  "(\<And>a b. x = (a, b) \<Longrightarrow> uncancelled (f a b)) \<Longrightarrow> uncancelled (case x of (a, b) \<Rightarrow> f a b)"
  "(\<And>a. uncancelled (g a)) \<Longrightarrow> (\<And>b. uncancelled (h b)) \<Longrightarrow> uncancelled (case y of Inl a \<Rightarrow> g a | Inr b \<Rightarrow> h b)"
  "uncancelled n \<Longrightarrow> (\<And>a. uncancelled (i a)) \<Longrightarrow> uncancelled (case z of None \<Rightarrow> n | Some a \<Rightarrow> i a)"
  "uncancelled l \<Longrightarrow> (\<And>a as. uncancelled (j a as)) \<Longrightarrow> uncancelled (case zs of [] \<Rightarrow> l | a # as \<Rightarrow> j a as)"
  "uncancelled q \<Longrightarrow> uncancelled q' \<Longrightarrow> (\<And>d. uncancelled (o' d)) \<Longrightarrow>
     uncancelled (case v of NoRead \<Rightarrow> q | NotUtf8 \<Rightarrow> q' | Text d \<Rightarrow> o' d)"
  "(\<And>a. uncancelled (r a)) \<Longrightarrow> (\<And>b. uncancelled (s b)) \<Longrightarrow> uncancelled (case w of ExecutedP a \<Rightarrow> r a | VirtualP b \<Rightarrow> s b)"
  by (simp, cases x, simp, cases y, simp_all, cases z, simp_all, cases zs, simp_all, cases v, simp_all, cases w, simp_all)

lemma uncancelled_for_each [uncancelled_intros]: "(\<And>x. uncancelled (f x)) \<Longrightarrow> uncancelled (for_each xs f)"
  by (induction xs) (auto intro!: uncancelled_intros simp del: prog_simps)

lemma wp_uncancelled: "wp m Q E r \<Longrightarrow> uncancelled m \<Longrightarrow> wp m Q (\<lambda>e t. E e t \<and> e \<noteq> Cancel) r"
  by (auto simp: wp_def uncancelled_def split: prod.splits sum.splits) (metis snd_conv)

text \<open>The output directory can be made.\<close>

definition outputs_available :: "outside \<Rightarrow> bool" where
  "outputs_available su \<longleftrightarrow> (\<forall>k. \<exists>fs. su_files su k = Inr fs)"

lemma always_publish [return_intros]: "outputs_available su \<Longrightarrow> always_returns c k (publish su ns)"
  unfolding always_returns_def publish_def
proof (intro allI impI)
  fix r assume "outputs_available su"
  then obtain fs where "su_files su (r_streams r) = Inr fs" by (auto simp: outputs_available_def)
  then show "\<exists>x. snd (bind (reading (\<lambda>r. (su_files su (r_streams r), r_node r))) (\<lambda>(files, n). case files of
       Inl e \<Rightarrow> raise (IOFailure e)
     | Inr fs \<Rightarrow> (case publish_artifacts fs n ns of (n', stored, refs) \<Rightarrow>
         bind (writing (\<lambda>r. r\<lparr>r_node := n', r_stored := stored\<rparr>)) (\<lambda>_. ret refs))) r) = Inr x"
    by (simp add: bind_def split: prod.split)
qed

lemma always_persist [return_intros]: "always_returns c k (persist_executed_preview p s m su ni ar)"
proof (rule always_of_wp)
  fix r assume r: "alive c k r"
  have "wp (put_preview pid nid doc) (\<lambda>_ _. True) (\<lambda>_ _. False) (r_world r)" for pid nid doc
    using r by (simp add: put_preview_def on_store_def write_node_preview_def assert_writable_def schedule_commit_def Let_def wp_def
        bind_def andthen_def zoom_def alive_def hosted_def)
  then have "wp (put_preview pid nid doc) (\<lambda>_ _. True) (\<lambda>e w. E e w) (r_world r)" for pid nid doc E
    by (rule wp_mono) auto
  then show "wp (persist_executed_preview p s m su ni ar) (\<lambda>_ _. True) (\<lambda>_ _. False) r"
    by (auto simp: persist_executed_preview_def split: sum.split)
qed

lemma always_stub [return_intros]: "outputs_available su \<Longrightarrow> always_returns c k (write_stub_preview su p s reason)"
  unfolding write_stub_preview_def by (intro return_intros keeps_intros)

lemma keeps_on_writing [keeps_intros]: "keeps (alive c k) (on_node (\<lambda>n. n\<lparr>n_summary := s\<rparr>))"
  by (intro keeps_intros) simp

lemma always_cold [return_intros]: "outputs_available su \<Longrightarrow> always_returns c k (write_cold_start_preview su p s reason)"
  unfolding write_cold_start_preview_def on_node_def Let_def
  by (intro return_intros keeps_intros alive_writing) simp_all

lemma alive_cold [keeps_intros]: "keeps (alive c k) (write_cold_start_preview su p s reason)"
  unfolding write_cold_start_preview_def by (intro keeps_intros) simp_all

lemma uncancelled_try [uncancelled_intros]:
  "uncancelled (try_reap_and_persist su p)" "uncancelled (try_persist_unlaned_preview su p)"
proof -
  have pub: "uncancelled (publish su ns)" for ns
    unfolding publish_def by (intro uncancelled_intros) simp_all
  have po: "uncancelled (publish_own su x)" for x
    unfolding publish_own_def try_publish_def
    by (intro uncancelled_intros pub) (auto intro!: uncancelled_intros split: stop.split)
  have ro: "uncancelled (read_own su)" unfolding read_own_def by (intro uncancelled_intros) simp_all
  have cr: "uncancelled (commit_reap p doc res)" for doc res
    unfolding commit_reap_def persist_own_def by (intro uncancelled_intros)
  have rr: "uncancelled (run_reap su p)" unfolding run_reap_def by (intro uncancelled_intros)
  show "uncancelled (try_reap_and_persist su p)"
    unfolding try_reap_and_persist_def by (intro uncancelled_intros po ro cr rr)
  show "uncancelled (try_persist_unlaned_preview su p)"
    unfolding try_persist_unlaned_preview_def persist_own_def by (intro uncancelled_intros po ro)
qed

section \<open>The phases of a run\<close>

abbreviation ended :: "node_state \<Rightarrow> bool" where
  "ended s \<equiv> s \<in> {Done, Error, Cancelled}"

lemma wp_bind_any: "(\<And>x t. wp (f x) Q (\<lambda>_ _. True) t) \<Longrightarrow> wp (bind m f) Q (\<lambda>_ _. True) s"
  unfolding wp_simps by (rule wp_mono [of m "\<lambda>_ _. True" "\<lambda>_ _. True"]) (simp_all add: wp_def split: prod.split sum.split)

lemma alive_validate_library [keeps_intros]: "keeps (alive c k) (validate_library su b)"
  unfolding validate_library_def by (intro keeps_intros) simp

lemma alive_agent_phase:
  assumes "quiet_outside su"
  shows "keeps (alive c k) (agent_phase su p human)"
proof -
  have "keeps (alive c k) (provider_phase su p human)"
    unfolding provider_phase_def take_pre_snapshot_def by (intro keeps_intros alive_writing assms) simp
  then show ?thesis unfolding agent_phase_def request_human_review_prose_def
    by (intro keeps_intros alive_writing alive_meanwhile assms) simp_all
qed

lemma wp_agent_phase:
  assumes "quiet_outside su" and "alive c k r"
  shows "wp (agent_phase su p human) (\<lambda>out u. ended (fst out) \<and> alive c k u) (\<lambda>_. alive c k) r"
proof -
  have turn: "wp (run_provider_turn su p) (\<lambda>out u. ended (fst out)) (\<lambda>_ _. True) t" for t
    by (rule wp_run_provider_turn [OF idle_refl]) (simp_all add: answered_def)
  have provider: "wp (provider_phase su p human) (\<lambda>out u. ended (fst out)) (\<lambda>_ _. True) t" for t
    unfolding provider_phase_def
  proof (rule wp_bind_any, rule wp_bind_any, rule wp_bindI, rule wp_mono [OF turn])
    fix out :: "node_state \<times> failure option" and u assume out: "ended (fst out)"
    obtain s err where s: "out = (s, err)" by (cases out)
    have chk: "wp (bind (validate_library su False) (\<lambda>_. ret (s, err, True))) (\<lambda>out u. ended (fst out)) (\<lambda>_ _. True) v" for v
      by (rule wp_bind_any) (use out s in simp)
    have err: "wp (bind (emit su p (SentError (library_failure e))) (\<lambda>_. ret (Error, Some (library_failure e), False)))
        (\<lambda>out u. ended (fst out)) (\<lambda>_ _. True) v" for e v
      by (rule wp_bind_any) simp
    show "wp (case out of (final', err) \<Rightarrow> bind (reading (\<lambda>r. n_agent_op_kind (r_node r))) (\<lambda>op.
       if final' = Done \<and> op = Some ''library_edit''
       then except_exception (bind (validate_library su False) (\<lambda>_. ret (final', err, True)))
         (\<lambda>e. bind (emit su p (SentError (library_failure e))) (\<lambda>_. ret (Error, Some (library_failure e), False)))
       else ret (final', err, False))) (\<lambda>out u. ended (fst out)) (\<lambda>_ _. True) u"
      unfolding s prod.case
    proof (rule wp_bind_any)
      fix op v
      have "wp (except_exception (bind (validate_library su False) (\<lambda>_. ret (s, err, True)))
         (\<lambda>e. bind (emit su p (SentError (library_failure e))) (\<lambda>_. ret (Error, Some (library_failure e), False))))
         (\<lambda>out u. ended (fst out)) (\<lambda>_ _. True) v"
        unfolding wp_except_exception by (rule wp_mono [OF chk]) (use err in auto)
      then show "wp (if s = Done \<and> op = Some ''library_edit''
       then except_exception (bind (validate_library su False) (\<lambda>_. ret (s, err, True)))
         (\<lambda>e. bind (emit su p (SentError (library_failure e))) (\<lambda>_. ret (Error, Some (library_failure e), False)))
       else ret (s, err, False)) (\<lambda>out u. ended (fst out)) (\<lambda>_ _. True) v"
        using out s unfolding wp_if by simp
    qed
  qed simp
  have range: "wp (agent_phase su p human) (\<lambda>out u. ended (fst out)) (\<lambda>_ _. True) r"
  proof (cases human)
    case True
    have "wp (if blank prose then ret (Cancelled, Some NoProse, False)
        else bind (writing (\<lambda>r. r\<lparr>r_prose := Some prose\<rparr>)) (\<lambda>_. provider_phase su p human))
        (\<lambda>out u. ended (fst out)) (\<lambda>_ _. True) t" for prose t
      using provider by simp
    then show ?thesis using True by (simp only: agent_phase_def if_True) (rule wp_bind_any)
  qed (use provider in \<open>simp add: agent_phase_def\<close>)
  have "wp (agent_phase su p human) (\<lambda>out u. ended (fst out) \<and> alive c k u) (\<lambda>e u. True \<and> alive c k u) r"
    by (rule wp_conj [OF range alive_agent_phase [OF assms(1)] assms(2)])
  then show ?thesis by simp
qed

lemma wp_guarded_phase:
  assumes su: "quiet_outside su" and r: "alive c k r"
    and q: "\<And>s err b u. alive c k u \<Longrightarrow> ended s \<Longrightarrow> Q (s, err, b) u"
  shows "wp (guarded_phase su p human) Q E r"
  unfolding guarded_phase_def wp_except_exception wp_except_cancelled
proof (rule wp_mono [OF wp_agent_phase [OF su r]])
  fix out :: outcome and u assume "ended (fst out) \<and> alive c k u"
  then show "Q out u" using q by (cases out) auto
next
  fix e u assume u: "alive c k u"
  have "wp (emit su p (SentError (Unexpected e))) (\<lambda>_. Q (Error, Some (Unexpected e), False)) E u"
    by (rule wp_emit [OF u, where p = p]) (simp add: q carried_def)
  then show "if e = Cancel then wp (ret (Cancelled, None, False)) Q
        (\<lambda>e t. if e = Cancel then E Cancel t else wp (bind (emit su p (SentError (Unexpected e)))
           (\<lambda>_. ret (Error, Some (Unexpected e), False))) Q E t) u
      else if e = Cancel then E Cancel u else wp (bind (emit su p (SentError (Unexpected e)))
           (\<lambda>_. ret (Error, Some (Unexpected e), False))) Q E u"
    using q [OF u] by simp
qed

definition settled :: "project \<Rightarrow> bool \<Rightarrow> node_state \<Rightarrow> run \<Rightarrow> bool" where
  "settled p cold s u \<longleftrightarrow> ended s \<and> (s = Done \<longrightarrow> cold \<or> \<not> r_lane u \<or> accepted p u)"

lemma wp_stub_return:
  assumes "outputs_available su" and "alive c k r" and "\<And>u. alive c k u \<Longrightarrow> Q s u"
  shows "wp (bind (write_stub_preview su p st reason) (\<lambda>_. ret s)) Q E r"
  by (rule wp_bindI, rule wp_always [OF always_stub [OF assms(1)] alive_stub assms(2)]) (use assms(3) in simp)

lemma wp_try_reap_alive:
  assumes r: "alive c k r" and q: "\<And>issue u. alive c k u \<Longrightarrow> issue \<noteq> None \<or> accepted p u \<Longrightarrow> Q issue u"
    and e: "\<And>e u. alive c k u \<Longrightarrow> e \<noteq> Cancel \<Longrightarrow> E e u"
  shows "wp (try_reap_and_persist su p) Q E r"
proof -
  have "wp (try_reap_and_persist su p) (\<lambda>issue u. issue \<noteq> None \<or> accepted p u) (\<lambda>_ _. True) r"
    by (rule wp_try_reap [OF idle_refl]) simp_all
  then have "wp (try_reap_and_persist su p) (\<lambda>issue u. (issue \<noteq> None \<or> accepted p u) \<and> alive c k u) (\<lambda>_ u. True \<and> alive c k u) r"
    by (rule wp_conj [OF _ alive_try_reap(1) r])
  from wp_uncancelled [OF this uncancelled_try(1)] show ?thesis by (rule wp_mono) (use q e in auto)
qed

lemma wp_finalize:
  assumes out: "outputs_available su" and r: "alive c k r" and s: "ended s"
    and q: "\<And>s' u. alive c k u \<Longrightarrow> settled p False s' u \<Longrightarrow> Q s' u" and e: "\<And>e u. alive c k u \<Longrightarrow> e \<noteq> Cancel \<Longrightarrow> E e u"
  shows "wp (reap_and_finalize su p s reason) Q E r"
proof -
  have stub: "wp (bind (write_stub_preview su p s reason) (\<lambda>_. ret s)) Q E r" if "s \<noteq> Done"
    by (rule wp_stub_return [OF out r]) (use q s that in \<open>auto simp: settled_def\<close>)
  have un: "wp (bind (try_persist_unlaned_preview su p) (\<lambda>issue.
          bind (if issue \<noteq> None then write_stub_preview su p s None else ret ()) (\<lambda>_. ret s))) Q E r" if "\<not> r_lane r" "s = Done"
  proof (rule wp_bindI)
    have "wp (try_persist_unlaned_preview su p) (\<lambda>_ u. idle r u) (\<lambda>_ _. True) r"
      by (rule keeps_idle [OF _ idle_refl]) (auto intro!: keeps_intros simp: try_persist_unlaned_preview_def persist_own_def)
    then have "wp (try_persist_unlaned_preview su p) (\<lambda>_ u. idle r u \<and> alive c k u) (\<lambda>_ u. True \<and> alive c k u) r"
      by (rule wp_conj [OF _ alive_try_reap(2) r])
    from wp_uncancelled [OF this uncancelled_try(2)]
    show "wp (try_persist_unlaned_preview su p) (\<lambda>issue. wp (bind (if issue \<noteq> None then write_stub_preview su p s None else ret ())
        (\<lambda>_. ret s)) Q E) E r"
    proof (rule wp_mono)
      fix issue u assume u: "idle r u \<and> alive c k u"
      then have lane: "\<not> r_lane u" using that(1) by (simp add: idle_def same_job_def)
      have "wp (write_stub_preview su p s None) (\<lambda>_ v. idle u v) (\<lambda>_ _. True) u"
        by (rule keeps_idle [OF idle_stub idle_refl]) simp_all
      then have "wp (write_stub_preview su p s None) (\<lambda>_ v. idle u v \<and> alive c k v) (\<lambda>_ v. True \<and> alive c k v) u"
        using u by (intro wp_conj [OF _ alive_stub]) simp_all
      moreover have "always_returns c k (write_stub_preview su p s None)" by (rule always_stub [OF out])
      ultimately have "wp (write_stub_preview su p s None) (\<lambda>_. Q s) E u"
        using u q that(2) lane by (auto simp: wp_def always_returns_def settled_def idle_def same_job_def split: prod.splits sum.splits)
      moreover have "Q s u" using q u lane that(2) by (simp add: settled_def)
      ultimately show "wp (bind (if issue \<noteq> None then write_stub_preview su p s None else ret ()) (\<lambda>_. ret s)) Q E u" by simp
    qed (use e in blast)
  qed
  have reap: "wp (try_reap_and_persist su p) (\<lambda>issue. wp (case issue of
            None \<Rightarrow> ret s
          | Some w \<Rightarrow>
              bind (append_error su (ReapFatal w)) (\<lambda>_.
              bind (write_stub_preview su p Error (Some (ReapFatal w))) (\<lambda>_. ret Error))) Q E) E r"
  proof (rule wp_try_reap_alive [OF r])
    fix issue :: "why option" and u assume u: "alive c k u" "issue \<noteq> None \<or> accepted p u"
    show "wp (case issue of
            None \<Rightarrow> ret s
          | Some w \<Rightarrow>
              bind (append_error su (ReapFatal w)) (\<lambda>_.
              bind (write_stub_preview su p Error (Some (ReapFatal w))) (\<lambda>_. ret Error))) Q E u"
    proof (cases issue)
      case None
      have "Q s u" by (rule q [OF u(1)]) (use s u None in \<open>auto simp: settled_def\<close>)
      then show ?thesis by (simp add: None)
    next
      case (Some w)
      show ?thesis unfolding Some option.case append_error_def
        by (rule wp_bindI, rule wp_always [OF _ _ u(1)], simp add: always_returns_def on_node_def, intro keeps_intros, simp,
            rule wp_stub_return [OF out], assumption) (use q in \<open>simp add: settled_def\<close>)
    qed
  qed (rule e)
  show ?thesis
  proof (cases "s = Done")
    case True
    show ?thesis unfolding reap_and_finalize_def True using un [OF _ True, unfolded True] reap [unfolded True] by simp
  next
    case False
    show ?thesis unfolding reap_and_finalize_def if_P [OF False] by (rule stub [OF False])
  qed
qed

lemma wp_settle_previews:
  assumes su: "quiet_outside su" and out: "outputs_available su" and r: "alive c k r" and s: "ended s"
    and q: "\<And>s' u. alive c k u \<Longrightarrow> settled p cold s' u \<Longrightarrow> Q s' u" and e: "\<And>e u. alive c k u \<Longrightarrow> e \<noteq> Cancel \<Longrightarrow> E e u"
  shows "wp (settle_previews su p cold s reason) Q E r"
proof -
  have weak: "settled p cold s' u" if "settled p False s' u" for s' u using that by (auto simp: settled_def)
  have cold: "wp (bind (write_cold_start_preview su p s reason) (\<lambda>_. ret s)) Q E r" if "cold"
    by (rule wp_bindI, rule wp_always [OF always_cold [OF out] alive_cold r]) (use q s that in \<open>simp add: settled_def\<close>)
  have "wp (reap_with_preview_repairs su p) (\<lambda>s' u. s' \<in> {Error, Cancelled} \<or> s' = Done \<and> accepted p u) (\<lambda>_ _. True) r"
    by (rule wp_reap_with_repairs [OF within_idle [OF idle_refl]]) simp_all
  then have repairs: "wp (reap_with_preview_repairs su p)
      (\<lambda>s' u. (s' \<in> {Error, Cancelled} \<or> s' = Done \<and> accepted p u) \<and> alive c k u) (\<lambda>_ u. True \<and> alive c k u) r"
    by (rule wp_conj [OF _ alive_repairs [OF su] r])
  have done_lane: "wp (except_cancelled (reap_with_preview_repairs su p)
          (bind (write_stub_preview su p Cancelled (Some RepairCancelled)) (\<lambda>_. ret Cancelled))) Q E r"
    unfolding wp_except_cancelled
  proof (rule wp_mono [OF repairs])
    fix s' u assume "(s' \<in> {Error, Cancelled} \<or> s' = Done \<and> accepted p u) \<and> alive c k u"
    then show "Q s' u" by (intro q) (auto simp: settled_def)
  next
    fix x u assume u: "True \<and> alive c k u"
    have "wp (bind (write_stub_preview su p Cancelled (Some RepairCancelled)) (\<lambda>_. ret Cancelled)) Q E u"
    proof (rule wp_stub_return [OF out])
      show "Q Cancelled v" if "alive c k v" for v by (rule q [OF that]) (simp add: settled_def)
    qed (use u in simp)
    then show "if x = Cancel then wp (bind (write_stub_preview su p Cancelled (Some RepairCancelled)) (\<lambda>_. ret Cancelled)) Q E u
        else E x u" using e u by simp
  qed
  have fin: "wp (reap_and_finalize su p s reason) Q E r"
    by (rule wp_finalize [OF out r s]) (use q weak e in blast)+
  show ?thesis unfolding settle_previews_def using cold done_lane fin by simp
qed

lemma wp_recheck:
  assumes out: "outputs_available su" and kn: "knows c k" and r: "alive c k r" and s: "settled p cold s r"
    and q: "\<And>s' u. alive c k u \<Longrightarrow> settled p cold s' u \<Longrightarrow> Q s' u"
  shows "wp (recheck_library su p b s) Q E r"
proof -
  have err: "Q Error u" if "alive c k u" for u by (rule q [OF that]) (simp add: settled_def)
  have tell: "wp (bind (emit su p (SentError f)) (\<lambda>_. ret Error)) Q E u" if "alive c k u" for u f
    by (rule wp_bindI, rule wp_emit [OF that, where p = p]) (simp add: err carried_def)
  have stub: "wp (bind (write_stub_preview su p Error (Some f)) (\<lambda>_. bind (emit su p (SentError f)) (\<lambda>_. ret Error))) Q E u"
    if "alive c k u" for u f
    by (rule wp_bindI, rule wp_always [OF always_stub [OF out] alive_stub that], rule tell)
  have handler: "wp (bind (on_node (\<lambda>n. n\<lparr>n_error := Some x\<rparr>)) (\<lambda>_. bind (write_stub_preview su p Error (Some f)) (\<lambda>_.
          bind (emit su p (SentError f)) (\<lambda>_. ret Error)))) Q E u" if u: "alive c k u" for x f u
  proof (rule wp_bindI, rule wp_carried_node [OF u, where p = p])
    fix v assume "carried c k p u v"
    then have "alive c k v" by (simp add: carried_def)
    then show "wp (bind (write_stub_preview su p Error (Some f)) (\<lambda>_. bind (emit su p (SentError f)) (\<lambda>_. ret Error))) Q E v"
      by (rule stub)
  qed (simp_all add: contract_def)
  have keep: "settled p cold s u" if "carried c k p r u" for u using s that by (auto simp: settled_def carried_def)
  have check: "wp (bind (validate_library su True) (\<lambda>_. ret s)) (\<lambda>s' u. alive c k u \<and> settled p cold s' u) (\<lambda>_. alive c k) r"
    unfolding validate_library_def
  proof (rule wp_bindI, rule wp_bindI, subst wp_simps(3), unfold prod.case_eq_if, rule wp_bindI,
      rule wp_carried_node [OF r, where p = p])
    fix u assume u: "carried c k p r u"
    have au: "alive c k u" using u by (simp add: carried_def)
    show "wp (bind update_self (\<lambda>_. case snd (su_library su True (r_streams r)) of None \<Rightarrow> ret ()
        | Some m \<Rightarrow> raise (Raised (ValueError m)))) (\<lambda>x. wp (ret s) (\<lambda>s' u. alive c k u \<and> settled p cold s' u) (\<lambda>_. alive c k))
        (\<lambda>_. alive c k) u"
    proof (rule wp_bindI, rule wp_save_self [OF au kn])
      fix v assume "carried c k p u v"
      with u have v: "carried c k p r v" by (rule carried_trans)
      then show "wp (case snd (su_library su True (r_streams r)) of None \<Rightarrow> ret ()
        | Some m \<Rightarrow> raise (Raised (ValueError m))) (\<lambda>x. wp (ret s) (\<lambda>s' u. alive c k u \<and> settled p cold s' u) (\<lambda>_. alive c k))
        (\<lambda>_. alive c k) v"
        using keep [OF v] by (simp add: carried_def split: option.split)
    qed
  qed (simp_all add: contract_def)
  have unc: "uncancelled (validate_library su True)"
    unfolding validate_library_def update_self_def on_node_def by (intro uncancelled_intros) simp_all
  have redo: "wp (except_exception (bind (validate_library su True) (\<lambda>_. ret s))
        (\<lambda>e. bind (on_node (\<lambda>n. n\<lparr>n_error := Some (su_wording su (library_failure e))\<rparr>)) (\<lambda>_.
          bind (write_stub_preview su p Error (Some (library_failure e))) (\<lambda>_.
          bind (emit su p (SentError (library_failure e))) (\<lambda>_. ret Error))))) Q E r"
    unfolding wp_except_exception
    by (rule wp_mono [OF wp_uncancelled [OF check]], intro uncancelled_intros unc) (use q handler in auto)
  show ?thesis
  proof (cases "b \<and> s = Done")
    case True
    show ?thesis unfolding recheck_library_def if_P [OF True] by (rule redo)
  next
    case False
    show ?thesis unfolding recheck_library_def if_not_P [OF False] using q [OF r s] by simp
  qed
qed

text \<open>What a run leaves.\<close>

definition closed :: "project \<Rightarrow> bool \<Rightarrow> run \<Rightarrow> bool" where
  "closed p cold u \<longleftrightarrow> (let n = r_node u in terminal (n_state n) \<and> n_finished_at n \<noteq> None \<and> recorded_node u \<and>
     r_sent u \<noteq> [] \<and> last (r_sent u) = (r_seq u, SentDone n) \<and>
     (n_state n = Done \<longrightarrow> cold \<or> \<not> r_lane u \<or> accepted p u))"

lemma wp_farewell:
  assumes r: "alive c k r" "stood s True r" "settled p cold s r"
    and q: "\<And>u. alive c k u \<Longrightarrow> closed p cold u \<Longrightarrow> Q () u"
  shows "wp (bind (emit_node su p SentUpdated) (\<lambda>_. emit_node su p SentDone)) Q E r"
proof (rule wp_bindI, rule wp_emit_node [OF r(1), where p = p])
  fix u assume u: "carried c k p r u" "told r (SentUpdated (r_node r)) u"
  then have au: "alive c k u" by (simp add: carried_def)
  show "wp (emit_node su p SentDone) Q E u"
  proof (rule wp_emit_node [OF au, where p = p])
    fix v assume v: "carried c k p u v" "told u (SentDone (r_node u)) v"
    from carried_trans [OF u(1) v(1)] have rv: "carried c k p r v" .
    have "r_node v = r_node r" "recorded_node v" "r_sent v \<noteq> []" "last (r_sent v) = (r_seq v, SentDone (r_node v))"
      using u(2) v(2) r(2) by (simp_all add: told_def stood_def)
    moreover have "ended s" "s = Done \<longrightarrow> cold \<or> \<not> r_lane v \<or> accepted p v" using r(3) rv by (auto simp: settled_def carried_def)
    ultimately have "closed p cold v" using r(2) by (auto simp: closed_def Let_def stood_def)
    then show "Q () v" using q rv by (simp add: carried_def)
  qed
qed

lemma wp_note_end:
  assumes "alive c k r" and "\<And>u. alive c k u \<Longrightarrow> Q () u"
  shows "wp (note_end su err) Q E r"
  using assms by (auto simp: note_end_def alive_def)

lemma wp_agent_end:
  assumes su: "quiet_outside su" and out: "outputs_available su" and kn: "knows c k" and r: "alive c k r" and s: "ended s"
    and q: "\<And>u. alive c k u \<Longrightarrow> closed p cold u \<Longrightarrow> Q () u" and e: "\<And>e u. alive c k u \<Longrightarrow> e \<noteq> Cancel \<Longrightarrow> E e u"
  shows "wp (agent_end su p cold (s, err, b)) Q E r"
  unfolding agent_end_def prod.case
proof (rule wp_bindI, rule wp_note_end [OF r], rule wp_bindI, rule wp_settle_previews [OF su out _ s], assumption,
    rule wp_bindI, rule wp_recheck [OF out kn], assumption, assumption, rule wp_bindI)
  fix s' u assume u: "alive c k u" "settled p cold s' u"
  show "wp (transition p s' False True) (\<lambda>x. wp (bind (emit_node su p SentUpdated) (\<lambda>_. emit_node su p SentDone)) Q E) E u"
  proof (rule wp_transition [OF u(1) kn])
    fix v assume v: "carried c k p u v" "stood s' True v"
    have av: "alive c k v" using v(1) by (simp add: carried_def)
    have "settled p cold s' v" using u(2) v(1) by (auto simp: settled_def carried_def)
    then show "wp (bind (emit_node su p SentUpdated) (\<lambda>_. emit_node su p SentDone)) Q E v"
      by (rule wp_farewell [OF av v(2)]) (rule q)
  qed
qed (rule e)

lemma wp_failed_tail:
  assumes kn: "knows c k" and r: "alive c k r" and q: "\<And>u. alive c k u \<Longrightarrow> closed p cold u \<Longrightarrow> Q () u"
  shows "wp (bind (transition p Error True True) (\<lambda>_. bind (emit_node su p SentStarted) (\<lambda>_.
     bind (emit su p (SentError f)) (\<lambda>_. bind (emit_node su p SentUpdated) (\<lambda>_. emit_node su p SentDone))))) Q E r"
proof (rule wp_bindI, rule wp_transition [OF r kn, where p = p], rule wp_bindI)
  fix v assume "carried c k p r v" and st: "stood Error True v"
  then have v: "alive c k v" by (simp add: carried_def)
  have err: "settled p cold Error w" for w by (simp add: settled_def)
  have keep: "stood Error True w" if "told x ev w" "stood Error True x" for x ev w using that by (simp add: told_def stood_def)
  show "wp (emit_node su p SentStarted) (\<lambda>x. wp (bind (emit su p (SentError f)) (\<lambda>_.
     bind (emit_node su p SentUpdated) (\<lambda>_. emit_node su p SentDone))) Q E) E v"
  proof (rule wp_emit_node [OF v, where p = p], rule wp_bindI)
    fix w assume w: "carried c k p v w" "told v (SentStarted (r_node v)) w"
    then have aw: "alive c k w" by (simp add: carried_def)
    show "wp (emit su p (SentError f)) (\<lambda>x. wp (bind (emit_node su p SentUpdated) (\<lambda>_. emit_node su p SentDone)) Q E) E w"
    proof (rule wp_emit [OF aw, where p = p])
      fix x assume x: "carried c k p w x" "told w (SentError f) x"
      then have ax: "alive c k x" by (simp add: carried_def)
      show "wp (bind (emit_node su p SentUpdated) (\<lambda>_. emit_node su p SentDone)) Q E x"
        by (rule wp_farewell [OF ax keep [OF x(2) keep [OF w(2) st]] err]) (rule q)
    qed
  qed
qed

lemma wp_agent_failed:
  assumes out: "outputs_available su" and kn: "knows c k" and r: "alive c k r"
    and q: "\<And>u. alive c k u \<Longrightarrow> closed p cold u \<Longrightarrow> Q () u"
  shows "wp (agent_failed su p e) Q E r"
  unfolding agent_failed_def
  by (rule wp_bindI, rule wp_note_end [OF r], rule wp_bindI, rule wp_always [OF always_stub [OF out] alive_stub], assumption,
    rule wp_failed_tail [OF kn, where cold = cold and p = p]) (simp_all add: q)

lemma wp_agent_body:
  assumes su: "quiet_outside su" and out: "outputs_available su" and kn: "knows c k" and r: "alive c k r" and l: "launch \<noteq> Some Cancel"
    and q: "\<And>u. alive c k u \<Longrightarrow> closed p (is_cold_start (r_node r)) u \<Longrightarrow> Q () u"
    and e: "\<And>e u. alive c k u \<Longrightarrow> e \<noteq> Cancel \<Longrightarrow> E e u"
  shows "wp (agent_body su p launch) Q E r"
proof (cases launch)
  case (Some x)
  then show ?thesis using l e [OF r] by (simp add: agent_body_def)
next
  case None
  have fin: "wp (bind (guarded_phase su p human) (\<lambda>out. agent_end su p (is_cold_start (r_node r)) out)) Q E u"
    if "alive c k u" for human u
  proof (rule wp_bindI, rule wp_guarded_phase [OF su that])
    fix s err b v assume "alive c k v" "ended s"
    then show "wp (agent_end su p (is_cold_start (r_node r)) (s, err, b)) Q E v"
      by (intro wp_agent_end [OF su out kn] q e)
  qed
  show ?thesis unfolding None agent_body_def option.case
  proof (rule wp_bindI, subst wp_simps(3), unfold prod.case, rule wp_bindI, rule wp_transition [OF r kn, where p = p],
      rule wp_bindI, rule wp_emit_node [where p = p and c = c and k = k], simp add: carried_def,
      rule wp_bindI, rule wp_emit_node [where p = p and c = c and k = k], simp add: carried_def)
    fix u v w assume "carried c k p v w"
    then have "alive c k w" by (simp add: carried_def)
    then show "wp (bind (guarded_phase su p (is_human_interact_review (r_node r)))
        (\<lambda>out. agent_end su p (is_cold_start (r_node r)) out)) Q E w" by (rule fin)
  qed
qed

section \<open>Properties\<close>

text \<open>
  A run settles its node. On a writable store that knows the node's preset, with an output directory
  that can be made, and with a process around it that leaves the store's lock and configuration alone,
  the runner of an agent returns, whatever the provider's streams contain and however they end, also when
  the preparation raised or a wait is cancelled. The node is the same node, terminal and with
  an end time, its record in the store is exactly the node in memory, and the transcript's last event is
  its end. A node that is done and had a lane, and is no cold start, has an accepted preview of its own.
\<close>

theorem agent_settles:
  assumes "st_read_only (w_store (r_world r)) = None"
    and "catalog_issue (w_store (r_world r)) (n_model_preset_id (r_node r)) = None"
    and "quiet_outside su" and "outputs_available su" and "launch \<noteq> Some Cancel"
    and "run_agent su p launch r = (t, res)"
  shows "res = Inr () \<and> node_key (r_node t) = node_key (r_node r) \<and> terminal (n_state (r_node t)) \<and>
    n_finished_at (r_node t) \<noteq> None \<and> recorded_node t \<and> r_sent t \<noteq> [] \<and>
    last (r_sent t) = (r_seq t, SentDone (r_node t)) \<and>
    (n_state (r_node t) = Done \<longrightarrow> is_cold_start (r_node r) \<or> \<not> r_lane t \<or> accepted p t)"
proof -
  let ?c = "st_config (w_store (r_world r))" and ?k = "node_key (r_node r)"
  have r: "alive ?c ?k r" using assms(1) by (simp add: alive_def hosted_def)
  have kn: "knows ?c ?k" using assms(2) by (cases "n_model_preset_id (r_node r)") (simp_all add: knows_def node_key_def catalog_issue_def)
  let ?Q = "\<lambda>_ u. alive ?c ?k u \<and> closed p (is_cold_start (r_node r)) u"
  have failed: "wp (agent_failed su p e) ?Q (\<lambda>_ _. False) u" if "alive ?c ?k u" for e u
    by (rule wp_agent_failed [OF assms(4) kn that]) simp
  have "wp (run_agent su p launch) ?Q (\<lambda>_ _. False) r"
    unfolding run_agent_def wp_except_exception
    by (rule wp_agent_body [OF assms(3,4) kn r assms(5)]) (simp_all add: failed)
  then have "res = Inr ()" "alive ?c ?k t" "closed p (is_cold_start (r_node r)) t"
    using assms(6) by (auto simp: wp_def split: sum.splits)
  then show ?thesis by (simp add: alive_def closed_def Let_def)
qed

theorem agent_settles_witness:
  "\<exists>t. run_agent quick_outside sample_project None sample_run = (t, Inr ()) \<and> terminal (n_state (r_node t)) \<and>
    recorded_node t \<and> n_id (r_node t) = ''r''"
proof -
  have quiet: "quiet_outside quick_outside" by (simp add: quiet_outside_def quick_outside_def sample_outside_def)
  have out: "outputs_available quick_outside" by (simp add: outputs_available_def quick_outside_def sample_outside_def)
  have ro: "st_read_only (w_store (r_world sample_run)) = None" by code_simp
  have cat: "catalog_issue (w_store (r_world sample_run)) (n_model_preset_id (r_node sample_run)) = None" by code_simp
  have n: "n_id (r_node sample_run) = ''r''" by code_simp
  obtain t res where run: "run_agent quick_outside sample_project None sample_run = (t, res)" by fastforce
  from agent_settles [OF ro cat quiet out _ run] n run show ?thesis by (auto simp: node_key_def)
qed

end
