(* ===== verification/Op_Settles.thy ===== *)
theory Op_Settles
  imports Op_Run Run_Settles
begin

text \<open>
  The runner of any kind of node settles its node, and a Git operation reports exactly what Git answered.
\<close>

section \<open>Programs by what they return\<close>

named_theorems yields_intros

definition yields :: "('a \<Rightarrow> bool) \<Rightarrow> ('e, 's, 'a) prog \<Rightarrow> bool" where
  "yields P m \<longleftrightarrow> (\<forall>s t v. m s = (t, Inr v) \<longrightarrow> P v)"

lemma yields_basic [yields_intros]:
  "P x \<Longrightarrow> yields P (ret x)" "yields P (raise e)" "(\<And>s. P (f s)) \<Longrightarrow> yields P (reading f)"
  by (simp_all add: yields_def)

lemma yields_bind_via: "yields R m \<Longrightarrow> (\<And>x. R x \<Longrightarrow> yields P (f x)) \<Longrightarrow> yields P (bind m f)"
  unfolding yields_def bind_eq_Inr by blast

lemma yields_bind [yields_intros]: "(\<And>x. yields P (f x)) \<Longrightarrow> yields P (bind m f)"
  unfolding yields_def bind_eq_Inr by blast

lemma yields_cases [yields_intros]:
  "(b \<Longrightarrow> yields P m) \<Longrightarrow> (\<not> b \<Longrightarrow> yields P m') \<Longrightarrow> yields P (if b then m else m')"
  "(\<And>a b. x = (a, b) \<Longrightarrow> yields P (f a b)) \<Longrightarrow> yields P (case x of (a, b) \<Rightarrow> f a b)"
  "(y = None \<Longrightarrow> yields P n) \<Longrightarrow> (\<And>a. y = Some a \<Longrightarrow> yields P (g a)) \<Longrightarrow> yields P (case y of None \<Rightarrow> n | Some a \<Rightarrow> g a)"
  by (simp, cases x, simp, cases y, simp_all)

lemma yields_zoom [yields_intros]: "yields P m \<Longrightarrow> yields P (zoom get put m)"
  by (auto simp: yields_def zoom_def split: prod.splits)

section \<open>The shared frame of these runners\<close>

lemma keeps_zoom:
  assumes "keeps I m" and "\<And>r s. get (put r s) = r"
  shows "keeps (\<lambda>s. I (get s)) (zoom get put m)"
  using assms by (auto simp: keeps_def zoom_def split: prod.split)

definition halted :: "node_state \<times> 'a \<Rightarrow> bool" where
  "halted v \<longleftrightarrow> ended (fst v)"

lemma halted_pair [simp]: "halted (s, x) \<longleftrightarrow> ended s"
  by (simp add: halted_def)

lemma wp_guarding:
  assumes "keeps I work" and "yields halted work" and "I s"
    and tell: "\<And>f u. I u \<Longrightarrow> wp (tell f) (\<lambda>_. I) (\<lambda>_ _. False) u"
    and q: "\<And>v u. I u \<Longrightarrow> halted v \<Longrightarrow> Q v u"
  shows "wp (guarding work tell) Q E s"
proof -
  have w: "wp work (\<lambda>v u. I u \<and> halted v) (\<lambda>_. I) s"
    using keepsD [OF assms(1,3)] assms(2) by (intro wpI) (auto simp: yields_def, metis fst_conv)
  have h: "wp (if e = Cancel then ret (Cancelled, None) else bind (tell (Unexpected e)) (\<lambda>_. ret (Error, Some (Unexpected e)))) Q E u"
    if "I u" for e u
  proof (cases "e = Cancel")
    case True
    then show ?thesis using q [OF that] by simp
  next
    case False
    have "wp (tell (Unexpected e)) (\<lambda>_. Q (Error, Some (Unexpected e))) E u"
      by (rule wp_mono [OF tell [OF that]]) (simp_all add: q)
    then show ?thesis using False by simp
  qed
  show ?thesis unfolding guarding_def wp_simps(8) by (rule wp_mono [OF w], use q in blast, rule h)
qed

lemma wp_begin_run:
  assumes "alive c k r" and "knows c k" and "\<And>u. alive c k u \<Longrightarrow> Q () u"
  shows "wp (begin_run su p) Q E r"
  unfolding begin_run_def
proof (rule wp_bindI, rule wp_transition [OF assms(1,2), where p = p], rule wp_bindI)
  fix u assume "carried c k p r u"
  then have u: "alive c k u" by (simp add: carried_def)
  show "wp (emit_node su p SentStarted) (\<lambda>_. wp (emit_node su p SentUpdated) Q E) E u"
  proof (rule wp_emit_node [OF u, where p = p])
    fix v assume "carried c k p u v"
    then have v: "alive c k v" by (simp add: carried_def)
    show "wp (emit_node su p SentUpdated) Q E v"
      by (rule wp_emit_node [OF v, where p = p]) (use assms(3) in \<open>simp add: carried_def\<close>)
  qed
qed

lemma wp_finish_run:
  assumes "alive c k r" and "knows c k" and "ended s" and "\<And>u. alive c k u \<Longrightarrow> closed p True u \<Longrightarrow> Q () u"
  shows "wp (finish_run su p s) Q E r"
  unfolding finish_run_def
proof (rule wp_bindI, rule wp_transition [OF assms(1,2), where p = p])
  fix u assume u: "carried c k p r u" "stood s True u"
  show "wp (bind (emit_node su p SentUpdated) (\<lambda>_. emit_node su p SentDone)) Q E u"
    by (rule wp_farewell [where p = p and cold = True and s = s and c = c and k = k])
      (use u assms(3,4) in \<open>simp_all add: carried_def settled_def\<close>)
qed

lemma wp_alive_node:
  assumes "alive c k r" and "node_key (f (r_node r)) = node_key (r_node r)"
    and "\<And>u. alive c k u \<Longrightarrow> r_node u = f (r_node r) \<Longrightarrow> Q () u"
  shows "wp (on_node f) Q E r"
  using assms by (simp add: on_node_def alive_def)

lemma wp_note_failure:
  assumes "alive c k r" and "\<And>u. alive c k u \<Longrightarrow> Q () u"
  shows "wp (note_failure su err) Q E r"
  unfolding note_failure_def by (rule wp_alive_node [OF assms(1)]) (simp_all add: assms(2) split: option.split)

lemma node_key_commits [simp]:
  "node_key (n\<lparr>n_commit_before := x\<rparr>) = node_key n" "node_key (n\<lparr>n_commit_after := x\<rparr>) = node_key n"
  "node_key (n\<lparr>n_summary := s, n_commit_after := x\<rparr>) = node_key n"
  by (simp_all add: node_key_def)

lemma wp_persist_alive:
  assumes "alive c k r" and "\<And>u. alive c k u \<Longrightarrow> Q () u"
  shows "wp (persist_executed_preview p s m su ni ar) Q E r"
  by (rule wp_always [OF always_persist alive_persist assms(1)]) (simp add: assms(2))

lemma alive_asking [keeps_intros]: "quiet_outside su \<Longrightarrow> keeps (alive c k) (asking su answer)"
  unfolding asking_def by (intro keeps_intros alive_meanwhile)

lemma alive_no_temporary [keeps_intros]: "keeps (alive c k) (no_temporary p)"
  unfolding no_temporary_def by (intro keeps_intros)

lemma alive_begin_run [keeps_intros]: "keeps (alive c k) (begin_run su p)"
  unfolding begin_run_def by (intro keeps_intros)

lemma wp_tell:
  assumes "alive c k r" and "\<And>u. alive c k u \<Longrightarrow> Q () u"
  shows "wp (emit su p ev) Q E r"
  by (rule wp_emit [OF assms(1), where p = p]) (use assms(2) in \<open>simp add: carried_def\<close>)

section \<open>Git operations\<close>

lemma keeps_on_turn [keeps_intros]: "keeps I m \<Longrightarrow> keeps (\<lambda>s. I (os_run s)) (on_turn m)"
  unfolding on_turn_def by (rule keeps_zoom) simp_all

lemma wp_on_turn [simp]:
  "wp (on_turn m) Q E s = wp m (\<lambda>x r. Q x (s\<lparr>os_run := r\<rparr>)) (\<lambda>e r. E e (s\<lparr>os_run := r\<rparr>)) (os_run s)"
  by (simp add: on_turn_def)

lemma alive_op_work:
  assumes "quiet_outside su"
  shows "keeps (\<lambda>s. alive c k (os_run s)) (op_work su oo p)"
  unfolding op_work_def run_commit_def run_pull_def record_aliases_def write_git_aliases_def
  by (intro keeps_intros assms keeps_writing) simp_all

lemma yields_op_work: "yields halted (op_work su oo p)"
  unfolding op_work_def run_commit_def run_pull_def on_turn_def by (intro yields_intros) simp_all

lemma wp_op_end:
  assumes r: "alive c k r" and kn: "knows c k" and s: "halted v" and q: "\<And>u. alive c k u \<Longrightarrow> closed p True u \<Longrightarrow> Q () u"
  shows "wp (op_end su oo p v) Q E r"
proof -
  obtain fin err where v: "v = (fin, err)" by (cases v)
  show ?thesis unfolding op_end_def v prod.case write_op_preview_def
    by (rule wp_bindI, rule wp_note_failure [OF r], rule wp_bindI, rule wp_alive_node, assumption, simp,
        rule wp_bindI, rule wp_bindI, subst wp_simps(3), rule wp_persist_alive, assumption,
        rule wp_finish_run [OF _ kn, where p = p], assumption) (use s q v in simp_all)
qed

lemma wp_run_op:
  assumes "alive c k (os_run s)" and "knows c k" and su: "quiet_outside su"
    and q: "\<And>u. alive c k (os_run u) \<Longrightarrow> closed p True (os_run u) \<Longrightarrow> Q () u"
  shows "wp (run_op su oo p None) Q E s"
  unfolding run_op_def option.case
proof (rule wp_bindI, subst wp_on_turn, rule wp_alive_node [OF assms(1)], simp, rule wp_bindI, subst wp_simps(1),
    rule wp_bindI, subst wp_on_turn, rule wp_begin_run [OF _ assms(2)], simp, rule wp_bindI,
    rule wp_guarding [OF alive_op_work [OF su, of c k] yields_op_work], simp)
  fix f and u :: op_state assume "alive c k (os_run u)"
  then show "wp (on_turn (emit su p (SentError f))) (\<lambda>_ s. alive c k (os_run s)) (\<lambda>_ _. False) u"
    unfolding wp_on_turn by (rule wp_tell) simp
next
  fix v :: verdict and u :: op_state assume u: "alive c k (os_run u)" "halted v"
  show "wp (on_turn (op_end su oo p v)) Q E u"
    unfolding wp_on_turn by (rule wp_op_end [OF u(1) assms(2) u(2)]) (simp add: q)
qed

section \<open>Verifiers\<close>

lemma keeps_on_verifier [keeps_intros]: "keeps I m \<Longrightarrow> keeps (\<lambda>s. I (vs_run s)) (on_verifier m)"
  unfolding on_verifier_def by (rule keeps_zoom) simp_all

lemma wp_on_verifier [simp]:
  "wp (on_verifier m) Q E s = wp m (\<lambda>x r. Q x (s\<lparr>vs_run := r\<rparr>)) (\<lambda>e r. E e (s\<lparr>vs_run := r\<rparr>)) (vs_run s)"
  by (simp add: on_verifier_def)

lemma keeps_script_end [keeps_intros]:
  "(\<And>c out e. x = Exited c out e \<Longrightarrow> keeps I (f c out e)) \<Longrightarrow> (\<And>out e. x = TimedOut out e \<Longrightarrow> keeps I (g out e)) \<Longrightarrow>
   (\<And>late e. x = ScriptFails late e \<Longrightarrow> keeps I (h late e)) \<Longrightarrow>
     keeps I (case x of Exited c out e \<Rightarrow> f c out e | TimedOut out e \<Rightarrow> g out e | ScriptFails late e \<Rightarrow> h late e)"
  by (cases x) simp_all

lemma alive_verify_work:
  assumes "quiet_outside su"
  shows "keeps (\<lambda>s. alive c k (vs_run s)) (verify_work su vo p)"
  unfolding verify_work_def launch_script_def collect_script_def keep_script_def judge_script_def show_output_def
  by (intro keeps_intros alive_meanwhile assms keeps_writing) simp_all

lemma yields_verify_work: "yields halted (verify_work su vo p)"
  unfolding verify_work_def judge_script_def on_verifier_def by (intro yields_intros) simp_all

lemma wp_verify_end:
  assumes r: "alive c k r" and kn: "knows c k" and s: "halted v" and q: "\<And>u. alive c k u \<Longrightarrow> closed p True u \<Longrightarrow> Q () u"
  shows "wp (verify_end su vo p sr v) Q E r"
proof -
  obtain fin err where v: "v = (fin, err)" by (cases v)
  show ?thesis unfolding verify_end_def v prod.case write_verifier_preview_def Let_def
    by (rule wp_bindI, rule wp_note_failure [OF r], rule wp_bindI, rule wp_alive_node, assumption, simp,
        rule wp_bindI, rule wp_bindI, subst wp_simps(3), rule wp_persist_alive, assumption,
        rule wp_finish_run [OF _ kn, where p = p], assumption) (use s q v in simp_all)
qed

lemma wp_run_verifier:
  assumes "alive c k (vs_run s)" and "knows c k" and su: "quiet_outside su"
    and q: "\<And>u. alive c k (vs_run u) \<Longrightarrow> closed p True (vs_run u) \<Longrightarrow> Q () u"
  shows "wp (run_verifier su vo p None) Q E s"
  unfolding run_verifier_def option.case
proof (rule wp_bindI, subst wp_on_verifier, rule wp_alive_node [OF assms(1)], simp, rule wp_bindI, subst wp_simps(1),
    rule wp_bindI, subst wp_on_verifier, rule wp_begin_run [OF _ assms(2)], simp, rule wp_bindI,
    rule wp_guarding [OF alive_verify_work [OF su, of c k] yields_verify_work], simp)
  fix f and u :: verify_state assume "alive c k (vs_run u)"
  then show "wp (on_verifier (emit su p (SentError f))) (\<lambda>_ s. alive c k (vs_run s)) (\<lambda>_ _. False) u"
    unfolding wp_on_verifier by (rule wp_tell) simp
next
  fix v :: verdict and u :: verify_state assume u: "alive c k (vs_run u)" "halted v"
  show "wp (bind (reading vs_script) (\<lambda>sr. on_verifier (verify_end su vo p sr v))) Q E u"
    unfolding wp_simps(3,6) wp_on_verifier by (rule wp_verify_end [OF u(1) assms(2) u(2)]) (simp add: q)
qed

section \<open>Code reviews\<close>

lemma keeps_on_review [keeps_intros]: "keeps I m \<Longrightarrow> keeps (\<lambda>s. I (vr_run s)) (on_review m)"
  unfolding on_review_def by (rule keeps_zoom) simp_all

lemma wp_on_review [simp]:
  "wp (on_review m) Q E s = wp m (\<lambda>x r. Q x (s\<lparr>vr_run := r\<rparr>)) (\<lambda>e r. E e (s\<lparr>vr_run := r\<rparr>)) (vr_run s)"
  by (simp add: on_review_def)

lemma alive_review_consume [keeps_intros]:
  assumes "quiet_outside su"
  shows "keeps (alive c k) (review_consume su ro p evs ending report)"
proof (induction evs arbitrary: report)
  case Nil
  show ?case unfolding review_consume.simps by (intro keeps_intros alive_meanwhile assms)
next
  case (Cons ev evs)
  show ?case unfolding review_consume.simps Let_def by (intro keeps_intros alive_meanwhile assms Cons)
qed

lemma alive_after_review:
  assumes "\<And>f ev. again = Some f \<Longrightarrow> keeps (alive c k) (f ev)"
  shows "keeps (alive c k) (after_review_stream out again)"
  unfolding after_review_stream_def by (intro keeps_intros assms)

lemma alive_native_review [keeps_intros]:
  assumes "quiet_outside su"
  shows "keeps (alive c k) (run_native_review su ro p)"
proof -
  have stream: "keeps (alive c k) (open_review su ro p)"
    unfolding open_review_def by (intro keeps_intros alive_writing assms) simp
  have "keeps (alive c k) (review_loop su ro p attempt ds)" for attempt ds
  proof (induction ds arbitrary: attempt)
    case Nil
    show ?case unfolding review_loop.simps by (intro keeps_intros stream alive_after_review) simp
  next
    case (Cons d ds)
    show ?case unfolding review_loop.simps
      by (intro keeps_intros stream alive_after_review) (auto intro!: keeps_intros alive_wait assms Cons)
  qed
  then show ?thesis unfolding run_native_review_def by (intro keeps_intros)
qed

lemma state_from_provider_ended: "state_from_provider v = Some s \<Longrightarrow> ended s"
  by (auto simp: state_from_provider_def split: if_splits)

lemma yields_after_review:
  assumes "\<And>f ev. again = Some f \<Longrightarrow> yields halted (f ev)"
  shows "yields halted (after_review_stream out again)"
proof -
  obtain t report where out: "out = (t, report)" by (cases out)
  show ?thesis
  proof (cases t)
    case (DoneSeen v)
    then show ?thesis using state_from_provider_ended [of v]
      by (auto simp: out after_review_stream_def yields_def split: option.splits)
  next
    case (RateLimitSeen ev)
    show ?thesis unfolding out after_review_stream_def prod.case RateLimitSeen terminal.case
      by (intro yields_intros assms) simp_all
  qed (simp_all add: out after_review_stream_def yields_def)
qed

lemma yields_native_review: "yields halted (run_native_review su ro p)"
proof -
  have "yields halted (review_loop su ro p attempt ds)" for attempt ds
  proof (induction ds arbitrary: attempt)
    case Nil
    show ?case unfolding review_loop.simps by (intro yields_intros yields_after_review) simp
  next
    case (Cons d ds)
    show ?case unfolding review_loop.simps by (intro yields_intros yields_after_review) (auto intro!: yields_bind Cons)
  qed
  then show ?thesis unfolding run_native_review_def by (intro yields_intros) simp_all
qed

lemma alive_raising [keeps_intros]: "keeps (alive c k) (raising e)"
  unfolding raising_def by (intro keeps_intros)

lemma alive_review_work:
  assumes "quiet_outside su"
  shows "keeps (\<lambda>s. alive c k (vr_run s)) (review_work su ro p)"
proof -
  have "keeps (\<lambda>s. alive c k (vr_run s)) (review_dirty su ro p snapshot)" for snapshot
    unfolding review_dirty_def keep_report_def publish_review_report_def
    by (intro keeps_intros assms keeps_writing) simp_all
  then show ?thesis unfolding review_work_def by (intro keeps_intros assms keeps_writing) simp_all
qed

lemma yields_review_work: "yields halted (review_work su ro p)"
proof -
  have v: "halted (review_verdict a)" if "halted a" for a using that by (auto simp: review_verdict_def split: prod.split)
  have "yields halted (review_dirty su ro p snapshot)" for snapshot
    unfolding review_dirty_def on_review_def
    by (rule yields_bind_via [OF yields_zoom [OF yields_native_review]]) (intro yields_intros v)
  then show ?thesis unfolding review_work_def by (intro yields_intros) simp_all
qed

lemma wp_set_summary:
  assumes "alive c k r" and "\<And>u. alive c k u \<Longrightarrow> Q () u"
  shows "wp (set_summary x) Q E r"
  unfolding set_summary_def by (rule wp_alive_node [OF assms(1)]) (simp_all add: assms(2))

lemma wp_review_previews:
  assumes out: "outputs_available su" and r: "alive c k r" and q: "\<And>u. alive c k u \<Longrightarrow> Q () u"
  shows "wp (review_previews su ro p s v) Q E r"
proof -
  obtain fin err where v: "v = (fin, err)" by (cases v)
  have two: "wp (bind (set_summary x) (\<lambda>_. persist_executed_preview p s' m su' ni ar)) Q E r" for x s' m su' ni ar
    by (rule wp_bindI, rule wp_set_summary [OF r], rule wp_persist_alive, assumption, rule q)
  have "wp (done_review_preview ro p s) Q E r"
    unfolding done_review_preview_def by (rule wp_bindI, subst wp_simps(3)) (use two in \<open>simp split: option.split\<close>)
  moreover have "wp (write_stub_preview su p fin x) Q E r" for x
    by (rule wp_always [OF always_stub [OF out] alive_stub r]) (simp add: q)
  ultimately show ?thesis unfolding review_previews_def v prod.case using two by simp
qed

lemma wp_run_code_review:
  assumes "alive c k (vr_run s)" and kn: "knows c k" and su: "quiet_outside su" and out: "outputs_available su"
    and q: "\<And>u. alive c k (vr_run u) \<Longrightarrow> closed p True (vr_run u) \<Longrightarrow> Q () u"
  shows "wp (run_code_review su ro p) Q E s"
  unfolding run_code_review_def
proof (rule wp_bindI, subst wp_on_review, rule wp_alive_node [OF assms(1)], simp, rule wp_bindI,
    rule wp_guarding [OF alive_review_work [OF su, of c k] yields_review_work], simp)
  fix f and u :: review_state assume "alive c k (vr_run u)"
  then show "wp (on_review (emit su p (SentError f))) (\<lambda>_ s. alive c k (vr_run s)) (\<lambda>_ _. False) u"
    unfolding wp_on_review by (rule wp_tell) simp
next
  fix v :: verdict and u :: review_state assume u: "alive c k (vr_run u)" "halted v"
  show "wp (bind (reading (\<lambda>s. s)) (\<lambda>s. on_review (review_end su ro p s
      (fst v, case snd v of Some f \<Rightarrow> Some f | None \<Rightarrow> vr_error s)))) Q E u"
    unfolding wp_simps(3,6) wp_on_review review_end_def
    by (rule wp_note_failure [OF u(1)], rule wp_alive_node, assumption, simp, rule wp_review_previews [OF out], assumption,
        rule wp_finish_run [OF _ kn, where p = p], assumption) (use u q in \<open>simp_all add: halted_def\<close>)
qed

section \<open>Any node\<close>

lemma wp_hosting: "wp (hosting f g m) Q E r = wp m (\<lambda>x s. Q x (g s)) (\<lambda>e s. E e (g s)) (f r)"
  by (auto simp: wp_def hosting_def split: prod.split sum.split)

text \<open>Which nodes may be done without an accepted preview of their own.\<close>

definition exempt :: "node \<Rightarrow> bool" where
  "exempt n \<longleftrightarrow> n_kind n \<in> {Op, Verifier} \<or> n_subtype n = Some CodeReview \<or> is_cold_start n"

lemma closed_weak: "closed p b u \<Longrightarrow> (b \<Longrightarrow> b') \<Longrightarrow> closed p b' u"
  by (auto simp: closed_def Let_def)

lemma wp_fail_workspace:
  assumes out: "outputs_available su" and kn: "knows c k" and r: "alive c k r"
    and q: "\<And>u. alive c k u \<Longrightarrow> closed p b u \<Longrightarrow> Q () u"
  shows "wp (fail_workspace_preparation su p e) Q E r"
  unfolding fail_workspace_preparation_def
  by (rule wp_bindI, rule wp_note_failure [OF r], rule wp_bindI, rule wp_always [OF always_stub [OF out] alive_stub], assumption,
    rule wp_failed_tail [OF kn, where cold = b and p = p]) (simp_all add: q)

lemma wp_run_agent:
  assumes "quiet_outside su" "outputs_available su" "knows c k" "alive c k r" "launch \<noteq> Some Cancel"
    and q: "\<And>u. alive c k u \<Longrightarrow> closed p (is_cold_start (r_node r)) u \<Longrightarrow> Q () u"
  shows "wp (run_agent su p launch) Q E r"
  unfolding run_agent_def wp_except_exception
  by (rule wp_agent_body [OF assms(1-5)])
    (use wp_agent_failed [OF assms(2,3), where cold = "is_cold_start (r_node r)" and p = p] q in auto)

lemma wp_run_node:
  assumes su: "quiet_outside (sd_agent sd)" and out: "outputs_available (sd_agent sd)" and kn: "knows c k" and r: "alive c k r"
    and l: "sd_launch sd \<noteq> Some Cancel" "n_kind (r_node r) \<in> {Op, Verifier} \<longrightarrow> sd_launch sd = None" and w: "sd_workspace sd \<noteq> Some Cancel"
    and q: "\<And>u. alive c k u \<Longrightarrow> closed p (exempt (r_node r)) u \<Longrightarrow> Q () u"
  shows "wp (run_node sd p) Q E r"
proof -
  have ex: "Q () u" if "alive c k u" "closed p True u" "exempt (r_node r)" for u using that q by simp
  have op: "wp (hosting (\<lambda>r. \<lparr>os_run = r, os_aliases = sd_aliases sd\<rparr>) os_run (run_op (sd_agent sd) (sd_op sd) p (sd_launch sd))) Q E r"
    if "n_kind (r_node r) = Op"
    unfolding wp_hosting using l(2) that by (auto intro!: wp_run_op [OF _ kn su] ex simp: r exempt_def)
  have ver: "wp (hosting (\<lambda>r. \<lparr>vs_run = r, vs_script = no_script_run\<rparr>) vs_run
      (run_verifier (sd_agent sd) (sd_verify sd) p (sd_launch sd))) Q E r" if "n_kind (r_node r) = Verifier"
    unfolding wp_hosting using l(2) that by (auto intro!: wp_run_verifier [OF _ kn su] ex simp: r exempt_def)
  have rev: "wp (hosting fresh_review vr_run (run_code_review (sd_agent sd) (sd_review sd) p)) Q E r" if "n_subtype (r_node r) = Some CodeReview"
    unfolding wp_hosting using that by (auto intro!: wp_run_code_review [OF _ kn su out] ex simp: r exempt_def fresh_review_def)
  have ag: "wp (run_agent (sd_agent sd) p (sd_launch sd)) Q E r"
    by (rule wp_run_agent [OF su out kn r l(1)]) (rule q, assumption, erule closed_weak, simp add: exempt_def)
  show ?thesis
  proof (cases "sd_workspace sd")
    case None
    show ?thesis unfolding run_node_def None option.case run_kind_def wp_simps(3,6) using op ver rev ag by simp
  next
    case (Some e)
    then show ?thesis using w wp_fail_workspace [OF out kn r, where b = "exempt (r_node r)" and p = p] q
      by (simp add: run_node_def)
  qed
qed

section \<open>What a Git operation leaves\<close>

text \<open>Git's answer to the node: an exception, an error, or the new head with a summary.\<close>

definition commit_answer :: "op_outside \<Rightarrow> node \<Rightarrow> stop + pystr + pystr option \<times> pystr" where
  "commit_answer oo n = (case oo_commit oo (op_message n) of
     Inl e \<Rightarrow> Inl e
   | Inr (h, Some m) \<Rightarrow> Inr (Inl m)
   | Inr (None, None) \<Rightarrow> Inr (Inr (oo_before oo, ''no changes to commit''))
   | Inr (Some h, None) \<Rightarrow> Inr (Inr (Some h, ''commit '' @ take 8 h)))"

definition pull_answer :: "op_outside \<Rightarrow> stop + pystr + pystr option \<times> pystr" where
  "pull_answer oo = (case (oo_unpushed oo True, oo_pull oo, oo_unpushed oo False) of
     (Inl e, _, _) \<Rightarrow> Inl e
   | (Inr _, Inl e, _) \<Rightarrow> Inl e
   | (Inr _, Inr (h, Some m), _) \<Rightarrow> Inr (Inl m)
   | (Inr _, Inr (h, None), Inl e) \<Rightarrow> Inl e
   | (Inr _, Inr (h, None), Inr _) \<Rightarrow> Inr (Inr (h, pulled_summary h)))"

definition git_answer :: "op_outside \<Rightarrow> project \<Rightarrow> node \<Rightarrow> stop + pystr + pystr option \<times> pystr" where
  "git_answer oo p n =
     (if n_op_kind n \<notin> {Some ''commit'', Some ''pull''} then Inr (Inl (''unknown op_kind: '' @ or_empty (n_op_kind n)))
      else if p_temporary p then Inl (Raised (ValueError ''temporary project''))
      else if n_op_kind n = Some ''commit'' then commit_answer oo n else pull_answer oo)"

definition op_verdict :: "stop + pystr + pystr option \<times> pystr \<Rightarrow> verdict" where
  "op_verdict a = (case a of
     Inl e \<Rightarrow> if e = Cancel then (Cancelled, None) else (Error, Some (Unexpected e))
   | Inr (Inl m) \<Rightarrow> (Error, Some (OpFailed m))
   | Inr (Inr _) \<Rightarrow> (Done, None))"

definition op_node :: "outside \<Rightarrow> op_outside \<Rightarrow> project \<Rightarrow> node \<Rightarrow> node" where
  "op_node su oo p n =
     (let m = n\<lparr>n_commit_before := oo_before oo\<rparr>;
          m' = (case git_answer oo p m of Inr (Inr (h, s)) \<Rightarrow> m\<lparr>n_summary := Some s, n_commit_after := h\<rparr> | _ \<Rightarrow> m) in
      m'\<lparr>n_error := (case snd (op_verdict (git_answer oo p m)) of None \<Rightarrow> n_error n | Some f \<Rightarrow> Some (su_wording su f)),
        n_commit_after := (if n_commit_after m' = None then oo_after oo else n_commit_after m')\<rparr>)"

text \<open>The aliases of rewritten commits, kept when the same number of them is still unpushed.\<close>

definition op_aliases :: "op_outside \<Rightarrow> project \<Rightarrow> node \<Rightarrow> (pystr, pystr) dict \<Rightarrow> (pystr, pystr) dict" where
  "op_aliases oo p n al =
     (case (n_op_kind n = Some ''pull'', git_answer oo p n, oo_unpushed oo True, oo_unpushed oo False) of
        (True, Inr (Inr _), Inr (Some olds), Inr (Some news)) \<Rightarrow>
          if length olds = length news \<and> olds \<noteq> [] then dict_updates al (dict_updates [] (zip olds news)) else al
      | _ \<Rightarrow> al)"

lemma op_aliases_other:
  "git_answer oo p n = Inl e \<Longrightarrow> op_aliases oo p n al = al" "git_answer oo p n = Inr (Inl m) \<Longrightarrow> op_aliases oo p n al = al"
  "n_op_kind n \<noteq> Some ''pull'' \<Longrightarrow> op_aliases oo p n al = al"
  by (cases "n_op_kind n = Some ''pull''"; simp add: op_aliases_def)+

text \<open>Everything of a node but its state, its times and its revision.\<close>

definition essence :: "node \<Rightarrow> node" where
  "essence n = n\<lparr>n_state := Queued, n_rev := 0, n_started_at := None, n_finished_at := None\<rparr>"

definition still :: "global_config \<Rightarrow> node_key \<Rightarrow> node \<Rightarrow> run \<Rightarrow> bool" where
  "still c k n r \<longleftrightarrow> alive c k r \<and> essence (r_node r) = essence n"

lemma essence_stamp [simp]: "essence (stamp_state s a b now n) = essence n"
  by (simp add: essence_def stamp_state_def)

lemma essence_rev [simp]: "essence (n\<lparr>n_rev := v\<rparr>) = essence n"
  by (simp add: essence_def)

lemma keeps_still: "keeps (alive c k) m \<Longrightarrow> keeps (\<lambda>r. essence (r_node r) = essence n) m \<Longrightarrow> keeps (still c k n) m"
  by (auto simp: keeps_def still_def)

lemma essence_update_self: "keeps (\<lambda>r. essence (r_node r) = x) update_self"
proof (rule keepsI)
  fix t :: run assume t: "essence (r_node t) = x"
  have "wp update_self (\<lambda>_ u. essence (r_node u) = x) (\<lambda>_ u. essence (r_node u) = x) t"
    using t by (auto simp: update_self_def on_node_def save_def on_store_def update_node_def wp_result Let_def
        assert_writable_def bind_model_catalog_def schedule_commit_def wp_def bind_def andthen_def zoom_def on_world_def
        split: option.splits)
  then show "essence (r_node (fst (update_self t))) = x" by (rule wp_fst)
qed

lemma essence_quiet: "(\<And>r. r_node (f r) = r_node r) \<Longrightarrow> keeps (\<lambda>r. essence (r_node r) = x) (writing f)"
  by (rule keeps_writing) simp

lemma essence_on_world [keeps_intros]: "keeps (\<lambda>r. essence (r_node r) = x) (on_world m)"
  by (rule keeps_on_world) simp

lemma essence_emit: "keeps (\<lambda>r. essence (r_node r) = x) (emit su p ev)" "keeps (\<lambda>r. essence (r_node r) = x) (emit_node su p f)"
  unfolding emit_def emit_node_def by (intro keeps_intros essence_quiet; simp)+

lemma essence_transition: "keeps (\<lambda>r. essence (r_node r) = x) (transition p s a b)"
proof -
  have "keeps (\<lambda>r. essence (r_node r) = x) (on_node (stamp_state s a b now))" for now
    unfolding on_node_def by (rule keeps_writing) simp
  then show ?thesis unfolding transition_def by (intro keeps_intros essence_update_self essence_quiet) simp_all
qed

lemma still_frame [keeps_intros]:
  "keeps (still c k n) (emit su p ev)" "keeps (still c k n) (begin_run su p)" "keeps (still c k n) (finish_run su p s)"
  "keeps (still c k n) (persist_executed_preview p s m su' ni ar)"
  unfolding begin_run_def finish_run_def persist_executed_preview_def
  by (intro keeps_still keeps_intros essence_emit essence_transition)+

lemma essence_fields:
  assumes "essence m = essence n"
  shows "n_op_kind m = n_op_kind n" "op_message m = op_message n" "n_commit_before m = n_commit_before n"
    "n_commit_after m = n_commit_after n" "n_error m = n_error n"
proof -
  have f: "g m = g n" if "\<And>n. g (essence n) = g n" for g :: "node \<Rightarrow> 'b" using arg_cong [OF assms, of g] that by metis
  show "n_op_kind m = n_op_kind n" "op_message m = op_message n" "n_commit_before m = n_commit_before n"
    "n_commit_after m = n_commit_after n" "n_error m = n_error n"
    by (rule f; simp add: essence_def op_message_def)+
qed

lemma essence_upd [simp]:
  "essence (n\<lparr>n_summary := a\<rparr>) = (essence n)\<lparr>n_summary := a\<rparr>"
  "essence (n\<lparr>n_commit_after := b\<rparr>) = (essence n)\<lparr>n_commit_after := b\<rparr>"
  "essence (n\<lparr>n_commit_before := b\<rparr>) = (essence n)\<lparr>n_commit_before := b\<rparr>"
  "essence (n\<lparr>n_error := x\<rparr>) = (essence n)\<lparr>n_error := x\<rparr>"
  by (simp_all add: essence_def)

lemma n_after_self: "m\<lparr>n_error := x, n_commit_after := n_commit_after m\<rparr> = m\<lparr>n_error := x\<rparr>"
  by (cases m) simp

lemma wp_asking:
  assumes "quiet_outside su" "still c k n r" "\<And>e u. a = Inl e \<Longrightarrow> still c k n u \<Longrightarrow> E e u" "\<And>x u. a = Inr x \<Longrightarrow> still c k n u \<Longrightarrow> Q x u"
  shows "wp (asking su a) Q E r"
proof -
  have "still c k n (r\<lparr>r_world := su_meanwhile su r\<rparr>)" using assms(1,2) by (simp add: still_def alive_def quiet_outside_def)
  then show ?thesis using assms(3,4) by (cases a) (simp_all add: asking_def meanwhile_def wp_result)
qed

lemma wp_still_node:
  assumes "still c k n r" and "node_key (f (r_node r)) = node_key (r_node r)" and "essence (f (r_node r)) = essence m"
    and "\<And>u. still c k m u \<Longrightarrow> Q () u"
  shows "wp (on_node f) Q E r"
  using assms by (simp add: on_node_def still_def alive_def)

definition worked :: "op_outside \<Rightarrow> project \<Rightarrow> node \<Rightarrow> node" where
  "worked oo p n = (case git_answer oo p n of Inr (Inr (h, s)) \<Rightarrow> n\<lparr>n_summary := Some s, n_commit_after := h\<rparr> | _ \<Rightarrow> n)"

definition answered_op :: "op_outside \<Rightarrow> project \<Rightarrow> global_config \<Rightarrow> node_key \<Rightarrow> node \<Rightarrow> verdict \<Rightarrow> run \<Rightarrow> bool" where
  "answered_op oo p c k n v u \<longleftrightarrow> v = op_verdict (git_answer oo p n) \<and> (\<forall>e. git_answer oo p n \<noteq> Inl e) \<and> still c k (worked oo p n) u"

definition failed_op :: "op_outside \<Rightarrow> project \<Rightarrow> global_config \<Rightarrow> node_key \<Rightarrow> node \<Rightarrow> stop \<Rightarrow> run \<Rightarrow> bool" where
  "failed_op oo p c k n e u \<longleftrightarrow> git_answer oo p n = Inl e \<and> still c k n u"

lemma wp_run_commit:
  assumes su: "quiet_outside su" and r: "still c k n r" and kind: "n_op_kind n = Some ''commit''" and b: "n_commit_before n = oo_before oo"
  shows "wp (run_commit su oo p) (answered_op oo p c k n) (failed_op oo p c k n) r"
proof (cases "p_temporary p")
  case True
  then show ?thesis using r kind by (simp add: run_commit_def no_temporary_def failed_op_def git_answer_def)
next
  case False
  have e: "essence (r_node r) = essence n" using r by (simp add: still_def)
  have ans: "git_answer oo p n = commit_answer oo n" using kind False by (simp add: git_answer_def)
  have step: "wp (case x of (new_head, err) \<Rightarrow> (case err of
       Some m \<Rightarrow> ret (Error, Some (OpFailed m))
     | None \<Rightarrow> (case new_head of
         None \<Rightarrow> bind (on_node (\<lambda>n. n\<lparr>n_summary := Some ''no changes to commit'', n_commit_after := n_commit_before n\<rparr>))
           (\<lambda>_. ret (Done, None))
       | Some h \<Rightarrow> bind (on_node (\<lambda>n. n\<lparr>n_summary := Some (''commit '' @ take 8 h), n_commit_after := Some h\<rparr>))
           (\<lambda>_. ret (Done, None))))) (answered_op oo p c k n) (failed_op oo p c k n) u"
    if x: "oo_commit oo (op_message n) = Inr x" and u: "still c k n u" for x u
  proof -
    obtain h err where hx: "x = (h, err)" by (cases x)
    have eu: "essence (r_node u) = essence n" using u by (simp add: still_def)
    have w: "wp (bind (on_node (\<lambda>n. n\<lparr>n_summary := Some s, n_commit_after := g n\<rparr>)) (\<lambda>_. ret (Done, None)))
        (answered_op oo p c k n) (failed_op oo p c k n) u"
      if "g (r_node u) = h'" "git_answer oo p n = Inr (Inr (h', s))" for g s h'
      by (rule wp_bindI, rule wp_still_node [OF u, where m = "worked oo p n"])
        (use eu that in \<open>simp_all add: worked_def answered_op_def op_verdict_def\<close>)
    show ?thesis
    proof (cases err)
      case (Some m)
      have "git_answer oo p n = Inr (Inl m)" using x hx Some by (cases h) (simp_all add: ans commit_answer_def)
      then show ?thesis using u hx Some by (simp add: answered_op_def op_verdict_def worked_def)
    next
      case None
      show ?thesis unfolding hx None prod.case option.case
        by (cases h; simp only: option.case, rule w)
          (use x hx None b essence_fields(3) [OF eu] in \<open>simp_all add: ans commit_answer_def\<close>)
    qed
  qed
  have "wp (asking su (oo_commit oo (op_message (r_node r)))) (\<lambda>x. wp (case x of (new_head, err) \<Rightarrow> (case err of
       Some m \<Rightarrow> ret (Error, Some (OpFailed m))
     | None \<Rightarrow> (case new_head of
         None \<Rightarrow> bind (on_node (\<lambda>n. n\<lparr>n_summary := Some ''no changes to commit'', n_commit_after := n_commit_before n\<rparr>))
           (\<lambda>_. ret (Done, None))
       | Some h \<Rightarrow> bind (on_node (\<lambda>n. n\<lparr>n_summary := Some (''commit '' @ take 8 h), n_commit_after := Some h\<rparr>))
           (\<lambda>_. ret (Done, None))))) (answered_op oo p c k n) (failed_op oo p c k n)) (failed_op oo p c k n) r"
    unfolding essence_fields(2) [OF e]
    by (rule wp_asking [OF su r], simp add: failed_op_def ans commit_answer_def, rule step)
  then show ?thesis unfolding run_commit_def no_temporary_def if_not_P [OF False] bind_ret wp_simps(3,6) .
qed

lemma wp_write_aliases:
  assumes r: "still c k n (os_run s)" and q: "\<And>u. still c k n (os_run u) \<Longrightarrow> os_aliases u = al \<Longrightarrow> Q () u"
  shows "wp (write_git_aliases p al) Q E s"
proof -
  let ?r = "os_run s"
  let ?u = "?r\<lparr>r_world := (r_world ?r)\<lparr>w_store := (w_store (r_world ?r))\<lparr>st_commits := st_commits (w_store (r_world ?r)) @
    [''update git aliases for project '' @ p_id p]\<rparr>\<rparr>\<rparr>"
  have "still c k n ?u" using r by (simp add: still_def alive_def hosted_def)
  then have Q: "Q () (s\<lparr>os_aliases := al, os_run := ?u\<rparr>)" by (intro q) simp_all
  have "write_git_aliases p al s = (s\<lparr>os_aliases := al, os_run := ?u\<rparr>, Inr ())"
    using r by (simp add: write_git_aliases_def on_turn_def on_store_def assert_writable_def schedule_commit_def still_def
        alive_def hosted_def on_world_def zoom_def bind_def)
  then show ?thesis using Q by (rule wp_returns)
qed

lemma wp_record_aliases:
  assumes r: "still c k n (os_run s)"
    and q: "\<And>u. still c k n (os_run u) \<Longrightarrow> os_aliases u = (case (olds, news) of
        (Some xs, Some ys) \<Rightarrow> if length xs = length ys \<and> xs \<noteq> [] then dict_updates (os_aliases s) (dict_updates [] (zip xs ys)) else os_aliases s
      | _ \<Rightarrow> os_aliases s) \<Longrightarrow> Q () u"
  shows "wp (record_aliases p olds news) Q E s"
proof (cases "\<exists>xs ys. olds = Some xs \<and> news = Some ys \<and> length xs = length ys \<and> xs \<noteq> []")
  case True
  then obtain xs ys where "olds = Some xs" "news = Some ys" "length xs = length ys" "xs \<noteq> []" by blast
  then show ?thesis using wp_write_aliases [OF r] q by (simp add: record_aliases_def)
next
  case False
  then show ?thesis using q [OF r] by (cases olds; cases news) (auto simp: record_aliases_def)
qed

definition pulled :: "op_outside \<Rightarrow> project \<Rightarrow> global_config \<Rightarrow> node_key \<Rightarrow> node \<Rightarrow> (pystr, pystr) dict \<Rightarrow> verdict \<Rightarrow> op_state \<Rightarrow> bool" where
  "pulled oo p c k n al v u \<longleftrightarrow> answered_op oo p c k n v (os_run u) \<and> os_aliases u = op_aliases oo p n al"

definition unpulled :: "op_outside \<Rightarrow> project \<Rightarrow> global_config \<Rightarrow> node_key \<Rightarrow> node \<Rightarrow> (pystr, pystr) dict \<Rightarrow> stop \<Rightarrow> op_state \<Rightarrow> bool" where
  "unpulled oo p c k n al e u \<longleftrightarrow> failed_op oo p c k n e (os_run u) \<and> os_aliases u = op_aliases oo p n al"

lemma wp_run_pull:
  assumes su: "quiet_outside su" and r: "still c k n (os_run s)" and kind: "n_op_kind n = Some ''pull''"
  shows "wp (run_pull su oo p) (pulled oo p c k n (os_aliases s)) (unpulled oo p c k n (os_aliases s)) s"
proof (cases "p_temporary p")
  case True
  then show ?thesis using r kind
    by (simp add: run_pull_def no_temporary_def unpulled_def failed_op_def git_answer_def op_aliases_other)
next
  case False
  have ans: "git_answer oo p n = pull_answer oo" using kind False by (simp add: git_answer_def)
  let ?Q = "pulled oo p c k n (os_aliases s)" and ?E = "unpulled oo p c k n (os_aliases s)"
  let ?last = "\<lambda>h olds news. bind (record_aliases p olds news) (\<lambda>_.
         bind (on_turn (on_node (\<lambda>n. n\<lparr>n_summary := Some (pulled_summary h), n_commit_after := h\<rparr>))) (\<lambda>_. ret (Done, None)))"
  have last: "wp (?last h olds news) ?Q ?E u"
    if "still c k n (os_run u)" "os_aliases u = os_aliases s" "oo_unpushed oo True = Inr olds" "oo_pull oo = Inr (h, None)"
      "oo_unpushed oo False = Inr news" for h olds news u
  proof (rule wp_bindI, rule wp_record_aliases [OF that(1)], rule wp_bindI, subst wp_on_turn, rule wp_still_node [where m = "worked oo p n"])
    fix v :: op_state assume v: "still c k n (os_run v)"
    then show "still c k n (os_run v)" .
    have a: "git_answer oo p n = Inr (Inr (h, pulled_summary h))" using that by (simp add: ans pull_answer_def)
    show "essence ((r_node (os_run v))\<lparr>n_summary := Some (pulled_summary h), n_commit_after := h\<rparr>) = essence (worked oo p n)"
      using v a by (simp add: still_def worked_def)
    fix t assume t: "still c k (worked oo p n) t" and al: "os_aliases v = (case (olds, news) of
        (Some xs, Some ys) \<Rightarrow> if length xs = length ys \<and> xs \<noteq> [] then dict_updates (os_aliases u) (dict_updates [] (zip xs ys)) else os_aliases u
      | _ \<Rightarrow> os_aliases u)"
    have "os_aliases v = op_aliases oo p n (os_aliases s)"
      using al that(2,3,5) a kind by (simp add: op_aliases_def split: option.split)
    then show "wp (ret (Done, None)) ?Q ?E (v\<lparr>os_run := t\<rparr>)"
      using t a by (simp add: pulled_def answered_op_def op_verdict_def)
  qed simp
  have mid: "wp (case x of (h, err) \<Rightarrow> (case err of
       Some m \<Rightarrow> ret (Error, Some (OpFailed m))
     | None \<Rightarrow> bind (on_turn (asking su (oo_unpushed oo False))) (\<lambda>news. ?last h olds news))) ?Q ?E u"
    if u: "still c k n (os_run u)" "os_aliases u = os_aliases s" and x: "oo_unpushed oo True = Inr olds" "oo_pull oo = Inr x" for x olds u
  proof -
    obtain h err where hx: "x = (h, err)" by (cases x)
    show ?thesis
    proof (cases err)
      case (Some m)
      have a: "git_answer oo p n = Inr (Inl m)" using x hx Some by (simp add: ans pull_answer_def)
      then show ?thesis using u by (simp add: hx Some pulled_def answered_op_def op_verdict_def worked_def op_aliases_other)
    next
      case None
      show ?thesis unfolding hx None prod.case option.case
      proof (rule wp_bindI, subst wp_on_turn, rule wp_asking [OF su u(1)])
        fix e t assume "oo_unpushed oo False = Inl e" "still c k n t"
        then show "?E e (u\<lparr>os_run := t\<rparr>)" using x hx None u(2) by (simp add: unpulled_def failed_op_def op_aliases_other ans pull_answer_def)
      next
        fix news t assume "oo_unpushed oo False = Inr news" "still c k n t"
        then show "wp (?last h olds news) ?Q ?E (u\<lparr>os_run := t\<rparr>)" using u(2) x hx None by (intro last) simp_all
      qed
    qed
  qed
  show ?thesis unfolding run_pull_def no_temporary_def if_not_P [OF False]
  proof (rule wp_bindI, subst wp_on_turn, subst wp_simps(1), rule wp_bindI, subst wp_on_turn, rule wp_asking [OF su])
    fix e u assume "oo_unpushed oo True = Inl e" "still c k n u"
    then show "?E e (s\<lparr>os_run := os_run s\<rparr>\<lparr>os_run := u\<rparr>)" by (simp add: unpulled_def failed_op_def op_aliases_other ans pull_answer_def)
  next
    fix olds u assume o: "oo_unpushed oo True = Inr olds" and u: "still c k n u"
    show "wp (bind (on_turn (asking su (oo_pull oo))) (\<lambda>(h, err). case err of
       Some m \<Rightarrow> ret (Error, Some (OpFailed m))
     | None \<Rightarrow> bind (on_turn (asking su (oo_unpushed oo False))) (\<lambda>news. ?last h olds news))) ?Q ?E (s\<lparr>os_run := os_run s\<rparr>\<lparr>os_run := u\<rparr>)"
    proof (rule wp_bindI, subst wp_on_turn, rule wp_asking [OF su])
      fix e t assume "oo_pull oo = Inl e" "still c k n t"
      then show "?E e (s\<lparr>os_run := os_run s\<rparr>\<lparr>os_run := u\<rparr>\<lparr>os_run := t\<rparr>)"
        using o by (simp add: unpulled_def failed_op_def op_aliases_other ans pull_answer_def)
    next
      fix x t assume "oo_pull oo = Inr x" "still c k n t"
      then show "wp (case x of (h, err) \<Rightarrow> (case err of
       Some m \<Rightarrow> ret (Error, Some (OpFailed m))
     | None \<Rightarrow> bind (on_turn (asking su (oo_unpushed oo False))) (\<lambda>news. ?last h olds news))) ?Q ?E
        (s\<lparr>os_run := os_run s\<rparr>\<lparr>os_run := u\<rparr>\<lparr>os_run := t\<rparr>)" by (intro mid o) simp_all
    qed (simp add: u)
  qed (simp add: r)
qed

lemma wp_op_work:
  assumes su: "quiet_outside su" and r: "still c k n (os_run s)" and b: "n_commit_before n = oo_before oo"
  shows "wp (op_work su oo p) (pulled oo p c k n (os_aliases s)) (unpulled oo p c k n (os_aliases s)) s"
proof -
  have kind: "n_op_kind (r_node (os_run s)) = n_op_kind n" by (rule essence_fields(1)) (use r in \<open>simp add: still_def\<close>)
  consider (Commit) "n_op_kind n = Some ''commit''" | (Pull) "n_op_kind n = Some ''pull''"
    | (Other) "n_op_kind n \<notin> {Some ''commit'', Some ''pull''}" by blast
  then show ?thesis
  proof cases
    case Commit
    have "wp (run_commit su oo p) (\<lambda>x t. pulled oo p c k n (os_aliases s) x (s\<lparr>os_run := t\<rparr>))
        (\<lambda>e t. unpulled oo p c k n (os_aliases s) e (s\<lparr>os_run := t\<rparr>)) (os_run s)"
      by (rule wp_mono [OF wp_run_commit [OF su r Commit b]]) (simp_all add: pulled_def unpulled_def op_aliases_other(3) Commit)
    then show ?thesis using Commit kind by (simp add: op_work_def)
  next
    case Pull
    then show ?thesis using wp_run_pull [OF su r Pull] kind by (simp add: op_work_def)
  next
    case Other
    then have "git_answer oo p n = Inr (Inl (''unknown op_kind: '' @ or_empty (n_op_kind n)))" by (simp add: git_answer_def)
    then show ?thesis using Other kind r
      by (simp add: op_work_def pulled_def answered_op_def op_verdict_def worked_def op_aliases_other(3))
  qed
qed

lemma still_begin:
  assumes "still c k n r" and "knows c k" and "\<And>u. still c k n u \<Longrightarrow> Q () u"
  shows "wp (begin_run su p) Q E r"
proof -
  have "wp (begin_run su p) (\<lambda>_ u. True) (\<lambda>_ u. False) r"
    by (rule wp_begin_run [where c = c and k = k]) (use assms in \<open>simp_all add: still_def\<close>)
  moreover have "still c k n (fst (begin_run su p r))" by (rule keepsD [OF still_frame(2) assms(1)])
  ultimately show ?thesis using assms(3) by (auto simp: wp_def split: prod.splits sum.splits)
qed

lemma still_end:
  assumes r: "still c k n r" and kn: "knows c k" and "ended s" and "\<And>u. still c k n u \<Longrightarrow> closed p True u \<Longrightarrow> n_state (r_node u) = s \<Longrightarrow> Q () u"
  shows "wp (finish_run su p s) Q E r"
proof -
  have a: "alive c k r" using r by (simp add: still_def)
  have "wp (finish_run su p s) (\<lambda>_ u. closed p True u \<and> n_state (r_node u) = s) (\<lambda>_ u. False) r"
    unfolding finish_run_def
  proof (rule wp_bindI, rule wp_transition [OF a kn, where p = p], rule wp_bindI)
    fix u assume u: "carried c k p r u" "stood s True u"
    then have au: "alive c k u" by (simp add: carried_def)
    show "wp (emit_node su p SentUpdated) (\<lambda>x. wp (emit_node su p SentDone) (\<lambda>_ u. closed p True u \<and> n_state (r_node u) = s) (\<lambda>_ u. False)) (\<lambda>_ u. False) u"
    proof (rule wp_emit_node [OF au, where p = p])
      fix v assume v: "carried c k p u v" "told u (SentUpdated (r_node u)) v"
      then have av: "alive c k v" by (simp add: carried_def)
      show "wp (emit_node su p SentDone) (\<lambda>_ u. closed p True u \<and> n_state (r_node u) = s) (\<lambda>_ u. False) v"
        by (rule wp_emit_node [OF av, where p = p]) (use u(2) v(2) assms(3) in \<open>auto simp: told_def stood_def closed_def Let_def\<close>)
    qed
  qed
  moreover have "still c k n (fst (finish_run su p s r))" by (rule keepsD [OF still_frame(3) r])
  ultimately show ?thesis using assms(4) by (auto simp: wp_def split: prod.splits sum.splits)
qed

definition op_left :: "outside \<Rightarrow> op_outside \<Rightarrow> project \<Rightarrow> node \<Rightarrow> run \<Rightarrow> bool" where
  "op_left su oo p n u \<longleftrightarrow> essence (r_node u) = essence (op_node su oo p n) \<and>
     n_state (r_node u) = fst (op_verdict (git_answer oo p (n\<lparr>n_commit_before := oo_before oo\<rparr>)))"

lemma wp_op_end_exact:
  assumes r: "still c k m r" and kn: "knows c k" and s: "ended (fst v)"
    and m': "m' = m\<lparr>n_error := (case snd v of None \<Rightarrow> n_error m | Some f \<Rightarrow> Some (su_wording su f)),
        n_commit_after := (if n_commit_after m = None then oo_after oo else n_commit_after m)\<rparr>"
    and q: "\<And>u. still c k m' u \<Longrightarrow> closed p True u \<Longrightarrow> n_state (r_node u) = fst v \<Longrightarrow> Q () u"
  shows "wp (op_end su oo p v) Q E r"
proof -
  obtain fin err where v: "v = (fin, err)" by (cases v)
  let ?m = "m\<lparr>n_error := (case err of None \<Rightarrow> n_error m | Some f \<Rightarrow> Some (su_wording su f))\<rparr>"
  have e: "essence (r_node r) = essence m" using r by (simp add: still_def)
  have after: "n_commit_after (r_node u) = n_commit_after m" if "still c k ?m u" for u
    using essence_fields(4) [of "r_node u" ?m] that by (simp add: still_def)
  have preview: "wp (persist_executed_preview p fin a b' d ar) (\<lambda>_ u. still c k m' u) (\<lambda>_ _. False) u"
    if "still c k m' u" for u a b' d ar
  proof -
    have "always_returns c k (persist_executed_preview p fin a b' d ar)" by (rule always_persist)
    then show ?thesis using keepsD [OF still_frame(4) that, of p fin a b' d ar] that
      by (auto simp: wp_def always_returns_def still_def split: prod.splits sum.splits)
  qed
  have er: "essence ((r_node r)\<lparr>n_error := (case err of None \<Rightarrow> n_error (r_node r) | Some f \<Rightarrow> Some (su_wording su f))\<rparr>) = essence ?m"
    unfolding essence_upd e essence_fields(5) [OF e] ..
  have tail: "wp (bind (bind (reading r_node) (\<lambda>n. persist_executed_preview p fin (ml n) (sm n) (im n) [])) (\<lambda>_. finish_run su p fin)) Q E t"
    if "still c k m' t" for t ml sm im
    unfolding wp_simps(3,6)
  proof (rule wp_mono [OF preview [OF that]], rule still_end [OF _ kn, where n = m' and p = p])
    show "ended fin" using s v by simp
  qed (use q v in auto)
  have head: "wp (on_node (\<lambda>n. if n_commit_after n = None then n\<lparr>n_commit_after := oo_after oo\<rparr> else n)) Q' E u"
    if u: "still c k ?m u" and q': "\<And>t. still c k m' t \<Longrightarrow> Q' () t" for u Q'
  proof (rule wp_still_node [OF u])
    show "Q' () t" if "still c k m' t" for t using that by (rule q')
    have eu: "essence (r_node u) = essence ?m" using u by (simp add: still_def)
    show "essence (if n_commit_after (r_node u) = None then (r_node u)\<lparr>n_commit_after := oo_after oo\<rparr> else r_node u) = essence m'"
    proof (cases "n_commit_after m = None")
      case True
      show ?thesis unfolding if_P [OF True] if_P [OF trans [OF after [OF u] True]] essence_upd eu m' v snd_conv ..
    next
      case False
      then have "n_commit_after (r_node u) \<noteq> None" using after [OF u] by simp
      then show ?thesis unfolding if_not_P [OF False] m' v snd_conv by (simp only: if_not_P eu n_after_self if_False)
    qed
  qed simp_all
  show ?thesis unfolding op_end_def v prod.case note_failure_def write_op_preview_def
    by (rule wp_bindI, rule wp_still_node, rule r, simp split: option.split, rule er, rule wp_bindI, rule head, assumption, rule tail)
qed


text \<open>A pull that rewrites one unpushed commit.\<close>

definition sample_git :: op_outside where
  "sample_git = \<lparr>oo_before = Some ''aaaa0000'', oo_after = Some ''bbbb1111'', oo_commit = (\<lambda>m. Inr (None, None)),
     oo_unpushed = (\<lambda>first. Inr (Some [if first then ''aaaa0000'' else ''bbbb1111''])),
     oo_pull = Inr (Some ''bbbb1111'', None), oo_implications = []\<rparr>"

definition pull_run :: run where
  "pull_run = sample_run\<lparr>r_node := (r_node sample_run)\<lparr>n_kind := Op, n_op_kind := Some ''pull''\<rparr>\<rparr>"

lemma sample_conditions:
  "quiet_outside quick_outside" "outputs_available quick_outside"
  "st_read_only (w_store (r_world sample_run)) = None" "st_read_only (w_store (r_world pull_run)) = None"
  "catalog_issue (w_store (r_world sample_run)) (n_model_preset_id (r_node sample_run)) = None"
  "catalog_issue (w_store (r_world pull_run)) (n_model_preset_id (r_node pull_run)) = None"
  by (simp add: quiet_outside_def quick_outside_def sample_outside_def,
      simp add: outputs_available_def quick_outside_def sample_outside_def, code_simp, code_simp, code_simp, code_simp)


section \<open>Every node settles\<close>


definition sample_surroundings :: surroundings where
  "sample_surroundings = \<lparr>sd_agent = quick_outside, sd_op = sample_git,
     sd_verify = \<lparr>vo_before = None, vo_after = None, vo_exists = (\<lambda>_. False), vo_script = (\<lambda>_. Inr []), vo_needs_local = (\<lambda>_. False),
       vo_start = (\<lambda>_. None), vo_end = (\<lambda>_. TimedOut [] [])\<rparr>,
     sd_review = \<lparr>ro_before = None, ro_after = None, ro_prepare = None,
       ro_tree = (\<lambda>_. Inr \<lparr>rs_head = None, rs_dirty = [], rs_patch = [], rs_digest = []\<rparr>), ro_patch_written = None, ro_supported = True,
       ro_report = (\<lambda>_. \<lparr>rp_markdown = [], rp_findings = None, rp_verdict = None, rp_explanation = None\<rparr>),
       ro_files_written = None, ro_stale = [], ro_focus = [], ro_clean = ''working tree clean''\<rparr>, sd_aliases = [], sd_workspace = None, sd_launch = None\<rparr>"


end
