(* ===== verification/Gates.thy ===== *)
theory Gates
  imports Run_Bounds
begin

text \<open>
  The inline gates of a runner: an agent's tool request waits for an answer from any of several channels.
  Gate objects and futures are shared by reference between the runner's two dictionaries and the
  coroutine that waits, so they are heaps indexed by the gate's id, and the dictionaries are lists of ids. One
  step is what runs between two awaits: opening a gate, an answer on the runner's own loop, an answer posted
  from another loop and its delivery, the waiting coroutine's resumption, its timeout, its cancellation, and
  the end of the node.
\<close>

section \<open>State\<close>

datatype future = Unresolved | Result json | Abandoned

record gate_request =
  gr_subtype :: gate_subtype
  gr_tool_name :: pystr
  gr_tool_input :: "(pystr, json) dict"
  gr_suggestions :: "json list"
  gr_hint :: "(pystr, json) dict"

text \<open>The framework's own texts: of a request that timed out and of an answer through a bridge.\<close>

record gate_texts =
  gt_timed_out :: "tool_request_settings \<Rightarrow> pystr"
  gt_feishu :: "pystr option \<Rightarrow> pystr"
  gt_wecom :: pystr

record answer =
  an_allow :: bool
  an_message :: pystr
  an_updated_input :: "json option"
  an_response :: "json option"
  an_scope :: "pystr option"
  an_interrupt :: bool
  an_permission_mode :: "pystr option"
  an_clear_context :: bool
  an_source :: pystr
  an_via :: "pystr option"

datatype notice = NoticeOpened pystr | NoticeAnswered pystr pystr | NoticeEnded pystr

record desk =
  dk_run :: run
  dk_gates :: "(pystr, human_gate) dict"
  dk_futures :: "(pystr, future) dict"
  dk_open :: "pystr list"
  dk_records :: "pystr list"
  dk_posted :: "(pystr \<times> json) list"
  dk_waiting :: "pystr list"
  dk_notices :: "notice list"

type_synonym 'a gate_prog = "(stop, desk, 'a) prog"

definition on_run :: "'a turn \<Rightarrow> 'a gate_prog" where
  "on_run m = zoom dk_run (\<lambda>r d. d\<lparr>dk_run := r\<rparr>) m"

definition notice :: "notice \<Rightarrow> unit gate_prog" where
  "notice n = writing (\<lambda>d. d\<lparr>dk_notices := dk_notices d @ [n]\<rparr>)"

definition set_future :: "pystr \<Rightarrow> future \<Rightarrow> desk \<Rightarrow> desk" where
  "set_future i f d = d\<lparr>dk_futures := AList.update i f (dk_futures d)\<rparr>"

definition set_gate :: "human_gate \<Rightarrow> desk \<Rightarrow> desk" where
  "set_gate g d = d\<lparr>dk_gates := AList.update (g_id g) g (dk_gates d)\<rparr>"

section \<open>Answers\<close>

definition opt_str :: "pystr option \<Rightarrow> json" where
  "opt_str x = (case x of None \<Rightarrow> JNull | Some s \<Rightarrow> JStr s)"

definition opt_json :: "json option \<Rightarrow> json" where
  "opt_json x = (case x of None \<Rightarrow> JNull | Some j \<Rightarrow> j)"

definition answer_json :: "answer \<Rightarrow> json" where
  "answer_json a = JObj [(''allow'', JBool (an_allow a)), (''message'', JStr (an_message a)),
     (''updated_input'', opt_json (an_updated_input a)), (''response'', opt_json (an_response a)),
     (''scope'', opt_str (an_scope a)), (''interrupt'', JBool (an_interrupt a)),
     (''permission_mode'', opt_str (an_permission_mode a)), (''clear_context'', JBool (an_clear_context a)),
     (''source'', JStr (an_source a)), (''via'', opt_str (an_via a))]"

definition plain_answer :: "bool \<Rightarrow> pystr \<Rightarrow> json" where
  "plain_answer allow message = JObj [(''allow'', JBool allow), (''message'', JStr message)]"

definition ended_answer :: json where
  "ended_answer = plain_answer False ''node ended''"

definition source_of :: "json \<Rightarrow> pystr" where
  "source_of response = (case response of JObj kvs \<Rightarrow> field_text kvs ''source'' | _ \<Rightarrow> [])"

definition via_of :: "json \<Rightarrow> pystr" where
  "via_of response = (case response of JObj kvs \<Rightarrow> field_text kvs ''via'' | _ \<Rightarrow> [])"

text \<open>\<open>self._gates.get(gate_id)\<close> with a pending future.\<close>

definition answerable :: "desk \<Rightarrow> pystr \<Rightarrow> bool" where
  "answerable d i = (i \<in> set (dk_open d) \<and> map_of (dk_futures d) i = Some Unresolved)"

text \<open>\<open>resolve_gate\<close> on the gate's own loop, and from another one, where the result is only posted.\<close>

definition resolve_gate :: "bool \<Rightarrow> pystr \<Rightarrow> answer \<Rightarrow> bool gate_prog" where
  "resolve_gate own_loop i a =
     bind (reading (\<lambda>d. answerable d i)) (\<lambda>able.
     if \<not> able then ret False
     else if own_loop then bind (writing (set_future i (Result (answer_json a)))) (\<lambda>_. ret True)
     else bind (writing (\<lambda>d. d\<lparr>dk_posted := dk_posted d @ [(i, answer_json a)]\<rparr>)) (\<lambda>_. ret True))"

definition set_if_pending :: "pystr \<Rightarrow> json \<Rightarrow> desk \<Rightarrow> desk" where
  "set_if_pending i j d = (if map_of (dk_futures d) i = Some Unresolved then set_future i (Result j) d else d)"

section \<open>The request\<close>

definition new_gate :: "node \<Rightarrow> int \<Rightarrow> pystr \<Rightarrow> gate_request \<Rightarrow> human_gate" where
  "new_gate n now i q = \<lparr>g_id = i, g_node_id = n_id n, g_subtype = gr_subtype q, g_tool_name = gr_tool_name q,
     g_tool_input = gr_tool_input q, g_suggestions = gr_suggestions q, g_state = Pending, g_response = None,
     g_created_at = now, g_resolved_at = None\<rparr>"

definition append_gate_record :: "project \<Rightarrow> human_gate \<Rightarrow> pystr \<Rightarrow> unit gate_prog" where
  "append_gate_record p g action = on_run (on_world (on_store (append_gate (p_id p) g action)))"

definition gate_subtype_value :: "gate_subtype \<Rightarrow> pystr" where
  "gate_subtype_value s = (case s of Permission \<Rightarrow> ''permission'' | AskUser \<Rightarrow> ''ask_user'')"

definition interaction_request :: "human_gate \<Rightarrow> (pystr, json) dict \<Rightarrow> json" where
  "interaction_request g hint = JObj [(''type'', JStr ''interaction_request''), (''id'', JStr (g_id g)),
     (''interaction_type'', JStr (gate_subtype_value (g_subtype g))),
     (''tool_name'', JStr (g_tool_name g)), (''tool_input'', JObj (g_tool_input g)),
     (''suggestions'', JList (g_suggestions g)), (''response_hint'', JObj hint)]"

definition response_hint :: "project \<Rightarrow> node \<Rightarrow> (pystr, json) dict \<Rightarrow> (pystr, json) dict" where
  "response_hint p n hint = (if p_persistence_mode p \<noteq> Remote then hint
     else dict_updates hint (map (\<lambda>(k, from). (k, opt_json (map_of (n_settings_snapshot n) from)))
       [(''execution_binding'', ''execution_binding''), (''environment_id'', ''observed_environment_id''),
        (''execution_role'', ''execution_role'')]))"

definition announce_gate :: "outside \<Rightarrow> project \<Rightarrow> human_gate \<Rightarrow> gate_request \<Rightarrow> unit gate_prog" where
  "announce_gate su p g q =
     bind (on_run (transition p Waiting False False)) (\<lambda>_.
     bind (on_run (emit_node su p SentUpdated)) (\<lambda>_.
     bind (reading (\<lambda>d. response_hint p (r_node (dk_run d)) (gr_hint q))) (\<lambda>hint.
     bind (on_run (emit su p (SentWire (OtherWire (interaction_request g hint))))) (\<lambda>_.
     notice (NoticeOpened (g_id g))))))"

definition open_gate :: "outside \<Rightarrow> project \<Rightarrow> pystr \<Rightarrow> gate_request \<Rightarrow> unit gate_prog" where
  "open_gate su p i q =
     bind (reading (\<lambda>d. new_gate (r_node (dk_run d)) (w_now (r_world (dk_run d))) i q)) (\<lambda>g.
     bind (append_gate_record p g ''created'') (\<lambda>_.
     bind (writing (\<lambda>d. (set_gate g (set_future i Unresolved d))\<lparr>
       dk_records := dk_records d @ [i], dk_open := dk_open d @ [i]\<rparr>)) (\<lambda>_.
     bind (announce_gate su p g q) (\<lambda>_.
     writing (\<lambda>d. d\<lparr>dk_waiting := dk_waiting d @ [i]\<rparr>)))))"

text \<open>\<open>finally\<close>, whatever ended the wait.\<close>

definition closing_notice :: "pystr \<Rightarrow> json option \<Rightarrow> notice" where
  "closing_notice i response = (case response of
     None \<Rightarrow> NoticeEnded i
   | Some j \<Rightarrow> if source_of j = [] then NoticeEnded i else NoticeAnswered i (source_of j))"

definition mark_resolved :: "int \<Rightarrow> human_gate \<Rightarrow> human_gate" where
  "mark_resolved now g = (if g_state g = Pending then g\<lparr>g_state := Resolved, g_resolved_at := Some now\<rparr> else g)"

definition on_gate :: "pystr \<Rightarrow> (human_gate \<Rightarrow> human_gate) \<Rightarrow> unit gate_prog" where
  "on_gate i f = writing (\<lambda>d. d\<lparr>dk_gates := AList.map_entry i f (dk_gates d)\<rparr>)"

definition end_wait :: "outside \<Rightarrow> project \<Rightarrow> pystr \<Rightarrow> json option \<Rightarrow> unit gate_prog" where
  "end_wait su p i response =
     bind (writing (\<lambda>d. d\<lparr>dk_open := remove1 i (dk_open d), dk_waiting := remove1 i (dk_waiting d)\<rparr>)) (\<lambda>_.
     bind (notice (closing_notice i response)) (\<lambda>_.
     bind (reading (\<lambda>d. w_now (r_world (dk_run d)))) (\<lambda>now.
     bind (on_gate i (mark_resolved now)) (\<lambda>_.
     bind (on_run (transition p Running False False)) (\<lambda>_.
     on_run (emit_node su p SentUpdated))))))"

text \<open>\<open>via\<close> is a string in what the bridges send.\<close>

definition answer_activity :: "gate_texts \<Rightarrow> pystr \<Rightarrow> json \<Rightarrow> activity" where
  "answer_activity tx i response = (let source = source_of response in
     \<lparr>act_kind = ''tool'', act_status = ''finish'', act_id = source @ ''-answer:'' @ i, act_name = source,
      act_summary = (if source = ''feishu''
        then gt_feishu tx (case via_of response of [] \<Rightarrow> None | v \<Rightarrow> Some v) else gt_wecom tx),
      act_parameters = None, act_command = None, act_result = None, act_payload = None\<rparr>)"

definition tell_answered :: "gate_texts \<Rightarrow> outside \<Rightarrow> project \<Rightarrow> pystr \<Rightarrow> json \<Rightarrow> unit gate_prog" where
  "tell_answered tx su p i response =
     (if source_of response \<in> {''feishu'', ''wecom''}
      then on_run (emit su p (SentWire (ActivityEvent (answer_activity tx i response)))) else ret ())"

definition resume_gate :: "gate_texts \<Rightarrow> outside \<Rightarrow> project \<Rightarrow> pystr \<Rightarrow> json \<Rightarrow> json gate_prog" where
  "resume_gate tx su p i response =
     bind (end_wait su p i (Some response)) (\<lambda>_.
     bind (on_gate i (\<lambda>g. g\<lparr>g_response := Some response\<rparr>)) (\<lambda>_.
     bind (reading (\<lambda>d. map_of (dk_gates d) i)) (\<lambda>g.
     bind (case g of None \<Rightarrow> ret () | Some g \<Rightarrow> append_gate_record p g ''resolved'') (\<lambda>_.
     bind (writing (\<lambda>d. d\<lparr>dk_records := remove1 i (dk_records d)\<rparr>)) (\<lambda>_.
     bind (tell_answered tx su p i response) (\<lambda>_. ret response))))))"

text \<open>\<open>settings\<close> is what the wait read of the configuration when it began.\<close>

definition timeout_answer :: "gate_texts \<Rightarrow> tool_request_settings \<Rightarrow> json" where
  "timeout_answer tx settings = plain_answer (timeout_action settings = Accept) (gt_timed_out tx settings)"

text \<open>\<open>asyncio.wait_for\<close> cancels the future of a request that timed out; a cancelled task does so too.\<close>

definition abandon :: "pystr \<Rightarrow> desk \<Rightarrow> desk" where
  "abandon i d = (if map_of (dk_futures d) i = Some Unresolved then set_future i Abandoned d else d)"

definition time_out_gate :: "gate_texts \<Rightarrow> outside \<Rightarrow> project \<Rightarrow> tool_request_settings \<Rightarrow> pystr \<Rightarrow> json gate_prog" where
  "time_out_gate tx su p settings i =
     bind (writing (abandon i)) (\<lambda>_. resume_gate tx su p i (timeout_answer tx settings))"

definition cancel_gate :: "outside \<Rightarrow> project \<Rightarrow> pystr \<Rightarrow> json gate_prog" where
  "cancel_gate su p i =
     bind (writing (abandon i)) (\<lambda>_. bind (end_wait su p i None) (\<lambda>_. raise Cancel))"

section \<open>The end of the node\<close>

definition close_gate :: "project \<Rightarrow> pystr \<Rightarrow> unit gate_prog" where
  "close_gate p i =
     bind (reading (\<lambda>d. (map_of (dk_futures d) i, map_of (dk_gates d) i, i \<in> set (dk_records d), w_now (r_world (dk_run d))))) (\<lambda>(f, g, kept, now).
     if f \<noteq> Some Unresolved then ret ()
     else bind (writing (set_future i (Result ended_answer))) (\<lambda>_.
       case g of
         None \<Rightarrow> ret ()
       | Some g \<Rightarrow>
           if kept \<and> g_state g = Pending
           then bind (on_gate i (\<lambda>g. (mark_resolved now g)\<lparr>g_response := Some ended_answer\<rparr>)) (\<lambda>_.
             append_gate_record p ((mark_resolved now g)\<lparr>g_response := Some ended_answer\<rparr>) ''resolved'')
           else ret ()))"

definition resolve_open_gates :: "project \<Rightarrow> unit gate_prog" where
  "resolve_open_gates p =
     bind (reading dk_open) (\<lambda>ids.
     bind (for_each ids (close_gate p)) (\<lambda>_.
     writing (\<lambda>d. d\<lparr>dk_open := [], dk_records := []\<rparr>)))"

section \<open>What a waiting node asks\<close>

fun words_from :: "pystr \<Rightarrow> pystr \<Rightarrow> pystr list" where
  "words_from w [] = (if w = [] then [] else [rev w])"
| "words_from w (c # s) = (if py_space c then (if w = [] then words_from [] s else rev w # words_from [] s) else words_from (c # w) s)"

text \<open>\<open>_clip\<close>: the text and whether an ellipsis follows it.\<close>

definition gate_summary_max_chars :: nat where
  "gate_summary_max_chars = 80"

definition clip :: "pystr \<Rightarrow> pystr \<times> bool" where
  "clip s = (let t = join_with '' '' (words_from [] s) in
     if length t \<le> gate_summary_max_chars then (t, False) else (take (gate_summary_max_chars - 1) t, True))"

datatype gate_text = Clipped pystr bool | AwaitingAnswer | AwaitingConfirmation

fun first_question :: "json list \<Rightarrow> pystr option" where
  "first_question [] = None"
| "first_question (JObj item # js) =
     (case first_truthy [map_of item ''question'', map_of item ''header''] of
        JStr s \<Rightarrow> if blank s then first_question js else Some s
      | _ \<Rightarrow> first_question js)"
| "first_question (j # js) = first_question js"

fun first_field :: "(pystr, json) dict \<Rightarrow> pystr list \<Rightarrow> pystr option" where
  "first_field d [] = None"
| "first_field d (k # ks) = (case map_of d k of
     Some (JStr s) \<Rightarrow> if blank s then first_field d ks else Some s
   | _ \<Rightarrow> first_field d ks)"

definition gate_summary_text :: "human_gate \<Rightarrow> gate_text" where
  "gate_summary_text g =
     (if g_subtype g = AskUser
      then (case (case map_of (g_tool_input g) ''questions'' of Some (JList js) \<Rightarrow> first_question js | _ \<Rightarrow> None) of
          Some s \<Rightarrow> (case clip s of (t, b) \<Rightarrow> Clipped t b) | None \<Rightarrow> AwaitingAnswer)
      else (case first_field (g_tool_input g) [''command'', ''file_path'', ''path'', ''url'', ''pattern''] of
          Some s \<Rightarrow> (case clip s of (t, b) \<Rightarrow> Clipped t b)
        | None \<Rightarrow> if g_tool_name g = [] then AwaitingConfirmation else Clipped (g_tool_name g) False))"

fun latest_gate :: "human_gate list \<Rightarrow> human_gate option" where
  "latest_gate [] = None"
| "latest_gate (g # gs) = (case latest_gate gs of
     None \<Rightarrow> Some g | Some h \<Rightarrow> if g_created_at h > g_created_at g then Some h else Some g)"

definition current_gate_summary :: "desk \<Rightarrow> (pystr \<times> gate_subtype \<times> pystr \<times> gate_text) option" where
  "current_gate_summary d =
     (let pending = filter (\<lambda>g. g_state g = Pending \<and> g_id g \<in> set (dk_open d))
        (List.map_filter (map_of (dk_gates d)) (dk_records d)) in
      map_option (\<lambda>g. (g_id g, g_subtype g, g_tool_name g, gate_summary_text g)) (latest_gate pending))"

section \<open>Steps\<close>

text \<open>
  What runs between two awaits of the runner. Results posted from other loops are delivered in order. A
  request that timed out may already hold an answer that its coroutine has not seen, and so may a cancelled
  one: \<open>asyncio\<close> lets the timeout and the cancellation win.
\<close>

datatype gate_event =
    Opened pystr bool
  | Replied pystr json bool
  | Posted pystr bool
  | Delivered pystr json
  | Woken pystr json
  | Expired pystr
  | Interrupted pystr
  | NodeEnded "pystr list"

definition settled_by :: "desk \<Rightarrow> desk \<Rightarrow> pystr list" where
  "settled_by d d' = filter (\<lambda>i. map_of (dk_futures d) i = Some Unresolved \<and> map_of (dk_futures d') i \<noteq> Some Unresolved)
     (dk_open d)"

definition times_out :: "desk \<Rightarrow> pystr \<Rightarrow> bool" where
  "times_out d i = (case map_of (dk_gates d) i of None \<Rightarrow> False | Some g \<Rightarrow> g_subtype g \<noteq> AskUser)"

inductive desk_step :: "gate_texts \<Rightarrow> outside \<Rightarrow> project \<Rightarrow> desk \<Rightarrow> gate_event \<Rightarrow> desk \<Rightarrow> bool"
  for tx su p where
  Open: "map_of (dk_futures d) i = None \<Longrightarrow> open_gate su p i q d = (d', res) \<Longrightarrow>
    desk_step tx su p d (Opened i (res = Inr ())) d'"
| Reply: "resolve_gate True i a d = (d', Inr b) \<Longrightarrow> desk_step tx su p d (Replied i (answer_json a) b) d'"
| Post: "resolve_gate False i a d = (d', Inr b) \<Longrightarrow> desk_step tx su p d (Posted i b) d'"
| Deliver: "dk_posted d = (i, j) # later \<Longrightarrow>
    desk_step tx su p d (Delivered i j) (set_if_pending i j (d\<lparr>dk_posted := later\<rparr>))"
| Wake: "i \<in> set (dk_waiting d) \<Longrightarrow> map_of (dk_futures d) i = Some (Result j) \<Longrightarrow>
    resume_gate tx su p i j d = (d', res) \<Longrightarrow> desk_step tx su p d (Woken i j) d'"
| Expire: "i \<in> set (dk_waiting d) \<Longrightarrow> times_out d i \<Longrightarrow> time_out_gate tx su p settings i d = (d', res) \<Longrightarrow>
    desk_step tx su p d (Expired i) d'"
| Interrupt: "i \<in> set (dk_waiting d) \<Longrightarrow> cancel_gate su p i d = (d', res) \<Longrightarrow> desk_step tx su p d (Interrupted i) d'"
| End: "resolve_open_gates p d = (d', res) \<Longrightarrow> desk_step tx su p d (NodeEnded (settled_by d d')) d'"

inductive desk_run :: "gate_texts \<Rightarrow> outside \<Rightarrow> project \<Rightarrow> desk \<Rightarrow> gate_event list \<Rightarrow> desk \<Rightarrow> bool"
  for tx su p where
  Stay: "desk_run tx su p d [] d"
| Go: "desk_run tx su p d es u \<Longrightarrow> desk_step tx su p u e d' \<Longrightarrow> desk_run tx su p d (es @ [e]) d'"

section \<open>What a gate promises\<close>

text \<open>
  A gate by itself: it opens, the first answer settles it, its request gets that answer, and it is over. A
  request that timed out or was cancelled is over too.
\<close>

datatype gate_status = Shut | Pending_Answer | Settled json

definition status_in :: "(pystr \<Rightarrow> future option) \<Rightarrow> pystr list \<Rightarrow> pystr \<Rightarrow> gate_status" where
  "status_in f w i = (if i \<notin> set w then Shut
     else case f i of Some (Result j) \<Rightarrow> Settled j | _ \<Rightarrow> Pending_Answer)"

definition status :: "desk \<Rightarrow> pystr \<Rightarrow> gate_status" where
  "status d i = status_in (map_of (dk_futures d)) (dk_waiting d) i"

fun react :: "pystr \<Rightarrow> gate_event \<Rightarrow> gate_status \<Rightarrow> gate_status" where
  "react i (Opened k ok) s = (if k = i \<and> ok then Pending_Answer else s)"
| "react i (Replied k j ok) s = (if k = i \<and> ok \<and> s = Pending_Answer then Settled j else s)"
| "react i (Posted k ok) s = s"
| "react i (Delivered k j) s = (if k = i \<and> s = Pending_Answer then Settled j else s)"
| "react i (Woken k j) s = (if k = i then Shut else s)"
| "react i (Expired k) s = (if k = i then Shut else s)"
| "react i (Interrupted k) s = (if k = i then Shut else s)"
| "react i (NodeEnded ks) s = (if i \<in> set ks \<and> s = Pending_Answer then Settled ended_answer else s)"

fun allowed :: "pystr \<Rightarrow> gate_event \<Rightarrow> gate_status \<Rightarrow> bool" where
  "allowed i (Opened k ok) s = (k = i \<longrightarrow> s = Shut)"
| "allowed i (Replied k j ok) s = (k = i \<longrightarrow> s \<noteq> Shut \<longrightarrow> ok = (s = Pending_Answer))"
| "allowed i (Posted k ok) s = (k = i \<longrightarrow> s \<noteq> Shut \<longrightarrow> ok = (s = Pending_Answer))"
| "allowed i (Delivered k j) s = True"
| "allowed i (Woken k j) s = (k = i \<longrightarrow> s = Settled j)"
| "allowed i (Expired k) s = (k = i \<longrightarrow> s \<noteq> Shut)"
| "allowed i (Interrupted k) s = (k = i \<longrightarrow> s \<noteq> Shut)"
| "allowed i (NodeEnded ks) s = True"

fun gate_run :: "pystr \<Rightarrow> gate_event list \<Rightarrow> gate_status \<Rightarrow> gate_status option" where
  "gate_run i [] s = Some s"
| "gate_run i (e # es) s = (if allowed i e s then gate_run i es (react i e s) else None)"

definition opens :: "pystr \<Rightarrow> gate_event \<Rightarrow> bool" where
  "opens i e = (case e of Opened k ok \<Rightarrow> k = i \<and> ok | _ \<Rightarrow> False)"

definition wakes :: "pystr \<Rightarrow> gate_event \<Rightarrow> bool" where
  "wakes i e = (case e of Woken k j \<Rightarrow> k = i | _ \<Rightarrow> False)"

text \<open>The view of the desk that decides all this.\<close>

definition view :: "desk \<Rightarrow> (pystr, future) dict \<times> pystr list \<times> pystr list \<times> (pystr \<times> json) list" where
  "view d = (dk_futures d, dk_open d, dk_waiting d, dk_posted d)"

definition orderly :: "(pystr \<Rightarrow> future option) \<Rightarrow> pystr list \<Rightarrow> pystr list \<Rightarrow> bool" where
  "orderly f q w \<longleftrightarrow> distinct q \<and> distinct w \<and> (\<forall>i \<in> set w. f i \<noteq> None \<and> f i \<noteq> Some Abandoned) \<and>
     (\<forall>i \<in> set q. f i \<noteq> None) \<and> (\<forall>i. f i = Some Unresolved \<longrightarrow> i \<in> set q)"

definition desk_ok :: "desk \<Rightarrow> bool" where
  "desk_ok d \<longleftrightarrow> orderly (map_of (dk_futures d)) (dk_open d) (dk_waiting d)"

section \<open>Steps keep the desk in order\<close>

lemma wp_on_run [simp]:
  "wp (on_run m) Q E d = wp m (\<lambda>x r. Q x (d\<lparr>dk_run := r\<rparr>)) (\<lambda>e r. E e (d\<lparr>dk_run := r\<rparr>)) (dk_run d)"
  by (simp add: on_run_def)

lemma wp_quiet:
  assumes "\<And>s. view (fst (m s)) = view s" and "\<And>x t. view t = view d \<Longrightarrow> Q x t" and "\<And>e t. view t = view d \<Longrightarrow> E e t"
  shows "wp m Q E d"
  using assms(1) [of d] by (intro wpI) (auto intro: assms(2,3))

definition quiet :: "'a gate_prog \<Rightarrow> bool" where
  "quiet m \<longleftrightarrow> (\<forall>s. view (fst (m s)) = view s)"

lemma quiet_on_run [simp]: "quiet (on_run m)"
  by (simp add: quiet_def on_run_def zoom_def view_def split: prod.split)

lemma quiet_basic [simp]: "quiet (notice n)" "quiet (on_gate i f)" "quiet (append_gate_record p g a)" "quiet (ret x)"
  "quiet (raise e)" "quiet (reading h)"
  by (simp_all add: quiet_def notice_def on_gate_def append_gate_record_def view_def on_run_def zoom_def split: prod.split)

lemma quiet_tell [simp]: "quiet (tell_answered tx su p i j)"
  by (simp add: tell_answered_def)

lemma wp_quietI:
  "quiet m \<Longrightarrow> (\<And>x t. view t = view d \<Longrightarrow> Q x t) \<Longrightarrow> (\<And>e t. view t = view d \<Longrightarrow> E e t) \<Longrightarrow> wp m Q E d"
  by (rule wp_quiet) (auto simp: quiet_def)


lemma quiet_bind [simp]: "quiet m \<Longrightarrow> (\<And>x. quiet (f x)) \<Longrightarrow> quiet (bind m f)"
  by (simp add: quiet_def bind_def split: prod.splits sum.splits) (metis fst_conv)

lemma quiet_announce [simp]: "quiet (announce_gate su p g q)"
  by (simp add: announce_gate_def)

lemma view_open_gate:
  assumes "open_gate su p i q d = (d', res)"
  shows "view d' = view d \<and> res \<noteq> Inr () \<or>
    view d' = (AList.update i Unresolved (dk_futures d), dk_open d @ [i],
      if res = Inr () then dk_waiting d @ [i] else dk_waiting d, dk_posted d)"
proof -
  let ?u = "\<lambda>d'. view d' = (AList.update i Unresolved (dk_futures d), dk_open d @ [i], dk_waiting d, dk_posted d)"
  let ?v = "\<lambda>d'. view d' = (AList.update i Unresolved (dk_futures d), dk_open d @ [i], dk_waiting d @ [i], dk_posted d)"
  have t: "wp (announce_gate su p g q) (\<lambda>_. wp (writing (\<lambda>d. d\<lparr>dk_waiting := dk_waiting d @ [i]\<rparr>)) (\<lambda>_. ?v) E) (\<lambda>_ u. view u = view d \<or> ?u u) s"
    if "?u s" for g s E
    by (rule wp_quietI) (use that in \<open>auto simp: view_def\<close>)
  have "wp (open_gate su p i q) (\<lambda>_. ?v) (\<lambda>_ u. view u = view d \<or> ?u u) d"
    unfolding open_gate_def wp_simps(3,4,6)
    by (rule wp_quietI [OF quiet_basic(3)])
      (rule t [unfolded wp_simps], simp_all add: view_def set_gate_def set_future_def)
  then show ?thesis using assms by (auto simp: wp_def split: sum.splits)
qed

lemma view_fst: "quiet m \<Longrightarrow> m s = (t, r) \<Longrightarrow> view t = view s"
  by (metis quiet_def fst_conv)

text \<open>One change of the desk, and only quiet steps after it.\<close>

lemma view_changed:
  "bind (writing f) k d = (d', res) \<Longrightarrow> quiet (k ()) \<Longrightarrow> view d' = view (f d)"
  by (auto simp: bind_def dest: view_fst)

lemma view_end_wait:
  assumes "end_wait su p i x d = (d', res)"
  shows "view d' = (dk_futures d, remove1 i (dk_open d), remove1 i (dk_waiting d), dk_posted d)"
  using view_changed [OF assms [unfolded end_wait_def]] by (simp add: view_def)

lemma then_quiet:
  assumes "bind m f s = (t, r)" and "\<And>x. quiet (f x)"
  shows "\<exists>u r'. m s = (u, r') \<and> view t = view u"
proof (cases "m s")
  case (Pair u r')
  then show ?thesis using assms by (cases r') (auto simp: bind_def quiet_def, metis fst_conv)
qed

lemma quiet_forget [simp]: "quiet (writing (\<lambda>d. d\<lparr>dk_records := remove1 i (dk_records d)\<rparr>))"
  by (simp add: quiet_def view_def)

lemma view_resume_gate:
  assumes "resume_gate tx su p i j d = (d', res)"
  shows "view d' = (dk_futures d, remove1 i (dk_open d), remove1 i (dk_waiting d), dk_posted d)"
proof -
  have "\<exists>u r'. end_wait su p i (Some j) d = (u, r') \<and> view d' = view u"
    by (rule then_quiet [OF assms [unfolded resume_gate_def]]) (simp split: option.split)
  then show ?thesis using view_end_wait by metis
qed

lemma view_abandon: "view (abandon i d) = (if map_of (dk_futures d) i = Some Unresolved
    then (AList.update i Abandoned (dk_futures d), dk_open d, dk_waiting d, dk_posted d) else view d)"
  by (simp add: abandon_def set_future_def view_def)

definition over :: "pystr \<Rightarrow> desk \<Rightarrow> desk \<Rightarrow> bool" where
  "over i d d' \<longleftrightarrow> map_of (dk_futures d') = (if map_of (dk_futures d) i = Some Unresolved
       then (map_of (dk_futures d))(i \<mapsto> Abandoned) else map_of (dk_futures d)) \<and>
     dk_open d' = remove1 i (dk_open d) \<and> dk_waiting d' = remove1 i (dk_waiting d)"

lemma view_dest: "view d' = (f, q, w, ps) \<Longrightarrow> dk_futures d' = f \<and> dk_open d' = q \<and> dk_waiting d' = w \<and> dk_posted d' = ps"
  by (simp add: view_def)

lemma abandon_desk [simp]: "dk_open (abandon i d) = dk_open d" "dk_waiting (abandon i d) = dk_waiting d"
  "map_of (dk_futures (abandon i d)) = (if map_of (dk_futures d) i = Some Unresolved
     then (map_of (dk_futures d))(i \<mapsto> Abandoned) else map_of (dk_futures d))"
  by (simp_all add: abandon_def set_future_def)

lemma time_out_over: "time_out_gate tx su p settings i d = (d', res) \<Longrightarrow> over i d d'"
  unfolding time_out_gate_def
  by (auto simp: bind_def over_def dest!: view_resume_gate view_dest)

lemma cancel_over: "cancel_gate su p i d = (d', res) \<Longrightarrow> over i d d'"
  unfolding cancel_gate_def
  by (auto simp: bind_def over_def split: prod.splits sum.splits dest!: view_end_wait view_dest)

text \<open>The end of the node settles every pending gate that it reaches.\<close>

definition closes :: "pystr list \<Rightarrow> desk \<Rightarrow> desk \<Rightarrow> bool" where
  "closes ids d d' \<longleftrightarrow> dk_open d' = dk_open d \<and> dk_waiting d' = dk_waiting d \<and>
     (\<forall>i. map_of (dk_futures d') i = map_of (dk_futures d) i \<or> i \<in> set ids \<and>
        map_of (dk_futures d) i = Some Unresolved \<and> map_of (dk_futures d') i = Some (Result ended_answer))"

lemma closes_trans: "closes ids d u \<Longrightarrow> closes is u v \<Longrightarrow> set ids \<union> set is \<subseteq> set js \<Longrightarrow> closes js d v"
  unfolding closes_def by (intro conjI allI) (simp, simp, metis Un_iff subsetD)

lemma close_gate_closes:
  assumes "close_gate p i d = (d', r)"
  shows "closes [i] d d' \<and> map_of (dk_futures d') i \<noteq> Some Unresolved"
proof (cases "map_of (dk_futures d) i = Some Unresolved")
  case True
  let ?k = "map_of (dk_gates d) i" and ?b = "i \<in> set (dk_records d)" and ?t = "w_now (r_world (dk_run d))"
  have "view d' = view (set_future i (Result ended_answer) d)"
    by (rule view_changed [of _ "\<lambda>_. case ?k of None \<Rightarrow> ret ()
       | Some g \<Rightarrow> if ?b \<and> g_state g = Pending
           then bind (on_gate i (\<lambda>g. (mark_resolved ?t g)\<lparr>g_response := Some ended_answer\<rparr>)) (\<lambda>_.
             append_gate_record p ((mark_resolved ?t g)\<lparr>g_response := Some ended_answer\<rparr>) ''resolved'')
           else ret ()"])
      (use assms True in \<open>simp_all add: close_gate_def bind_apply split: option.split\<close>)
  then show ?thesis using True by (auto simp: closes_def view_def set_future_def)
next
  case False
  then show ?thesis using assms by (auto simp: close_gate_def bind_apply closes_def)
qed

lemma close_gates:
  "for_each ids (close_gate p) d = (d', r) \<Longrightarrow>
     closes ids d d' \<and> (r = Inr () \<longrightarrow> (\<forall>i \<in> set ids. map_of (dk_futures d') i \<noteq> Some Unresolved))"
proof (induction ids arbitrary: d)
  case Nil
  then show ?case by (simp add: closes_def)
next
  case (Cons i ids)
  obtain u x where u: "close_gate p i d = (u, x)" by fastforce
  have c: "closes [i] d u" "map_of (dk_futures u) i \<noteq> Some Unresolved" using close_gate_closes [OF u] by simp_all
  show ?case
  proof (cases x)
    case (Inl e)
    then show ?thesis using Cons.prems u c(1) closes_trans [OF c(1), of "[]" u "i # ids"]
      by (auto simp: bind_def closes_def)
  next
    case (Inr y)
    then have *: "for_each ids (close_gate p) u = (d', r)" using Cons.prems u by (simp add: bind_def)
    from Cons.IH [OF this] have "closes ids u d'" "r = Inr () \<Longrightarrow> \<forall>k \<in> set ids. map_of (dk_futures d') k \<noteq> Some Unresolved"
      by simp_all
    moreover from this(1) c(2) have "map_of (dk_futures d') i \<noteq> Some Unresolved" by (metis closes_def future.distinct(1) option.inject)
    moreover have "closes (i # ids) d d'" by (rule closes_trans [OF c(1) calculation(1)]) auto
    ultimately show ?thesis by simp
  qed
qed

lemma resolve_open_gates_effect:
  assumes "resolve_open_gates p d = (d', r)"
  shows "\<exists>u. closes (dk_open d) d u \<and> dk_futures d' = dk_futures u \<and> dk_waiting d' = dk_waiting u \<and>
    (dk_open d' = dk_open u \<or> dk_open d' = [] \<and> (\<forall>i \<in> set (dk_open d). map_of (dk_futures u) i \<noteq> Some Unresolved))"
proof -
  obtain u x where u: "for_each (dk_open d) (close_gate p) d = (u, x)" by fastforce
  then show ?thesis using assms close_gates [OF u]
    by (intro exI [of _ u]) (cases x; auto simp: resolve_open_gates_def bind_def)
qed

section \<open>Every step is a step of each gate\<close>

definition follows :: "gate_event \<Rightarrow> desk \<Rightarrow> desk \<Rightarrow> bool" where
  "follows e d d' \<longleftrightarrow> desk_ok d' \<and> (\<forall>i. allowed i e (status d i) \<and> status d' i = react i e (status d i))"

lemma followsI:
  assumes "desk_ok d'" "allowed i e (status d i)" "status d' i = react i e (status d i)"
    and "\<And>k. k \<noteq> i \<Longrightarrow> status d' k = status d k" "\<And>k s. k \<noteq> i \<Longrightarrow> allowed k e s \<and> react k e s = s"
  shows "follows e d d'"
  unfolding follows_def
proof (intro conjI allI assms(1))
  fix k
  show "allowed k e (status d k)" "status d' k = react k e (status d k)"
    using assms(2-5) by (cases "k = i"; simp)+
qed

lemma orderly_open:
  assumes "orderly f q w" "f i = None"
  shows "orderly (f(i \<mapsto> Unresolved)) (q @ [i]) w" "orderly (f(i \<mapsto> Unresolved)) (q @ [i]) (w @ [i])" "i \<notin> set w"
proof -
  have n: "i \<notin> set w" "i \<notin> set q" using assms by (auto simp: orderly_def)
  then show "orderly (f(i \<mapsto> Unresolved)) (q @ [i]) w" "orderly (f(i \<mapsto> Unresolved)) (q @ [i]) (w @ [i])" "i \<notin> set w"
    using assms(1) by (simp_all add: orderly_def)
qed

lemma orderly_settle: "orderly f q w \<Longrightarrow> f i = Some Unresolved \<Longrightarrow> orderly (f(i \<mapsto> Result j)) q w"
  by (simp add: orderly_def)

lemma orderly_over:
  assumes "orderly f q w"
  shows "orderly (if f i = Some Unresolved then f(i \<mapsto> Abandoned) else f) (remove1 i q) (remove1 i w)"
proof -
  have d: "distinct q" "distinct w" using assms by (simp_all add: orderly_def)
  then have s: "set (remove1 i q) = set q - {i}" "set (remove1 i w) = set w - {i}" by simp_all
  show ?thesis using assms d unfolding orderly_def s by auto
qed

lemma status_in_simps:
  "status_in f (remove1 i w) k = (if k = i \<and> distinct w then Shut else if k = i then status_in f (remove1 i w) i else status_in f w k)"
  "k \<noteq> i \<Longrightarrow> status_in (f(i \<mapsto> x)) w k = status_in f w k"
  "k \<noteq> i \<Longrightarrow> status_in f (w @ [i]) k = status_in f w k"
  by (auto simp: status_in_def)

lemma pending_unresolved:
  assumes "orderly f q w"
  shows "status_in f w i = Pending_Answer \<longleftrightarrow> i \<in> set w \<and> f i = Some Unresolved"
proof (cases "f i")
  case None
  then show ?thesis using assms by (auto simp: orderly_def status_in_def)
next
  case (Some x)
  then show ?thesis using assms by (cases x) (auto simp: orderly_def status_in_def)
qed

lemma shut_iff: "status_in f w i = Shut \<longleftrightarrow> i \<notin> set w"
  by (auto simp: status_in_def split: option.splits future.splits)

lemma follows_over:
  assumes "desk_ok d" "over i d d'" "i \<in> set (dk_waiting d)" and "e = Expired i \<or> e = Interrupted i"
  shows "follows e d d'"
proof -
  let ?f = "map_of (dk_futures d)"
  have o: "orderly ?f (dk_open d) (dk_waiting d)" and w: "distinct (dk_waiting d)"
    using assms(1) by (simp_all add: desk_ok_def orderly_def)
  have ok: "desk_ok d'" using orderly_over [OF o, of i] assms(2) by (simp add: desk_ok_def over_def)
  have "status d' k = (if k = i then Shut else status d k)" for k
    using assms(2) w by (simp add: status_def over_def status_in_simps)
  moreover have "status d i \<noteq> Shut" using assms(3) by (simp add: status_def shut_iff)
  ultimately show ?thesis using ok assms(4) by (auto simp: follows_def)
qed

lemma follows_same:
  assumes "desk_ok d" and "dk_futures d' = dk_futures d" "dk_open d' = dk_open d" "dk_waiting d' = dk_waiting d"
    and "\<And>i. allowed i e (status d i)" and "\<And>i. react i e (status d i) = status d i"
  shows "follows e d d'"
  using assms by (simp add: follows_def desk_ok_def status_def)

lemma follows_open:
  assumes "desk_ok d" "map_of (dk_futures d) i = None" "open_gate su p i q d = (d', res)"
  shows "follows (Opened i (res = Inr ())) d d'"
proof -
  let ?f = "map_of (dk_futures d)"
  have o: "orderly ?f (dk_open d) (dk_waiting d)" using assms(1) by (simp add: desk_ok_def)
  have shut: "i \<notin> set (dk_waiting d)" "status d i = Shut" using orderly_open(3) [OF o assms(2)] by (simp_all add: status_def shut_iff)
  from view_open_gate [OF assms(3)] consider
      (none) "view d' = view d" "res \<noteq> Inr ()"
    | (some) "map_of (dk_futures d') = ?f(i \<mapsto> Unresolved)" "dk_open d' = dk_open d @ [i]"
        "dk_waiting d' = (if res = Inr () then dk_waiting d @ [i] else dk_waiting d)"
    by (auto dest!: view_dest)
  then show ?thesis
  proof cases
    case none
    then show ?thesis using shut by (intro follows_same assms(1)) (auto simp: view_def)
  next
    case some
    have "desk_ok d'" using orderly_open [OF o assms(2)] some by (simp add: desk_ok_def)
    moreover have "status d' i = (if res = Inr () then Pending_Answer else Shut)"
      using some shut(1) by (simp add: status_def status_in_def)
    moreover have "status d' k = status d k" if "k \<noteq> i" for k
      using some that by (simp add: status_def status_in_simps)
    ultimately show ?thesis using shut(2) by (intro followsI [where i = i]) auto
  qed
qed

lemma follows_settle:
  assumes "desk_ok d" and u: "map_of (dk_futures d) i = Some Unresolved"
    and d': "map_of (dk_futures d') = (map_of (dk_futures d))(i \<mapsto> Result j)"
      "dk_open d' = dk_open d" "dk_waiting d' = dk_waiting d" and e: "e = Replied i j True \<or> e = Delivered i j"
  shows "follows e d d'"
proof -
  have o: "orderly (map_of (dk_futures d)) (dk_open d) (dk_waiting d)" using assms(1) by (simp add: desk_ok_def)
  have "desk_ok d'" using orderly_settle [OF o u] d' by (simp add: desk_ok_def)
  moreover have "status d' i = (if status d i = Pending_Answer then Settled j else status d i)" and "status d i \<in> {Shut, Pending_Answer}"
    using d' u by (auto simp: status_def status_in_def)
  moreover have "status d' k = status d k" if "k \<noteq> i" for k using d' that by (simp add: status_def status_in_simps)
  ultimately show ?thesis using e by (intro followsI [where i = i]) auto
qed

lemma answerable_status:
  assumes "desk_ok d" "status d i \<noteq> Shut"
  shows "answerable d i \<longleftrightarrow> status d i = Pending_Answer"
proof -
  have o: "orderly (map_of (dk_futures d)) (dk_open d) (dk_waiting d)" using assms(1) by (simp add: desk_ok_def)
  then show ?thesis using assms(2) pending_unresolved [OF o, of i]
    by (auto simp: answerable_def status_def shut_iff orderly_def)
qed

lemma follows_reply:
  assumes "desk_ok d" "resolve_gate True i a d = (d', Inr b)"
  shows "follows (Replied i (answer_json a) b) d d'"
proof (cases "answerable d i")
  case True
  then show ?thesis using assms
    by (intro follows_settle) (auto simp: resolve_gate_def bind_apply answerable_def set_future_def)
next
  case False
  then show ?thesis using assms answerable_status
    by (intro follows_same) (auto simp: resolve_gate_def bind_apply)
qed

lemma follows_post:
  assumes "desk_ok d" "resolve_gate False i a d = (d', Inr b)"
  shows "follows (Posted i b) d d'"
  using assms answerable_status
  by (intro follows_same) (auto simp: resolve_gate_def bind_apply split: if_splits)

lemma follows_deliver:
  assumes "desk_ok d"
  shows "follows (Delivered i j) d (set_if_pending i j (d\<lparr>dk_posted := ps\<rparr>))"
proof (cases "map_of (dk_futures d) i = Some Unresolved")
  case True
  then show ?thesis using assms by (intro follows_settle) (auto simp: set_if_pending_def set_future_def)
next
  case False
  then have "status d i \<noteq> Pending_Answer" using assms by (simp add: desk_ok_def status_def pending_unresolved)
  then show ?thesis using assms False by (intro follows_same) (auto simp: set_if_pending_def)
qed

lemma follows_wake:
  assumes "desk_ok d" "i \<in> set (dk_waiting d)" "map_of (dk_futures d) i = Some (Result j)"
    and "view d' = (dk_futures d, remove1 i (dk_open d), remove1 i (dk_waiting d), dk_posted d)"
  shows "follows (Woken i j) d d'"
proof -
  note d' = view_dest [OF assms(4)]
  have o: "orderly (map_of (dk_futures d)) (dk_open d) (dk_waiting d)" and w: "distinct (dk_waiting d)"
    using assms(1) by (simp_all add: desk_ok_def orderly_def)
  have "desk_ok d'" using orderly_over [OF o, of i] assms(3) d' by (simp add: desk_ok_def)
  moreover have "status d' k = (if k = i then Shut else status d k)" for k
    using d' w by (simp add: status_def status_in_simps)
  moreover have "status d i = Settled j" using assms(2,3) by (simp add: status_def status_in_def)
  ultimately show ?thesis by (auto simp: follows_def)
qed

lemma orderly_closes:
  assumes "orderly f q w" and "\<And>i. g i = f i \<or> f i = Some Unresolved \<and> g i = Some (Result j)"
    and "q' = q \<or> q' = [] \<and> (\<forall>i \<in> set q. g i \<noteq> Some Unresolved)"
  shows "orderly g q' w"
proof -
  have "g i \<noteq> None \<and> g i \<noteq> Some Abandoned" if "f i \<noteq> None" "f i \<noteq> Some Abandoned" for i using assms(2) [of i] that by auto
  moreover have "g i \<noteq> None" if "f i \<noteq> None" for i using assms(2) [of i] that by auto
  moreover have "f i = Some Unresolved" if "g i = Some Unresolved" for i using assms(2) [of i] that by auto
  ultimately show ?thesis using assms(1,3) by (auto simp: orderly_def)
qed

lemma follows_end:
  assumes ok: "desk_ok d" and closing: "resolve_open_gates p d = (d', res)"
  shows "follows (NodeEnded (settled_by d d')) d d'"
proof -
  obtain u where c: "closes (dk_open d) d u" "dk_futures d' = dk_futures u" "dk_waiting d' = dk_waiting u"
      "dk_open d' = dk_open u \<or> dk_open d' = [] \<and> (\<forall>i \<in> set (dk_open d). map_of (dk_futures u) i \<noteq> Some Unresolved)"
    using resolve_open_gates_effect [OF closing] by blast
  have f: "map_of (dk_futures d') i = map_of (dk_futures d) i \<or>
      map_of (dk_futures d) i = Some Unresolved \<and> map_of (dk_futures d') i = Some (Result ended_answer)" for i
    using c(1,2) by (auto simp: closes_def)
  have w: "dk_waiting d' = dk_waiting d" using c(1,3) by (simp add: closes_def)
  have o: "orderly (map_of (dk_futures d)) (dk_open d) (dk_waiting d)" using ok by (simp add: desk_ok_def)
  have "desk_ok d'" unfolding desk_ok_def w
    by (rule orderly_closes [OF o f]) (use c in \<open>simp add: closes_def\<close>)
  moreover have "status d' i = react i (NodeEnded (settled_by d d')) (status d i)" for i
    using f [of i] o by (auto simp: settled_by_def status_def w pending_unresolved [OF o] status_in_def orderly_def)
  ultimately show ?thesis by (simp add: follows_def)
qed

lemma desk_step_follows:
  assumes "desk_step tx su p d e d'" and "desk_ok d"
  shows "follows e d d'"
  using assms
proof cases
  case (Wake i j res)
  then show ?thesis using follows_wake [OF assms(2)] view_resume_gate by blast
qed (auto intro: follows_open follows_reply follows_post follows_deliver follows_end
    follows_over [OF assms(2) time_out_over] follows_over [OF assms(2) cancel_over] assms(2))

section \<open>Runs\<close>

lemma gate_run_append: "gate_run i (es @ [e]) s = (case gate_run i es s of None \<Rightarrow> None
    | Some t \<Rightarrow> if allowed i e t then Some (react i e t) else None)"
  by (induction es arbitrary: s) (simp_all split: option.split)

definition fresh_desk :: "desk \<Rightarrow> bool" where
  "fresh_desk d \<longleftrightarrow> dk_futures d = [] \<and> dk_open d = [] \<and> dk_waiting d = []"

lemma fresh_desk_ok: "fresh_desk d \<Longrightarrow> desk_ok d \<and> status d i = Shut"
  by (simp add: fresh_desk_def desk_ok_def orderly_def status_def status_in_def)

lemma desk_run_follows:
  assumes "desk_run tx su p d es d'" and "fresh_desk d"
  shows "desk_ok d' \<and> gate_run i es Shut = Some (status d' i)"
  using assms
proof induction
  case (Stay d)
  then show ?case using fresh_desk_ok by simp
next
  case (Go d es u e d')
  then have "follows e u d'" using desk_step_follows by blast
  with Go show ?case by (simp add: gate_run_append follows_def)
qed

text \<open>An id is used once.\<close>

lemma future_kept:
  assumes "desk_step tx su p d e d'"
  shows "(map_of (dk_futures d) i \<noteq> None \<longrightarrow> map_of (dk_futures d') i \<noteq> None) \<and>
    (opens i e \<longrightarrow> map_of (dk_futures d) i = None \<and> map_of (dk_futures d') i \<noteq> None)"
  using assms
proof cases
  case (Open k q res)
  then show ?thesis using view_open_gate [OF Open(3)] by (auto simp: opens_def view_def)
next
  case (Reply k a b)
  then show ?thesis by (auto simp: opens_def resolve_gate_def bind_apply set_future_def split: if_splits)
next
  case (Post k a b)
  then show ?thesis by (auto simp: opens_def resolve_gate_def bind_apply split: if_splits)
next
  case (Deliver k j later)
  then show ?thesis by (simp add: opens_def set_if_pending_def set_future_def)
next
  case (Wake k j res)
  then show ?thesis using view_dest [OF view_resume_gate [OF Wake(4)]] by (simp add: opens_def)
next
  case (Expire k settings res)
  then show ?thesis using time_out_over [OF Expire(4)] by (simp add: opens_def over_def)
next
  case (Interrupt k res)
  then show ?thesis using cancel_over [OF Interrupt(3)] by (simp add: opens_def over_def)
next
  case (End res)
  then obtain u where "closes (dk_open d) d u" "dk_futures d' = dk_futures u"
    using resolve_open_gates_effect by blast
  then show ?thesis using End by (auto simp: opens_def closes_def) (metis option.distinct(1))
qed

abbreviation count_of :: "('a \<Rightarrow> bool) \<Rightarrow> 'a list \<Rightarrow> nat" where
  "count_of f xs \<equiv> length (filter f xs)"

lemma desk_run_counts:
  assumes "desk_run tx su p d es d'" and "fresh_desk d"
  shows "count_of (opens i) es \<le> (if map_of (dk_futures d') i = None then 0 else 1)"
  using assms
proof induction
  case (Stay d)
  then show ?case by simp
next
  case (Go d es u e d')
  then show ?case using future_kept [OF Go(2), of i] by (cases "opens i e") (auto split: if_splits)
qed

lemma gate_run_wakes:
  "gate_run i es s = Some t \<Longrightarrow>
     count_of (wakes i) es + (if t = Shut then 0 else 1) \<le> count_of (opens i) es + (if s = Shut then 0 else 1)"
proof (induction es arbitrary: s)
  case (Cons e es)
  then have e: "allowed i e s" "gate_run i es (react i e s) = Some t" by (simp_all split: if_splits)
  have "(if wakes i e then 1 else 0 :: nat) + (if react i e s = Shut then 0 else 1) \<le> (if opens i e then 1 else 0) + (if s = Shut then 0 else 1)"
    using e(1) by (cases e) (auto simp: wakes_def opens_def)
  with Cons.IH [OF e(2)] show ?case by (simp split: if_splits)
qed simp

section \<open>Properties\<close>

text \<open>
  C15: the inline gates of a runner refine gates that are each a small automaton of their own. However the
  openings, answers on the runner's loop or posted from other loops, their deliveries, resumptions, timeouts,
  cancellations and the end of the node interleave, and whichever of them fail half-way, each gate runs
  by itself: an answer is accepted on the loop exactly while the gate is unanswered, the first that is
  accepted is the one its request gets, no later one replaces it, and a request is opened at most once
  and gets at most one answer.
\<close>

theorem gates_refine:
  assumes "desk_run tx su p d es d'" and "fresh_desk d"
  shows "gate_run i es Shut = Some (status d' i) \<and> count_of (opens i) es \<le> 1 \<and>
    count_of (wakes i) es \<le> count_of (opens i) es"
proof -
  have r: "gate_run i es Shut = Some (status d' i)" using desk_run_follows [OF assms] by simp
  show ?thesis using r gate_run_wakes [OF r] desk_run_counts [OF assms, of i] by (simp split: if_splits)
qed

definition sample_request :: gate_request where
  "sample_request = \<lparr>gr_subtype = AskUser, gr_tool_name = ''ask'', gr_tool_input = [], gr_suggestions = [], gr_hint = []\<rparr>"

definition sample_texts :: gate_texts where
  "sample_texts = \<lparr>gt_timed_out = (\<lambda>_. ''timed out''), gt_feishu = (\<lambda>_. ''answered''), gt_wecom = ''answered''\<rparr>"

definition sample_answer :: "bool \<Rightarrow> answer" where
  "sample_answer b = \<lparr>an_allow = b, an_message = [], an_updated_input = None, an_response = None, an_scope = None,
     an_interrupt = False, an_permission_mode = None, an_clear_context = False, an_source = ''web'', an_via = None\<rparr>"

definition sample_desk :: desk where
  "sample_desk = \<lparr>dk_run = sample_run, dk_gates = [], dk_futures = [], dk_open = [], dk_records = [], dk_posted = [],
     dk_waiting = [], dk_notices = []\<rparr>"

text \<open>An answer is posted from another loop, two channels answer on the gate's own, the posted one comes late.\<close>

abbreviation yes :: json where "yes \<equiv> answer_json (sample_answer True)"
abbreviation no :: json where "no \<equiv> answer_json (sample_answer False)"

definition opened_desk :: desk where
  "opened_desk = fst (open_gate sample_outside sample_project ''g'' sample_request sample_desk)"

definition posted_desk :: desk where
  "posted_desk = fst (resolve_gate False ''g'' (sample_answer False) opened_desk)"

definition answered_desk :: desk where
  "answered_desk = fst (resolve_gate True ''g'' (sample_answer True) posted_desk)"

definition delivered_desk :: desk where
  "delivered_desk = set_if_pending ''g'' no (answered_desk\<lparr>dk_posted := []\<rparr>)"

lemma sample_opening:
  "open_gate sample_outside sample_project ''g'' sample_request sample_desk = (opened_desk, Inr ())"
proof -
  have "snd (open_gate sample_outside sample_project ''g'' sample_request sample_desk) = Inr ()" by code_simp
  then show ?thesis by (simp add: opened_desk_def prod_eq_iff)
qed

lemma sample_views:
  "view opened_desk = ([(''g'', Unresolved)], [''g''], [''g''], [])"
  "view posted_desk = ([(''g'', Unresolved)], [''g''], [''g''], [(''g'', no)])"
  "view answered_desk = ([(''g'', Result yes)], [''g''], [''g''], [(''g'', no)])"
  "view delivered_desk = ([(''g'', Result yes)], [''g''], [''g''], [])"
proof -
  show o: "view opened_desk = ([(''g'', Unresolved)], [''g''], [''g''], [])"
    using view_open_gate [OF sample_opening] by (auto simp: view_def sample_desk_def)
  then show p: "view posted_desk = ([(''g'', Unresolved)], [''g''], [''g''], [(''g'', no)])"
    by (simp add: posted_desk_def resolve_gate_def bind_apply answerable_def view_def)
  then show a: "view answered_desk = ([(''g'', Result yes)], [''g''], [''g''], [(''g'', no)])"
    by (simp add: answered_desk_def resolve_gate_def bind_apply answerable_def view_def set_future_def)
  then show "view delivered_desk = ([(''g'', Result yes)], [''g''], [''g''], [])"
    by (simp add: delivered_desk_def set_if_pending_def view_def)
qed

lemma sample_desk_run:
  "desk_run sample_texts sample_outside sample_project sample_desk
     [Opened ''g'' True, Posted ''g'' True, Replied ''g'' yes True, Replied ''g'' no False, Delivered ''g'' no, Woken ''g'' yes]
     (fst (resume_gate sample_texts sample_outside sample_project ''g'' yes delivered_desk))"
proof -
  let ?run = "desk_run sample_texts sample_outside sample_project sample_desk"
  note v = sample_views [unfolded view_def prod.inject]
  have 1: "?run ([] @ [Opened ''g'' (Inr () = (Inr () :: stop + unit))]) opened_desk"
    by (rule Go [OF Stay Open [OF _ sample_opening]]) (simp add: sample_desk_def)
  have p: "resolve_gate False ''g'' (sample_answer False) opened_desk = (posted_desk, Inr True)"
    using v(1) by (simp add: posted_desk_def resolve_gate_def bind_apply answerable_def)
  note 2 = Go [OF 1 Post [OF p]]
  have a: "resolve_gate True ''g'' (sample_answer True) posted_desk = (answered_desk, Inr True)"
    using v(2) by (simp add: answered_desk_def resolve_gate_def bind_apply answerable_def)
  note 3 = Go [OF 2 Reply [OF a]]
  have b: "resolve_gate True ''g'' (sample_answer False) answered_desk = (answered_desk, Inr False)"
    using v(3) by (simp add: resolve_gate_def bind_apply answerable_def)
  note 4 = Go [OF 3 Reply [OF b]]
  have d: "dk_posted answered_desk = [(''g'', no)]" using v(3) by simp
  note 5 = Go [OF 4 Deliver [OF d], folded delivered_desk_def]
  have "''g'' \<in> set (dk_waiting delivered_desk)" "map_of (dk_futures delivered_desk) ''g'' = Some (Result yes)"
    using v(4) by simp_all
  from Go [OF 5 Wake [OF this prod.collapse [symmetric]]] show ?thesis by simp
qed

theorem gates_refine_witness:
  "\<exists>es d'. desk_run sample_texts sample_outside sample_project sample_desk es d' \<and> length es = 6 \<and>
    last es = Woken ''g'' yes \<and> gate_run ''g'' es Shut = Some (status d' ''g'') \<and> count_of (wakes ''g'') es = 1"
proof -
  have "fresh_desk sample_desk" by (simp add: fresh_desk_def sample_desk_def)
  note g = gates_refine [OF sample_desk_run this, of "''g''"]
  show ?thesis
    by (rule exI, rule exI, rule conjI [OF sample_desk_run]) (use g in \<open>simp_all add: wakes_def\<close>)
qed

end
