(* ===== verification/Active_Nodes.thy ===== *)
theory Active_Nodes
  imports Gates
begin

text \<open>
  The cross-project view of running, waiting and just finished nodes, \<open>active_nodes.py\<close>: the facts read from
  node files, the cache of them keyed by modification time and length, the filter for what is shown, and the
  rows. Directory listings, \<open>stat\<close> results and the parsed contents of the files are the arguments of a sweep; a
  title that cannot be read, a runner that is absent and a gate summary that fails are \<open>None\<close>. The last theorem
  says the cached sweep is the uncached one, whatever was swept, forgotten and dropped before.
\<close>

section \<open>Facts of a node file\<close>

definition active_states :: "pystr list" where
  "active_states = map node_state_value [Running, Waiting, AwaitingHumanInput, Queued]"

definition terminal_states :: "pystr list" where
  "terminal_states = map node_state_value [Done, Error, Cancelled]"

definition terminal_recency_seconds :: int where
  "terminal_recency_seconds = 8 * 3600"

definition label_max_chars :: nat where
  "label_max_chars = 120"

record node_facts =
  f_id :: pystr
  f_state :: pystr
  f_category :: "pystr option"
  f_kind :: pystr
  f_op_kind :: "pystr option"
  f_planspace_id :: "pystr option"
  f_label :: "pystr \<times> bool"
  f_started_at :: "int option"
  f_created_at :: int
  f_finished_at :: "int option"
  f_owner_host_id :: pystr

text \<open>A label and whether an ellipsis ends it.\<close>

definition shorten :: "pystr \<Rightarrow> pystr \<times> bool" where
  "shorten s = (let t = join_with '' '' (words_from [] s) in
     if length t > label_max_chars then (take (label_max_chars - 1) t, True) else (t, False))"

definition label_for :: "(pystr, json) dict \<Rightarrow> pystr \<times> bool" where
  "label_for payload = (case first_field payload [''summary'', ''prompt''] of None \<Rightarrow> ([], False) | Some s \<Rightarrow> shorten s)"

definition str_or_none :: "(pystr, json) dict \<Rightarrow> pystr \<Rightarrow> pystr option" where
  "str_or_none payload k = (case map_of payload k of Some (JStr s) \<Rightarrow> Some s | _ \<Rightarrow> None)"

text \<open>\<open>isinstance(value, (int, float))\<close> holds of booleans.\<close>

definition float_or_none :: "(pystr, json) dict \<Rightarrow> pystr \<Rightarrow> int option" where
  "float_or_none payload k = (case map_of payload k of
     Some (JInt i) \<Rightarrow> Some i | Some (JBool b) \<Rightarrow> Some (if b then 1 else 0) | _ \<Rightarrow> None)"

definition facts_from_payload :: "(pystr, json) dict \<Rightarrow> pystr \<Rightarrow> node_facts option" where
  "facts_from_payload payload owner =
     (case (str_or_none payload ''id'', str_or_none payload ''state'') of
        (Some i, Some s) \<Rightarrow> Some \<lparr>f_id = i, f_state = s, f_category = str_or_none payload ''category'',
          f_kind = (case str_or_none payload ''kind'' of None \<Rightarrow> ''agent'' | Some k \<Rightarrow> k),
          f_op_kind = str_or_none payload ''op_kind'', f_planspace_id = str_or_none payload ''planspace_id'',
          f_label = label_for payload, f_started_at = float_or_none payload ''started_at'',
          f_created_at = (case float_or_none payload ''created_at'' of None \<Rightarrow> 0 | Some t \<Rightarrow> t),
          f_finished_at = float_or_none payload ''finished_at'', f_owner_host_id = owner\<rparr>
      | _ \<Rightarrow> None)"

section \<open>The cache\<close>

text \<open>A path is the host's directory and the node's below it; \<open>str(path)\<close> tells them apart.\<close>

type_synonym file_path = "pystr \<times> pystr"
type_synonym signature = "int \<times> int"

record node_file =
  nf_path :: file_path
  nf_stat :: "signature option"
  nf_content :: "json option"

type_synonym project_cache = "(file_path, signature \<times> node_facts) dict"
type_synonym cache = "(pystr, project_cache) dict"

definition parse_file :: "node_file \<Rightarrow> node_facts option" where
  "parse_file f = (case nf_content f of Some (JObj payload) \<Rightarrow> facts_from_payload payload (fst (nf_path f)) | _ \<Rightarrow> None)"

definition forget_project :: "pystr \<Rightarrow> cache \<Rightarrow> cache" where
  "forget_project pid c = AList.delete pid c"

definition retain_projects :: "pystr list \<Rightarrow> cache \<Rightarrow> cache" where
  "retain_projects pids c = filter (\<lambda>(pid, _). pid \<in> set pids) c"

text \<open>One pass of the loop of \<open>facts_for_project\<close>: a hit of the cache, or what the file says now.\<close>

definition read_entry :: "node_file \<Rightarrow> signature \<Rightarrow> (signature \<times> node_facts) option" where
  "read_entry f sig = map_option (Pair sig) (parse_file f)"

definition file_entry :: "project_cache \<Rightarrow> node_file \<Rightarrow> (signature \<times> node_facts) option" where
  "file_entry cached f = (case nf_stat f of
     None \<Rightarrow> None
   | Some sig \<Rightarrow>
       (case map_of cached (nf_path f) of
          Some (old, facts) \<Rightarrow> if old = sig then Some (old, facts) else read_entry f sig
        | None \<Rightarrow> read_entry f sig))"

fun scan_files :: "project_cache \<Rightarrow> node_file list \<Rightarrow> project_cache \<Rightarrow> node_facts list \<Rightarrow> project_cache \<times> node_facts list" where
  "scan_files cached [] fresh out = (fresh, out)"
| "scan_files cached (f # fs) fresh out = (case file_entry cached f of
     None \<Rightarrow> scan_files cached fs fresh out
   | Some e \<Rightarrow> scan_files cached fs (AList.update (nf_path f) e fresh) (out @ [snd e]))"

definition cached_for :: "cache \<Rightarrow> pystr \<Rightarrow> project_cache" where
  "cached_for c pid = (case map_of c pid of None \<Rightarrow> [] | Some d \<Rightarrow> d)"

definition facts_for_project :: "pystr \<Rightarrow> node_file list \<Rightarrow> cache \<Rightarrow> cache \<times> node_facts list" where
  "facts_for_project pid files c = (case scan_files (cached_for c pid) files [] [] of
     (fresh, out) \<Rightarrow> (AList.update pid fresh c, out))"

section \<open>What is shown\<close>

definition or_created :: "node_facts \<Rightarrow> int" where
  "or_created f = (case f_started_at f of Some t \<Rightarrow> if t \<noteq> 0 then t else f_created_at f | None \<Rightarrow> f_created_at f)"

definition is_visible :: "int \<Rightarrow> node_facts \<Rightarrow> bool" where
  "is_visible now f =
     (if f_state f \<in> set active_states then True
      else if f_state f \<in> set terminal_states
      then (let stamp = (case f_finished_at f of Some t \<Rightarrow> if t \<noteq> 0 then t else or_created f | None \<Rightarrow> or_created f) in
        stamp \<noteq> 0 \<and> now - stamp \<le> terminal_recency_seconds)
      else False)"

definition is_native_facts :: "world \<Rightarrow> node_facts \<Rightarrow> bool" where
  "is_native_facts w f = (f_owner_host_id f = st_machine (w_store w))"

text \<open>What the sweep asks of the planspace titles and of the live runners.\<close>

record views =
  vw_title :: "pystr \<Rightarrow> pystr option"
  vw_gate :: "pystr \<Rightarrow> pystr \<Rightarrow> desk option"

type_synonym gate_row = "pystr \<times> gate_subtype \<times> pystr \<times> gate_text"

record active_entry =
  e_project_id :: pystr
  e_project_name :: pystr
  e_node_id :: pystr
  e_state :: pystr
  e_category :: "pystr option"
  e_kind :: pystr
  e_op_kind :: "pystr option"
  e_planspace_id :: "pystr option"
  e_planspace_title :: "pystr option"
  e_label :: "pystr \<times> bool"
  e_started_at :: int
  e_finished_at :: "int option"
  e_gate :: "gate_row option"

definition gate_of :: "views \<Rightarrow> pystr \<Rightarrow> node_facts \<Rightarrow> gate_row option" where
  "gate_of v pid f = (if f_state f \<noteq> node_state_value Waiting then None
     else case vw_gate v pid (f_id f) of None \<Rightarrow> None | Some d \<Rightarrow> current_gate_summary d)"

definition active_entry_from_facts :: "world \<Rightarrow> views \<Rightarrow> project \<Rightarrow> int \<Rightarrow> pystr option \<Rightarrow> bool \<Rightarrow> node_facts \<Rightarrow> active_entry option" where
  "active_entry_from_facts w v p now title resolve f =
     (if \<not> is_visible now f \<or> \<not> is_native_facts w f then None
      else Some \<lparr>e_project_id = p_id p, e_project_name = p_name p, e_node_id = f_id f, e_state = f_state f,
        e_category = f_category f, e_kind = f_kind f, e_op_kind = f_op_kind f, e_planspace_id = f_planspace_id f,
        e_planspace_title = (if resolve \<and> truthy (f_planspace_id f) then vw_title v (or_empty (f_planspace_id f)) else title),
        e_label = f_label f, e_started_at = or_created f, e_finished_at = f_finished_at f,
        e_gate = gate_of v (p_id p) f\<rparr>)"

definition active_entry_from_node :: "world \<Rightarrow> views \<Rightarrow> project \<Rightarrow> int \<Rightarrow> (pystr, json) dict \<Rightarrow> active_entry option" where
  "active_entry_from_node w v p now payload =
     (if st_read_only (w_store w) \<noteq> None then None
      else let owner = (case str_or_none payload ''owner_host_id'' of
                 Some h \<Rightarrow> if h = [] then st_machine (w_store w) else h | None \<Rightarrow> st_machine (w_store w)) in
        (case facts_from_payload payload owner of
           None \<Rightarrow> None | Some f \<Rightarrow> active_entry_from_facts w v p now None True f))"

section \<open>The sweep\<close>

definition shown :: "world \<Rightarrow> project \<Rightarrow> int \<Rightarrow> node_facts \<Rightarrow> bool" where
  "shown w p now f = (is_visible now f \<and> is_native_facts w f \<and>
     \<not> (truthy (f_planspace_id f) \<and> read_planspace_archived (w_lanes w) (p_id p) (or_empty (f_planspace_id f))))"

text \<open>The rows of one project; \<open>titles\<close> remembers the titles already looked up.\<close>

fun entry_rows :: "world \<Rightarrow> views \<Rightarrow> project \<Rightarrow> int \<Rightarrow> node_facts list \<Rightarrow> (pystr, pystr option) dict \<Rightarrow> active_entry list" where
  "entry_rows w v p now [] titles = []"
| "entry_rows w v p now (f # fs) titles =
     (let lane = or_empty (f_planspace_id f);
          titles' = (if truthy (f_planspace_id f) \<and> map_of titles lane = None
            then AList.update lane (vw_title v lane) titles else titles);
          title = (case f_planspace_id f of None \<Rightarrow> None | Some s \<Rightarrow> (case map_of titles' s of None \<Rightarrow> None | Some t \<Rightarrow> t)) in
      (case active_entry_from_facts w v p now title False f of None \<Rightarrow> [] | Some e \<Rightarrow> [e]) @ entry_rows w v p now fs titles')"

text \<open>A project whose directory cannot be listed is \<open>None\<close>: it is skipped and keeps its cache.\<close>

type_synonym listing_of = "pystr \<Rightarrow> node_file list option"

fun sweep_projects :: "world \<Rightarrow> views \<Rightarrow> int \<Rightarrow> listing_of \<Rightarrow> project list \<Rightarrow> cache \<Rightarrow> cache \<times> active_entry list" where
  "sweep_projects w v now ls [] c = (c, [])"
| "sweep_projects w v now ls (p # ps) c = (case ls (p_id p) of
     None \<Rightarrow> sweep_projects w v now ls ps c
   | Some files \<Rightarrow> (case facts_for_project (p_id p) files c of (c', facts) \<Rightarrow>
       (case sweep_projects w v now ls ps c' of (c'', es) \<Rightarrow>
         (c'', entry_rows w v p now (filter (shown w p now) facts) [] @ es))))"

definition swept_here :: "world \<Rightarrow> project list" where
  "swept_here w = filter (\<lambda>p. p_archived_at p = None) (map (rt_project \<circ> snd) (w_runtimes w))"

definition collect_active_entries :: "world \<Rightarrow> views \<Rightarrow> int \<Rightarrow> listing_of \<Rightarrow> cache \<Rightarrow> cache \<times> active_entry list" where
  "collect_active_entries w v now ls c =
     (if st_read_only (w_store w) \<noteq> None then (c, [])
      else sweep_projects w v now ls (swept_here w) (retain_projects (map p_id (swept_here w)) c))"

section \<open>The view without a cache\<close>

definition plain_facts :: "node_file list \<Rightarrow> node_facts list" where
  "plain_facts files = List.map_filter (\<lambda>f. if nf_stat f = None then None else parse_file f) files"

definition plain_rows :: "world \<Rightarrow> views \<Rightarrow> int \<Rightarrow> listing_of \<Rightarrow> project \<Rightarrow> active_entry list" where
  "plain_rows w v now ls p = (case ls (p_id p) of
     None \<Rightarrow> []
   | Some files \<Rightarrow> List.map_filter (active_entry_from_facts w v p now None True) (filter (shown w p now) (plain_facts files)))"

definition plain_view :: "world \<Rightarrow> views \<Rightarrow> int \<Rightarrow> listing_of \<Rightarrow> active_entry list" where
  "plain_view w v now ls = (if st_read_only (w_store w) \<noteq> None then [] else concat (map (plain_rows w v now ls) (swept_here w)))"

text \<open>What the index went through: sweeps, each over its own listing, and forgotten projects.\<close>

datatype index_op = Swept world views int "pystr \<Rightarrow> node_file list option" | Forgot pystr

fun index_after :: "index_op list \<Rightarrow> cache \<Rightarrow> cache" where
  "index_after [] c = c"
| "index_after (Swept w v now ls # ops) c = index_after ops (fst (collect_active_entries w v now ls c))"
| "index_after (Forgot pid # ops) c = index_after ops (forget_project pid c)"

definition listed :: "listing_of \<Rightarrow> pystr \<Rightarrow> node_file set" where
  "listed ls pid = (case ls pid of None \<Rightarrow> {} | Some files \<Rightarrow> set files)"

fun seen :: "index_op list \<Rightarrow> pystr \<Rightarrow> node_file set" where
  "seen [] pid = {}"
| "seen (Swept w v now ls # ops) pid = listed ls pid \<union> seen ops pid"
| "seen (Forgot q # ops) pid = seen ops pid"

text \<open>
  What the cache trusts the file system for: a file that keeps its path, modification time and length keeps its
  contents.
\<close>

definition stamped :: "node_file set \<Rightarrow> bool" where
  "stamped files \<longleftrightarrow> (\<forall>f \<in> files. \<forall>g \<in> files. nf_path f = nf_path g \<and> nf_stat f = nf_stat g \<and> nf_stat f \<noteq> None \<longrightarrow>
     nf_content f = nf_content g)"

lemma stampedD:
  assumes "stamped files" "f \<in> files" "g \<in> files"
  shows "nf_path f = nf_path g \<Longrightarrow> nf_stat f = nf_stat g \<Longrightarrow> nf_stat g \<noteq> None \<Longrightarrow> nf_content f = nf_content g"
  using assms(1)[unfolded stamped_def, rule_format, OF assms(2,3)] by simp

section \<open>The cache tells the truth\<close>

definition truthful :: "node_file set \<Rightarrow> project_cache \<Rightarrow> bool" where
  "truthful files d \<longleftrightarrow> (\<forall>path sig facts. map_of d path = Some (sig, facts) \<longrightarrow>
     (\<exists>f \<in> files. nf_path f = path \<and> nf_stat f = Some sig \<and> parse_file f = Some facts))"

definition fresh_entry :: "node_file \<Rightarrow> (signature \<times> node_facts) option" where
  "fresh_entry f = (case nf_stat f of None \<Rightarrow> None | Some sig \<Rightarrow> read_entry f sig)"

lemma truthful_mono: "truthful fs d \<Longrightarrow> fs \<subseteq> gs \<Longrightarrow> truthful gs d"
  unfolding truthful_def by blast

lemma file_entry_fresh:
  assumes "truthful files d" and "stamped files" and "f \<in> files"
  shows "file_entry d f = fresh_entry f"
proof (cases "nf_stat f")
  case None
  then show ?thesis by (simp add: file_entry_def fresh_entry_def)
next
  case (Some sig)
  have "parse_file f = Some facts" if "map_of d (nf_path f) = Some (sig, facts)" for facts
  proof -
    obtain g where g: "g \<in> files" "nf_path g = nf_path f" "nf_stat g = Some sig" "parse_file g = Some facts"
      using assms(1) \<open>map_of d (nf_path f) = Some (sig, facts)\<close> unfolding truthful_def by blast
    then have "nf_content g = nf_content f" using stampedD [OF assms(2) g(1) assms(3)] Some by simp
    then have "parse_file f = parse_file g" unfolding parse_file_def g(2) by simp
    with g show ?thesis by simp
  qed
  then show ?thesis using Some by (auto simp: file_entry_def fresh_entry_def read_entry_def split: option.split)
qed

lemma scan_files_out:
  "snd (scan_files d fs fresh out) = out @ List.map_filter (\<lambda>f. map_option snd (file_entry d f)) fs"
proof (induction d fs fresh out rule: scan_files.induct)
  case (2 d f fs fresh out)
  then show ?case by (cases "file_entry d f") (simp_all add: List.map_filter_simps)
qed (simp add: List.map_filter_simps)

lemma scan_files_keys:
  "set (keys (fst (scan_files d fs fresh out))) = set (keys fresh) \<union> nf_path ` {f \<in> set fs. file_entry d f \<noteq> None}"
proof (induction d fs fresh out rule: scan_files.induct)
  case (2 d f fs fresh out)
  have i: "{g \<in> set (f # fs). file_entry d g \<noteq> None} =
      (if file_entry d f = None then {} else {f}) \<union> {g \<in> set fs. file_entry d g \<noteq> None}" by auto
  show ?case
  proof (cases "file_entry d f")
    case None
    then show ?thesis using 2(1) unfolding i by simp
  next
    case (Some e)
    then show ?thesis using 2(2) [OF Some] unfolding i by (simp add: dom_update)
  qed
qed simp

lemma scan_files_entries:
  "map_of (fst (scan_files d fs fresh out)) path = Some e \<Longrightarrow>
     map_of fresh path = Some e \<or> (\<exists>f \<in> set fs. nf_path f = path \<and> file_entry d f = Some e)"
proof (induction d fs fresh out rule: scan_files.induct)
  case (2 d f fs fresh out)
  then show ?case by (auto split: option.splits if_splits)
qed simp

lemma fresh_facts: "map_option snd (fresh_entry f) = (if nf_stat f = None then None else parse_file f)"
  by (cases "parse_file f") (auto simp: fresh_entry_def read_entry_def split: option.split)

lemma plain_facts_fresh: "plain_facts files = List.map_filter (\<lambda>f. map_option snd (fresh_entry f)) files"
  by (simp add: plain_facts_def fresh_facts)

text \<open>One project: the facts are the plain ones, the cache is as truthful as before and holds nothing else.\<close>

definition current :: "node_file list \<Rightarrow> project_cache \<Rightarrow> bool" where
  "current files d \<longleftrightarrow> set (keys d) = nf_path ` {f \<in> set files. fresh_entry f \<noteq> None}"

lemma map_filter_cong: "(\<And>x. x \<in> set xs \<Longrightarrow> f x = g x) \<Longrightarrow> List.map_filter f xs = List.map_filter g xs"
  by (induction xs) (simp_all add: List.map_filter_simps split: option.split)

lemma scan_project:
  assumes "truthful all d" and "stamped all" and "set files \<subseteq> all"
  shows "snd (scan_files d files [] []) = plain_facts files \<and> truthful all (fst (scan_files d files [] [])) \<and>
    current files (fst (scan_files d files [] []))"
proof (intro conjI)
  have e: "file_entry d f = fresh_entry f" if "f \<in> set files" for f
    using file_entry_fresh [OF assms(1,2)] assms(3) that by blast
  show "snd (scan_files d files [] []) = plain_facts files"
    unfolding scan_files_out plain_facts_fresh using e by (simp cong: map_filter_cong)
  show "current files (fst (scan_files d files [] []))"
    unfolding current_def scan_files_keys using e by (auto simp: image_iff)
  show "truthful all (fst (scan_files d files [] []))" unfolding truthful_def
  proof (intro allI impI)
    fix path sig facts
    assume "map_of (fst (scan_files d files [] [])) path = Some (sig, facts)"
    then obtain f where "f \<in> set files" "nf_path f = path" "file_entry d f = Some (sig, facts)"
      using scan_files_entries [of d files "[]" "[]" path] by auto
    then show "\<exists>f \<in> all. nf_path f = path \<and> nf_stat f = Some sig \<and> parse_file f = Some facts"
      using e [of f] assms(3) by (intro bexI [of _ f]) (auto simp: fresh_entry_def read_entry_def split: option.splits)
  qed
qed

section \<open>The rows of a sweep\<close>

lemma entry_rows_plain:
  assumes "\<forall>lane t. map_of titles lane = Some t \<longrightarrow> t = vw_title v lane" and "map_of titles [] = None"
  shows "entry_rows w v p now fs titles = List.map_filter (active_entry_from_facts w v p now None True) fs"
  using assms
proof (induction fs arbitrary: titles)
  case Nil
  then show ?case by (simp add: List.map_filter_simps)
next
  case (Cons f fs)
  let ?lane = "or_empty (f_planspace_id f)"
  let ?titles = "if truthy (f_planspace_id f) \<and> map_of titles ?lane = None then AList.update ?lane (vw_title v ?lane) titles else titles"
  have t: "\<forall>lane t. map_of ?titles lane = Some t \<longrightarrow> t = vw_title v lane" "map_of ?titles [] = None"
    using Cons.prems by (auto simp: truthy_iff)
  have "(case f_planspace_id f of None \<Rightarrow> None | Some s \<Rightarrow> (case map_of ?titles s of None \<Rightarrow> None | Some t \<Rightarrow> t)) =
      (if truthy (f_planspace_id f) then vw_title v ?lane else None)"
    using Cons.prems by (auto split: option.split)
  then show ?case using Cons.IH [OF t]
    by (simp add: Let_def List.map_filter_simps active_entry_from_facts_def)
qed

section \<open>Sweeps\<close>

definition cache_ok :: "(pystr \<Rightarrow> node_file set) \<Rightarrow> cache \<Rightarrow> bool" where
  "cache_ok files c \<longleftrightarrow> (\<forall>pid. truthful (files pid) (cached_for c pid))"

lemma cached_for_update: "cached_for (AList.update q d c) pid = (if pid = q then d else cached_for c pid)"
  by (simp add: cached_for_def)

lemma cached_for_forget: "cached_for (forget_project q c) pid = (if pid = q then [] else cached_for c pid)"
  by (simp add: cached_for_def forget_project_def)

lemma cached_for_retain: "cached_for (retain_projects qs c) pid = (if pid \<in> set qs then cached_for c pid else [])"
proof -
  have "map_of (filter (\<lambda>(k, _). k \<in> set qs) c) pid = (if pid \<in> set qs then map_of c pid else None)"
    by (induction c) auto
  then show ?thesis by (simp add: cached_for_def retain_projects_def)
qed

lemma truthful_Nil [simp]: "truthful files []"
  by (simp add: truthful_def)

text \<open>What a sweep leaves in the cache: current files of what it listed, and other projects as they were.\<close>

definition swept_cache :: "listing_of \<Rightarrow> pystr list \<Rightarrow> cache \<Rightarrow> cache \<Rightarrow> bool" where
  "swept_cache ls pids c c' \<longleftrightarrow> (\<forall>pid. if pid \<in> set pids \<and> ls pid \<noteq> None then current (the (ls pid)) (cached_for c' pid)
     else cached_for c' pid = cached_for c pid)"

lemma swept_cache_skip:
  assumes "ls q = None"
  shows "swept_cache ls (q # qs) c d = swept_cache ls qs c d"
proof -
  have "pid \<in> set (q # qs) \<and> ls pid \<noteq> None \<longleftrightarrow> pid \<in> set qs \<and> ls pid \<noteq> None" for pid using assms by auto
  then show ?thesis by (simp only: swept_cache_def)
qed

lemma swept_cache_Cons:
  assumes "ls q = Some fs" and "current fs e" and "swept_cache ls qs (AList.update q e c) d"
  shows "swept_cache ls (q # qs) c d"
  unfolding swept_cache_def
proof
  fix pid
  have "if pid \<in> set qs \<and> ls pid \<noteq> None then current (the (ls pid)) (cached_for d pid)
      else cached_for d pid = cached_for (AList.update q e c) pid" using assms(3) by (simp add: swept_cache_def)
  then show "if pid \<in> set (q # qs) \<and> ls pid \<noteq> None then current (the (ls pid)) (cached_for d pid)
      else cached_for d pid = cached_for c pid"
    using assms(1,2) by (cases "pid = q") (simp_all add: cached_for_update split: if_splits)
qed

lemma sweep_projects_plain:
  assumes "cache_ok files c" and "\<forall>pid. stamped (files pid)" and "\<forall>pid. listed ls pid \<subseteq> files pid"
  shows "snd (sweep_projects w v now ls ps c) = concat (map (plain_rows w v now ls) ps) \<and>
    cache_ok files (fst (sweep_projects w v now ls ps c)) \<and>
    swept_cache ls (map p_id ps) c (fst (sweep_projects w v now ls ps c))"
  using assms(1)
proof (induction ps arbitrary: c)
  case Nil
  then show ?case by (simp add: swept_cache_def)
next
  case (Cons p ps)
  show ?case
  proof (cases "ls (p_id p)")
    case None
    then show ?thesis using Cons.IH [OF Cons.prems] by (simp add: plain_rows_def swept_cache_skip)
  next
    case (Some fs)
    let ?d = "cached_for c (p_id p)"
    let ?c = "AList.update (p_id p) (fst (scan_files ?d fs [] [])) c"
    have l: "set fs \<subseteq> files (p_id p)" using assms(3) [rule_format, of "p_id p"] Some by (simp add: listed_def)
    have "truthful (files (p_id p)) ?d" using Cons.prems by (simp add: cache_ok_def)
    then have t: "snd (scan_files ?d fs [] []) = plain_facts fs \<and> truthful (files (p_id p)) (fst (scan_files ?d fs [] [])) \<and>
        current fs (fst (scan_files ?d fs [] []))"
      by (rule scan_project) (use assms(2) l in auto)
    then have f: "facts_for_project (p_id p) fs c = (?c, plain_facts fs)"
      by (simp add: facts_for_project_def case_prod_beta)
    have ok: "cache_ok files ?c" using Cons.prems t by (simp add: cache_ok_def cached_for_update)
    have "sweep_projects w v now ls (p # ps) c = (fst (sweep_projects w v now ls ps ?c),
        plain_rows w v now ls p @ snd (sweep_projects w v now ls ps ?c))"
      by (simp add: Some f plain_rows_def entry_rows_plain case_prod_beta)
    moreover have "swept_cache ls (p_id p # qs) c d" if "swept_cache ls qs ?c d" for qs d
      by (rule swept_cache_Cons [where ls = ls, OF Some _ that]) (use t in simp)
    ultimately show ?thesis using Cons.IH [OF ok] by simp
  qed
qed

lemma index_after_ok:
  assumes "cache_ok files c" and "\<forall>pid. stamped (files pid)" and "\<forall>pid. seen ops pid \<subseteq> files pid"
  shows "cache_ok files (index_after ops c)"
  using assms
proof (induction ops c rule: index_after.induct)
  case (2 w v now ls ops c)
  have "cache_ok files (retain_projects pids c)" for pids
    using 2(2) by (simp add: cache_ok_def cached_for_retain)
  moreover have "\<forall>pid. listed ls pid \<subseteq> files pid" using 2(4) by auto
  ultimately have "cache_ok files (fst (collect_active_entries w v now ls c))"
    using 2(2,3) sweep_projects_plain by (simp add: collect_active_entries_def)
  with 2 show ?case by simp
next
  case (3 pid ops c)
  then show ?case by (simp add: cache_ok_def cached_for_forget)
qed simp

lemma seen_append: "seen (os @ os') pid = seen os pid \<union> seen os' pid"
  by (induction os pid rule: seen.induct) auto

section \<open>Property\<close>

text \<open>
  C16: the cached view of active nodes is the uncached one. After any sequence of sweeps and forgotten
  projects, as long as a file with the same path, modification time and length has the same contents, a
  sweep shows exactly the rows derived from reading every file again, each of them the row of a live node
  with the same record, and its cache then holds exactly the readable files it was shown and
  nothing of projects that are gone.
\<close>

theorem active_view_uncached:
  assumes "\<forall>pid. stamped (seen (ops @ [Swept w v now ls]) pid)" and "st_read_only (w_store w) = None"
    and "collect_active_entries w v now ls (index_after ops []) = (c, rows)"
  shows "rows = plain_view w v now ls \<and>
    (\<forall>pid. if pid \<notin> p_id ` set (swept_here w) then cached_for c pid = []
       else case ls pid of None \<Rightarrow> True | Some files \<Rightarrow> current files (cached_for c pid))"
proof -
  let ?files = "seen (ops @ [Swept w v now ls])" and ?here = "swept_here w"
  let ?c = "retain_projects (map p_id ?here) (index_after ops [])"
  have "cache_ok ?files []" by (simp add: cache_ok_def cached_for_def)
  then have "cache_ok ?files (index_after ops [])"
    by (rule index_after_ok) (use assms(1) in \<open>simp_all add: seen_append\<close>)
  then have "cache_ok ?files ?c" by (simp add: cache_ok_def cached_for_retain)
  then have r: "snd (sweep_projects w v now ls ?here ?c) = concat (map (plain_rows w v now ls) ?here)"
      "swept_cache ls (map p_id ?here) ?c (fst (sweep_projects w v now ls ?here ?c))"
    using sweep_projects_plain [of ?files ?c ls w v now ?here] assms(1) by (simp_all add: seen_append)
  have e: "sweep_projects w v now ls ?here ?c = (c, rows)" using assms(2,3) by (simp add: collect_active_entries_def)
  have "rows = plain_view w v now ls" using r(1) e assms(2) by (simp add: plain_view_def)
  moreover have "if pid \<notin> p_id ` set ?here then cached_for c pid = []
      else case ls pid of None \<Rightarrow> True | Some files \<Rightarrow> current files (cached_for c pid)" for pid
  proof -
    have p: "if pid \<in> p_id ` set ?here \<and> ls pid \<noteq> None then current (the (ls pid)) (cached_for c pid)
        else cached_for c pid = cached_for ?c pid" using r(2) e by (simp add: swept_cache_def)
    show ?thesis
    proof (cases "pid \<in> p_id ` set ?here")
      case True
      then show ?thesis using p by (cases "ls pid") simp_all
    next
      case False
      then show ?thesis using p by (simp add: cached_for_retain)
    qed
  qed
  ultimately show ?thesis by blast
qed

text \<open>Two node files; between two sweeps one of them is rewritten.\<close>

definition sample_payload :: "pystr \<Rightarrow> node_state \<Rightarrow> (pystr, json) dict" where
  "sample_payload i st = [(''id'', JStr i), (''state'', JStr (node_state_value st)), (''summary'', JStr ''  a   b ''),
     (''planspace_id'', JStr ''main''), (''created_at'', JInt 5)]"

definition sample_file :: "pystr \<Rightarrow> int \<Rightarrow> node_state \<Rightarrow> node_file" where
  "sample_file i at st = \<lparr>nf_path = (''here'', i), nf_stat = Some (at, 40), nf_content = Some (JObj (sample_payload i st))\<rparr>"

definition sample_listing :: "bool \<Rightarrow> listing_of" where
  "sample_listing later pid = (if pid = ''p''
     then Some [sample_file ''a'' 1 Running, if later then sample_file ''b'' 2 Done else sample_file ''b'' 1 Queued] else None)"

definition sample_views :: views where
  "sample_views = \<lparr>vw_title = (\<lambda>_. Some ''Main''), vw_gate = (\<lambda>_ _. None)\<rparr>"

theorem active_view_uncached_witness:
  "\<exists>c rows. collect_active_entries queue_world sample_views 100 (sample_listing True)
      (index_after [Swept queue_world sample_views 90 (sample_listing False)] []) = (c, rows) \<and>
    map e_state rows = [''running'', ''done''] \<and> map (fst \<circ> e_label) rows = [''a b'', ''a b''] \<and>
    rows = plain_view queue_world sample_views 100 (sample_listing True)"
proof -
  let ?ops = "[Swept queue_world sample_views 90 (sample_listing False)]"
  let ?x = "collect_active_entries queue_world sample_views 100 (sample_listing True) (index_after ?ops [])"
  have "\<forall>pid. stamped (seen (?ops @ [Swept queue_world sample_views 100 (sample_listing True)]) pid)"
    by (simp add: stamped_def listed_def sample_listing_def sample_file_def)
  moreover have "st_read_only (w_store queue_world) = None" by code_simp
  ultimately have "snd ?x = plain_view queue_world sample_views 100 (sample_listing True)"
    using active_view_uncached [of ?ops, OF _ _ prod.collapse [symmetric]] by blast
  moreover have "map e_state (snd ?x) = [''running'', ''done''] \<and> map (fst \<circ> e_label) (snd ?x) = [''a b'', ''a b'']"
    by code_simp
  ultimately show ?thesis by (metis prod.collapse)
qed

text \<open>
  The row of a live node is not always a row of the snapshot: it does not ask whether the node's lane is
  archived.
\<close>

definition archived_lane_world :: world where
  "archived_lane_world = queue_world\<lparr>w_lanes := \<lparr>ls_bound = [(''p'', [''main''])],
     ls_manifests = [(''main'', JObj [(''kind'', JStr ''planspace''), (''id'', JStr ''main''), (''archived_at'', JInt 7)])]\<rparr>\<rparr>"

lemma live_row_ignores_archive:
  "active_entry_from_node archived_lane_world sample_views sample_project 100 (sample_payload ''a'' Running) \<noteq> None \<and>
   plain_view archived_lane_world sample_views 100 (sample_listing False) = []"
  by code_simp

end
