(* ===== verification/Spec2Isabelle.thy ===== *)
theory Spec2Isabelle
  imports Prelude Domain Node_Invariants Virtual_Graph Model_Catalog Preview Scheduler Editing_Safety Archive_Safety Maintenance Reap_Safety Web_Auth Op_Settles Active_Nodes
begin

text \<open>
  A model of the MiniClaw2 backend.
\<close>

end
